(* ===== verification/Prelude.thy ===== *)
theory Prelude
  imports Main "HOL-Library.Word"
begin

text \<open>
  Shared vocabulary of the development.

  Go statements are modelled as state transformers that either panic or return a value
  and the new state. A block of statements is a list, a \<open>for ... range\<close> loop is a
  recursion over the sequence that is ranged over. The order in which Go ranges over a
  map is unspecified, so a loop over a map takes the order as an argument
  (\<open>range_order\<close> says which lists are possible orders).

  Statements are reasoned about with one predicate transformer, \<open>wpx\<close>: with \<open>False\<close> it
  is the weakest precondition that also excludes panics (\<open>wp\<close>), with \<open>True\<close> a panic is
  allowed (\<open>wlp\<close>). Its equations are collected in \<open>wp_rules\<close>.
\<close>

named_theorems wp_rules

section \<open>Values\<close>

type_synonym hash = string
type_synonym uuid = "128 word"
type_synonym bytes = "8 word list"

text \<open>A \<open>time.Time\<close> is the number of nanoseconds since the Unix epoch; the zero value of the
  type is January 1, year 1.\<close>

type_synonym time = int

definition zero_time :: time where
  "zero_time = - 62135596800 * 1000000000"

definition uuid_Nil :: uuid where
  "uuid_Nil = 0"

definition UnixMilli :: "int \<Rightarrow> time" where
  "UnixMilli ms = ms * 1000000"

definition to_UnixMilli :: "time \<Rightarrow> int" where
  "to_UnixMilli t = t div 1000000"

section \<open>Statements that may panic\<close>

text \<open>A statement that waits for ever, such as a send on a nil channel, does not return either.\<close>

datatype panic = NilDeref | IndexRange | SliceRange | Panic string | Blocked

type_synonym ('s, 'a) go = "'s \<Rightarrow> panic + ('a \<times> 's)"

definition go_ret :: "'a \<Rightarrow> ('s, 'a) go" where
  "go_ret a s = Inr (a, s)"

definition go_panic :: "panic \<Rightarrow> ('s, 'a) go" where
  "go_panic e s = Inl e"

definition go_bind :: "('s, 'a) go \<Rightarrow> ('a \<Rightarrow> ('s, 'b) go) \<Rightarrow> ('s, 'b) go" where
  "go_bind f g s = (case f s of Inl e \<Rightarrow> Inl e | Inr (a, s') \<Rightarrow> g a s')"

definition go_read :: "('s \<Rightarrow> 'a) \<Rightarrow> ('s, 'a) go" where
  "go_read f s = Inr (f s, s)"

definition go_modify :: "('s \<Rightarrow> 's) \<Rightarrow> ('s, unit) go" where
  "go_modify f s = Inr ((), f s)"

primrec go_block :: "('s, unit) go list \<Rightarrow> ('s, unit) go" where
  "go_block [] = go_ret ()"
| "go_block (f # fs) = go_bind f (\<lambda>_. go_block fs)"

primrec go_for :: "'x list \<Rightarrow> ('x \<Rightarrow> ('s, unit) go) \<Rightarrow> ('s, unit) go" where
  "go_for [] f = go_ret ()"
| "go_for (x # xs) f = go_bind (f x) (\<lambda>_. go_for xs f)"

text \<open>A loop that accumulates a local variable.\<close>

primrec go_fold :: "'x list \<Rightarrow> ('x \<Rightarrow> 'a \<Rightarrow> ('s, 'a) go) \<Rightarrow> 'a \<Rightarrow> ('s, 'a) go" where
  "go_fold [] f a = go_ret a"
| "go_fold (x # xs) f a = go_bind (f x a) (\<lambda>a'. go_fold xs f a')"

text \<open>A statement on one component of a larger state.\<close>

definition go_zoom :: "('s \<Rightarrow> 't) \<Rightarrow> ('t \<Rightarrow> 's \<Rightarrow> 's) \<Rightarrow> ('t, 'a) go \<Rightarrow> ('s, 'a) go" where
  "go_zoom get put f s = (case f (get s) of Inl e \<Rightarrow> Inl e | Inr (a, t) \<Rightarrow> Inr (a, put t s))"

text \<open>Dereferencing a nil pointer or calling a method of a nil interface value panics.\<close>

definition go_nonnil :: "'a option \<Rightarrow> ('s, 'a) go" where
  "go_nonnil x = (case x of None \<Rightarrow> go_panic NilDeref | Some a \<Rightarrow> go_ret a)"

text \<open>A loop over the entries of a map visits each key once, in an order of its own choice.\<close>

definition range_order :: "'k list \<Rightarrow> ('k \<rightharpoonup> 'v) \<Rightarrow> bool" where
  "range_order ks m \<longleftrightarrow> distinct ks \<and> set ks = dom m"

lemma range_orderD: "range_order ord m \<Longrightarrow> k \<in> set ord \<longleftrightarrow> (\<exists>v. m k = Some v)"
  by (auto simp: range_order_def dom_def)

lemma range_order_finite: "range_order ord C \<Longrightarrow> finite (dom C)"
  unfolding range_order_def by (metis List.finite_set)

section \<open>The predicate transformer\<close>

definition wpx :: "bool \<Rightarrow> ('s, 'a) go \<Rightarrow> ('a \<Rightarrow> 's \<Rightarrow> bool) \<Rightarrow> 's \<Rightarrow> bool" where
  "wpx b f Q s = (case f s of Inl _ \<Rightarrow> b | Inr (a, s') \<Rightarrow> Q a s')"

abbreviation wp :: "('s, 'a) go \<Rightarrow> ('a \<Rightarrow> 's \<Rightarrow> bool) \<Rightarrow> 's \<Rightarrow> bool" where
  "wp \<equiv> wpx False"

abbreviation wlp :: "('s, 'a) go \<Rightarrow> ('a \<Rightarrow> 's \<Rightarrow> bool) \<Rightarrow> 's \<Rightarrow> bool" where
  "wlp \<equiv> wpx True"

lemma wpx_ret [wp_rules]: "wpx b (go_ret a) Q s = Q a s"
  by (simp add: wpx_def go_ret_def)

lemma wpx_ret_fun [wp_rules]: "wpx b (go_ret a) Q = Q a"
  by (rule ext) (simp add: wpx_ret)

lemma wpx_panic [wp_rules]: "wpx b (go_panic e) Q s = b"
  by (simp add: wpx_def go_panic_def)

lemma wpx_bind [wp_rules]: "wpx b (go_bind f g) Q s = wpx b f (\<lambda>a. wpx b (g a) Q) s"
  by (auto simp: wpx_def go_bind_def split: sum.splits)

lemma wpx_read [wp_rules]: "wpx b (go_read f) Q s = Q (f s) s"
  by (simp add: wpx_def go_read_def)

lemma wpx_modify [wp_rules]: "wpx b (go_modify f) Q s = Q () (f s)"
  by (simp add: wpx_def go_modify_def)

lemma wpx_if [wp_rules]:
  "wpx b (if c then f else g) Q s = (if c then wpx b f Q s else wpx b g Q s)"
  by simp

lemma wpx_zoom [wp_rules]:
  "wpx b (go_zoom get put f) Q s = wpx b f (\<lambda>a t. Q a (put t s)) (get s)"
  by (auto simp: wpx_def go_zoom_def split: sum.splits)

lemma wpx_nonnil [wp_rules]:
  "wpx b (go_nonnil x) Q s = (case x of None \<Rightarrow> b | Some a \<Rightarrow> Q a s)"
  by (simp add: go_nonnil_def wp_rules split: option.split)

lemma wpx_mono:
  assumes "wpx b f Q s" and "\<And>a s'. Q a s' \<Longrightarrow> R a s'"
  shows "wpx b f R s"
  using assms by (auto simp: wpx_def split: sum.splits)

lemma wp_then: "wpx b f (\<lambda>_. P) s \<Longrightarrow> (\<And>s. P s \<Longrightarrow> wpx b h Q s) \<Longrightarrow> wpx b (go_bind f (\<lambda>_. h)) Q s"
  unfolding wpx_bind by (rule wpx_mono)

lemma wpx_block:
  "wpx b (go_block [f]) Q = wpx b f Q"
  "wpx b (go_block (f # g # fs)) Q = wpx b f (\<lambda>_. wpx b (go_block (g # fs)) Q)"
  by (simp_all add: fun_eq_iff wp_rules)

lemma wp_wlp: "wp f Q s \<Longrightarrow> wlp f R s \<Longrightarrow> wp f (\<lambda>a s. Q a s \<and> R a s) s"
  by (auto simp: wpx_def split: sum.splits)

lemma wpx_modify_fun: "wpx b (go_modify f) Q = (\<lambda>s. Q () (f s))"
  by (simp add: fun_eq_iff wpx_modify)

lemma wpx_conj: "wpx b f (\<lambda>a s. Q a s \<and> R a s) s \<longleftrightarrow> wpx b f Q s \<and> wpx b f R s"
  by (auto simp: wpx_def split: sum.splits)

lemma wpx_weaken: "wp f Q s \<Longrightarrow> wpx b f Q s"
  by (auto simp: wpx_def split: sum.splits)

lemma wp_returns: "wp f Q s \<Longrightarrow> \<exists>a s'. f s = Inr (a, s') \<and> Q a s'"
  by (auto simp: wpx_def split: sum.splits)

lemma wpx_result: "wpx b f Q s \<Longrightarrow> f s = Inr (a, s') \<Longrightarrow> Q a s'"
  by (simp add: wpx_def)

lemma wlpI: "(\<And>a s'. f s = Inr (a, s') \<Longrightarrow> Q a s') \<Longrightarrow> wlp f Q s"
  by (auto simp: wpx_def split: sum.splits)

text \<open>The loop rule: the invariant may mention the elements that are still to come.\<close>

lemma wpx_for:
  assumes "I xs s"
    and "\<And>x ys s. x \<in> set xs \<Longrightarrow> I (x # ys) s \<Longrightarrow> wpx b (f x) (\<lambda>_. I ys) s"
    and "\<And>s. I [] s \<Longrightarrow> Q () s"
  shows "wpx b (go_for xs f) Q s"
  using assms
proof (induction xs arbitrary: s)
  case Nil
  then show ?case by (simp add: wp_rules)
next
  case (Cons x xs)
  have "wpx b (f x) (\<lambda>_. I xs) s"
    using Cons.prems(1,2) by simp
  then have "wpx b (f x) (\<lambda>_. wpx b (go_for xs f) Q) s"
    by (rule wpx_mono) (rule Cons.IH, use Cons.prems in auto)
  then show ?case by (simp add: wp_rules)
qed

lemma wpx_for_inv:
  assumes "I s" and "\<And>x s. x \<in> set xs \<Longrightarrow> I s \<Longrightarrow> wpx b (f x) (\<lambda>_. I) s"
    and "\<And>s. I s \<Longrightarrow> Q () s"
  shows "wpx b (go_for xs f) Q s"
  by (rule wpx_for [where I = "\<lambda>_. I"]) (use assms in auto)

lemma wpx_fold:
  assumes "I xs a s"
    and "\<And>x ys a s. x \<in> set xs \<Longrightarrow> I (x # ys) a s \<Longrightarrow> wpx b (f x a) (I ys) s"
    and "\<And>a s. I [] a s \<Longrightarrow> Q a s"
  shows "wpx b (go_fold xs f a) Q s"
  using assms
proof (induction xs arbitrary: a s)
  case Nil
  then show ?case by (simp add: wp_rules)
next
  case (Cons x xs)
  have "wpx b (f x a) (I xs) s"
    using Cons.prems(1,2) by simp
  then have "wpx b (f x a) (\<lambda>a'. wpx b (go_fold xs f a') Q) s"
    by (rule wpx_mono) (rule Cons.IH, use Cons.prems in auto)
  then show ?case by (simp add: wp_rules)
qed

section \<open>Histories of calls\<close>

text \<open>A component is driven by a sequence of calls; \<open>ok c s\<close> says which calls its environment makes
  in state \<open>s\<close>. The contract of such a component: an invariant, which may mention the calls made so
  far, holds initially, and every call the environment makes returns and keeps it.\<close>

inductive runs ::
    "('c \<Rightarrow> ('s, 'r) go) \<Rightarrow> ('c \<Rightarrow> 's \<Rightarrow> bool) \<Rightarrow> 's \<Rightarrow> 'c list \<Rightarrow> 's \<Rightarrow> bool"
  for exec :: "'c \<Rightarrow> ('s, 'r) go" and ok :: "'c \<Rightarrow> 's \<Rightarrow> bool" and init :: 's where
  runs_nil: "runs exec ok init [] init"
| runs_snoc: "runs exec ok init cs s \<Longrightarrow> ok c s \<Longrightarrow> exec c s = Inr (r, s') \<Longrightarrow>
    runs exec ok init (cs @ [c]) s'"

locale call_system =
  fixes exec :: "'c \<Rightarrow> ('s, 'r) go"
    and ok :: "'c \<Rightarrow> 's \<Rightarrow> bool"
    and init :: 's
    and inv :: "'c list \<Rightarrow> 's \<Rightarrow> bool"
  assumes inv_init: "inv [] init"
    and inv_call: "inv cs s \<Longrightarrow> ok c s \<Longrightarrow> wp (exec c) (\<lambda>_. inv (cs @ [c])) s"
begin

lemma run_inv: "runs exec ok init cs s \<Longrightarrow> inv cs s"
proof (induction rule: runs.induct)
  case runs_nil
  show ?case by (rule inv_init)
next
  case (runs_snoc cs s c r s')
  show ?case using wpx_result [OF inv_call [OF runs_snoc.IH] runs_snoc.hyps(3)] runs_snoc.hyps(2) .
qed

lemma run_returns:
  assumes "runs exec ok init cs s" and "ok c s"
  shows "\<exists>r s'. exec c s = Inr (r, s') \<and> runs exec ok init (cs @ [c]) s'"
  using wp_returns [OF inv_call [OF run_inv [OF assms(1)] assms(2)]] assms
  by (blast intro: runs.runs_snoc)

lemma run_no_panic: "runs exec ok init cs s \<Longrightarrow> ok c s \<Longrightarrow> exec c s \<noteq> Inl e"
  using run_returns by fastforce

end

text \<open>The weaker contract of a component whose calls may panic: the invariant is kept by the calls
  that return.\<close>

locale safe_system =
  fixes exec :: "'c \<Rightarrow> ('s, 'r) go"
    and ok :: "'c \<Rightarrow> 's \<Rightarrow> bool"
    and init :: 's
    and inv :: "'c list \<Rightarrow> 's \<Rightarrow> bool"
  assumes inv_start: "inv [] init"
    and inv_step: "inv cs s \<Longrightarrow> ok c s \<Longrightarrow> wlp (exec c) (\<lambda>_. inv (cs @ [c])) s"
begin

lemma safe_inv: "runs exec ok init cs s \<Longrightarrow> inv cs s"
proof (induction rule: runs.induct)
  case runs_nil
  show ?case by (rule inv_start)
next
  case (runs_snoc cs s c r s')
  show ?case using wpx_result [OF inv_step [OF runs_snoc.IH] runs_snoc.hyps(3)] runs_snoc.hyps(2) .
qed

end

sublocale call_system \<subseteq> safe_system exec ok init inv
  by unfold_locales (auto intro: inv_init wpx_weaken inv_call)

end
