(* ===== verification/Go_Strings.thy ===== *)
theory Go_Strings
  imports Prelude
begin

text \<open>
  What the sources use of Go's \<open>strings\<close> and \<open>strconv\<close> packages. A Go string is its sequence
  of bytes, a \<open>char\<close> is one byte. Slicing \<open>s[i:j]\<close> panics when the bounds are not in order.
\<close>

abbreviation byte_of :: "char \<Rightarrow> nat" where
  "byte_of c \<equiv> of_char c"

section \<open>Slices of strings\<close>

definition go_slice :: "int \<Rightarrow> int \<Rightarrow> 'a list \<Rightarrow> ('s, 'a list) go" where
  "go_slice i j s = (if 0 \<le> i \<and> i \<le> j \<and> j \<le> int (length s)
     then go_ret (take (nat (j - i)) (drop (nat i) s)) else go_panic SliceRange)"

definition go_index :: "int \<Rightarrow> 'a list \<Rightarrow> ('s, 'a) go" where
  "go_index i s = (if 0 \<le> i \<and> i < int (length s) then go_ret (s ! nat i) else go_panic IndexRange)"

section \<open>Package strings\<close>

definition HasPrefix :: "string \<Rightarrow> string \<Rightarrow> bool" where
  "HasPrefix s p \<longleftrightarrow> take (length p) s = p"

text \<open>\<open>strings.Index\<close> and \<open>strings.Split\<close> for a separator of one byte.\<close>

primrec Index_from :: "int \<Rightarrow> string \<Rightarrow> char \<Rightarrow> int" where
  "Index_from i [] c = - 1"
| "Index_from i (x # xs) c = (if x = c then i else Index_from (i + 1) xs c)"

definition Index :: "string \<Rightarrow> char \<Rightarrow> int" where
  "Index s c = Index_from 0 s c"

primrec Split :: "string \<Rightarrow> char \<Rightarrow> string list" where
  "Split [] c = [[]]"
| "Split (x # xs) c = (if x = c then [] # Split xs c
     else (case Split xs c of [] \<Rightarrow> [[x]] | p # ps \<Rightarrow> (x # p) # ps))"

fun Join :: "string list \<Rightarrow> string \<Rightarrow> string" where
  "Join [] sep = []"
| "Join [a] sep = a"
| "Join (a # b # es) sep = a @ sep @ Join (b # es) sep"

text \<open>The UTF-8 encodings of the runes that \<open>unicode.IsSpace\<close> accepts; \<open>strings.TrimSpace\<close>
  removes them from both ends.\<close>

definition space_codes :: "nat list list" where
  "space_codes = [[9], [10], [11], [12], [13], [32], [0xC2, 0x85], [0xC2, 0xA0], [0xE1, 0x9A, 0x80],
     [0xE2, 0x80, 0x80], [0xE2, 0x80, 0x81], [0xE2, 0x80, 0x82], [0xE2, 0x80, 0x83],
     [0xE2, 0x80, 0x84], [0xE2, 0x80, 0x85], [0xE2, 0x80, 0x86], [0xE2, 0x80, 0x87],
     [0xE2, 0x80, 0x88], [0xE2, 0x80, 0x89], [0xE2, 0x80, 0x8A], [0xE2, 0x80, 0xA8],
     [0xE2, 0x80, 0xA9], [0xE2, 0x80, 0xAF], [0xE2, 0x81, 0x9F], [0xE3, 0x80, 0x80]]"

text \<open>The length of the space at the head of a list of bytes, 0 if there is none.\<close>

definition space_at :: "nat list list \<Rightarrow> string \<Rightarrow> nat" where
  "space_at codes s = (case find (\<lambda>e. e = map byte_of (take (length e) s)) codes of
     None \<Rightarrow> 0 | Some e \<Rightarrow> length e)"

function trim_by :: "nat list list \<Rightarrow> string \<Rightarrow> string" where
  "trim_by codes s = (let n = space_at codes s in if n = 0 \<or> s = [] then s else trim_by codes (drop n s))"
  by pat_completeness auto
termination
  by (relation "measure (\<lambda>(codes, s). length s)") auto

declare trim_by.simps [simp del]

definition TrimSpace :: "string \<Rightarrow> string" where
  "TrimSpace s = rev (trim_by (map rev space_codes) (rev (trim_by space_codes s)))"

section \<open>Package strconv\<close>

definition digit_char :: "nat \<Rightarrow> char" where
  "digit_char d = (if d < 10 then char_of (48 + d) else char_of (87 + d))"

definition digit_val :: "char \<Rightarrow> nat option" where
  "digit_val c = (if 48 \<le> byte_of c \<and> byte_of c \<le> 57 then Some (byte_of c - 48)
     else if 97 \<le> byte_of c \<and> byte_of c \<le> 102 then Some (byte_of c - 87)
     else if 65 \<le> byte_of c \<and> byte_of c \<le> 70 then Some (byte_of c - 55)
     else None)"

definition is_digit :: "char \<Rightarrow> bool" where
  "is_digit c \<longleftrightarrow> 48 \<le> byte_of c \<and> byte_of c \<le> 57"

definition is_hex :: "char \<Rightarrow> bool" where
  "is_hex c \<longleftrightarrow> digit_val c \<noteq> None"

definition digits_val :: "nat \<Rightarrow> string \<Rightarrow> nat" where
  "digits_val b s = foldl (\<lambda>v c. v * b + the (digit_val c)) 0 s"

fun digits :: "nat \<Rightarrow> nat \<Rightarrow> nat list" where
  "digits b n = (if n < b \<or> b < 2 then [n] else digits b (n div b) @ [n mod b])"

declare digits.simps [simp del]

definition format_nat :: "nat \<Rightarrow> nat \<Rightarrow> string" where
  "format_nat b n = map digit_char (digits b n)"

definition Itoa :: "int \<Rightarrow> string" where
  "Itoa i = (if i < 0 then CHR ''-'' # format_nat 10 (nat (- i)) else format_nat 10 (nat i))"

text \<open>\<open>strconv.Atoi\<close>: an optional sign, at least one decimal digit, and a value that fits in the
  64 bits of an \<open>int\<close>; otherwise an error.\<close>

definition Atoi_digits :: "bool \<Rightarrow> string \<Rightarrow> int option" where
  "Atoi_digits neg s = (if s = [] \<or> \<not> list_all is_digit s then None
     else let n = int (digits_val 10 s) in
       if neg then (if n \<le> 2 ^ 63 then Some (- n) else None)
       else (if n < 2 ^ 63 then Some n else None))"

definition Atoi :: "string \<Rightarrow> int option" where
  "Atoi s = (case s of [] \<Rightarrow> None
     | c # cs \<Rightarrow> if c = CHR ''-'' then Atoi_digits True cs
         else if c = CHR ''+'' then Atoi_digits False cs else Atoi_digits False s)"

definition int64 :: "int \<Rightarrow> bool" where
  "int64 i \<longleftrightarrow> - (2 ^ 63) \<le> i \<and> i < 2 ^ 63"

section \<open>Facts about strings\<close>

lemma HasPrefix_iff: "HasPrefix s p \<longleftrightarrow> (\<exists>t. s = p @ t)"
  unfolding HasPrefix_def by (metis append_eq_conv_conj append_take_drop_id)

lemma HasPrefix_append [simp]: "HasPrefix (p @ t) p"
  by (simp add: HasPrefix_def)

lemma Index_from_absent: "0 \<le> i \<Longrightarrow> Index_from i s c = - 1 \<longleftrightarrow> c \<notin> set s"
  by (induction s arbitrary: i) auto

lemma Index_from_append:
  "c \<notin> set xs \<Longrightarrow> Index_from i (xs @ c # ys) c = i + int (length xs)"
  by (induction xs arbitrary: i) auto

lemma Index_absent: "Index s c = - 1 \<longleftrightarrow> c \<notin> set s"
  by (simp add: Index_def Index_from_absent)

lemma Index_append: "c \<notin> set xs \<Longrightarrow> Index (xs @ c # ys) c = int (length xs)"
  by (simp add: Index_def Index_from_append)

lemma Index_split:
  assumes "Index s c \<noteq> - 1"
  shows "\<exists>xs ys. s = xs @ c # ys \<and> c \<notin> set xs \<and> Index s c = int (length xs)"
proof -
  from assms have "c \<in> set s" by (simp add: Index_absent)
  then obtain xs ys where "s = xs @ c # ys" "c \<notin> set xs"
    by (meson split_list_first)
  then show ?thesis using Index_append by blast
qed

lemma Split_ne [simp]: "Split s c \<noteq> []"
  by (cases s) (simp_all split: list.split)

lemma Split_absent: "c \<notin> set s \<Longrightarrow> Split s c = [s]"
  by (induction s) auto

lemma Split_append: "c \<notin> set a \<Longrightarrow> Split (a @ c # s) c = a # Split s c"
  by (induction a) auto

lemma Split_Join:
  "ps \<noteq> [] \<Longrightarrow> \<forall>p \<in> set ps. c \<notin> set p \<Longrightarrow> Split (Join ps [c]) c = ps"
  by (induction ps "[c]" rule: Join.induct) (simp_all add: Split_absent Split_append)

lemma Join_Split: "Join (Split s c) [c] = s"
proof (induction s)
  case (Cons x s)
  obtain p ps where "Split s c = p # ps"
    using Split_ne [of s c] by (cases "Split s c") auto
  with Cons.IH show ?case by (cases ps) auto
qed simp

lemma set_Join: "set (Join ps sep) \<subseteq> \<Union> (set ` set ps) \<union> set sep"
  by (induction ps sep rule: Join.induct) auto

lemma go_slice_prefix [simp]: "go_slice 0 (int (length xs)) (xs @ ys) = go_ret xs"
  by (simp add: go_slice_def)

lemma go_slice_suffix [simp]:
  "i = int (length xs) \<Longrightarrow> j = int (length xs) + int (length ys) \<Longrightarrow> go_slice i j (xs @ ys) = go_ret ys"
  by (simp add: go_slice_def)

lemma trim_by_no_space: "space_at codes s = 0 \<Longrightarrow> trim_by codes s = s"
  by (subst trim_by.simps) simp

text \<open>A string that starts with an ASCII letter has no space in front.\<close>

lemma TrimSpace_id:
  assumes "space_at space_codes s = 0" and "space_at (map rev space_codes) (rev s) = 0"
  shows "TrimSpace s = s"
  using assms by (simp add: TrimSpace_def trim_by_no_space)

lemma space_at_head:
  assumes "\<forall>e \<in> set codes. e \<noteq> [] \<and> hd e \<noteq> byte_of c"
  shows "space_at codes (c # s) = 0"
proof -
  have "e \<noteq> map byte_of (take (length e) (c # s))" if "e \<in> set codes" for e
    using assms that by (cases e) auto
  then have "find (\<lambda>e. e = map byte_of (take (length e) (c # s))) codes = None"
    by (simp add: find_None_iff)
  then show ?thesis by (simp add: space_at_def)
qed

section \<open>Facts about numerals\<close>

lemma code_digit_char: "d < 10 \<Longrightarrow> byte_of (digit_char d) = 48 + d" "10 \<le> d \<Longrightarrow> d < 16 \<Longrightarrow> byte_of (digit_char d) = 87 + d"
  by (simp_all add: digit_char_def of_char_of)

lemma digit_val_char [simp]: "d < 16 \<Longrightarrow> digit_val (digit_char d) = Some d"
  by (cases "d < 10") (simp_all add: digit_val_def code_digit_char)

lemma is_digit_char [simp]: "d < 10 \<Longrightarrow> is_digit (digit_char d)"
  by (simp add: is_digit_def code_digit_char)

lemma digits_less: "2 \<le> b \<Longrightarrow> d \<in> set (digits b n) \<Longrightarrow> d < b"
proof (induction b n rule: digits.induct)
  case (1 b n)
  from 1(3) show ?case
    using 1(1,2) by (subst (asm) digits.simps) (auto split: if_splits)
qed

lemma digits_ne [simp]: "digits b n \<noteq> []"
  by (subst digits.simps) simp

lemma format_nat_ne [simp]: "format_nat b n \<noteq> []"
  by (simp add: format_nat_def)

lemma digits_val_snoc: "digits_val b (s @ [c]) = digits_val b s * b + the (digit_val c)"
  by (simp add: digits_val_def)

lemma digits_val_format:
  assumes "2 \<le> b" and "b \<le> 16"
  shows "digits_val b (format_nat b n) = n"
  using assms
proof (induction b n rule: digits.induct)
  case (1 b n)
  show ?case
  proof (cases "n < b")
    case True
    then have "digits b n = [n]" by (subst digits.simps) simp
    then show ?thesis using True 1(3) by (simp add: format_nat_def digits_val_def)
  next
    case False
    then have "digits b n = digits b (n div b) @ [n mod b]"
      using 1(2) by (subst digits.simps) simp
    moreover have "n mod b < 16"
      using 1(2,3) mod_less_divisor [of b n] by linarith
    moreover have "digits_val b (format_nat b (n div b)) = n div b"
      using 1 False by simp
    ultimately show ?thesis by (simp add: format_nat_def digits_val_snoc)
  qed
qed

lemma format_nat_digits: "list_all is_digit (format_nat 10 n)"
proof -
  have "d < 10" if "d \<in> set (digits 10 n)" for d using digits_less that by force
  then show ?thesis by (auto simp: format_nat_def list_all_iff)
qed

lemma format_nat_hex: "list_all is_hex (format_nat 16 n)"
proof -
  have "d < 16" if "d \<in> set (digits 16 n)" for d using digits_less that by force
  then show ?thesis by (auto simp: format_nat_def list_all_iff is_hex_def)
qed

lemma is_digit_not_sign: "is_digit c \<Longrightarrow> c \<noteq> CHR ''-'' \<and> c \<noteq> CHR ''+''"
  by (auto simp: is_digit_def)

text \<open>Every \<open>int\<close> survives printing and parsing.\<close>

lemma Atoi_Itoa:
  assumes "int64 i"
  shows "Atoi (Itoa i) = Some i"
proof (cases "i < 0")
  case True
  then show ?thesis using assms format_nat_digits [of "nat (- i)"]
    by (simp add: Atoi_def Itoa_def Atoi_digits_def digits_val_format int64_def)
next
  case False
  obtain c cs where s: "format_nat 10 (nat i) = c # cs"
    using format_nat_ne by (meson list.exhaust)
  then have "is_digit c" using format_nat_digits [of "nat i"] by simp
  then show ?thesis using assms False format_nat_digits [of "nat i"] is_digit_not_sign [of c]
      digits_val_format [of 10 "nat i"]
    by (simp add: Atoi_def Itoa_def Atoi_digits_def int64_def s)
qed

lemma Itoa_chars: "c \<in> set (Itoa i) \<Longrightarrow> is_digit c \<or> c = CHR ''-''"
  using format_nat_digits by (auto simp: Itoa_def list_all_iff split: if_splits)

lemma Atoi_int64: "Atoi s = Some i \<Longrightarrow> int64 i"
  by (auto simp: Atoi_def Atoi_digits_def int64_def Let_def split: list.splits if_splits)

end
