(* ===== verification/Functional.thy ===== *)
theory Functional
  imports Prelude
begin

text \<open>
  The slice helpers of \<open>tools/functional\<close>. A callback is a statement of its own, so it may
  change the state and may panic; a callback that returns an error or a success flag returns
  a sum or an option. \<open>make([]Q, n)\<close> fills a slice with the zero value of \<open>Q\<close>, which is an
  argument here. For callbacks without effects the helpers are the usual list functions
  (section Pure callbacks), which is how the message parsers use them.
\<close>

section \<open>Slices: accum.go, filter.go, foreach.go\<close>

definition Accum_all :: "'t list \<Rightarrow> 'q \<Rightarrow> ('t \<Rightarrow> 'q \<Rightarrow> ('s, 'q) go) \<Rightarrow> ('s, 'q) go" where
  "Accum_all s init f = go_fold s f init"

definition Filter :: "'q \<Rightarrow> 't list \<Rightarrow> ('t \<Rightarrow> ('s, 'q) go) \<Rightarrow> ('s, 'q list) go" where
  "Filter zero s f = go_fold (enumerate 0 s)
     (\<lambda>(i, e) result. go_bind (f e) (\<lambda>v. go_ret (result[i := v])))
     (replicate (length s) zero)"

definition Filter_ok :: "'t list \<Rightarrow> ('t \<Rightarrow> ('s, 'q option) go) \<Rightarrow> ('s, 'q list) go" where
  "Filter_ok s f = go_fold s
     (\<lambda>e result. go_bind (f e) (\<lambda>v. case v of Some x \<Rightarrow> go_ret (result @ [x]) | None \<Rightarrow> go_ret result))
     []"

text \<open>A loop that returns early stops the iteration: \<open>loop_strict\<close> is the loop of
  \<open>Filter_strict_ok\<close> from index \<open>i\<close> on, \<open>loop_until\<close> that of \<open>Filter_until_err\<close>.\<close>

primrec loop_strict ::
    "('t \<Rightarrow> ('s, 'q option) go) \<Rightarrow> 't list \<Rightarrow> nat \<Rightarrow> 'q list \<Rightarrow> ('s, 'q list option) go" where
  "loop_strict f [] i result = go_ret (Some result)"
| "loop_strict f (e # es) i result = go_bind (f e) (\<lambda>v. case v of
     None \<Rightarrow> go_ret None
   | Some x \<Rightarrow> loop_strict f es (Suc i) (result[i := x]))"

definition Filter_strict_ok ::
    "'q \<Rightarrow> 't list \<Rightarrow> ('t \<Rightarrow> ('s, 'q option) go) \<Rightarrow> ('s, 'q list option) go" where
  "Filter_strict_ok zero s f = loop_strict f s 0 (replicate (length s) zero)"

primrec loop_until ::
    "('t \<Rightarrow> ('s, 'e + 'q) go) \<Rightarrow> 't list \<Rightarrow> 'q list \<Rightarrow> ('s, 'q list \<times> 't list \<times> 'e option) go" where
  "loop_until f [] result = go_ret (result, [], None)"
| "loop_until f (e # es) result = go_bind (f e) (\<lambda>v. case v of
     Inl err \<Rightarrow> go_ret (result, e # es, Some err)
   | Inr x \<Rightarrow> loop_until f es (result @ [x]))"

definition Filter_until_err ::
    "'t list \<Rightarrow> ('t \<Rightarrow> ('s, 'e + 'q) go) \<Rightarrow> ('s, 'q list \<times> 't list \<times> 'e option) go" where
  "Filter_until_err s f = loop_until f s []"

definition Foreach :: "'t list \<Rightarrow> ('t \<Rightarrow> ('s, unit) go) \<Rightarrow> ('s, unit) go" where
  "Foreach s f = go_for s f"

section \<open>Optional values: maybe.go\<close>

record 't Maybe =
  Maybe_Value :: 't
  Maybe_ok :: bool

definition MakeMaybe :: "'t \<Rightarrow> 't Maybe" where
  "MakeMaybe v = \<lparr>Maybe_Value = v, Maybe_ok = True\<rparr>"

definition Maybe_Call :: "'t Maybe \<Rightarrow> ('t \<Rightarrow> ('s, 't \<times> bool) go) \<Rightarrow> ('s, 't Maybe) go" where
  "Maybe_Call m f = (if \<not> Maybe_ok m then go_ret m
     else go_bind (f (Maybe_Value m)) (\<lambda>(res, ok). go_ret \<lparr>Maybe_Value = res, Maybe_ok = ok\<rparr>))"

definition MaybeYield ::
    "'q \<Rightarrow> 't Maybe \<Rightarrow> ('t \<Rightarrow> ('s, 'q \<times> 't \<times> bool) go) \<Rightarrow> ('s, 'q \<times> 't Maybe) go" where
  "MaybeYield zero input f = (if \<not> Maybe_ok input then go_ret (zero, input)
     else go_bind (f (Maybe_Value input))
       (\<lambda>(res, next, ok). go_ret (res, \<lparr>Maybe_Value = next, Maybe_ok = ok\<rparr>)))"

definition MaybeJoin ::
    "'r \<Rightarrow> 't Maybe \<Rightarrow> 'q Maybe \<Rightarrow> ('t \<Rightarrow> 'q \<Rightarrow> ('s, 'r \<times> bool) go) \<Rightarrow> ('s, 'r Maybe) go" where
  "MaybeJoin zero lhs rhs f =
     (if \<not> Maybe_ok lhs \<or> \<not> Maybe_ok rhs then go_ret \<lparr>Maybe_Value = zero, Maybe_ok = False\<rparr>
      else go_bind (f (Maybe_Value lhs) (Maybe_Value rhs))
        (\<lambda>(res, ok). go_ret \<lparr>Maybe_Value = res, Maybe_ok = ok\<rparr>))"

record ('t, 'e) MaybeErr =
  MaybeErr_Value :: 't
  MaybeErr_err :: "'e option"

definition MaybeErr_Call ::
    "('t, 'e) MaybeErr \<Rightarrow> ('t \<Rightarrow> ('s, 't \<times> 'e option) go) \<Rightarrow> ('s, ('t, 'e) MaybeErr) go" where
  "MaybeErr_Call m f = (if MaybeErr_err m \<noteq> None then go_ret m
     else go_bind (f (MaybeErr_Value m))
       (\<lambda>(res, err). go_ret \<lparr>MaybeErr_Value = res, MaybeErr_err = err\<rparr>))"

section \<open>Partial application: operator.go\<close>

definition FuncReducePostfix :: "('a1 \<Rightarrow> 'a2 \<Rightarrow> ('s, 'r) go) \<Rightarrow> 'a2 \<Rightarrow> 'a1 \<Rightarrow> ('s, 'r) go" where
  "FuncReducePostfix f a2 = (\<lambda>a1. f a1 a2)"

definition FuncReducePrefix :: "'a1 \<Rightarrow> ('a1 \<Rightarrow> 'a2 \<Rightarrow> ('s, 'r) go) \<Rightarrow> 'a2 \<Rightarrow> ('s, 'r) go" where
  "FuncReducePrefix a1 f = (\<lambda>a2. f a1 a2)"

section \<open>Callbacks with effects\<close>

lemma go_bind_assoc: "go_bind (go_bind f g) h = go_bind f (\<lambda>a. go_bind (g a) h)"
  by (auto simp: go_bind_def fun_eq_iff split: sum.splits)

lemma go_ret_bind [simp]: "go_bind (go_ret a) f = f a"
  by (simp add: go_bind_def go_ret_def fun_eq_iff)

lemma go_ret_inject [simp]: "go_ret a = go_ret b \<longleftrightarrow> a = b"
  by (auto simp: go_ret_def fun_eq_iff)

lemma go_bind_ret [simp]: "go_bind f go_ret = f"
  by (auto simp: go_bind_def go_ret_def fun_eq_iff split: sum.splits)

text \<open>The specification of \<open>Filter\<close>: run the callback on the elements in order and collect.\<close>

primrec go_map :: "('t \<Rightarrow> ('s, 'q) go) \<Rightarrow> 't list \<Rightarrow> ('s, 'q list) go" where
  "go_map f [] = go_ret []"
| "go_map f (e # es) = go_bind (f e) (\<lambda>v. go_bind (go_map f es) (\<lambda>vs. go_ret (v # vs)))"

lemma list_update_step:
  assumes "length result = i + Suc k"
  shows "take (Suc i) (result[i := v]) = take i result @ [v]"
proof -
  have "i < length result" using assms by simp
  then show ?thesis by (simp add: take_Suc_conv_app_nth)
qed

lemma Filter_loop:
  assumes "length result = i + length es"
  shows "go_fold (enumerate i es) (\<lambda>(i, e) result. go_bind (f e) (\<lambda>v. go_ret (result[i := v]))) result
    = go_bind (go_map f es) (\<lambda>vs. go_ret (take i result @ vs))"
  using assms
proof (induction es arbitrary: i result)
  case Nil
  then show ?case by simp
next
  case (Cons e es)
  have "go_fold (enumerate (Suc i) es)
      (\<lambda>(i, e) result. go_bind (f e) (\<lambda>v. go_ret (result[i := v]))) (result[i := v])
    = go_bind (go_map f es) (\<lambda>vs. go_ret (take i result @ v # vs))" for v
    using Cons.IH [of "result[i := v]" "Suc i"] Cons.prems
    by (simp add: list_update_step [where k = "length es"])
  then show ?case by (simp add: go_bind_assoc)
qed

lemma Filter_go_map: "Filter zero s f = go_map f s"
  using Filter_loop [of "replicate (length s) zero" 0 s f] by (simp add: Filter_def)

text \<open>The same for the two helpers that stop early.\<close>

primrec go_map_until ::
    "('t \<Rightarrow> ('s, 'e + 'q) go) \<Rightarrow> 't list \<Rightarrow> ('s, 'q list \<times> 't list \<times> 'e option) go" where
  "go_map_until f [] = go_ret ([], [], None)"
| "go_map_until f (e # es) = go_bind (f e) (\<lambda>v. case v of
     Inl err \<Rightarrow> go_ret ([], e # es, Some err)
   | Inr x \<Rightarrow> go_bind (go_map_until f es) (\<lambda>(vs, rest, err). go_ret (x # vs, rest, err)))"

lemma go_bind_cong: "(\<And>a. g a = h a) \<Longrightarrow> go_bind f g = go_bind f h"
  by (rule arg_cong [where f = "go_bind f"]) (rule ext)

lemma loop_until_spec:
  "loop_until f es result = go_bind (go_map_until f es) (\<lambda>(vs, rest, err). go_ret (result @ vs, rest, err))"
  by (induction es arbitrary: result)
    (auto simp: go_bind_assoc split: sum.splits prod.splits intro!: go_bind_cong)

section \<open>Pure callbacks\<close>

lemma Accum_all_pure [simp]: "Accum_all s init (\<lambda>e a. go_ret (f e a)) = go_ret (fold f s init)"
proof -
  have "go_fold s (\<lambda>e a. go_ret (f e a)) init = go_ret (fold f s init)"
    by (induction s arbitrary: init) simp_all
  then show ?thesis by (simp add: Accum_all_def)
qed

lemma go_map_pure: "go_map (\<lambda>e. go_ret (f e)) s = go_ret (map f s)"
  by (induction s) simp_all

lemma Filter_pure [simp]: "Filter zero s (\<lambda>e. go_ret (f e)) = go_ret (map f s)"
  by (simp only: Filter_go_map go_map_pure)

lemma Filter_ok_pure [simp]: "Filter_ok s (\<lambda>e. go_ret (f e)) = go_ret (List.map_filter f s)"
proof -
  have "go_fold s (\<lambda>e result. go_bind (go_ret (f e))
      (\<lambda>v. case v of Some x \<Rightarrow> go_ret (result @ [x]) | None \<Rightarrow> go_ret result)) acc
    = go_ret (acc @ List.map_filter f s)" for acc
    by (induction s arbitrary: acc) (simp_all split: option.split)
  from this [of "[]"] show ?thesis by (simp add: Filter_ok_def)
qed

text \<open>All results, or nothing.\<close>

fun all_some :: "'a option list \<Rightarrow> 'a list option" where
  "all_some [] = Some []"
| "all_some (None # xs) = None"
| "all_some (Some x # xs) = map_option ((#) x) (all_some xs)"

lemma all_some_iff: "all_some xs = Some ys \<longleftrightarrow> xs = map Some ys"
  by (induction xs arbitrary: ys rule: all_some.induct) auto

lemma all_some_None: "all_some xs = None \<longleftrightarrow> None \<in> set xs"
  by (induction xs rule: all_some.induct) auto

lemma loop_strict_pure:
  assumes "length result = i + length s"
  shows "loop_strict (\<lambda>e. go_ret (f e)) s i result
    = go_ret (map_option (\<lambda>vs. take i result @ vs) (all_some (map f s)))"
  using assms
proof (induction s arbitrary: i result)
  case Nil
  then show ?case by simp
next
  case (Cons e es)
  show ?case
  proof (cases "f e")
    case None
    then show ?thesis by simp
  next
    case (Some x)
    then show ?thesis
      using Cons.IH [of "result[i := x]" "Suc i"] Cons.prems
      by (simp add: list_update_step [where k = "length es"] option.map_comp comp_def)
  qed
qed

lemma Filter_strict_ok_pure [simp]:
  "Filter_strict_ok zero s (\<lambda>e. go_ret (f e)) = go_ret (all_some (map f s))"
  by (simp add: Filter_strict_ok_def loop_strict_pure option.map_ident)

fun until_err :: "('t \<Rightarrow> 'e + 'q) \<Rightarrow> 't list \<Rightarrow> 'q list \<times> 't list \<times> 'e option" where
  "until_err f [] = ([], [], None)"
| "until_err f (e # es) = (case f e of
     Inl err \<Rightarrow> ([], e # es, Some err)
   | Inr x \<Rightarrow> (case until_err f es of (vs, rest, err) \<Rightarrow> (x # vs, rest, err)))"

lemma go_map_until_pure: "go_map_until (\<lambda>e. go_ret (f e)) s = go_ret (until_err f s)"
  by (induction s) (auto split: sum.split prod.split)

lemma Filter_until_err_pure [simp]: "Filter_until_err s (\<lambda>e. go_ret (f e)) = go_ret (until_err f s)"
  by (simp add: Filter_until_err_def loop_until_spec go_map_until_pure split: prod.split)

text \<open>What \<open>until_err\<close> returns: the results of the longest prefix without an error, and the
  rest, which starts with the element that failed.\<close>

lemma until_err_split:
  assumes "until_err f s = (vs, rest, err)"
  shows "\<exists>done. s = done @ rest \<and> map f done = map Inr vs \<and>
    (case err of None \<Rightarrow> rest = [] | Some e \<Rightarrow> rest \<noteq> [] \<and> f (hd rest) = Inl e)"
  using assms
proof (induction s arbitrary: vs)
  case Nil
  then show ?case by auto
next
  case (Cons a s)
  show ?case
  proof (cases "f a")
    case (Inl e)
    then show ?thesis using Cons.prems by auto
  next
    case (Inr x)
    then obtain vs' where vs: "vs = x # vs'" and rec: "until_err f s = (vs', rest, err)"
      using Cons.prems by (auto split: prod.splits)
    obtain dn where "s = dn @ rest" "map f dn = map Inr vs'"
      "case err of None \<Rightarrow> rest = [] | Some e \<Rightarrow> rest \<noteq> [] \<and> f (hd rest) = Inl e"
      using Cons.IH [OF rec] by blast
    then show ?thesis by (intro exI [of _ "a # dn"]) (simp add: vs Inr)
  qed
qed

lemma until_err_all: "map f s = map Inr vs \<Longrightarrow> until_err f s = (vs, [], None)"
  by (induction s arbitrary: vs) auto

end
