(* ===== verification/Go_Net.thy ===== *)
theory Go_Net
  imports Go_Strings Functional
begin

text \<open>
  What the sources use of Go's \<open>net\<close> package: IP addresses as byte slices, their textual
  form, \<open>ParseIP\<close>, and \<open>UDPAddr\<close>. Printing an address and parsing the text gives the address
  back in its 16-byte form (\<open>ParseIP_String\<close>).
\<close>

section \<open>IP addresses\<close>

definition v4InV6Prefix :: bytes where
  "v4InV6Prefix = replicate 10 0 @ [0xFF, 0xFF]"

definition IPv4 :: "8 word \<Rightarrow> 8 word \<Rightarrow> 8 word \<Rightarrow> 8 word \<Rightarrow> bytes" where
  "IPv4 a b c d = v4InV6Prefix @ [a, b, c, d]"

definition To4 :: "bytes \<Rightarrow> bytes option" where
  "To4 ip = (if length ip = 4 then Some ip
     else if length ip = 16 \<and> take 12 ip = v4InV6Prefix then Some (drop 12 ip) else None)"

definition To16 :: "bytes \<Rightarrow> bytes" where
  "To16 ip = (if length ip = 4 then v4InV6Prefix @ ip else if length ip = 16 then ip else [])"

definition IP_Equal :: "bytes \<Rightarrow> bytes \<Rightarrow> bool" where
  "IP_Equal ip x = (if length ip = length x then ip = x
     else if length ip = 4 \<and> length x = 16 then take 12 x = v4InV6Prefix \<and> ip = drop 12 x
     else if length ip = 16 \<and> length x = 4 then take 12 ip = v4InV6Prefix \<and> drop 12 ip = x
     else False)"

section \<open>Printing\<close>

definition byte_string :: "8 word \<Rightarrow> string" where
  "byte_string b = format_nat 10 (unat b)"

definition hex_string :: "bytes \<Rightarrow> string" where
  "hex_string bs = concat (map (\<lambda>b. [digit_char (unat b div 16), digit_char (unat b mod 16)]) bs)"

fun groups :: "bytes \<Rightarrow> nat list" where
  "groups (a # b # r) = (unat a * 256 + unat b) # groups r"
| "groups _ = []"

text \<open>The longest run of at least two zero groups, the first one among equals, as the indices
  of its start and end; \<open>255\<close> stands for no run.\<close>

definition zero_run :: "nat list \<Rightarrow> nat \<times> nat" where
  "zero_run g = fold (\<lambda>i (zs, ze). let l = length (takeWhile (\<lambda>x. x = 0) (drop i g)) in
       if 2 \<le> l \<and> ze - zs < l then (i, i + l) else (zs, ze)) [0..<8] (255, 255)"

definition hex_groups :: "nat list \<Rightarrow> string" where
  "hex_groups g = Join (map (format_nat 16) g) '':''"

definition string6 :: "bytes \<Rightarrow> string" where
  "string6 ip = (let g = groups ip; (zs, ze) = zero_run g in
     if zs = 255 then hex_groups g else hex_groups (take zs g) @ ''::'' @ hex_groups (drop ze g))"

definition IP_String :: "bytes \<Rightarrow> string" where
  "IP_String ip = (if ip = [] then ''<nil>''
     else if length ip \<noteq> 4 \<and> length ip \<noteq> 16 then CHR ''?'' # hex_string ip
     else (case To4 ip of Some p \<Rightarrow> Join (map byte_string p) ''.'' | None \<Rightarrow> string6 ip))"

section \<open>Parsing\<close>

definition octet :: "string \<Rightarrow> 8 word option" where
  "octet s = (if s = [] \<or> \<not> list_all is_digit s \<or> (length s > 1 \<and> hd s = CHR ''0'') \<or> digits_val 10 s > 255
     then None else Some (of_nat (digits_val 10 s)))"

definition parseIPv4Fields :: "string \<Rightarrow> bytes option" where
  "parseIPv4Fields s = (let ps = Split s CHR ''.'' in
     if length ps = 4 then all_some (map octet ps) else None)"

text \<open>The loop of the IPv6 parser with room for \<open>k\<close> more groups: the rest of the string, the
  bytes so far, and the place of the ellipsis.\<close>

primrec parse_groups ::
    "nat \<Rightarrow> string \<Rightarrow> bytes \<Rightarrow> nat option \<Rightarrow> (string \<times> bytes \<times> nat option) option" where
  "parse_groups 0 s ip el = Some (s, ip, el)"
| "parse_groups (Suc k) s ip el =
    (let h = takeWhile is_hex s; r = dropWhile is_hex s; v = digits_val 16 h;
         ip' = ip @ [of_nat (v div 256), of_nat v] in
     if h = [] \<or> 4 < length h then None
     else if r \<noteq> [] \<and> hd r = CHR ''.'' then
       (if el = None \<and> length ip \<noteq> 12 \<or> 12 < length ip then None
        else map_option (\<lambda>v4. ([], ip @ v4, el)) (parseIPv4Fields s))
     else if r = [] then Some ([], ip', el)
     else if hd r \<noteq> CHR '':'' \<or> tl r = [] then None
     else if hd (tl r) = CHR '':'' then
       (if el \<noteq> None then None
        else if tl (tl r) = [] then Some ([], ip', Some (length ip'))
        else parse_groups k (tl (tl r)) ip' (Some (length ip')))
     else parse_groups k (tl r) ip' el)"

definition expand_ellipsis :: "string \<times> bytes \<times> nat option \<Rightarrow> bytes option" where
  "expand_ellipsis = (\<lambda>(rest, ip, el).
     if rest \<noteq> [] then None
     else if length ip < 16 then
       map_option (\<lambda>e. take e ip @ replicate (16 - length ip) 0 @ drop e ip) el
     else if el \<noteq> None then None else Some ip)"

definition parseIPv6 :: "string \<Rightarrow> bytes option" where
  "parseIPv6 s = (if s = ''::'' then Some (replicate 16 0)
     else Option.bind (if HasPrefix s ''::'' then parse_groups 8 (drop 2 s) [] (Some 0)
       else parse_groups 8 s [] None) expand_ellipsis)"

text \<open>The first of the three marks decides the kind of the address. An address with a zone
  (a percent sign) is refused.\<close>

definition ParseIP :: "string \<Rightarrow> bytes option" where
  "ParseIP s = (case find (\<lambda>c. c = CHR ''.'' \<or> c = CHR '':'' \<or> c = CHR ''%'') s of
     None \<Rightarrow> None
   | Some c \<Rightarrow> if c = CHR ''.'' then map_option ((@) v4InV6Prefix) (parseIPv4Fields s)
       else if c = CHR ''%'' \<or> CHR ''%'' \<in> set s then None
       else parseIPv6 s)"

section \<open>UDP addresses\<close>

record UDPAddr =
  IP :: bytes
  Port :: int

definition JoinHostPort :: "string \<Rightarrow> string \<Rightarrow> string" where
  "JoinHostPort host port = (if CHR '':'' \<in> set host then ''['' @ host @ '']:'' @ port
     else host @ '':'' @ port)"

definition UDPAddr_String :: "UDPAddr \<Rightarrow> string" where
  "UDPAddr_String a = JoinHostPort (if IP a = [] then [] else IP_String (IP a)) (Itoa (Port a))"

section \<open>Round trip of IPv4\<close>

lemma format_nat_head:
  assumes "2 \<le> b" and "b \<le> 16" and "length (format_nat b n) > 1"
  shows "hd (format_nat b n) \<noteq> CHR ''0''"
  using assms
proof (induction b n rule: digits.induct)
  case (1 b n)
  from 1(4) have ge: "\<not> n < b" by (subst (asm) format_nat_def, subst (asm) digits.simps) (auto split: if_splits)
  then have rec: "format_nat b n = format_nat b (n div b) @ [digit_char (n mod b)]"
    using 1(2) by (simp add: format_nat_def digits.simps [of b n])
  show ?case
  proof (cases "n div b < b")
    case True
    then have s: "format_nat b (n div b) = [digit_char (n div b)]"
      by (simp add: format_nat_def digits.simps [of b "n div b"])
    have "0 < n div b" using ge 1(2) by (simp add: div_greater_zero_iff)
    then have "byte_of (digit_char (n div b)) \<noteq> 48"
      using True 1(3) code_digit_char [of "n div b"] by (cases "n div b < 10") auto
    then have "digit_char (n div b) \<noteq> CHR ''0''" by auto
    then show ?thesis by (simp add: rec s)
  next
    case False
    then have "length (format_nat b (n div b)) > 1"
      using 1(2) by (simp add: format_nat_def digits.simps [of b "n div b"])
    then show ?thesis using 1 ge by (simp add: rec)
  qed
qed

lemma octet_byte_string: "octet (byte_string b) = Some b"
proof -
  have "unat b < 2 ^ LENGTH(8)" by (rule unsigned_less)
  then have "unat b \<le> 255" by simp
  moreover have "digits_val 10 (byte_string b) = unat b"
    by (simp add: byte_string_def digits_val_format)
  ultimately show ?thesis
    using format_nat_digits [of "unat b"] format_nat_head [of 10 "unat b"]
    by (auto simp: octet_def byte_string_def)
qed

lemma byte_string_chars: "c \<in> set (byte_string b) \<Longrightarrow> is_digit c"
  using format_nat_digits [of "unat b"] by (auto simp: byte_string_def list_all_iff)

lemma is_digit_not: "is_digit c \<Longrightarrow> c \<notin> {CHR ''.'', CHR '':'', CHR ''%'', CHR ''['', CHR '']'', CHR ''|'', CHR ''/''}"
  by (auto simp: is_digit_def)

lemma is_hex_not: "is_hex c \<Longrightarrow> c \<notin> {CHR ''.'', CHR '':'', CHR ''%'', CHR ''['', CHR '']'', CHR ''|'', CHR ''/''}"
  by (auto simp: is_hex_def digit_val_def)

lemma all_some_octets: "all_some (map octet (map byte_string p)) = Some p"
  by (induction p) (simp_all add: octet_byte_string)

lemma parseIPv4Fields_Join:
  assumes "length p = 4"
  shows "parseIPv4Fields (Join (map byte_string p) ''.'') = Some p"
proof -
  have "\<forall>s \<in> set (map byte_string p). CHR ''.'' \<notin> set s"
    using byte_string_chars is_digit_not by fastforce
  moreover have "map byte_string p \<noteq> []" using assms by auto
  ultimately have "Split (Join (map byte_string p) [CHR ''.'']) CHR ''.'' = map byte_string p"
    by (rule Split_Join [rotated])
  then show ?thesis using assms all_some_octets by (simp add: parseIPv4Fields_def)
qed

lemma find_first_mark:
  assumes "\<forall>c \<in> set a. \<not> P c" and "P x"
  shows "find P (a @ x # r) = Some x"
  using assms by (induction a) auto

lemma ParseIP_v4:
  assumes "length p = 4"
  shows "ParseIP (Join (map byte_string p) ''.'') = Some (v4InV6Prefix @ p)"
proof -
  obtain a b c d where p: "p = [a, b, c, d]"
    using assms by (auto simp: numeral_eq_Suc length_Suc_conv)
  have "\<forall>x \<in> set (byte_string a). x \<noteq> CHR ''.'' \<and> x \<noteq> CHR '':'' \<and> x \<noteq> CHR ''%''"
    using byte_string_chars is_digit_not by fastforce
  then have "find (\<lambda>c. c = CHR ''.'' \<or> c = CHR '':'' \<or> c = CHR ''%'') (Join (map byte_string p) ''.'')
      = Some CHR ''.''"
    by (simp add: p find_first_mark)
  then show ?thesis using parseIPv4Fields_Join [OF assms] by (simp add: ParseIP_def)
qed

section \<open>Round trip of IPv6\<close>

definition group_bytes :: "nat list \<Rightarrow> bytes" where
  "group_bytes gs = concat (map (\<lambda>g. [of_nat (g div 256), of_nat g]) gs)"

lemma group_bytes_simps [simp]:
  "group_bytes [] = []"
  "group_bytes (g # gs) = of_nat (g div 256) # of_nat g # group_bytes gs"
  "group_bytes (gs @ hs) = group_bytes gs @ group_bytes hs"
  by (simp_all add: group_bytes_def)

lemma length_group_bytes [simp]: "length (group_bytes gs) = 2 * length gs"
  by (induction gs) simp_all

lemma group_bytes_zeros: "set gs \<subseteq> {0} \<Longrightarrow> group_bytes gs = replicate (2 * length gs) 0"
  by (induction gs) simp_all

lemma byte_less: "unat (b :: 8 word) < 256"
proof -
  have "unat b < 2 ^ LENGTH(8)" by (rule unsigned_less)
  then show ?thesis by simp
qed

lemma group_bytes_groups: "even (length ip) \<Longrightarrow> group_bytes (groups ip) = ip"
proof (induction ip rule: groups.induct)
  case (1 a b r)
  have wrap: "(256 :: 8 word) = 0" by simp
  have "a * 256 = 0" unfolding wrap by simp
  then have "(of_nat (unat a * 256 + unat b) :: 8 word) = of_nat (unat b)"
    by simp
  then show ?case using 1 byte_less [of b] by simp
qed simp_all

lemma groups_less: "g \<in> set (groups ip) \<Longrightarrow> g < 65536"
proof (induction ip rule: groups.induct)
  case (1 a b r)
  then show ?case using byte_less [of a] byte_less [of b] by auto
qed simp_all

lemma length_groups: "length (groups ip) = length ip div 2"
  by (induction ip rule: groups.induct) simp_all

lemma digits_length: "0 < k \<Longrightarrow> 2 \<le> b \<Longrightarrow> n < b ^ k \<Longrightarrow> length (digits b n) \<le> k"
proof (induction k arbitrary: n)
  case (Suc k)
  show ?case
  proof (cases "n < b")
    case True
    then show ?thesis by (simp add: digits.simps [of b n])
  next
    case False
    then have "0 < k" using Suc.prems by (cases k) auto
    moreover have "n div b < b ^ k"
      using Suc.prems by (simp add: less_mult_imp_div_less mult.commute)
    ultimately show ?thesis using Suc False by (simp add: digits.simps [of b n])
  qed
qed simp

lemma hex_group_length: "g < 65536 \<Longrightarrow> length (format_nat 16 g) \<le> 4"
  using digits_length [of 4 16 g] by (simp add: format_nat_def)

lemma span_hex:
  assumes "r = [] \<or> \<not> is_hex (hd r)"
  shows "takeWhile is_hex (format_nat 16 g @ r) = format_nat 16 g"
    and "dropWhile is_hex (format_nat 16 g @ r) = r"
proof -
  have "\<forall>c \<in> set (format_nat 16 g). is_hex c" using format_nat_hex [of g] by (simp add: list_all_iff)
  then show "takeWhile is_hex (format_nat 16 g @ r) = format_nat 16 g"
    and "dropWhile is_hex (format_nat 16 g @ r) = r"
    using assms by (cases r; simp)+
qed

lemma takeWhile_hex [simp]: "takeWhile is_hex (format_nat 16 g) = format_nat 16 g"
  using span_hex(1) [of "[]" g] by simp

lemma not_hex_marks [simp]: "\<not> is_hex CHR '':''" "\<not> is_hex CHR ''.''"
  using is_hex_not by blast+

lemma hex_groups_Cons:
  "hex_groups [g] = format_nat 16 g"
  "hex_groups (g # h # gs) = format_nat 16 g @ CHR '':'' # hex_groups (h # gs)"
  by (simp_all add: hex_groups_def)

lemma hex_groups_Nil [simp]: "hex_groups [] = []"
  by (simp add: hex_groups_def)

lemma hex_groups_head: "gs \<noteq> [] \<Longrightarrow> \<exists>c cs. hex_groups gs = c # cs \<and> is_hex c"
proof -
  assume "gs \<noteq> []"
  then obtain g gs' where gs: "gs = g # gs'" by (cases gs) auto
  obtain c cs where f: "format_nat 16 g = c # cs" using format_nat_ne by (meson list.exhaust)
  then have "is_hex c" using format_nat_hex [of g] by simp
  then show ?thesis by (cases gs') (auto simp: gs hex_groups_Cons f)
qed

lemma parse_hex_groups:
  assumes "gs \<noteq> []" and "\<forall>g \<in> set gs. g < 65536" and "length gs \<le> k"
  shows "parse_groups k (hex_groups gs) ip el = Some ([], ip @ group_bytes gs, el)"
  using assms
proof (induction gs arbitrary: k ip)
  case (Cons g gs)
  then obtain m where k: "k = Suc m" by (cases k) auto
  have g: "digits_val 16 (format_nat 16 g) = g" "length (format_nat 16 g) \<le> 4"
    using Cons.prems hex_group_length by (simp_all add: digits_val_format)
  show ?case
  proof (cases gs)
    case Nil
    then show ?thesis using span_hex [of "[]" g] g by (simp add: k hex_groups_Cons Let_def)
  next
    case (Cons h hs)
    then obtain c cs where c: "hex_groups (h # hs) = c # cs" "is_hex c"
      using hex_groups_head [of "h # hs"] by auto
    have "c \<noteq> CHR '':''" using c(2) is_hex_not by blast
    then show ?thesis
      using Cons.IH [of m "ip @ [of_nat (g div 256), of_nat g]"] Cons.prems Cons g c
        span_hex [of "CHR '':'' # hex_groups (h # hs)" g]
      by (simp add: k hex_groups_Cons Let_def)
  qed
qed simp

lemma parse_hex_ellipsis:
  assumes "gs \<noteq> []" and "\<forall>g \<in> set gs \<union> set hs. g < 65536" and "length gs + length hs \<le> k"
  shows "parse_groups k (hex_groups gs @ ''::'' @ hex_groups hs) ip None
    = Some ([], ip @ group_bytes gs @ group_bytes hs, Some (length ip + 2 * length gs))"
  using assms
proof (induction gs arbitrary: k ip)
  case (Cons g gs)
  then obtain m where k: "k = Suc m" by (cases k) auto
  have g: "digits_val 16 (format_nat 16 g) = g" "length (format_nat 16 g) \<le> 4"
    using Cons.prems hex_group_length by (simp_all add: digits_val_format)
  show ?case
  proof (cases gs)
    case Nil
    show ?thesis
    proof (cases "hs = []")
      case True
      then show ?thesis using Nil span_hex [of "''::''" g] g by (simp add: k hex_groups_Cons Let_def)
    next
      case False
      then have "hex_groups hs \<noteq> []" using hex_groups_head by fastforce
      moreover have "parse_groups m (hex_groups hs) ip' el = Some ([], ip' @ group_bytes hs, el)" for ip' el
        using False Cons.prems by (intro parse_hex_groups) (auto simp: k)
      ultimately show ?thesis
        using Nil span_hex [of "''::'' @ hex_groups hs" g] g by (simp add: k hex_groups_Cons Let_def)
    qed
  next
    case (Cons h hs')
    then obtain c cs where c: "hex_groups (h # hs') = c # cs" "is_hex c"
      using hex_groups_head [of "h # hs'"] by auto
    have "c \<noteq> CHR '':''" using c(2) is_hex_not by blast
    then show ?thesis
      using Cons.IH [of m "ip @ [of_nat (g div 256), of_nat g]"] Cons.prems Cons g c
        span_hex [of "CHR '':'' # hex_groups (h # hs') @ ''::'' @ hex_groups hs" g]
      by (simp add: k hex_groups_Cons Let_def)
  qed
qed simp

lemma zero_run_zeros:
  assumes "length g = 8" and "zero_run g = (zs, ze)" and "zs \<noteq> 255"
  shows "zs < ze \<and> ze \<le> 8 \<and> set (take (ze - zs) (drop zs g)) \<subseteq> {0}"
proof -
  define step where "step i z = (case z of (zs, ze) \<Rightarrow>
      let l = length (takeWhile (\<lambda>x. x = 0) (drop i g)) in
      if 2 \<le> l \<and> ze - zs < l then (i, i + l) else (zs, ze))" for i and z :: "nat \<times> nat"
  define ok where "ok z = (case z of (zs, ze) \<Rightarrow> zs = 255 \<or>
      zs < ze \<and> ze \<le> 8 \<and> set (take (ze - zs) (drop zs g)) \<subseteq> {0})" for z :: "nat \<times> nat"
  have "ok (step i z)" if "ok z" for i z
  proof -
    obtain a b where z: "z = (a, b)" by (cases z)
    let ?l = "length (takeWhile (\<lambda>x. x = 0) (drop i g))"
    have "?l \<le> 8 - i" using assms(1) length_takeWhile_le [of "\<lambda>x. x = 0" "drop i g"] by simp
    moreover have "set (take ?l (drop i g)) \<subseteq> {0}"
      unfolding takeWhile_eq_take [symmetric] by (auto dest: set_takeWhileD)
    ultimately have "ok (i, i + ?l)" if "2 \<le> ?l"
      using that unfolding ok_def prod.case by (intro disjI2) auto
    then show ?thesis using that by (simp add: z step_def Let_def)
  qed
  then have "ok (fold step is z)" if "ok z" for "is" z
    using that by (induction "is" arbitrary: z) simp_all
  from this [of "(255, 255)" "[0..<8]"] have "ok (zero_run g)"
    by (simp add: zero_run_def ok_def step_def [abs_def])
  then show ?thesis using assms by (simp add: ok_def)
qed

lemma hex_groups_chars: "c \<in> set (hex_groups gs) \<Longrightarrow> is_hex c \<or> c = CHR '':''"
  using set_Join [of "map (format_nat 16) gs" "'':''"] format_nat_hex
  by (fastforce simp: hex_groups_def list_all_iff)

lemma no_colons_prefix:
  assumes "gs \<noteq> []"
  shows "\<not> HasPrefix (hex_groups gs @ s) ''::''" "hex_groups gs @ s \<noteq> ''::''"
proof -
  obtain c cs where c: "hex_groups gs = c # cs" "is_hex c" using hex_groups_head [OF assms] by blast
  then have "c \<noteq> CHR '':''" using is_hex_not by blast
  then show "\<not> HasPrefix (hex_groups gs @ s) ''::''" "hex_groups gs @ s \<noteq> ''::''"
    using c(1) by (simp_all add: HasPrefix_def)
qed

lemma parse_string6:
  assumes "length ip = 16"
  shows "parseIPv6 (string6 ip) = Some ip"
proof -
  define g where "g = groups ip"
  have len: "length g = 8" and less: "\<forall>x \<in> set g. x < 65536" and ip: "group_bytes g = ip"
    using assms groups_less by (auto simp: g_def length_groups group_bytes_groups)
  obtain zs ze where run: "zero_run g = (zs, ze)" by (cases "zero_run g")
  show ?thesis
  proof (cases "zs = 255")
    case True
    have "g \<noteq> []" using len by auto
    then have "parseIPv6 (hex_groups g) = Some ip"
      using parse_hex_groups [of g 8 "[]" None] no_colons_prefix [of g "[]"] len less ip assms
      by (simp add: parseIPv6_def expand_ellipsis_def)
    then show ?thesis by (simp add: string6_def Let_def g_def [symmetric] run True)
  next
    case False
    define a where "a = take zs g"
    define b where "b = drop ze g"
    have z: "zs < ze" "ze \<le> 8" and zero: "set (take (ze - zs) (drop zs g)) \<subseteq> {0}"
      using zero_run_zeros [OF len run False] by auto
    have "g = a @ take (ze - zs) (drop zs g) @ b"
      using z by (simp add: a_def b_def) (metis append_take_drop_id drop_drop le_add_diff_inverse2 less_imp_le)
    then have "group_bytes g = group_bytes a @ group_bytes (take (ze - zs) (drop zs g)) @ group_bytes b"
      by (metis group_bytes_simps(3))
    then have split: "ip = group_bytes a @ replicate (2 * (ze - zs)) 0 @ group_bytes b"
      using zero len z ip by (simp add: group_bytes_zeros)
    have la: "length a = zs" "length b = 8 - ze" using z len by (simp_all add: a_def b_def)
    have lb: "\<forall>x \<in> set a \<union> set b. x < 65536"
      using less by (auto simp: a_def b_def dest: in_set_takeD in_set_dropD)
    have room: "zs + 8 - ze \<le> 8" "2 * zs + 2 * (8 - ze) < 16" "16 - (2 * zs + 2 * (8 - ze)) = 2 * (ze - zs)"
      using z by linarith+
    have "parseIPv6 (hex_groups a @ ''::'' @ hex_groups b) = Some ip"
    proof (cases "a = []")
      case True
      then show ?thesis
      proof (cases "b = []")
        case True
        then show ?thesis using \<open>a = []\<close> la z split by (simp add: parseIPv6_def)
      next
        case False
        then have "hex_groups b \<noteq> []" using hex_groups_head by fastforce
        then show ?thesis using \<open>a = []\<close> False la lb z split parse_hex_groups [of b 8 "[]" "Some 0"]
          by (simp add: parseIPv6_def expand_ellipsis_def HasPrefix_def)
      qed
    next
      case False
      then show ?thesis
        using parse_hex_ellipsis [OF False lb, of 8 "[]"] no_colons_prefix [OF False, of "''::'' @ hex_groups b"]
          la z split room
        by (simp add: parseIPv6_def expand_ellipsis_def)
    qed
    then show ?thesis using run False by (simp add: string6_def Let_def g_def [symmetric] a_def b_def)
  qed
qed

lemma string6_chars: "c \<in> set (string6 ip) \<Longrightarrow> is_hex c \<or> c = CHR '':''"
  using hex_groups_chars by (auto simp: string6_def Let_def split: if_splits prod.splits)

lemma string6_colon:
  assumes "length ip = 16"
  shows "CHR '':'' \<in> set (string6 ip)"
proof -
  obtain a b gs where "groups ip = a # b # gs"
    using assms length_groups [of ip] by (auto simp: numeral_eq_Suc length_Suc_conv)
  then have "CHR '':'' \<in> set (hex_groups (groups ip))" by (simp add: hex_groups_Cons)
  then show ?thesis by (cases "zero_run (groups ip)") (simp add: string6_def Let_def)
qed

lemma find_colon:
  assumes "\<forall>c \<in> set s. is_hex c \<or> c = CHR '':''" and "CHR '':'' \<in> set s"
  shows "find (\<lambda>c. c = CHR ''.'' \<or> c = CHR '':'' \<or> c = CHR ''%'') s = Some CHR '':''"
proof -
  obtain a r where s: "s = a @ CHR '':'' # r" "CHR '':'' \<notin> set a"
    using assms(2) by (meson split_list_first)
  then have "\<forall>c \<in> set a. is_hex c" using assms(1) by auto
  then have "\<forall>c \<in> set a. \<not> (c = CHR ''.'' \<or> c = CHR '':'' \<or> c = CHR ''%'')"
    using is_hex_not by blast
  then show ?thesis by (simp add: s find_first_mark)
qed

lemma To4_length: "To4 ip = Some p \<Longrightarrow> length p = 4"
  by (auto simp: To4_def split: if_splits)

lemma To4_To16: "To4 ip = Some p \<Longrightarrow> To16 ip = v4InV6Prefix @ p"
  by (auto simp: To4_def To16_def split: if_splits) (metis append_take_drop_id)

section \<open>Round trip of addresses\<close>

lemma IP_String_valid:
  assumes "length ip = 4 \<or> length ip = 16"
  shows "IP_String ip = (case To4 ip of Some p \<Rightarrow> Join (map byte_string p) ''.'' | None \<Rightarrow> string6 ip)"
  using assms by (auto simp: IP_String_def)

lemma ParseIP_String:
  assumes "length ip = 4 \<or> length ip = 16"
  shows "ParseIP (IP_String ip) = Some (To16 ip)"
proof (cases "To4 ip")
  case (Some p)
  then show ?thesis using assms ParseIP_v4 [OF To4_length] To4_To16 by (simp add: IP_String_valid)
next
  case None
  then have len: "length ip = 16" using assms by (auto simp: To4_def)
  have "\<forall>c \<in> set (string6 ip). is_hex c \<or> c = CHR '':''" using string6_chars by blast
  moreover from this have "CHR ''%'' \<notin> set (string6 ip)" using is_hex_not by fastforce
  ultimately show ?thesis
    using assms None find_colon [OF _ string6_colon [OF len]] parse_string6 [OF len] len
    by (simp add: IP_String_valid ParseIP_def To16_def)
qed

text \<open>The characters of an address: none of the separators of an Abyss URL, and colons only in
  the IPv6 form.\<close>

lemma dotted_chars: "c \<in> set (Join (map byte_string p) ''.'') \<Longrightarrow> is_digit c \<or> c = CHR ''.''"
  using set_Join [of "map byte_string p" "''.''"] byte_string_chars by fastforce

lemma IP_String_chars:
  assumes "length ip = 4 \<or> length ip = 16"
  shows "set (IP_String ip) \<inter> {CHR ''['', CHR '']'', CHR ''|'', CHR ''/''} = {}"
    and "CHR '':'' \<in> set (IP_String ip) \<longleftrightarrow> To4 ip = None"
    and "IP_String ip \<noteq> []"
proof -
  have sep: "is_digit c \<or> c = CHR ''.'' \<or> is_hex c \<or> c = CHR '':''" if "c \<in> set (IP_String ip)" for c
    using that assms dotted_chars string6_chars by (auto simp: IP_String_valid split: option.splits)
  then show "set (IP_String ip) \<inter> {CHR ''['', CHR '']'', CHR ''|'', CHR ''/''} = {}"
    using is_digit_not is_hex_not by fastforce
  have "CHR '':'' \<notin> set (Join (map byte_string p) ''.'')" for p
    using dotted_chars is_digit_not by fastforce
  then show "CHR '':'' \<in> set (IP_String ip) \<longleftrightarrow> To4 ip = None"
    using assms string6_colon by (auto simp: IP_String_valid To4_def split: option.splits)
  have "ParseIP [] = None" by (simp add: ParseIP_def)
  then show "IP_String ip \<noteq> []" using ParseIP_String [OF assms] by auto
qed

section \<open>Parsed addresses are well formed\<close>

lemma parseIPv4Fields_length: "parseIPv4Fields s = Some p \<Longrightarrow> length p = 4"
  by (auto simp: parseIPv4Fields_def Let_def all_some_iff dest!: arg_cong [where f = length] split: if_splits)

lemma parse_groups_length:
  assumes "parse_groups k s ip el = Some (r, ip', el')"
    and "length ip + 2 * k = 16" and "\<forall>e. el = Some e \<longrightarrow> e \<le> length ip"
  shows "length ip' \<le> 16 \<and> (\<forall>e. el' = Some e \<longrightarrow> e \<le> length ip')"
  using assms
proof (induction k arbitrary: s ip el)
  case (Suc k)
  let ?v = "digits_val 16 (takeWhile is_hex s)"
  let ?ip = "ip @ [of_nat (?v div 256), of_nat ?v]"
  have "length ?ip + 2 * k = 16" "\<forall>e. el = Some e \<longrightarrow> e \<le> length ?ip" using Suc.prems by auto
  then show ?case
    using Suc.prems Suc.IH [of _ ?ip]
    by (auto simp: Let_def dest: parseIPv4Fields_length split: if_splits)
qed auto

lemma parseIPv6_length:
  assumes "parseIPv6 s = Some ip"
  shows "length ip = 16"
proof -
  have "length ip = 16" if "parse_groups 8 s' [] el = Some p" "expand_ellipsis p = Some ip"
    "\<forall>e. el = Some e \<longrightarrow> e = 0" for s' el p
    using parse_groups_length [of 8 s' "[]" el "fst p" "fst (snd p)" "snd (snd p)"] that
    by (auto simp: expand_ellipsis_def split: if_splits prod.splits)
  then show ?thesis
    using assms by (fastforce simp: parseIPv6_def bind_eq_Some_conv split: if_splits)
qed

lemma ParseIP_length:
  assumes "ParseIP s = Some ip"
  shows "length ip = 16"
  using assms parseIPv6_length parseIPv4Fields_length
  by (fastforce simp: ParseIP_def v4InV6Prefix_def split: option.splits if_splits)

end
