(* ===== verification/Aurl.thy ===== *)
theory Aurl
  imports Go_Net
begin

text \<open>
  Abyss URLs, \<open>aurl/abyss_url.go\<close>: the URL, its textual form and the parser. An error is the
  text of the Go error. The parser slices strings, so it is a statement that may panic; it is
  shown never to (\<open>TryParse_total\<close>).
\<close>

section \<open>The URL\<close>

record AURL =
  Scheme :: string
  Hash :: hash
  Addresses :: "UDPAddr list"
  Path :: string

definition ToString :: "AURL \<Rightarrow> string" where
  "ToString a = (if Addresses a = [] then Scheme a @ '':'' @ Hash a @ ''/'' @ Path a
     else Scheme a @ '':'' @ Hash a @ '':'' @ Join (map UDPAddr_String (Addresses a)) ''|'' @ ''/'' @ Path a)"

definition base58Chars :: string where
  "base58Chars = ''123456789ABCDEFGHJKLMNPQRSTUVWXYZabcdefghijkmnopqrstuvwxyz''"

text \<open>The source ranges over the runes of the string. Bytes from 128 on decode to runes that are
  not in \<open>base58Chars\<close>, so checking the bytes is the same.\<close>

definition IsValidPeerID :: "string \<Rightarrow> bool" where
  "IsValidPeerID input = (if length input < 32 \<or> byte_of (input ! 0) < byte_of CHR ''A''
       \<or> byte_of (input ! 0) > byte_of CHR ''Z'' then False
     else list_all (\<lambda>c. c \<in> set base58Chars) (tl input))"

section \<open>The parser\<close>

text \<open>One endpoint of the address list; \<open>None\<close> is a \<open>continue\<close> of the loop. A closing bracket
  is sought behind the opening one, so \<open>closeIdx <= 0\<close> only means that there is none.\<close>

definition split_endpoint :: "string \<Rightarrow> ('s, (string \<times> string) option) go" where
  "split_endpoint ep =
     (if HasPrefix ep ''['' then
        let closeIdx = Index ep CHR '']'' in
        if closeIdx \<le> 0 then go_ret None
        else go_bind (go_slice 1 closeIdx ep) (\<lambda>ipPart.
          if closeIdx + 1 < int (length ep) \<and> ep ! nat (closeIdx + 1) = CHR '':'' then
            go_bind (go_slice (closeIdx + 2) (int (length ep)) ep) (\<lambda>portPart.
              go_ret (Some (ipPart, portPart)))
          else go_ret None)
      else
        let parts = Split ep CHR '':'' in
        if length parts \<noteq> 2 then go_ret None
        else go_ret (Some (parts ! 0, parts ! 1)))"

definition parse_endpoint :: "string \<Rightarrow> UDPAddr list \<Rightarrow> ('s, UDPAddr list) go" where
  "parse_endpoint ep addrs =
     (if ep = [] then go_ret addrs
      else go_bind (split_endpoint ep) (\<lambda>parts. case parts of
        None \<Rightarrow> go_ret addrs
      | Some (ipPart, portPart) \<Rightarrow> (case (ParseIP ipPart, Atoi portPart) of
          (Some ip, Some port) \<Rightarrow> go_ret (addrs @ [\<lparr>IP = ip, Port = port\<rparr>])
        | _ \<Rightarrow> go_ret addrs)))"

definition tryParseAbyss :: "string \<Rightarrow> ('s, string + AURL) go" where
  "tryParseAbyss input = go_bind (go_slice 6 (int (length input)) input) (\<lambda>body.
     if body = [] then go_ret (Inl ''empty address'')
     else
       let addrStart = Index body CHR '':''; pathStart = Index body CHR ''/'';
           result = \<lparr>Scheme = ''abyss'', Hash = [], Addresses = [], Path = []\<rparr> in
       if addrStart = - 1 then
         (if pathStart = - 1 then
            (if \<not> IsValidPeerID body then go_ret (Inl ''invalid peer hash'')
             else go_ret (Inr (result\<lparr>Hash := body\<rparr>)))
          else go_bind (go_slice 0 pathStart body) (\<lambda>peerId.
            if \<not> IsValidPeerID peerId then go_ret (Inl ''invalid peer hash'')
            else go_bind (go_slice (pathStart + 1) (int (length body)) body) (\<lambda>path.
              go_ret (Inr (result\<lparr>Hash := peerId, Path := path\<rparr>)))))
       else go_bind (go_slice 0 addrStart body) (\<lambda>peerId.
         if \<not> IsValidPeerID peerId then go_ret (Inl ''invalid peer hash'')
         else go_bind
           (if pathStart \<noteq> - 1 then
              go_bind (go_slice (addrStart + 1) pathStart body) (\<lambda>addrPart.
                go_bind (go_slice (pathStart + 1) (int (length body)) body) (\<lambda>path.
                  go_ret (addrPart, path)))
            else go_bind (go_slice (addrStart + 1) (int (length body)) body) (\<lambda>addrPart.
              go_ret (addrPart, [])))
           (\<lambda>(addrPart, path).
             go_bind (go_fold (Split addrPart CHR ''|'') parse_endpoint []) (\<lambda>addrs.
               go_ret (Inr (result\<lparr>Hash := peerId, Addresses := addrs, Path := path\<rparr>))))))"

definition tryParseAbyst :: "string \<Rightarrow> ('s, string + AURL) go" where
  "tryParseAbyst input = go_bind (go_slice 6 (int (length input)) input) (\<lambda>body.
     let result = \<lparr>Scheme = ''abyst'', Hash = [], Addresses = [], Path = []\<rparr>;
         slashIndex = Index body CHR ''/'' in
     if slashIndex = - 1 then
       (if \<not> IsValidPeerID body then go_ret (Inl ''invalid peer hash'')
        else go_ret (Inr (result\<lparr>Hash := body\<rparr>)))
     else go_bind (go_slice 0 slashIndex body) (\<lambda>h.
       go_bind (go_slice (slashIndex + 1) (int (length body)) body) (\<lambda>path.
         go_ret (Inr (result\<lparr>Hash := h, Path := path\<rparr>)))))"

definition TryParse :: "string \<Rightarrow> ('s, string + AURL) go" where
  "TryParse input = (let input = TrimSpace input in
     if HasPrefix input ''abyss:'' then tryParseAbyss input
     else if HasPrefix input ''abyst:'' then tryParseAbyst input
     else go_ret (Inl ''invalid scheme''))"

section \<open>A reference parser\<close>

text \<open>The same parser without indices: a URL body is cut at the first colon and the first slash.\<close>

definition before :: "char \<Rightarrow> string \<Rightarrow> string" where
  "before c s = takeWhile (\<lambda>x. x \<noteq> c) s"

definition behind :: "char \<Rightarrow> string \<Rightarrow> string" where
  "behind c s = tl (dropWhile (\<lambda>x. x \<noteq> c) s)"

lemma before_behind_append [simp]:
  "c \<notin> set xs \<Longrightarrow> before c (xs @ c # ys) = xs" "c \<notin> set xs \<Longrightarrow> behind c (xs @ c # ys) = ys"
  by (induction xs) (auto simp: before_def behind_def)

lemma before_behind_absent [simp]: "c \<notin> set s \<Longrightarrow> before c s = s" "c \<notin> set s \<Longrightarrow> behind c s = []"
  by (induction s) (auto simp: before_def behind_def)

definition host_port :: "string \<Rightarrow> (string \<times> string) option" where
  "host_port ep =
     (if HasPrefix ep ''['' then
        let r = behind CHR '']'' ep in
        if CHR '']'' \<in> set ep \<and> HasPrefix r '':'' then Some (before CHR '']'' (tl ep), tl r) else None
      else (case Split ep CHR '':'' of [h, p] \<Rightarrow> Some (h, p) | _ \<Rightarrow> None))"

definition endpoint :: "string \<Rightarrow> UDPAddr option" where
  "endpoint ep = (case host_port ep of None \<Rightarrow> None | Some (h, p) \<Rightarrow>
     (case (ParseIP h, Atoi p) of (Some ip, Some port) \<Rightarrow> Some \<lparr>IP = ip, Port = port\<rparr> | _ \<Rightarrow> None))"

definition abyss_ref :: "string \<Rightarrow> string + AURL" where
  "abyss_ref body =
     (let hash = before CHR '':'' body; rest = behind CHR '':'' body in
      if body = [] then Inl ''empty address''
      else if CHR '':'' \<in> set body then
        (if IsValidPeerID hash then
           Inr \<lparr>Scheme = ''abyss'', Hash = hash,
             Addresses = List.map_filter endpoint (Split (before CHR ''/'' rest) CHR ''|''),
             Path = behind CHR ''/'' rest\<rparr>
         else Inl ''invalid peer hash'')
      else
        (if IsValidPeerID (before CHR ''/'' body) then
           Inr \<lparr>Scheme = ''abyss'', Hash = before CHR ''/'' body, Addresses = [], Path = behind CHR ''/'' body\<rparr>
         else Inl ''invalid peer hash''))"

definition abyst_ref :: "string \<Rightarrow> string + AURL" where
  "abyst_ref body =
     (if CHR ''/'' \<in> set body \<or> IsValidPeerID body then
        Inr \<lparr>Scheme = ''abyst'', Hash = before CHR ''/'' body, Addresses = [], Path = behind CHR ''/'' body\<rparr>
      else Inl ''invalid peer hash'')"

definition aurl_ref :: "string \<Rightarrow> string + AURL" where
  "aurl_ref input = (let s = TrimSpace input in
     if HasPrefix s ''abyss:'' then abyss_ref (drop 6 s)
     else if HasPrefix s ''abyst:'' then abyst_ref (drop 6 s)
     else Inl ''invalid scheme'')"

lemma valid_id_chars:
  assumes "IsValidPeerID h" and "c \<in> set h"
  shows "c \<notin> {CHR '':'', CHR ''/'', CHR ''|''}"
proof -
  from assms(2) obtain x xs where h: "h = x # xs" by (cases h) auto
  have "c \<in> set base58Chars \<or> 65 \<le> byte_of c \<and> byte_of c \<le> 90"
    using assms by (auto simp: IsValidPeerID_def list_all_iff h split: if_splits)
  then show ?thesis by (auto simp: base58Chars_def)
qed

lemma go_slice_mid:
  "i = int (length xs) \<Longrightarrow> j = i + int (length ys) \<Longrightarrow> go_slice i j (xs @ ys @ zs) = go_ret ys"
  by (simp add: go_slice_def)

lemma bracket_slices:
  "go_slice 1 (int (length h) + 1) (x # h @ y # r) = go_ret h"
  "go_slice (3 + int (length h)) (3 + (int (length h) + int (length l))) (x # h @ y # a # l) = go_ret l"
  using go_slice_suffix [of "3 + int (length h)" "x # h @ [y, a]" "3 + (int (length h) + int (length l))" l]
  by (simp_all add: go_slice_def)

lemma nat_plus_2: "nat (2 + int n) - Suc 0 = Suc n"
  by simp

lemma split_endpoint_ref: "split_endpoint ep = go_ret (host_port ep)"
proof (cases "HasPrefix ep ''[''")
  case True
  then obtain s where ep: "ep = CHR ''['' # s" by (auto simp: HasPrefix_iff)
  show ?thesis
  proof (cases "CHR '']'' \<in> set s")
    case False
    then have "Index ep CHR '']'' = - 1" by (simp add: ep Index_absent)
    then show ?thesis using True False by (simp add: split_endpoint_def host_port_def ep)
  next
    case sq: True
    then obtain h r where s: "s = h @ CHR '']'' # r" "CHR '']'' \<notin> set h" by (meson split_list_first)
    then have idx: "Index ep CHR '']'' = int (length h) + 1"
      using Index_append [of "CHR '']''" "CHR ''['' # h" r] by (simp add: ep)
    have bb: "before CHR '']'' (h @ CHR '']'' # r) = h" "behind CHR '']'' (CHR ''['' # h @ CHR '']'' # r) = r"
      using s(2) before_behind_append(2) [of "CHR '']''" "CHR ''['' # h" r] by simp_all
    show ?thesis
      using True bb idx
      by (cases r) (auto simp: split_endpoint_def host_port_def ep s Let_def HasPrefix_def bracket_slices
          nat_plus_2 nth_append)
  qed
next
  case False
  obtain p ps where "Split ep CHR '':'' = p # ps"
    using Split_ne [of ep "CHR '':''"] by (cases "Split ep CHR '':''") auto
  then show ?thesis using False
    by (auto simp: split_endpoint_def host_port_def Let_def length_Suc_conv split: list.splits)
qed

lemma endpoint_empty: "endpoint [] = None"
  by (simp add: endpoint_def host_port_def HasPrefix_def)

lemma parse_endpoint_ref:
  "parse_endpoint ep addrs = go_ret (addrs @ (case endpoint ep of None \<Rightarrow> [] | Some a \<Rightarrow> [a]))"
proof (cases "ep = []")
  case True
  then show ?thesis by (simp add: parse_endpoint_def endpoint_empty)
next
  case False
  then show ?thesis
    by (auto simp: parse_endpoint_def split_endpoint_ref endpoint_def split: option.splits)
qed

lemma parse_endpoints_ref:
  "go_fold eps parse_endpoint addrs = go_ret (addrs @ List.map_filter endpoint eps)"
  by (induction eps arbitrary: addrs) (auto simp: parse_endpoint_ref split: option.splits)

lemma go_slice_cut:
  "j = int (length xs) \<Longrightarrow> go_slice 0 j (xs @ x # ys) = go_ret xs"
  "i = int (length xs) + 1 \<Longrightarrow> j = i + int (length ys) \<Longrightarrow> go_slice i j (xs @ x # ys) = go_ret ys"
  "i = int (length xs) + 1 \<Longrightarrow> j = i + int (length zs) \<Longrightarrow> go_slice i j (xs @ x # zs @ ys) = go_ret zs"
  "i = int (length xs) + int (length zs) + 2 \<Longrightarrow> j = i + int (length ys) \<Longrightarrow>
    go_slice i j (xs @ x # zs @ y # ys) = go_ret ys"
  using go_slice_suffix [of i "xs @ [x]" j ys] go_slice_mid [of i "xs @ [x]" j zs ys]
    go_slice_suffix [of i "xs @ x # zs @ [y]" j ys]
  by (simp_all add: go_slice_def)

lemmas cut_simps = go_slice_cut Index_absent Index_append

lemma abyss_no_address:
  assumes "CHR '':'' \<notin> set body" and "length p = 6"
  shows "tryParseAbyss (p @ body) = go_ret (abyss_ref body)"
proof (cases "CHR ''/'' \<in> set body")
  case True
  then obtain h t where "body = h @ CHR ''/'' # t" "CHR ''/'' \<notin> set h" by (meson split_list_first)
  then show ?thesis using assms
    by (auto simp: tryParseAbyss_def abyss_ref_def Let_def cut_simps)
next
  case False
  then show ?thesis using assms
    by (auto simp: tryParseAbyss_def abyss_ref_def Let_def cut_simps)
qed

lemma abyss_with_address:
  assumes "CHR '':'' \<notin> set h" and "length p = 6"
  shows "tryParseAbyss (p @ h @ CHR '':'' # r) = go_ret (abyss_ref (h @ CHR '':'' # r))"
proof (cases "IsValidPeerID h")
  case False
  then show ?thesis using assms
    by (auto simp: tryParseAbyss_def abyss_ref_def Let_def cut_simps)
next
  case valid: True
  then have h: "CHR ''/'' \<notin> set h" using valid_id_chars by blast
  show ?thesis
  proof (cases "CHR ''/'' \<in> set r")
    case True
    then obtain q t where r: "r = q @ CHR ''/'' # t" "CHR ''/'' \<notin> set q" by (meson split_list_first)
    have idx: "Index (h @ CHR '':'' # q @ CHR ''/'' # t) CHR ''/'' = int (length h) + (int (length q) + 1)"
      using Index_append [of "CHR ''/''" "h @ CHR '':'' # q" t] h r(2) by simp
    show ?thesis using assms valid r idx
      by (auto simp: tryParseAbyss_def abyss_ref_def Let_def parse_endpoints_ref cut_simps)
  next
    case False
    then have "Index (h @ CHR '':'' # r) CHR ''/'' = - 1" using h by (simp add: Index_absent)
    then show ?thesis using assms valid False
      by (auto simp: tryParseAbyss_def abyss_ref_def Let_def parse_endpoints_ref cut_simps)
  qed
qed

lemma abyst_ref_eq:
  assumes "length p = 6"
  shows "tryParseAbyst (p @ body) = go_ret (abyst_ref body)"
proof (cases "CHR ''/'' \<in> set body")
  case True
  then obtain h t where "body = h @ CHR ''/'' # t" "CHR ''/'' \<notin> set h" by (meson split_list_first)
  then show ?thesis using assms by (auto simp: tryParseAbyst_def abyst_ref_def Let_def cut_simps)
next
  case False
  then show ?thesis using assms by (auto simp: tryParseAbyst_def abyst_ref_def Let_def cut_simps)
qed

lemma abyss_ref_eq:
  assumes "length p = 6"
  shows "tryParseAbyss (p @ body) = go_ret (abyss_ref body)"
proof (cases "CHR '':'' \<in> set body")
  case True
  then obtain h r where "body = h @ CHR '':'' # r" "CHR '':'' \<notin> set h" by (meson split_list_first)
  then show ?thesis using assms by (simp add: abyss_with_address)
qed (simp add: assms abyss_no_address)

lemma tryParse_prefix:
  assumes "HasPrefix s p" and "length p = 6"
  shows "tryParseAbyss s = go_ret (abyss_ref (drop 6 s))" "tryParseAbyst s = go_ret (abyst_ref (drop 6 s))"
proof -
  from assms obtain body where "s = p @ body" by (auto simp: HasPrefix_iff)
  then show "tryParseAbyss s = go_ret (abyss_ref (drop 6 s))" "tryParseAbyst s = go_ret (abyst_ref (drop 6 s))"
    using assms(2) by (simp_all add: abyss_ref_eq abyst_ref_eq)
qed

lemma TryParse_ref: "TryParse input = go_ret (aurl_ref input)"
  by (simp add: TryParse_def aurl_ref_def Let_def tryParse_prefix(1) [where p = "''abyss:''"]
      tryParse_prefix(2) [where p = "''abyst:''"])

section \<open>Parsed URLs are well formed\<close>

definition addr_ok :: "UDPAddr \<Rightarrow> bool" where
  "addr_ok a \<longleftrightarrow> length (IP a) = 16 \<and> int64 (Port a)"

lemma endpoint_ok: "endpoint ep = Some a \<Longrightarrow> addr_ok a"
  by (auto simp: endpoint_def addr_ok_def dest: ParseIP_length Atoi_int64 split: option.splits prod.splits)

lemma endpoints_ok: "list_all addr_ok (List.map_filter endpoint eps)"
  by (induction eps) (auto dest: endpoint_ok split: option.splits)

lemma abyss_ref_ok:
  assumes "abyss_ref body = Inr a"
  shows "Scheme a = ''abyss'' \<and> IsValidPeerID (Hash a) \<and> list_all addr_ok (Addresses a)"
  using assms endpoints_ok by (auto simp: abyss_ref_def Let_def split: if_splits)

lemma abyst_ref_ok:
  assumes "abyst_ref body = Inr a"
  shows "Scheme a = ''abyst'' \<and> Addresses a = [] \<and> (IsValidPeerID (Hash a) \<or> CHR ''/'' \<in> set body)"
  using assms by (auto simp: abyst_ref_def split: if_splits)

section \<open>Printing and parsing\<close>

text \<open>The addresses that survive: a 4-byte address comes back in its 16-byte form.\<close>

definition addr_printable :: "UDPAddr \<Rightarrow> bool" where
  "addr_printable a \<longleftrightarrow> (length (IP a) = 4 \<or> length (IP a) = 16) \<and> int64 (Port a)"

definition addr16 :: "UDPAddr \<Rightarrow> UDPAddr" where
  "addr16 a = a\<lparr>IP := To16 (IP a)\<rparr>"

definition ends_in_space :: "string \<Rightarrow> bool" where
  "ends_in_space s \<longleftrightarrow> space_at (map rev space_codes) (rev s) \<noteq> 0"

lemma Itoa_not: "set (Itoa i) \<inter> {CHR '':'', CHR ''|'', CHR ''/''} = {}"
  using Itoa_chars [of _ i] is_digit_not by fastforce

lemma UDPAddr_String_chars:
  assumes "addr_printable a"
  shows "set (UDPAddr_String a) \<inter> {CHR ''|'', CHR ''/''} = {}"
proof -
  have "set (IP_String (IP a)) \<inter> {CHR ''|'', CHR ''/''} = {}" "set (Itoa (Port a)) \<inter> {CHR ''|'', CHR ''/''} = {}"
    using IP_String_chars(1) [of "IP a"] Itoa_not [of "Port a"] assms by (auto simp: addr_printable_def)
  then show ?thesis by (auto simp: UDPAddr_String_def JoinHostPort_def split: if_splits)
qed

lemma endpoint_String:
  assumes "addr_printable a"
  shows "endpoint (UDPAddr_String a) = Some (addr16 a)"
proof -
  let ?h = "IP_String (IP a)" and ?p = "Itoa (Port a)"
  have ip: "length (IP a) = 4 \<or> length (IP a) = 16" "IP a \<noteq> []" and port: "int64 (Port a)"
    using assms by (auto simp: addr_printable_def)
  have h: "CHR '']'' \<notin> set ?h" "CHR ''['' \<notin> set ?h" "?h \<noteq> []" and p: "CHR '':'' \<notin> set ?p"
    using IP_String_chars [OF ip(1)] Itoa_not [of "Port a"] by auto
  have "host_port (UDPAddr_String a) = Some (?h, ?p)"
  proof (cases "CHR '':'' \<in> set ?h")
    case True
    moreover have "behind CHR '']'' (CHR ''['' # ?h @ CHR '']'' # CHR '':'' # ?p) = CHR '':'' # ?p"
      using before_behind_append(2) [of "CHR '']''" "CHR ''['' # ?h"] h(1) by simp
    ultimately show ?thesis
      using h ip(2) by (simp add: UDPAddr_String_def JoinHostPort_def host_port_def Let_def HasPrefix_def)
  next
    case False
    moreover from this have "Split (?h @ CHR '':'' # ?p) CHR '':'' = [?h, ?p]"
      using p by (simp add: Split_append Split_absent)
    moreover have "hd (?h @ CHR '':'' # ?p) \<noteq> CHR ''[''" using h(2,3) by (cases ?h) auto
    ultimately show ?thesis
      using h(2,3) ip(2) by (cases ?h) (simp_all add: UDPAddr_String_def JoinHostPort_def host_port_def HasPrefix_def)
  qed
  then show ?thesis
    using ParseIP_String [OF ip(1)] Atoi_Itoa [OF port] by (simp add: endpoint_def addr16_def)
qed

lemma endpoints_String:
  assumes "list_all addr_printable as" and "as \<noteq> []"
  shows "List.map_filter endpoint (Split (Join (map UDPAddr_String as) ''|'') CHR ''|'') = map addr16 as"
proof -
  have "\<forall>p \<in> set (map UDPAddr_String as). CHR ''|'' \<notin> set p"
    using assms(1) UDPAddr_String_chars by (fastforce simp: list_all_iff)
  then have "Split (Join (map UDPAddr_String as) ''|'') CHR ''|'' = map UDPAddr_String as"
    by (rule Split_Join [rotated]) (simp add: assms(2))
  moreover have "List.map_filter endpoint (map UDPAddr_String as) = map addr16 as"
    using assms(1) by (induction as) (simp_all add: endpoint_String)
  ultimately show ?thesis by simp
qed

lemma space_at_sep:
  assumes "\<forall>e \<in> set codes. byte_of c \<notin> set e"
  shows "space_at codes (xs @ c # ys) = space_at codes xs"
proof -
  have "e = map byte_of (take (length e) (xs @ c # ys)) \<longleftrightarrow> e = map byte_of (take (length e) xs)"
    if "e \<in> set codes" for e
  proof (cases "length e \<le> length xs")
    case False
    then have "c \<in> set (take (length e) (xs @ c # ys))"
      by (simp add: take_Cons' split: if_splits)
    then have "byte_of c \<in> set (map byte_of (take (length e) (xs @ c # ys)))"
      unfolding set_map by (rule imageI)
    moreover have "byte_of c \<notin> set e" using assms that by blast
    moreover have "length (map byte_of (take (length e) xs)) \<noteq> length e" using False by simp
    ultimately show ?thesis by metis
  qed simp
  then have "find (\<lambda>e. e = map byte_of (take (length e) (xs @ c # ys))) codes
      = find (\<lambda>e. e = map byte_of (take (length e) xs)) codes"
    by (intro find_cong) auto
  then show ?thesis by (simp add: space_at_def)
qed

lemma TrimSpace_url:
  assumes "\<not> ends_in_space path"
  shows "TrimSpace (CHR ''a'' # s @ CHR ''/'' # path) = CHR ''a'' # s @ CHR ''/'' # path"
proof (rule TrimSpace_id)
  show "space_at space_codes (CHR ''a'' # s @ CHR ''/'' # path) = 0"
    by (rule space_at_head) (simp add: space_codes_def)
  have "space_at (map rev space_codes) (rev path @ CHR ''/'' # rev s @ ''a'') = 0"
    using assms by (subst space_at_sep) (simp_all add: ends_in_space_def, simp add: space_codes_def)
  then show "space_at (map rev space_codes) (rev (CHR ''a'' # s @ CHR ''/'' # path)) = 0" by simp
qed

lemma ToString_shape:
  assumes "Scheme a = ''abyss''"
  obtains s where "ToString a = CHR ''a'' # s @ CHR ''/'' # Path a"
proof (cases "Addresses a = []")
  case True
  show ?thesis using that [of "''byss:'' @ Hash a"] True assms by (simp add: ToString_def)
next
  case False
  show ?thesis
    using that [of "''byss:'' @ Hash a @ '':'' @ Join (map UDPAddr_String (Addresses a)) ''|''"] False assms
    by (simp add: ToString_def)
qed

lemma abyss_ref_ToString:
  assumes "Scheme a = ''abyss''" and "IsValidPeerID (Hash a)" and "list_all addr_printable (Addresses a)"
    and "Addresses a = [] \<Longrightarrow> CHR '':'' \<notin> set (Path a)"
  shows "abyss_ref (drop 6 (ToString a)) = Inr (a\<lparr>Addresses := map addr16 (Addresses a)\<rparr>)"
proof -
  have h: "CHR '':'' \<notin> set (Hash a)" "CHR ''/'' \<notin> set (Hash a)"
    using valid_id_chars [OF assms(2)] by auto
  show ?thesis
  proof (cases "Addresses a = []")
    case True
    then show ?thesis using assms h by (simp add: ToString_def abyss_ref_def Let_def)
  next
    case False
    let ?ads = "Join (map UDPAddr_String (Addresses a)) ''|''"
    have "CHR ''/'' \<notin> set ?ads"
      using set_Join [of "map UDPAddr_String (Addresses a)" "''|''"] UDPAddr_String_chars assms(3)
      by (fastforce simp: list_all_iff)
    then show ?thesis using assms(1-3) h False endpoints_String [OF assms(3) False]
      by (simp add: ToString_def abyss_ref_def Let_def)
  qed
qed

lemma aurl_ref_ToString:
  assumes "Scheme a = ''abyss''" and "IsValidPeerID (Hash a)" and "list_all addr_printable (Addresses a)"
    and "Addresses a = [] \<Longrightarrow> CHR '':'' \<notin> set (Path a)" and "\<not> ends_in_space (Path a)"
  shows "aurl_ref (ToString a) = Inr (a\<lparr>Addresses := map addr16 (Addresses a)\<rparr>)"
proof -
  obtain s where "ToString a = CHR ''a'' # s @ CHR ''/'' # Path a" using ToString_shape [OF assms(1)] .
  then have "TrimSpace (ToString a) = ToString a" using TrimSpace_url [OF assms(5)] by simp
  moreover have "HasPrefix (ToString a) ''abyss:''" by (simp add: ToString_def HasPrefix_def assms(1))
  ultimately show ?thesis using abyss_ref_ToString [OF assms(1-4)] by (simp add: aurl_ref_def)
qed

section \<open>Properties\<close>

definition sample_hash :: hash where
  "sample_hash = ''I123456789ABCDEFGHJKLMNPQRSTUVWX''"

definition sample_url :: AURL where
  "sample_url = \<lparr>Scheme = ''abyss'', Hash = sample_hash,
     Addresses = [\<lparr>IP = [127, 0, 0, 1], Port = 1605\<rparr>,
       \<lparr>IP = [0x20, 1, 0xD, 0xB8, 0, 0, 0, 0, 0, 0, 0, 0, 0, 0, 0, 1], Port = 80\<rparr>],
     Path = ''home:main''\<rparr>"

text \<open>C21. The URL parser, which slices the input at computed indices, returns for every input and
  computes the reference parser: no index is ever out of range, not even when the first slash is
  before the first colon.\<close>

theorem TryParse_equals_reference: "TryParse input = go_ret (aurl_ref input)"
  by (rule TryParse_ref)

text \<open>C22. What the parser accepts: the scheme is abyss or abyst; an abyss URL has a valid peer hash
  and 16-byte addresses with ports that fit an int; an abyst URL has no addresses, and its hash is
  valid unless the text has a slash, behind which the code checks nothing.\<close>

theorem TryParse_well_formed:
  assumes "TryParse input s = Inr (Inr a, s')"
  shows "s' = s \<and> (Scheme a = ''abyss'' \<and> IsValidPeerID (Hash a) \<and> list_all addr_ok (Addresses a)
    \<or> Scheme a = ''abyst'' \<and> Addresses a = [] \<and> (IsValidPeerID (Hash a) \<or> CHR ''/'' \<in> set (TrimSpace input)))"
proof -
  have "aurl_ref input = Inr a" "s' = s" using assms by (simp_all add: TryParse_ref go_ret_def)
  then show ?thesis
    using abyss_ref_ok [of "drop 6 (TrimSpace input)" a] abyst_ref_ok [of "drop 6 (TrimSpace input)" a]
      in_set_dropD [of "CHR ''/''" 6 "TrimSpace input"]
    by (auto simp: aurl_ref_def Let_def split: if_splits)
qed

theorem TryParse_well_formed_witness:
  "TryParse (''abyss:'' @ sample_hash @ '':1.2.3.4:5|x'') () =
     Inr (Inr \<lparr>Scheme = ''abyss'', Hash = sample_hash, Addresses = [\<lparr>IP = IPv4 1 2 3 4, Port = 5\<rparr>], Path = []\<rparr>, ())
   \<and> list_all addr_ok [\<lparr>IP = IPv4 1 2 3 4, Port = 5\<rparr>]
   \<and> TryParse (''abyst:'' @ sample_hash) () = Inr (Inr \<lparr>Scheme = ''abyst'', Hash = sample_hash, Addresses = [], Path = []\<rparr>, ())
   \<and> IsValidPeerID sample_hash"
proof -
  have "TryParse (''abyss:'' @ sample_hash @ '':1.2.3.4:5|x'') () =
      Inr (Inr \<lparr>Scheme = ''abyss'', Hash = sample_hash, Addresses = [\<lparr>IP = IPv4 1 2 3 4, Port = 5\<rparr>], Path = []\<rparr>, ())"
    by code_simp
  moreover have "TryParse (''abyst:'' @ sample_hash) () = Inr (Inr \<lparr>Scheme = ''abyst'', Hash = sample_hash, Addresses = [], Path = []\<rparr>, ())"
    by code_simp
  moreover have "CHR ''/'' \<notin> set (TrimSpace (''abyst:'' @ sample_hash))" by code_simp
  ultimately show ?thesis
    using TryParse_well_formed [of "''abyss:'' @ sample_hash @ '':1.2.3.4:5|x''" "()"]
      TryParse_well_formed [of "''abyst:'' @ sample_hash" "()"] by simp
qed

text \<open>C23. Round trip. Let a URL have the scheme abyss, a valid peer hash, addresses of 4 or 16 bytes with ports
  that fit an int, and a path that does not end in white space and, when there are no addresses, has
  no colon. Printing it and parsing the text gives the URL back, with every address in its 16-byte
  form. Without the condition on colons it is false (\<open>colon_in_path_refused\<close>), and white space at the end is cut off.\<close>

theorem ToString_TryParse:
  assumes "Scheme a = ''abyss''" and "IsValidPeerID (Hash a)" and "list_all addr_printable (Addresses a)"
    and "Addresses a = [] \<longrightarrow> CHR '':'' \<notin> set (Path a)" and "\<not> ends_in_space (Path a)"
  shows "TryParse (ToString a) = go_ret (Inr (a\<lparr>Addresses := map addr16 (Addresses a)\<rparr>))"
  using assms aurl_ref_ToString by (simp add: TryParse_ref)

theorem ToString_TryParse_witness:
  "TryParse (ToString sample_url)
    = (go_ret (Inr (sample_url\<lparr>Addresses := [\<lparr>IP = IPv4 127 0 0 1, Port = 1605\<rparr>,
        \<lparr>IP = [0x20, 1, 0xD, 0xB8, 0, 0, 0, 0, 0, 0, 0, 0, 0, 0, 0, 1], Port = 80\<rparr>]\<rparr>)) :: (unit, string + AURL) go)"
proof -
  have "IsValidPeerID (Hash sample_url)" "\<not> ends_in_space (Path sample_url)" by code_simp+
  moreover have "Scheme sample_url = ''abyss''" "Addresses sample_url \<noteq> []"
    "list_all addr_printable (Addresses sample_url)"
    by (simp_all add: sample_url_def addr_printable_def int64_def)
  moreover have "map addr16 (Addresses sample_url) = [\<lparr>IP = IPv4 127 0 0 1, Port = 1605\<rparr>,
      \<lparr>IP = [0x20, 1, 0xD, 0xB8, 0, 0, 0, 0, 0, 0, 0, 0, 0, 0, 0, 1], Port = 80\<rparr>]"
    by (simp add: sample_url_def addr16_def To16_def IPv4_def)
  ultimately show ?thesis using ToString_TryParse [of sample_url] by metis
qed

text \<open>The gap in the round trip: a URL without addresses whose path contains a colon is printed
  to a text that the parser refuses, because it looks for the address list behind the first colon.\<close>

lemma colon_in_path_refused:
  assumes "Scheme a = ''abyss''" and "IsValidPeerID (Hash a)" and "Addresses a = []"
    and "CHR '':'' \<in> set (Path a)" and "\<not> ends_in_space (Path a)"
  shows "TryParse (ToString a) = go_ret (Inl ''invalid peer hash'')"
proof -
  have trim: "TrimSpace (ToString a) = ToString a"
    using ToString_shape [OF assms(1)] TrimSpace_url [OF assms(5)] by metis
  have "CHR '':'' \<notin> set (Hash a)" using valid_id_chars [OF assms(2)] by auto
  moreover obtain p r where "Path a = p @ CHR '':'' # r" "CHR '':'' \<notin> set p"
    using assms(4) by (meson split_list_first)
  moreover have "\<not> IsValidPeerID (Hash a @ CHR ''/'' # p)"
    using valid_id_chars [of "Hash a @ CHR ''/'' # p" "CHR ''/''"] by auto
  ultimately have "abyss_ref (drop 6 (ToString a)) = Inl ''invalid peer hash''"
    using assms(1,3) before_behind_append(1) [of "CHR '':''" "Hash a @ CHR ''/'' # p" r]
    by (simp add: ToString_def abyss_ref_def Let_def)
  moreover have "HasPrefix (ToString a) ''abyss:''" by (simp add: ToString_def HasPrefix_def assms(1))
  ultimately show ?thesis by (simp add: TryParse_ref aurl_ref_def trim)
qed

lemma colon_in_path_refused_sample:
  "TryParse (ToString (sample_url\<lparr>Addresses := []\<rparr>))
    = (go_ret (Inl ''invalid peer hash'') :: (unit, string + AURL) go)"
proof -
  have "Scheme sample_url = ''abyss''" "IsValidPeerID (Hash sample_url)"
    "CHR '':'' \<in> set (Path sample_url)" "\<not> ends_in_space (Path sample_url)"
    by code_simp+
  then show ?thesis by (intro colon_in_path_refused) simp_all
qed

end
