(* ===== verification/Interfaces.thy ===== *)
theory Interfaces
  imports Aurl
begin

text \<open>
  The data exchanged between the components (\<open>interfaces/*.go\<close>): peers and peer sessions,
  neighbor events, object descriptions, and the messages that the \<open>TrySend...\<close> methods of
  \<open>IANDPeer\<close> send. Go's embedded structs are record extensions. An interface value of type
  \<open>IANDPeer\<close> is an option (\<open>None\<close> is nil); a peer object is its identity and the identity
  hash that \<open>IDHash()\<close> returns, which never changes.
\<close>

section \<open>Peers and peer sessions\<close>

record IANDPeer =
  IDHash :: hash
  peer_ref :: nat

record ANDPeerSession =
  Peer :: "IANDPeer option"
  PeerSessionID :: uuid

record ANDPeerSessionWithTimeStamp = ANDPeerSession +
  TimeStamp :: time

record ANDPeerSessionIdentity =
  PeerHash :: hash
  SessionID :: uuid

record ANDFullPeerSessionIdentity =
  full_AURL :: AURL
  full_SessionID :: uuid
  full_TimeStamp :: time
  full_RootCertificateDer :: bytes
  full_HandshakeKeyCertificateDer :: bytes

record ObjectInfo =
  ID :: uuid
  Addr :: string
  Transform :: "32 word list"

record PeerCertificates =
  RootCertDer :: bytes
  HandshakeKeyCertDer :: bytes

section \<open>Neighbor events\<close>

datatype NeighborEventType =
    ANDSessionRequest | ANDSessionReady | ANDSessionClose | ANDJoinSuccess | ANDJoinFail
  | ANDWorldLeave | ANDConnectRequest | ANDTimerRequest | ANDPeerRegister
  | ANDObjectAppend | ANDObjectDelete | ANDNeighborEventDebug

text \<open>The dynamic values that the \<open>Object any\<close> field carries.\<close>

datatype any =
    AnyNil
  | AnyAURL AURL
  | AnyPeerCertificates PeerCertificates
  | AnyObjects "ObjectInfo list"
  | AnyObjectIDs "uuid list"

record NeighborEvent = ANDPeerSession +
  Type :: NeighborEventType
  LocalSessionID :: uuid
  Text :: string
  Value :: int
  Object :: any

text \<open>A composite literal leaves the fields it does not name at their zero values.\<close>

definition NeighborEvent_of :: "NeighborEventType \<Rightarrow> NeighborEvent" where
  "NeighborEvent_of t = \<lparr>Peer = None, PeerSessionID = uuid_Nil, Type = t,
     LocalSessionID = uuid_Nil, Text = '''', Value = 0, Object = AnyNil\<rparr>"

definition with_session :: "('a) ANDPeerSession_scheme \<Rightarrow> NeighborEvent \<Rightarrow> NeighborEvent" where
  "with_session ps e = e\<lparr>Peer := Peer ps, PeerSessionID := PeerSessionID ps\<rparr>"

lemma with_session_sel [simp]:
  "Peer (with_session ps e) = Peer ps"
  "PeerSessionID (with_session ps e) = PeerSessionID ps"
  "Type (with_session ps e) = Type e"
  "LocalSessionID (with_session ps e) = LocalSessionID e"
  "Text (with_session ps e) = Text e"
  "Value (with_session ps e) = Value e"
  "Object (with_session ps e) = Object e"
  by (simp_all add: with_session_def)

lemma NeighborEvent_of_sel [simp]:
  "Peer (NeighborEvent_of t) = None"
  "PeerSessionID (NeighborEvent_of t) = uuid_Nil"
  "Type (NeighborEvent_of t) = t"
  "LocalSessionID (NeighborEvent_of t) = uuid_Nil"
  "Text (NeighborEvent_of t) = ''''"
  "Value (NeighborEvent_of t) = 0"
  "Object (NeighborEvent_of t) = AnyNil"
  by (simp_all add: NeighborEvent_of_def)

section \<open>Results and messages\<close>

type_synonym ANDERROR = int

definition EINVAL :: ANDERROR where "EINVAL = 1"
definition EPANIC :: ANDERROR where "EPANIC = 2"

datatype ahmp_send =
    TrySendJN uuid string time
  | TrySendJOK uuid uuid time string "ANDPeerSessionWithTimeStamp list"
  | TrySendJDN uuid int string
  | TrySendJNI uuid uuid ANDPeerSessionWithTimeStamp
  | TrySendMEM uuid uuid time
  | TrySendSJN uuid uuid "ANDPeerSessionIdentity list"
  | TrySendCRR uuid uuid "ANDPeerSessionIdentity list"
  | TrySendRST uuid uuid string
  | TrySendSOA uuid uuid "ObjectInfo list"
  | TrySendSOD uuid uuid "uuid list"

section \<open>Message types\<close>

text \<open>The AHMP type code that each \<open>TrySend...\<close> method writes before the message body.\<close>

datatype ahmp_type = JN_T | JOK_T | JDN_T | JNI_T | MEM_T | SJN_T | CRR_T | RST_T | SOA_T | SOD_T

fun send_type :: "ahmp_send \<Rightarrow> ahmp_type" where
  "send_type (TrySendJN _ _ _) = JN_T"
| "send_type (TrySendJOK _ _ _ _ _) = JOK_T"
| "send_type (TrySendJDN _ _ _) = JDN_T"
| "send_type (TrySendJNI _ _ _) = JNI_T"
| "send_type (TrySendMEM _ _ _) = MEM_T"
| "send_type (TrySendSJN _ _ _) = SJN_T"
| "send_type (TrySendCRR _ _ _) = CRR_T"
| "send_type (TrySendRST _ _ _) = RST_T"
| "send_type (TrySendSOA _ _ _) = SOA_T"
| "send_type (TrySendSOD _ _ _) = SOD_T"

lemma all_ahmp_type:
  "(\<forall>t. P t) \<longleftrightarrow> P JN_T \<and> P JOK_T \<and> P JDN_T \<and> P JNI_T \<and> P MEM_T \<and> P SJN_T \<and> P CRR_T \<and> P RST_T
     \<and> P SOA_T \<and> P SOD_T" (is "?all \<longleftrightarrow> ?each")
proof
  assume ?each
  show ?all
  proof
    fix t
    show "P t" using \<open>?each\<close> by (cases t) simp_all
  qed
qed simp

end
