(* ===== verification/And_Diag.thy ===== *)
theory And_Diag
  imports Prelude
begin

text \<open>
  The diagnostic counters of the neighbor discovery module (\<open>and/and_diag.go\<close>): one counter
  per message type and direction, 36 branch counters of the API (\<open>_b\<close>) and 85 branch
  counters of the world state machine (\<open>_w\<close>). Incrementing a branch counter indexes a Go
  array, so an index out of range panics. A counter is an \<open>int\<close> of 64 bits that wraps around.
\<close>

type_synonym go_int = "64 word"

record ANDStatistics =
  JN_TX :: go_int
  JOK_TX :: go_int
  JDN_TX :: go_int
  JNI_TX :: go_int
  MEM_TX :: go_int
  SJN_TX :: go_int
  CRR_TX :: go_int
  RST_TX :: go_int
  SOA_TX :: go_int
  SOD_TX :: go_int
  JN_RX :: go_int
  JOK_RX :: go_int
  JDN_RX :: go_int
  JNI_RX :: go_int
  MEM_RX :: go_int
  SJN_RX :: go_int
  CRR_RX :: go_int
  RST_RX :: go_int
  SOA_RX :: go_int
  SOD_RX :: go_int
  stat_b :: "go_int list"
  stat_w :: "go_int list"

definition ANDStatistics_zero :: ANDStatistics where
  "ANDStatistics_zero = \<lparr>JN_TX = 0, JOK_TX = 0, JDN_TX = 0, JNI_TX = 0, MEM_TX = 0, SJN_TX = 0,
     CRR_TX = 0, RST_TX = 0, SOA_TX = 0, SOD_TX = 0, JN_RX = 0, JOK_RX = 0, JDN_RX = 0,
     JNI_RX = 0, MEM_RX = 0, SJN_RX = 0, CRR_RX = 0, RST_RX = 0, SOA_RX = 0, SOD_RX = 0,
     stat_b = replicate 36 0, stat_w = replicate 85 0\<rparr>"

definition ANDStatistics_B :: "nat \<Rightarrow> (ANDStatistics, unit) go" where
  "ANDStatistics_B i s =
     (if i < length (stat_b s) then Inr ((), s\<lparr>stat_b := (stat_b s)[i := stat_b s ! i + 1]\<rparr>)
      else Inl IndexRange)"

definition ANDStatistics_W :: "nat \<Rightarrow> (ANDStatistics, unit) go" where
  "ANDStatistics_W i s =
     (if i < length (stat_w s) then Inr ((), s\<lparr>stat_w := (stat_w s)[i := stat_w s ! i + 1]\<rparr>)
      else Inl IndexRange)"

text \<open>The arrays keep their lengths.\<close>

definition stat_wf :: "ANDStatistics \<Rightarrow> bool" where
  "stat_wf s \<longleftrightarrow> length (stat_b s) = 36 \<and> length (stat_w s) = 85"

lemma stat_wf_zero [simp]: "stat_wf ANDStatistics_zero"
  by (simp add: stat_wf_def ANDStatistics_zero_def)

lemma wpx_stat_B [wp_rules]:
  "wpx b (ANDStatistics_B i) Q s =
     (if i < length (stat_b s) then Q () (s\<lparr>stat_b := (stat_b s)[i := stat_b s ! i + 1]\<rparr>) else b)"
  by (simp add: wpx_def ANDStatistics_B_def)

lemma wpx_stat_W [wp_rules]:
  "wpx b (ANDStatistics_W i) Q s =
     (if i < length (stat_w s) then Q () (s\<lparr>stat_w := (stat_w s)[i := stat_w s ! i + 1]\<rparr>) else b)"
  by (simp add: wpx_def ANDStatistics_W_def)

end
