(* ===== verification/And_World.thy ===== *)
theory And_World
  imports Interfaces And_Diag
begin

text \<open>
  The per-world state machine of the neighbor discovery algorithm (\<open>and/world.go\<close>,
  \<open>and/consts.go\<close>): data and operations.

  A world keeps one cell per known peer. Every cell is allocated by
  \<open>NewANDPeerSessionState\<close> and stored in exactly one slot of \<open>w.peers\<close>, so a pointer to a
  cell is named by the slot that owns it: \<open>info_at k\<close> dereferences it (a missing slot is the
  nil pointer) and \<open>set_info k\<close> writes through it. No statement of the code uses a cell
  after its slot has been deleted.

  The operations run on a context \<open>wctx\<close>: the world itself, the counters of the AND object it
  points to, the event channel (the sequence of all events sent to it) and the sequence of
  messages handed to the peers. Clock readings, random draws and the order in which a map is
  ranged over are arguments.
\<close>

section \<open>Constants and data\<close>

datatype ws =
    WS_DC_JT | WS_DC_JNI | WS_CC | WS_JT | WS_JN
  | WS_RMEM_NJNI | WS_JNI | WS_RMEM | WS_TMEM | WS_MEM

definition JNC_REDUNDANT :: int where "JNC_REDUNDANT = 110"
definition JNC_NOT_FOUND :: int where "JNC_NOT_FOUND = 404"
definition JNC_DUPLICATE :: int where "JNC_DUPLICATE = 480"
definition JNC_CANCELED :: int where "JNC_CANCELED = 498"
definition JNC_CLOSED :: int where "JNC_CLOSED = 499"
definition JNC_COLLISION :: int where "JNC_COLLISION = 520"
definition JNC_INVALID_STATES :: int where "JNC_INVALID_STATES = 521"
definition JNC_EXPIRED :: int where "JNC_EXPIRED = 530"
definition JNC_RESET :: int where "JNC_RESET = 598"
definition JNC_REJECTED :: int where "JNC_REJECTED = 599"

definition JNM_NOT_FOUND :: string where "JNM_NOT_FOUND = ''Not Found''"
definition JNM_DUPLICATE :: string where "JNM_DUPLICATE = ''Duplicate Join''"
definition JNM_CANCELED :: string where "JNM_CANCELED = ''Join Canceled''"
definition JNM_INVALID_STATES :: string where "JNM_INVALID_STATES = ''Invalid States''"

record ANDPeerSessionState = ANDPeerSessionWithTimeStamp +
  state :: ws
  sjnp :: bool
  sjnc :: int

record ANDWorld =
  local :: hash
  lsid :: uuid
  timestamp :: time
  join_hash :: hash
  join_path :: string
  wurl :: string
  peers :: "hash \<rightharpoonup> ANDPeerSessionState"

record wctx =
  cw :: ANDWorld
  o_stat :: ANDStatistics
  ech :: "NeighborEvent list"
  sent :: "(IANDPeer \<times> ahmp_send) list"

definition NewANDPeerSessionState ::
    "IANDPeer option \<Rightarrow> uuid \<Rightarrow> time \<Rightarrow> ws \<Rightarrow> ANDPeerSessionState" where
  "NewANDPeerSessionState peer session_id ts st =
     \<lparr>Peer = peer, PeerSessionID = session_id, TimeStamp = ts,
      state = st, sjnp = False, sjnc = 0\<rparr>"

text \<open>\<open>Clear\<close> on a cell: a cell with no peer must be removed instead.\<close>

definition ANDPeerSessionState_Clear :: "(ANDPeerSessionState, unit) go" where
  "ANDPeerSessionState_Clear s =
     (case Peer s of
        None \<Rightarrow> Inl (Panic ''this peer must be removed, not cleared'')
      | Some _ \<Rightarrow> Inr ((), s\<lparr>PeerSessionID := uuid_Nil, TimeStamp := zero_time,
                             state := WS_CC, sjnp := False, sjnc := 0\<rparr>))"

section \<open>Primitive statements\<close>

definition stat_W :: "nat \<Rightarrow> (wctx, unit) go" where
  "stat_W i = go_zoom o_stat (\<lambda>x s. s\<lparr>o_stat := x\<rparr>) (ANDStatistics_W i)"

definition stat_inc :: "((go_int \<Rightarrow> go_int) \<Rightarrow> ANDStatistics \<Rightarrow> ANDStatistics) \<Rightarrow> (wctx, unit) go" where
  "stat_inc fld = go_modify (\<lambda>s. s\<lparr>o_stat := fld (\<lambda>n. n + 1) (o_stat s)\<rparr>)"

definition emit :: "NeighborEvent \<Rightarrow> (wctx, unit) go" where
  "emit e = go_modify (\<lambda>s. s\<lparr>ech := ech s @ [e]\<rparr>)"

definition send_to :: "IANDPeer option \<Rightarrow> ahmp_send \<Rightarrow> (wctx, unit) go" where
  "send_to p m = go_bind (go_nonnil p) (\<lambda>q. go_modify (\<lambda>s. s\<lparr>sent := sent s @ [(q, m)]\<rparr>))"

definition IDHash_of :: "IANDPeer option \<Rightarrow> (wctx, hash) go" where
  "IDHash_of p = go_bind (go_nonnil p) (\<lambda>q. go_ret (IDHash q))"

definition lookup_info :: "hash \<Rightarrow> (wctx, ANDPeerSessionState option) go" where
  "lookup_info k = go_read (\<lambda>s. peers (cw s) k)"

definition info_at :: "hash \<Rightarrow> (wctx, ANDPeerSessionState) go" where
  "info_at k = go_bind (lookup_info k) go_nonnil"

definition put_info :: "hash \<Rightarrow> ANDPeerSessionState \<Rightarrow> (wctx, unit) go" where
  "put_info k i = go_modify (\<lambda>s. s\<lparr>cw := (cw s)\<lparr>peers := (peers (cw s))(k \<mapsto> i)\<rparr>\<rparr>)"

definition delete_info :: "hash \<Rightarrow> (wctx, unit) go" where
  "delete_info k = go_modify (\<lambda>s. s\<lparr>cw := (cw s)\<lparr>peers := (peers (cw s))(k := None)\<rparr>\<rparr>)"

definition set_info ::
    "hash \<Rightarrow> (ANDPeerSessionState \<Rightarrow> ANDPeerSessionState) \<Rightarrow> (wctx, unit) go" where
  "set_info k f = go_bind (info_at k) (\<lambda>i. put_info k (f i))"

definition clear_info :: "hash \<Rightarrow> (wctx, unit) go" where
  "clear_info k = go_bind (info_at k) (\<lambda>i.
     case ANDPeerSessionState_Clear i of
       Inl e \<Rightarrow> go_panic e
     | Inr (_, i') \<Rightarrow> put_info k i')"

definition the_world :: "(wctx, ANDWorld) go" where
  "the_world = go_read cw"

definition range_peers ::
    "hash list \<Rightarrow> (hash \<Rightarrow> ANDPeerSessionState \<Rightarrow> (wctx, unit) go) \<Rightarrow> (wctx, unit) go" where
  "range_peers ord body = go_for ord (\<lambda>k. go_bind (lookup_info k) (\<lambda>i.
     case i of None \<Rightarrow> go_ret () | Some info \<Rightarrow> body k info))"

definition range_peers_acc ::
    "hash list \<Rightarrow> (hash \<Rightarrow> ANDPeerSessionState \<Rightarrow> 'a \<Rightarrow> (wctx, 'a) go) \<Rightarrow> 'a \<Rightarrow> (wctx, 'a) go" where
  "range_peers_acc ord body a = go_fold ord (\<lambda>k a. go_bind (lookup_info k) (\<lambda>i.
     case i of None \<Rightarrow> go_ret a | Some info \<Rightarrow> body k info a)) a"

text \<open>\<open>rand.Intn\<close> on a raw draw \<open>r\<close>; it panics on a non-positive bound.\<close>

definition rand_Intn :: "nat \<Rightarrow> int \<Rightarrow> ('s, int) go" where
  "rand_Intn r n =
     (if n \<le> 0 then go_panic (Panic ''invalid argument to Intn'') else go_ret (int r mod n))"

section \<open>Events of a world\<close>

definition session_event ::
    "NeighborEventType \<Rightarrow> uuid \<Rightarrow> 'a ANDPeerSession_scheme \<Rightarrow> NeighborEvent" where
  "session_event t local_session ps =
     with_session ps ((NeighborEvent_of t)\<lparr>LocalSessionID := local_session\<rparr>)"

definition join_fail_event :: "uuid \<Rightarrow> string \<Rightarrow> int \<Rightarrow> NeighborEvent" where
  "join_fail_event local_session text code =
     (NeighborEvent_of ANDJoinFail)\<lparr>LocalSessionID := local_session, Text := text, Value := code\<rparr>"

definition join_success_event :: "uuid \<Rightarrow> string \<Rightarrow> NeighborEvent" where
  "join_success_event local_session url =
     (NeighborEvent_of ANDJoinSuccess)\<lparr>LocalSessionID := local_session, Text := url\<rparr>"

definition timer_event :: "uuid \<Rightarrow> int \<Rightarrow> NeighborEvent" where
  "timer_event local_session ms =
     (NeighborEvent_of ANDTimerRequest)\<lparr>LocalSessionID := local_session, Value := ms\<rparr>"

section \<open>Creating a world\<close>

definition zero_world :: ANDWorld where
  "zero_world = \<lparr>local = '''', lsid = uuid_Nil, timestamp = zero_time, join_hash = '''',
     join_path = '''', wurl = '''', peers = Map.empty\<rparr>"

definition NewWorldOpen ::
    "hash list \<Rightarrow> time \<Rightarrow> hash \<Rightarrow> uuid \<Rightarrow> string \<Rightarrow> (hash \<rightharpoonup> IANDPeer) \<Rightarrow> (wctx, unit) go" where
  "NewWorldOpen ord now local_hash local_session_id world_url connected_members =
     go_block [
       go_modify (\<lambda>s. s\<lparr>cw := zero_world\<lparr>local := local_hash, lsid := local_session_id,
         timestamp := now, join_hash := '''', join_path := '''', wurl := world_url\<rparr>\<rparr>),
       go_for ord (\<lambda>peer_id. case connected_members peer_id of
           None \<Rightarrow> go_ret ()
         | Some peer \<Rightarrow> go_block [
             stat_W 0,
             put_info peer_id (NewANDPeerSessionState (Some peer) uuid_Nil zero_time WS_CC)]),
       emit (join_success_event local_session_id world_url),
       emit (timer_event local_session_id 500)]"

definition NewWorldJoin ::
    "hash list \<Rightarrow> time \<Rightarrow> hash \<Rightarrow> uuid \<Rightarrow> AURL \<Rightarrow> (hash \<rightharpoonup> IANDPeer) \<Rightarrow> (wctx, unit) go" where
  "NewWorldJoin ord now local_hash local_session_id target connected_members =
     go_block [
       go_modify (\<lambda>s. s\<lparr>cw := zero_world\<lparr>local := local_hash, lsid := local_session_id,
         timestamp := now, join_hash := Hash target, join_path := Path target\<rparr>\<rparr>),
       go_for ord (\<lambda>peer_id. case connected_members peer_id of
           None \<Rightarrow> go_ret ()
         | Some peer \<Rightarrow> go_block [
             stat_W 1,
             put_info peer_id (NewANDPeerSessionState (Some peer) uuid_Nil zero_time WS_CC)]),
       go_bind (lookup_info (Hash target)) (\<lambda>connected_target.
         case connected_target of
           Some info \<Rightarrow> go_block [
             stat_W 2,
             set_info (Hash target) (\<lambda>i. i\<lparr>state := WS_JT\<rparr>),
             stat_inc JN_TX_update,
             send_to (Peer info) (TrySendJN local_session_id (Path target) now)]
         | None \<Rightarrow> go_block [
             stat_W 3,
             put_info (Hash target) (NewANDPeerSessionState None uuid_Nil zero_time WS_DC_JT),
             emit ((NeighborEvent_of ANDConnectRequest)\<lparr>Object := AnyAURL target\<rparr>)])]"

section \<open>Resetting and replacing sessions\<close>

text \<open>\<open>ip\<close> is the cell the \<open>info\<close> pointer refers to, \<open>peer_id\<close> the key to delete.\<close>

definition ClearStates :: "hash \<Rightarrow> hash \<Rightarrow> string \<Rightarrow> (wctx, unit) go" where
  "ClearStates peer_id ip message =
     go_bind the_world (\<lambda>w. go_bind (info_at ip) (\<lambda>info.
       let reset = go_block [
             stat_inc RST_TX_update,
             send_to (Peer info) (TrySendRST (lsid w) (PeerSessionID info)
               (''ClearStates::else '' @ message)),
             clear_info ip]
       in case state info of
         WS_DC_JT \<Rightarrow> delete_info peer_id
       | WS_DC_JNI \<Rightarrow> delete_info peer_id
       | WS_CC \<Rightarrow> clear_info ip
       | WS_JT \<Rightarrow> go_block [
           stat_inc RST_TX_update,
           send_to (Peer info) (TrySendRST (lsid w) (PeerSessionID info)
             (''ClearStates::WS_JT '' @ message)),
           emit (join_fail_event (lsid w) JNM_INVALID_STATES JNC_INVALID_STATES),
           clear_info ip]
       | WS_JN \<Rightarrow> go_block [
           stat_inc JDN_TX_update,
           send_to (Peer info) (TrySendJDN (PeerSessionID info)
             JNC_INVALID_STATES JNM_INVALID_STATES),
           clear_info ip]
       | WS_MEM \<Rightarrow> go_block [
           emit (session_event ANDSessionClose (lsid w) info),
           reset]
       | WS_RMEM_NJNI \<Rightarrow> reset
       | WS_JNI \<Rightarrow> reset
       | WS_RMEM \<Rightarrow> reset
       | WS_TMEM \<Rightarrow> reset))"

definition TryUpdateSessionID :: "hash \<Rightarrow> uuid \<Rightarrow> time \<Rightarrow> (wctx, bool) go" where
  "TryUpdateSessionID ip session_id ts =
     go_bind (info_at ip) (\<lambda>s.
       if TimeStamp s < ts then
         go_bind (IDHash_of (Peer s)) (\<lambda>peer_id.
         go_bind (go_block [
             ClearStates peer_id ip ''session id update failure'',
             set_info ip (\<lambda>i. i\<lparr>PeerSessionID := session_id, TimeStamp := ts\<rparr>)]) (\<lambda>_.
         go_ret True))
       else go_ret False)"

definition IsProperMemberOrReset :: "hash \<Rightarrow> ANDPeerSession \<Rightarrow> (wctx, bool) go" where
  "IsProperMemberOrReset ip peer_session =
     go_bind (info_at ip) (\<lambda>info.
       let clear = go_bind (IDHash_of (Peer info)) (\<lambda>peer_id.
                   go_bind (ClearStates peer_id ip ''non-member reset'') (\<lambda>_.
                   go_ret False))
       in case state info of
         WS_DC_JT \<Rightarrow> go_panic (Panic ''not connected'')
       | WS_DC_JNI \<Rightarrow> go_panic (Panic ''not connected'')
       | WS_MEM \<Rightarrow>
           if PeerSessionID info = PeerSessionID peer_session then go_ret True else clear
       | _ \<Rightarrow> clear)"

section \<open>Connections and join messages\<close>

definition ANDWorld_PeerConnected :: "IANDPeer \<Rightarrow> (wctx, unit) go" where
  "ANDWorld_PeerConnected peer =
     go_bind the_world (\<lambda>w. go_bind (lookup_info (IDHash peer)) (\<lambda>i.
       case i of
         Some info \<Rightarrow> go_block [
           stat_W 4,
           case state info of
             WS_DC_JT \<Rightarrow> go_block [
               stat_W 5,
               set_info (IDHash peer) (\<lambda>i. i\<lparr>Peer := Some peer\<rparr>),
               stat_inc JN_TX_update,
               send_to (Some peer) (TrySendJN (lsid w) (join_path w) (timestamp w)),
               set_info (IDHash peer) (\<lambda>i. i\<lparr>state := WS_JT\<rparr>)]
           | WS_DC_JNI \<Rightarrow> go_block [
               stat_W 6,
               set_info (IDHash peer) (\<lambda>i. i\<lparr>Peer := Some peer, state := WS_JNI\<rparr>),
               go_bind (info_at (IDHash peer)) (\<lambda>info.
                 emit (session_event ANDSessionRequest (lsid w) info))]
           | _ \<Rightarrow> go_panic (Panic ''and: duplicate connection'')]
       | None \<Rightarrow>
           put_info (IDHash peer) (NewANDPeerSessionState (Some peer) uuid_Nil zero_time WS_CC)))"

definition ANDWorld_JN :: "ANDPeerSession \<Rightarrow> time \<Rightarrow> (wctx, unit) go" where
  "ANDWorld_JN peer_session ts =
     go_block [stat_inc JN_RX_update,
       go_bind the_world (\<lambda>w. go_bind (IDHash_of (Peer peer_session)) (\<lambda>ip.
       go_bind (info_at ip) (\<lambda>info.
         let update = go_block [
               stat_W 9,
               go_bind (TryUpdateSessionID ip (PeerSessionID peer_session) ts) (\<lambda>updated.
                 if updated then go_block [
                   stat_W 10,
                   set_info ip (\<lambda>i. i\<lparr>state := WS_JN\<rparr>),
                   emit (session_event ANDSessionRequest (lsid w) peer_session)]
                 else go_block [
                   stat_W 11,
                   stat_inc JDN_TX_update,
                   send_to (Peer peer_session) (TrySendJDN (PeerSessionID peer_session)
                     JNC_DUPLICATE JNM_DUPLICATE)])]
         in case state info of
           WS_CC \<Rightarrow> go_block [
             stat_W 7,
             set_info ip (\<lambda>i. i\<lparr>Peer := Peer peer_session,
               PeerSessionID := PeerSessionID peer_session, TimeStamp := ts, state := WS_JN\<rparr>),
             emit (session_event ANDSessionRequest (lsid w) peer_session)]
         | WS_JT \<Rightarrow> go_block [
             stat_W 8,
             stat_inc JDN_TX_update,
             send_to (Peer peer_session) (TrySendJDN (PeerSessionID peer_session)
               JNC_INVALID_STATES JNM_INVALID_STATES)]
         | WS_DC_JT \<Rightarrow> go_panic (Panic ''and invalid state: JN'')
         | WS_DC_JNI \<Rightarrow> go_panic (Panic ''and invalid state: JN'')
         | _ \<Rightarrow> update)))]"

definition ANDWorld_JDN :: "IANDPeer \<Rightarrow> int \<Rightarrow> string \<Rightarrow> (wctx, unit) go" where
  "ANDWorld_JDN peer code message =
     go_block [stat_inc JDN_RX_update,
       go_bind the_world (\<lambda>w.
       go_bind (if join_hash w \<noteq> IDHash peer then go_ret True
                else go_bind (info_at (IDHash peer)) (\<lambda>info. go_ret (state info \<noteq> WS_JT)))
         (\<lambda>ignored.
           if ignored then stat_W 15
           else go_block [
             stat_W 16,
             emit (join_fail_event (lsid w) message code),
             clear_info (IDHash peer)]))]"

section \<open>Member introduction\<close>

definition ANDWorld_JNI_MEMS :: "hash \<Rightarrow> ANDFullPeerSessionIdentity \<Rightarrow> (wctx, unit) go" where
  "ANDWorld_JNI_MEMS sender_id mem_info =
     go_bind the_world (\<lambda>w.
     let peer_id = Hash (full_AURL mem_info);
         sid = full_SessionID mem_info;
         ts = full_TimeStamp mem_info;
         request = go_bind (info_at peer_id) (\<lambda>info.
           emit (session_event ANDSessionRequest (lsid w) info));
         introduced = go_block [set_info peer_id (\<lambda>i. i\<lparr>state := WS_JNI\<rparr>), request];
         known = go_bind (TryUpdateSessionID peer_id sid ts) (\<lambda>updated.
           if updated then go_block [stat_W 27, introduced] else stat_W 28)
     in if peer_id = local w then stat_W 19
     else go_bind (lookup_info peer_id) (\<lambda>i. case i of
       None \<Rightarrow> go_block [
         stat_W 20,
         put_info peer_id (NewANDPeerSessionState None sid ts WS_DC_JNI),
         emit ((NeighborEvent_of ANDPeerRegister)\<lparr>Object := AnyPeerCertificates
           \<lparr>RootCertDer = full_RootCertificateDer mem_info,
            HandshakeKeyCertDer = full_HandshakeKeyCertificateDer mem_info\<rparr>\<rparr>),
         emit ((NeighborEvent_of ANDConnectRequest)\<lparr>Object := AnyAURL (full_AURL mem_info)\<rparr>)]
     | Some info \<Rightarrow> (case state info of
         WS_DC_JT \<Rightarrow> go_panic (Panic ''and: proper member check failed (JNI)'')
       | WS_JT \<Rightarrow> go_panic (Panic ''and: proper member check failed (JNI)'')
       | WS_DC_JNI \<Rightarrow> go_block [
           stat_W 21,
           if TimeStamp info < ts
           then set_info peer_id (\<lambda>i. i\<lparr>PeerSessionID := sid, TimeStamp := ts, state := WS_DC_JNI\<rparr>)
           else go_ret ()]
       | WS_CC \<Rightarrow> go_block [
           stat_W 22,
           set_info peer_id (\<lambda>i. i\<lparr>PeerSessionID := sid, TimeStamp := ts, state := WS_JNI\<rparr>),
           request]
       | WS_JN \<Rightarrow> go_block [
           stat_W 23,
           go_bind (TryUpdateSessionID peer_id sid ts) (\<lambda>updated.
             if updated then introduced else go_ret ())]
       | WS_RMEM_NJNI \<Rightarrow> go_block [
           stat_W 24,
           go_bind (TryUpdateSessionID peer_id sid ts) (\<lambda>updated.
             if updated then go_block [stat_W 25, introduced]
             else go_bind (info_at peer_id) (\<lambda>info.
               if PeerSessionID info = sid then go_block [
                 stat_W 26,
                 set_info peer_id (\<lambda>i. i\<lparr>state := WS_RMEM\<rparr>),
                 request]
               else go_ret ()))]
       | WS_JNI \<Rightarrow> known
       | WS_RMEM \<Rightarrow> known
       | WS_TMEM \<Rightarrow> known
       | WS_MEM \<Rightarrow> known)))"

definition ANDWorld_JOK ::
    "ANDPeerSession \<Rightarrow> time \<Rightarrow> string \<Rightarrow> ANDFullPeerSessionIdentity list \<Rightarrow> (wctx, unit) go" where
  "ANDWorld_JOK peer_session ts world_url member_infos =
     go_block [stat_inc JOK_RX_update,
       go_bind the_world (\<lambda>w. go_bind (IDHash_of (Peer peer_session)) (\<lambda>sender_id.
       go_bind (if join_hash w \<noteq> sender_id then go_ret True
                else go_bind (info_at sender_id) (\<lambda>info. go_ret (state info \<noteq> WS_JT)))
         (\<lambda>rejected.
           if rejected then go_block [
             stat_W 12,
             stat_inc RST_TX_update,
             send_to (Peer peer_session) (TrySendRST (lsid w) (PeerSessionID peer_session)
               ''JOK::not WS_JT'')]
           else go_block [
             stat_W 13,
             set_info sender_id (\<lambda>i. i\<lparr>Peer := Peer peer_session,
               PeerSessionID := PeerSessionID peer_session, TimeStamp := ts\<rparr>),
             emit (join_success_event (lsid w) world_url),
             emit (session_event ANDSessionRequest (lsid w) peer_session),
             set_info sender_id (\<lambda>i. i\<lparr>state := WS_RMEM, sjnp := True\<rparr>),
             go_for member_infos (\<lambda>mem_info. go_block [
               stat_W 14,
               ANDWorld_JNI_MEMS sender_id mem_info])])))]"

definition ANDWorld_JNI ::
    "ANDPeerSession \<Rightarrow> ANDFullPeerSessionIdentity \<Rightarrow> (wctx, unit) go" where
  "ANDWorld_JNI peer_session member_info =
     go_block [stat_inc JNI_RX_update,
       go_bind (IDHash_of (Peer peer_session)) (\<lambda>sender_id.
       go_bind (IsProperMemberOrReset sender_id peer_session) (\<lambda>proper.
         if \<not> proper then stat_W 17
         else go_block [stat_W 18, ANDWorld_JNI_MEMS sender_id member_info]))]"

definition ANDWorld_MEM :: "ANDPeerSession \<Rightarrow> time \<Rightarrow> (wctx, unit) go" where
  "ANDWorld_MEM peer_session ts =
     go_block [stat_inc MEM_RX_update,
       go_bind the_world (\<lambda>w. go_bind (IDHash_of (Peer peer_session)) (\<lambda>ip.
       go_bind (info_at ip) (\<lambda>info.
         let unknown = go_bind (TryUpdateSessionID ip (PeerSessionID peer_session) ts) (\<lambda>updated.
               if updated then go_block [stat_W 31, set_info ip (\<lambda>i. i\<lparr>state := WS_RMEM_NJNI\<rparr>)]
               else stat_W 32)
         in case state info of
           WS_CC \<Rightarrow> go_block [
             stat_W 29,
             set_info ip (\<lambda>i. i\<lparr>Peer := Peer peer_session,
               PeerSessionID := PeerSessionID peer_session, TimeStamp := ts,
               state := WS_RMEM_NJNI\<rparr>)]
         | WS_JT \<Rightarrow> go_block [
             stat_W 30,
             ClearStates ip ip ''received MEM from WS_JT'']
         | WS_JN \<Rightarrow> unknown
         | WS_RMEM_NJNI \<Rightarrow> unknown
         | WS_RMEM \<Rightarrow> unknown
         | WS_MEM \<Rightarrow> unknown
         | WS_JNI \<Rightarrow>
             go_bind (TryUpdateSessionID ip (PeerSessionID peer_session) ts) (\<lambda>updated.
               if updated then go_block [stat_W 33, set_info ip (\<lambda>i. i\<lparr>state := WS_RMEM_NJNI\<rparr>)]
               else go_block [
                 go_bind (info_at ip) (\<lambda>info.
                   if PeerSessionID info = PeerSessionID peer_session
                   then go_block [stat_W 34, set_info ip (\<lambda>i. i\<lparr>state := WS_RMEM\<rparr>)]
                   else go_ret ()),
                 stat_W 35])
         | WS_TMEM \<Rightarrow> go_block [
             stat_W 36,
             go_bind (TryUpdateSessionID ip (PeerSessionID peer_session) ts) (\<lambda>updated.
               if updated then go_block [stat_W 37, set_info ip (\<lambda>i. i\<lparr>state := WS_RMEM_NJNI\<rparr>)]
               else go_block [
                 go_bind (info_at ip) (\<lambda>info.
                   if PeerSessionID info = PeerSessionID peer_session
                   then go_block [
                     stat_W 38,
                     set_info ip (\<lambda>i. i\<lparr>state := WS_MEM\<rparr>),
                     go_bind (info_at ip) (\<lambda>info.
                       emit (session_event ANDSessionReady (lsid w) info))]
                   else go_ret ()),
                 stat_W 39])]
         | WS_DC_JT \<Rightarrow> go_panic (Panic ''and: impossible disconnected state'')
         | WS_DC_JNI \<Rightarrow> go_panic (Panic ''and: impossible disconnected state''))))]"

section \<open>Membership repair and objects\<close>

definition ANDWorld_SJN_MEMS ::
    "ANDPeerSession \<Rightarrow> ANDPeerSessionIdentity \<Rightarrow> (wctx, unit) go" where
  "ANDWorld_SJN_MEMS origin mem_info =
     go_bind the_world (\<lambda>w.
       if PeerHash mem_info = local w then stat_W 42
       else go_bind (lookup_info (PeerHash mem_info)) (\<lambda>i.
         let missing = go_block [
               stat_inc CRR_TX_update,
               send_to (Peer origin) (TrySendCRR (lsid w) (PeerSessionID origin) [mem_info])]
         in case i of
           None \<Rightarrow> missing
         | Some info \<Rightarrow>
             if state info = WS_MEM \<and> PeerSessionID info = SessionID mem_info
             then go_block [stat_W 43, set_info (PeerHash mem_info) (\<lambda>i. i\<lparr>sjnc := sjnc i + 1\<rparr>)]
             else missing))"

definition ANDWorld_SJN ::
    "ANDPeerSession \<Rightarrow> ANDPeerSessionIdentity list \<Rightarrow> (wctx, unit) go" where
  "ANDWorld_SJN peer_session member_infos =
     go_block [stat_inc SJN_RX_update,
       go_bind (IDHash_of (Peer peer_session)) (\<lambda>ip.
       go_bind (IsProperMemberOrReset ip peer_session) (\<lambda>proper.
         if \<not> proper then stat_W 40
         else go_for member_infos (\<lambda>mem_info. go_block [
           stat_W 41,
           ANDWorld_SJN_MEMS peer_session mem_info])))]"

definition ANDWorld_CRR_MEMS :: "hash \<Rightarrow> ANDPeerSessionIdentity \<Rightarrow> (wctx, unit) go" where
  "ANDWorld_CRR_MEMS origin_ip mem_info =
     go_bind the_world (\<lambda>w.
       if PeerHash mem_info = local w then stat_W 46
       else go_bind (lookup_info (PeerHash mem_info)) (\<lambda>i. case i of
         None \<Rightarrow> go_ret ()
       | Some info \<Rightarrow>
           if PeerSessionID info = SessionID mem_info
           then go_bind (info_at origin_ip) (\<lambda>origin. go_block [
             stat_W 47,
             stat_inc JNI_TX_update,
             send_to (Peer origin) (TrySendJNI (lsid w) (PeerSessionID origin)
               (ANDPeerSessionWithTimeStamp.truncate info)),
             stat_inc JNI_TX_update,
             send_to (Peer info) (TrySendJNI (lsid w) (PeerSessionID info)
               (ANDPeerSessionWithTimeStamp.truncate origin))])
           else go_ret ()))"

definition ANDWorld_CRR ::
    "ANDPeerSession \<Rightarrow> ANDPeerSessionIdentity list \<Rightarrow> (wctx, unit) go" where
  "ANDWorld_CRR peer_session member_infos =
     go_block [stat_inc CRR_RX_update,
       go_bind (IDHash_of (Peer peer_session)) (\<lambda>ip.
       go_bind (IsProperMemberOrReset ip peer_session) (\<lambda>proper.
         if \<not> proper then stat_W 44
         else go_for member_infos (\<lambda>mem_info. go_block [
           stat_W 45,
           ANDWorld_CRR_MEMS ip mem_info])))]"

definition ANDWorld_SOA :: "ANDPeerSession \<Rightarrow> ObjectInfo list \<Rightarrow> (wctx, unit) go" where
  "ANDWorld_SOA peer_session objects =
     go_block [stat_inc SOA_RX_update,
       go_bind the_world (\<lambda>w. go_bind (IDHash_of (Peer peer_session)) (\<lambda>ip.
       go_bind (info_at ip) (\<lambda>info.
         if PeerSessionID info \<noteq> PeerSessionID peer_session then go_block [
           stat_W 48,
           stat_inc RST_TX_update,
           send_to (Peer peer_session) (TrySendRST (lsid w) (PeerSessionID peer_session)
             ''SOA::sessionID mismatch'')]
         else if state info = WS_MEM then go_block [
           stat_W 49,
           emit ((session_event ANDObjectAppend (lsid w) peer_session)
             \<lparr>Object := AnyObjects objects\<rparr>)]
         else stat_W 50)))]"

definition ANDWorld_SOD :: "ANDPeerSession \<Rightarrow> uuid list \<Rightarrow> (wctx, unit) go" where
  "ANDWorld_SOD peer_session objectIDs =
     go_block [stat_inc SOD_RX_update,
       go_bind the_world (\<lambda>w. go_bind (IDHash_of (Peer peer_session)) (\<lambda>ip.
       go_bind (info_at ip) (\<lambda>info.
         if PeerSessionID info \<noteq> PeerSessionID peer_session then go_block [
           stat_W 51,
           stat_inc RST_TX_update,
           send_to (Peer peer_session) (TrySendRST (lsid w) (PeerSessionID peer_session)
             ''SOA::sessionID mismatch'')]
         else if state info = WS_MEM then go_block [
           stat_W 52,
           emit ((session_event ANDObjectDelete (lsid w) peer_session)
             \<lparr>Object := AnyObjectIDs objectIDs\<rparr>)]
         else stat_W 53)))]"

definition ANDWorld_RST :: "ANDPeerSession \<Rightarrow> (wctx, unit) go" where
  "ANDWorld_RST peer_session =
     go_block [stat_inc RST_RX_update,
       go_bind (IDHash_of (Peer peer_session)) (\<lambda>ip.
       go_bind (info_at ip) (\<lambda>info.
       go_bind (IDHash_of (Peer info)) (\<lambda>peer_id.
         ClearStates peer_id ip ''RST received'')))]"

section \<open>Application decisions, timer and shutdown\<close>

text \<open>The loop bodies of \<open>AcceptSession\<close> and \<open>TimerExpire\<close>: introduce the joiner \<open>info\<close> to a member
  and collect that member; collect the members whose join is still to be announced; announce them
  to a member and count it.\<close>

definition introduce_joiner ::
    "uuid \<Rightarrow> ANDPeerSessionState \<Rightarrow> hash \<Rightarrow> ANDPeerSessionState \<Rightarrow>
     ANDPeerSessionWithTimeStamp list \<Rightarrow> (wctx, ANDPeerSessionWithTimeStamp list) go" where
  "introduce_joiner local_session info k p member_infos =
     (if state p \<noteq> WS_MEM then go_bind (stat_W 59) (\<lambda>_. go_ret member_infos)
      else go_bind (go_block [
          stat_W 60,
          stat_inc JNI_TX_update,
          send_to (Peer p) (TrySendJNI local_session (PeerSessionID p)
            (ANDPeerSessionWithTimeStamp.truncate info))]) (\<lambda>_.
        go_ret (member_infos @ [ANDPeerSessionWithTimeStamp.truncate p])))"

definition ANDWorld_AcceptSession :: "hash list \<Rightarrow> ANDPeerSession \<Rightarrow> (wctx, unit) go" where
  "ANDWorld_AcceptSession ord peer_session =
     go_bind the_world (\<lambda>w. go_bind (IDHash_of (Peer peer_session)) (\<lambda>ip.
     go_bind (lookup_info ip) (\<lambda>i. case i of
       None \<Rightarrow> stat_W 54
     | Some info \<Rightarrow> (case state info of
         WS_DC_JT \<Rightarrow> go_panic (Panic ''and invalid state: AcceptSession'')
       | WS_DC_JNI \<Rightarrow> stat_W 55
       | WS_CC \<Rightarrow> stat_W 56
       | WS_JT \<Rightarrow> go_panic (Panic ''and invalid state: AcceptSession'')
       | WS_JN \<Rightarrow> go_block [
           stat_W 57,
           if PeerSessionID info \<noteq> PeerSessionID peer_session then stat_W 58
           else go_bind (range_peers_acc ord (introduce_joiner (lsid w) info) [])
             (\<lambda>member_infos. go_block [
               stat_inc JOK_TX_update,
               send_to (Peer info) (TrySendJOK (lsid w) (PeerSessionID info) (timestamp w)
                 (wurl w) member_infos),
               set_info ip (\<lambda>i. i\<lparr>state := WS_TMEM\<rparr>)])]
       | WS_RMEM_NJNI \<Rightarrow> stat_W 61
       | WS_JNI \<Rightarrow> go_block [
           stat_W 62,
           if PeerSessionID info \<noteq> PeerSessionID peer_session then stat_W 63
           else go_block [
             stat_W 64,
             stat_inc MEM_TX_update,
             send_to (Peer info) (TrySendMEM (lsid w) (PeerSessionID info) (timestamp w)),
             set_info ip (\<lambda>i. i\<lparr>state := WS_TMEM\<rparr>)]]
       | WS_RMEM \<Rightarrow> go_block [
           stat_W 65,
           if PeerSessionID info \<noteq> PeerSessionID peer_session then stat_W 66
           else go_block [
             stat_W 67,
             stat_inc MEM_TX_update,
             send_to (Peer info) (TrySendMEM (lsid w) (PeerSessionID info) (timestamp w)),
             emit (session_event ANDSessionReady (lsid w) info),
             set_info ip (\<lambda>i. i\<lparr>state := WS_MEM\<rparr>)]]
       | WS_TMEM \<Rightarrow> stat_W 68
       | WS_MEM \<Rightarrow> stat_W 69))))"

definition ANDWorld_DeclineSession ::
    "ANDPeerSession \<Rightarrow> int \<Rightarrow> string \<Rightarrow> (wctx, unit) go" where
  "ANDWorld_DeclineSession peer_session code message =
     go_bind (IDHash_of (Peer peer_session)) (\<lambda>ip.
     go_bind (lookup_info ip) (\<lambda>i. case i of
       None \<Rightarrow> stat_W 71
     | Some info \<Rightarrow> go_block [
         if PeerSessionID info = PeerSessionID peer_session then go_block [
           stat_W 72,
           ClearStates ip ip ''application-DeclineSession called'']
         else go_ret (),
         stat_W 73]))"

text \<open>The two loops of the timer may range over the peers in different orders; \<open>now k\<close> is the
  clock when the entry of \<open>k\<close> is visited, \<open>r\<close> the random draw.\<close>

definition sjn_due :: "time \<Rightarrow> ANDPeerSessionState \<Rightarrow> bool" where
  "sjn_due now info \<longleftrightarrow>
     \<not> (state info \<noteq> WS_MEM \<or> now - TimeStamp info < 1000000000 \<or> sjnp info \<or> sjnc info > 3)"

definition sjn_collect ::
    "(hash \<Rightarrow> time) \<Rightarrow> hash \<Rightarrow> ANDPeerSessionState \<Rightarrow>
     ANDPeerSessionIdentity list \<Rightarrow> (wctx, ANDPeerSessionIdentity list) go" where
  "sjn_collect now k info sjn_mem =
     (if \<not> sjn_due (now k) info then go_bind (stat_W 74) (\<lambda>_. go_ret sjn_mem)
      else go_bind (stat_W 75) (\<lambda>_.
        go_bind (IDHash_of (Peer info)) (\<lambda>h.
        go_bind (set_info k (\<lambda>i. i\<lparr>sjnc := sjnc i + 1\<rparr>)) (\<lambda>_.
          go_ret (sjn_mem @ [\<lparr>PeerHash = h, SessionID = PeerSessionID info\<rparr>])))))"

definition sjn_announce ::
    "uuid \<Rightarrow> ANDPeerSessionIdentity list \<Rightarrow> hash \<Rightarrow> ANDPeerSessionState \<Rightarrow>
     int \<Rightarrow> (wctx, int) go" where
  "sjn_announce local_session sjn_mem k info member_count =
     (if state info \<noteq> WS_MEM then go_bind (stat_W 76) (\<lambda>_. go_ret member_count)
      else go_bind (if sjn_mem \<noteq> [] then go_block [
            stat_W 77,
            stat_inc SJN_TX_update,
            send_to (Peer info) (TrySendSJN local_session (PeerSessionID info) sjn_mem)]
          else go_ret ()) (\<lambda>_. go_ret (member_count + 1)))"

definition ANDWorld_TimerExpire ::
    "hash list \<Rightarrow> hash list \<Rightarrow> (hash \<Rightarrow> time) \<Rightarrow> nat \<Rightarrow> (wctx, unit) go" where
  "ANDWorld_TimerExpire ord1 ord2 now r =
     go_bind the_world (\<lambda>w.
     go_bind (range_peers_acc ord1 (sjn_collect now) []) (\<lambda>sjn_mem.
     go_bind (range_peers_acc ord2 (sjn_announce (lsid w) sjn_mem) 0) (\<lambda>member_count.
     go_bind (rand_Intn r (300 * (member_count + 1))) (\<lambda>v.
       emit (timer_event (lsid w) (300 + v))))))"

definition ANDWorld_RemovePeer :: "IANDPeer \<Rightarrow> (wctx, unit) go" where
  "ANDWorld_RemovePeer peer =
     go_block [ClearStates (IDHash peer) (IDHash peer) '''', delete_info (IDHash peer)]"

definition close_cell :: "uuid \<Rightarrow> hash \<Rightarrow> ANDPeerSessionState \<Rightarrow> (wctx, unit) go" where
  "close_cell local_session k info =
     (let rst = go_block [
            stat_inc RST_TX_update,
            send_to (Peer info) (TrySendRST local_session (PeerSessionID info) ''Close'')];
          leave = go_block [stat_W 79, rst]
      in case state info of
        WS_DC_JT \<Rightarrow> go_ret ()
      | WS_DC_JNI \<Rightarrow> go_ret ()
      | WS_CC \<Rightarrow> go_ret ()
      | WS_JT \<Rightarrow> go_block [
          stat_W 78,
          rst,
          emit (join_fail_event local_session JNM_CANCELED JNC_CANCELED)]
      | WS_MEM \<Rightarrow> go_block [
          stat_W 80,
          rst,
          emit (session_event ANDSessionClose local_session info)]
      | WS_JN \<Rightarrow> leave
      | WS_RMEM_NJNI \<Rightarrow> leave
      | WS_JNI \<Rightarrow> leave
      | WS_RMEM \<Rightarrow> leave
      | WS_TMEM \<Rightarrow> leave)"

definition ANDWorld_Close :: "hash list \<Rightarrow> (wctx, unit) go" where
  "ANDWorld_Close ord =
     go_bind the_world (\<lambda>w. go_block [
       range_peers ord (close_cell (lsid w)),
       stat_W 81,
       emit ((NeighborEvent_of ANDWorldLeave)\<lparr>LocalSessionID := lsid w\<rparr>)])"

text \<open>\<open>jc\<close> is never incremented, so the last two checks of \<open>CheckSanity\<close> never fire; the
  check for a non-existing state cannot fire because the states are an enumeration.\<close>

definition ANDWorld_CheckSanity :: "hash list \<Rightarrow> (wctx, unit) go" where
  "ANDWorld_CheckSanity ord =
     go_bind the_world (\<lambda>w. let jc = (0::int) in go_block [
       range_peers ord (\<lambda>peer_id peer.
         if peer_id = local w
         then go_panic (Panic ''and sanity check failed: loopback connection'')
         else go_ret ()),
       if join_hash w = '''' \<and> jc \<noteq> 0
       then go_panic (Panic ''and sanity check failed: both join and open'') else go_ret (),
       if jc > 1
       then go_panic (Panic ''and sanity check failed: multiple join targets'') else go_ret ()])"

end
