(* ===== verification/And_World_Spec.thy ===== *)
theory And_World_Spec
  imports And_World
begin

text \<open>
  What a world promises: the abstract automaton of one peer, the invariant of a world, and the
  rules by which the statements of \<open>And_World\<close> are computed.

  \<open>peer_edge\<close> is the abstract specification: which changes one cell may make, and which events
  it raises while it changes. \<open>wtrans\<close> lifts an edge to the whole context: one cell moves, the
  constants of the world stay, events and messages are appended, and every message sent is
  counted. The handlers of \<open>And_World\<close> are shown elsewhere to be sequences of such moves.
\<close>

section \<open>Computing the primitive statements\<close>

lemma wpx_stat_W_ctx [wp_rules]:
  "wpx b (stat_W i) Q s =
     (if i < length (stat_w (o_stat s))
      then Q () (s\<lparr>o_stat := (o_stat s)\<lparr>stat_w := (stat_w (o_stat s))[i := stat_w (o_stat s) ! i + 1]\<rparr>\<rparr>)
      else b)"
  by (simp add: stat_W_def wp_rules)

lemma wpx_stat_inc [wp_rules]:
  "wpx b (stat_inc fld) Q s = Q () (s\<lparr>o_stat := fld (\<lambda>n. n + 1) (o_stat s)\<rparr>)"
  by (simp add: stat_inc_def wp_rules)

lemma wpx_emit [wp_rules]: "wpx b (emit e) Q s = Q () (s\<lparr>ech := ech s @ [e]\<rparr>)"
  by (simp add: emit_def wp_rules)

lemma wpx_send_to [wp_rules]:
  "wpx b (send_to p m) Q s =
     (case p of None \<Rightarrow> b | Some q \<Rightarrow> Q () (s\<lparr>sent := sent s @ [(q, m)]\<rparr>))"
  by (simp add: send_to_def wp_rules split: option.split)

lemma wpx_IDHash_of [wp_rules]:
  "wpx b (IDHash_of p) Q s = (case p of None \<Rightarrow> b | Some q \<Rightarrow> Q (IDHash q) s)"
  by (simp add: IDHash_of_def wp_rules split: option.split)

lemma wpx_lookup_info [wp_rules]: "wpx b (lookup_info k) Q s = Q (peers (cw s) k) s"
  by (simp add: lookup_info_def wp_rules)

lemma wpx_info_at [wp_rules]:
  "wpx b (info_at k) Q s = (case peers (cw s) k of None \<Rightarrow> b | Some i \<Rightarrow> Q i s)"
  by (simp add: info_at_def wp_rules)

lemma wpx_put_info [wp_rules]:
  "wpx b (put_info k i) Q s = Q () (s\<lparr>cw := (cw s)\<lparr>peers := (peers (cw s))(k \<mapsto> i)\<rparr>\<rparr>)"
  by (simp add: put_info_def wp_rules)

lemma wpx_delete_info [wp_rules]:
  "wpx b (delete_info k) Q s = Q () (s\<lparr>cw := (cw s)\<lparr>peers := (peers (cw s))(k := None)\<rparr>\<rparr>)"
  by (simp add: delete_info_def wp_rules)

lemma wpx_set_info [wp_rules]:
  "wpx b (set_info k f) Q s =
     (case peers (cw s) k of
        None \<Rightarrow> b
      | Some i \<Rightarrow> Q () (s\<lparr>cw := (cw s)\<lparr>peers := (peers (cw s))(k \<mapsto> f i)\<rparr>\<rparr>))"
  by (simp add: set_info_def wp_rules split: option.split)

lemma wpx_the_world [wp_rules]: "wpx b the_world Q s = Q (cw s) s"
  by (simp add: the_world_def wp_rules)

lemma wpx_rand_Intn [wp_rules]:
  "wpx b (rand_Intn r n) Q s = (if n \<le> 0 then b else Q (int r mod n) s)"
  by (simp add: rand_Intn_def wp_rules)

text \<open>The cell after \<open>Clear\<close>, and the rule for clearing a cell through its pointer.\<close>

definition cleared :: "ANDPeerSessionState \<Rightarrow> ANDPeerSessionState" where
  "cleared i = i\<lparr>PeerSessionID := uuid_Nil, TimeStamp := zero_time,
     state := WS_CC, sjnp := False, sjnc := 0\<rparr>"

lemma cleared_sel [simp]:
  "Peer (cleared i) = Peer i" "PeerSessionID (cleared i) = uuid_Nil"
  "TimeStamp (cleared i) = zero_time" "state (cleared i) = WS_CC"
  "sjnp (cleared i) = False" "sjnc (cleared i) = 0"
  by (simp_all add: cleared_def)

lemma wpx_clear_info [wp_rules]:
  "wpx b (clear_info k) Q s =
     (case peers (cw s) k of
        None \<Rightarrow> b
      | Some i \<Rightarrow> (case Peer i of
          None \<Rightarrow> b
        | Some _ \<Rightarrow> Q () (s\<lparr>cw := (cw s)\<lparr>peers := (peers (cw s))(k \<mapsto> cleared i)\<rparr>\<rparr>)))"
  by (simp add: clear_info_def ANDPeerSessionState_Clear_def cleared_def wp_rules
      split: option.split)

section \<open>The abstract automaton of one peer\<close>

fun dc :: "ws \<Rightarrow> bool" where
  "dc WS_DC_JT = True"
| "dc WS_DC_JNI = True"
| "dc _ = False"

fun joining_ws :: "ws \<Rightarrow> bool" where
  "joining_ws WS_DC_JT = True"
| "joining_ws WS_JT = True"
| "joining_ws _ = False"

type_synonym cell = "ANDPeerSessionState option"

definition is_member :: "cell \<Rightarrow> bool" where
  "is_member c \<longleftrightarrow> (\<exists>i. c = Some i \<and> state i = WS_MEM)"

definition is_joining :: "cell \<Rightarrow> bool" where
  "is_joining c \<longleftrightarrow> (\<exists>i. c = Some i \<and> joining_ws (state i))"

text \<open>The events that clearing a cell raises.\<close>

definition clear_events :: "uuid \<Rightarrow> ANDPeerSessionState \<Rightarrow> NeighborEvent list" where
  "clear_events L i = (case state i of
       WS_JT \<Rightarrow> [join_fail_event L JNM_INVALID_STATES JNC_INVALID_STATES]
     | WS_MEM \<Rightarrow> [session_event ANDSessionClose L i]
     | _ \<Rightarrow> [])"

text \<open>The states in which a new peer session starts, and the events of the start.\<close>

fun begins :: "ws \<Rightarrow> bool" where
  "begins WS_JN = True"
| "begins WS_JNI = True"
| "begins WS_RMEM_NJNI = True"
| "begins _ = False"

text \<open>The states of a session that is under way.\<close>

fun established :: "ws \<Rightarrow> bool" where
  "established WS_JN = True"
| "established WS_RMEM_NJNI = True"
| "established WS_JNI = True"
| "established WS_RMEM = True"
| "established WS_TMEM = True"
| "established WS_MEM = True"
| "established _ = False"

definition begin_events :: "uuid \<Rightarrow> ANDPeerSessionState \<Rightarrow> NeighborEvent list" where
  "begin_events L i =
     (if state i = WS_RMEM_NJNI then [] else [session_event ANDSessionRequest L i])"

text \<open>Events that do not belong to the life cycle of a session: timers at any time, objects
  only from a member, for its current session.\<close>

definition side_event :: "uuid \<Rightarrow> cell \<Rightarrow> NeighborEvent \<Rightarrow> bool" where
  "side_event L c e \<longleftrightarrow> LocalSessionID e = L \<and>
     (Type e = ANDTimerRequest \<or>
      Type e \<in> {ANDObjectAppend, ANDObjectDelete} \<and>
        (\<exists>i. c = Some i \<and> state i = WS_MEM \<and> Peer e = Peer i \<and> PeerSessionID e = PeerSessionID i))"

text \<open>\<open>A\<close> is the set of session ids of the peer that the application accepts in this step.\<close>

inductive peer_edge :: "uuid \<Rightarrow> uuid set \<Rightarrow> cell \<Rightarrow> NeighborEvent list \<Rightarrow> cell \<Rightarrow> bool"
  for L :: uuid and A :: "uuid set" where
  stay: "\<forall>e \<in> set evs. side_event L c e \<Longrightarrow> peer_edge L A c evs c"
| connect: "peer_edge L A None [] (Some (NewANDPeerSessionState (Some p) uuid_Nil zero_time WS_CC))"
| connect_target: "state i = WS_DC_JT \<Longrightarrow> state i' = WS_JT \<Longrightarrow>
    PeerSessionID i' = PeerSessionID i \<Longrightarrow> TimeStamp i' = TimeStamp i \<Longrightarrow>
    peer_edge L A (Some i) [] (Some i')"
| connect_member: "state i = WS_DC_JNI \<Longrightarrow> state i' = WS_JNI \<Longrightarrow>
    PeerSessionID i' = PeerSessionID i \<Longrightarrow> TimeStamp i' = TimeStamp i \<Longrightarrow>
    peer_edge L A (Some i) [session_event ANDSessionRequest L i'] (Some i')"
| introduce: "map Type evs = [ANDPeerRegister, ANDConnectRequest] \<Longrightarrow>
    peer_edge L A None evs (Some (NewANDPeerSessionState None sid ts WS_DC_JNI))"
| reintroduce: "state i = WS_DC_JNI \<Longrightarrow> state i' = WS_DC_JNI \<Longrightarrow> Peer i' = Peer i \<Longrightarrow>
    TimeStamp i < TimeStamp i' \<Longrightarrow> peer_edge L A (Some i) [] (Some i')"
| drop: "state i = WS_DC_JNI \<Longrightarrow> peer_edge L A (Some i) [] None"
| clear: "\<not> dc (state i) \<Longrightarrow> peer_edge L A (Some i) (clear_events L i) (Some (cleared i))"
| remove: "\<not> dc (state i) \<Longrightarrow> peer_edge L A (Some i) (clear_events L i) None"
| start: "state i = WS_CC \<Longrightarrow> begins (state i') \<Longrightarrow> Peer i' = Peer i \<Longrightarrow>
    peer_edge L A (Some i) (begin_events L i') (Some i')"
| replace: "established (state i) \<Longrightarrow> begins (state i') \<Longrightarrow> Peer i' = Peer i \<Longrightarrow>
    TimeStamp i < TimeStamp i' \<Longrightarrow> \<not> sjnp i' \<Longrightarrow> sjnc i' = 0 \<Longrightarrow>
    peer_edge L A (Some i) (clear_events L i @ begin_events L i') (Some i')"
| join_ok: "state i = WS_JT \<Longrightarrow> state i' = WS_RMEM \<Longrightarrow> Peer i' = Peer i \<Longrightarrow> sjnp i' \<Longrightarrow>
    peer_edge L A (Some i) [join_success_event L url, session_event ANDSessionRequest L i']
      (Some i')"
| join_fail: "state i = WS_JT \<Longrightarrow>
    peer_edge L A (Some i) [join_fail_event L text code] (Some (cleared i))"
| introduced: "state i = WS_RMEM_NJNI \<Longrightarrow> i' = i\<lparr>state := WS_RMEM\<rparr> \<Longrightarrow>
    peer_edge L A (Some i) [session_event ANDSessionRequest L i'] (Some i')"
| claimed: "state i = WS_JNI \<Longrightarrow> peer_edge L A (Some i) [] (Some (i\<lparr>state := WS_RMEM\<rparr>))"
| confirmed: "state i = WS_TMEM \<Longrightarrow> i' = i\<lparr>state := WS_MEM\<rparr> \<Longrightarrow>
    peer_edge L A (Some i) [session_event ANDSessionReady L i'] (Some i')"
| accept: "state i = WS_JN \<or> state i = WS_JNI \<Longrightarrow> PeerSessionID i \<in> A \<Longrightarrow>
    peer_edge L A (Some i) [] (Some (i\<lparr>state := WS_TMEM\<rparr>))"
| accept_ready: "state i = WS_RMEM \<Longrightarrow> PeerSessionID i \<in> A \<Longrightarrow> i' = i\<lparr>state := WS_MEM\<rparr> \<Longrightarrow>
    peer_edge L A (Some i) [session_event ANDSessionReady L i'] (Some i')"
| announce: "state i = WS_MEM \<Longrightarrow>
    peer_edge L A (Some i) [] (Some (i\<lparr>sjnc := sjnc i + 1\<rparr>))"

section \<open>Moves of a world\<close>

text \<open>The counter of the messages of each type, and what sending a list of messages adds.\<close>

fun tx_count :: "ahmp_type \<Rightarrow> ANDStatistics \<Rightarrow> go_int" where
  "tx_count JN_T s = JN_TX s"
| "tx_count JOK_T s = JOK_TX s"
| "tx_count JDN_T s = JDN_TX s"
| "tx_count JNI_T s = JNI_TX s"
| "tx_count MEM_T s = MEM_TX s"
| "tx_count SJN_T s = SJN_TX s"
| "tx_count CRR_T s = CRR_TX s"
| "tx_count RST_T s = RST_TX s"
| "tx_count SOA_T s = SOA_TX s"
| "tx_count SOD_T s = SOD_TX s"

definition sent_count :: "ahmp_type \<Rightarrow> (IANDPeer \<times> ahmp_send) list \<Rightarrow> go_int" where
  "sent_count t ms = word_of_nat (length (filter (\<lambda>m. send_type (snd m) = t) ms))"

lemma sent_count_simps [simp]:
  "sent_count t [] = 0"
  "sent_count t (m # ms) = (if send_type (snd m) = t then 1 else 0) + sent_count t ms"
  "sent_count t (ms @ ms') = sent_count t ms + sent_count t ms'"
  by (simp_all add: sent_count_def)

definition counted ::
    "ANDStatistics \<Rightarrow> (IANDPeer \<times> ahmp_send) list \<Rightarrow> ANDStatistics \<Rightarrow> bool" where
  "counted st ms st' \<longleftrightarrow>
     length (stat_b st') = length (stat_b st) \<and> length (stat_w st') = length (stat_w st) \<and>
     (\<forall>t. tx_count t st' = tx_count t st + sent_count t ms)"

definition wtrans :: "(hash \<Rightarrow> uuid set) \<Rightarrow> hash \<Rightarrow> wctx \<Rightarrow> wctx \<Rightarrow> bool" where
  "wtrans A k s s' \<longleftrightarrow>
     cw s' = (cw s)\<lparr>peers := (peers (cw s))(k := peers (cw s') k)\<rparr> \<and>
     (\<exists>evs ms. ech s' = ech s @ evs \<and> sent s' = sent s @ ms \<and>
        peer_edge (lsid (cw s)) (A k) (peers (cw s) k) evs (peers (cw s') k) \<and>
        counted (o_stat s) ms (o_stat s'))"

definition wmove :: "(hash \<Rightarrow> uuid set) \<Rightarrow> wctx \<Rightarrow> wctx \<Rightarrow> bool" where
  "wmove A s s' \<longleftrightarrow> (\<exists>k. wtrans A k s s')"

lemma wtrans_wmove: "wtrans A k s s' \<Longrightarrow> wmove A s s'"
  by (auto simp: wmove_def)

abbreviation wmoves :: "(hash \<Rightarrow> uuid set) \<Rightarrow> wctx \<Rightarrow> wctx \<Rightarrow> bool" where
  "wmoves A \<equiv> (wmove A)\<^sup>*\<^sup>*"

end
