(* ===== verification/And_World_Inv.thy ===== *)
theory And_World_Inv
  imports And_World_Spec
begin

text \<open>
  The invariant of a world and the refinement proof: under the invariant, and for the calls the
  environment may make, every operation of \<open>And_World\<close> returns without a panic, keeps the
  invariant, and is a sequence of moves of the abstract peer automaton.

  \<open>C\<close> is the set of connected peers that the AND object keeps (\<open>AND.peers\<close>).
\<close>

section \<open>The invariant\<close>

text \<open>Cells and connections agree: every connected peer has a cell, a cell holds the connected
  peer object of its slot, and exactly the two disconnected states have none.\<close>

definition world_conn :: "(hash \<rightharpoonup> IANDPeer) \<Rightarrow> ANDWorld \<Rightarrow> bool" where
  "world_conn C w \<longleftrightarrow> finite (dom (peers w)) \<and> dom C \<subseteq> dom (peers w) \<and>
     (\<forall>k i. peers w k = Some i \<longrightarrow> Peer i = C k \<and> (dc (state i) \<longleftrightarrow> C k = None))"

text \<open>Only the join target is in a joining state, and until the join is decided no other peer
  gets further than an unsolicited membership claim.\<close>

definition world_join :: "ANDWorld \<Rightarrow> bool" where
  "world_join w \<longleftrightarrow> (\<forall>k. is_joining (peers w k) \<longrightarrow> k = join_hash w \<and>
     (\<forall>k' i'. peers w k' = Some i' \<longrightarrow> k' \<noteq> k \<longrightarrow> state i' \<in> {WS_CC, WS_RMEM_NJNI}))"

definition no_join :: "ANDWorld \<Rightarrow> bool" where
  "no_join w \<longleftrightarrow> (\<forall>k. \<not> is_joining (peers w k))"

definition hashes_ok :: "(hash \<rightharpoonup> IANDPeer) \<Rightarrow> bool" where
  "hashes_ok C \<longleftrightarrow> (\<forall>k p. C k = Some p \<longrightarrow> IDHash p = k)"

definition wgood :: "(hash \<rightharpoonup> IANDPeer) \<Rightarrow> wctx \<Rightarrow> bool" where
  "wgood C s \<longleftrightarrow> hashes_ok C \<and> world_conn C (cw s) \<and> world_join (cw s) \<and> stat_wf (o_stat s)"

lemma is_joining_simps [simp]:
  "\<not> is_joining None" "is_joining (Some i) \<longleftrightarrow> joining_ws (state i)"
  by (simp_all add: is_joining_def)

lemma is_member_simps [simp]:
  "\<not> is_member None" "is_member (Some i) \<longleftrightarrow> state i = WS_MEM"
  by (simp_all add: is_member_def)

lemma wgood_stat [simp]:
  "wgood C s \<Longrightarrow> length (stat_w (o_stat s)) = 85" "wgood C s \<Longrightarrow> length (stat_b (o_stat s)) = 36"
  by (simp_all add: wgood_def stat_wf_def)

lemma wgood_cell:
  assumes "wgood C s" and "C k = Some p"
  obtains i where "peers (cw s) k = Some i" "Peer i = Some p" "\<not> dc (state i)" "IDHash p = k"
  using assms by (fastforce simp: wgood_def world_conn_def hashes_ok_def)

lemma wgood_cell_dc:
  assumes "wgood C s" and "C k = None" and "peers (cw s) k = Some i"
  shows "dc (state i)" and "Peer i = None"
  using assms by (auto simp: wgood_def world_conn_def)

lemma wgood_some_cell:
  assumes "wgood C s" and "peers (cw s) k = Some i" and "\<not> dc (state i)"
  obtains p where "C k = Some p" "Peer i = Some p" "IDHash p = k"
  using assms unfolding wgood_def world_conn_def hashes_ok_def by (metis option.exhaust)

text \<open>One cell is written.\<close>

lemma world_conn_put:
  assumes "world_conn C w" and "Peer i = C k" and "dc (state i) \<longleftrightarrow> C k = None"
  shows "world_conn C (w\<lparr>peers := (peers w)(k \<mapsto> i)\<rparr>)"
  using assms by (auto simp: world_conn_def)

lemma world_join_put:
  assumes "world_join w" and "joining_ws (state i) \<Longrightarrow> is_joining (peers w k)"
    and "state i \<in> {WS_CC, WS_RMEM_NJNI} \<or> joining_ws (state i) \<or> no_join w"
  shows "world_join (w\<lparr>peers := (peers w)(k \<mapsto> i)\<rparr>)"
  using assms by (auto simp: world_join_def no_join_def)

lemma wgood_put:
  assumes "wgood C s" and "cw s' = (cw s)\<lparr>peers := (peers (cw s))(k \<mapsto> i)\<rparr>"
    and "stat_wf (o_stat s')" and "Peer i = C k" and "dc (state i) \<longleftrightarrow> C k = None"
    and "joining_ws (state i) \<Longrightarrow> is_joining (peers (cw s) k)"
    and "state i \<in> {WS_CC, WS_RMEM_NJNI} \<or> joining_ws (state i) \<or> no_join (cw s)"
  shows "wgood C s'"
  using assms world_conn_put world_join_put unfolding wgood_def by simp

lemma wgood_same:
  assumes "wgood C s" and "cw s' = cw s" and "stat_wf (o_stat s')"
  shows "wgood C s'"
  using assms by (simp add: wgood_def)

text \<open>One cell is removed together with its connection.\<close>

lemma wgood_remove:
  assumes "wgood C s" and "cw s' = (cw s)\<lparr>peers := (peers (cw s))(k := None)\<rparr>"
    and "stat_wf (o_stat s')"
  shows "wgood (C(k := None)) s'"
  using assms
  by (auto simp: wgood_def world_conn_def world_join_def hashes_ok_def split: if_splits)

text \<open>A session beyond the first claim exists only in a world that is not joining.\<close>

lemma wgood_no_join:
  assumes "wgood C s" and "peers (cw s) k = Some i" and "state i \<notin> {WS_CC, WS_RMEM_NJNI}"
    and "\<not> joining_ws (state i)"
  shows "no_join (cw s)"
  using assms unfolding wgood_def no_join_def world_join_def by (metis is_joining_simps(2))

lemma wgood_after_target:
  assumes "wgood C s" and "peers (cw s) k = Some i" and "joining_ws (state i)"
    and "cw s' = (cw s)\<lparr>peers := (peers (cw s))(k \<mapsto> i')\<rparr>" and "\<not> joining_ws (state i')"
  shows "no_join (cw s')"
  using assms unfolding wgood_def no_join_def world_join_def
  by (metis (no_types, lifting) fun_upd_apply is_joining_simps(2) ANDWorld.select_convs(7)
      ANDWorld.surjective ANDWorld.update_convs(7))

lemma cell_idem [simp]: "peers w k = Some i \<Longrightarrow> w\<lparr>peers := (peers w)(k \<mapsto> i)\<rparr> = w"
  by (simp add: fun_upd_idem)

lemmas handler_simps = wp_rules Let_def ClearStates_def TryUpdateSessionID_def
  IsProperMemberOrReset_def
lemmas edge_simps = session_event_def with_session_def clear_events_def begin_events_def
lemmas move_simps = wtrans_def counted_def all_ahmp_type peer_edge.simps edge_simps stat_wf_def

lemma NewANDPeerSessionState_sel [simp]:
  "Peer (NewANDPeerSessionState p sid ts st) = p"
  "PeerSessionID (NewANDPeerSessionState p sid ts st) = sid"
  "TimeStamp (NewANDPeerSessionState p sid ts st) = ts"
  "state (NewANDPeerSessionState p sid ts st) = st"
  "sjnp (NewANDPeerSessionState p sid ts st) = False"
  "sjnc (NewANDPeerSessionState p sid ts st) = 0"
  by (simp_all add: NewANDPeerSessionState_def)

lemma cell_idem_None [simp]: "peers w k = None \<Longrightarrow> w\<lparr>peers := (peers w)(k := None)\<rparr> = w"
  by (simp add: fun_upd_idem)

lemma wgood_connect:
  assumes "wgood C s" and "cw s' = (cw s)\<lparr>peers := (peers (cw s))(IDHash p \<mapsto> i)\<rparr>"
    and "stat_wf (o_stat s')" and "Peer i = Some p" and "\<not> dc (state i)"
    and "joining_ws (state i) \<Longrightarrow> is_joining (peers (cw s) (IDHash p))"
    and "state i \<in> {WS_CC, WS_RMEM_NJNI} \<or> joining_ws (state i) \<or> no_join (cw s)"
  shows "wgood (C(IDHash p \<mapsto> p)) s'"
proof -
  have "world_conn (C(IDHash p \<mapsto> p)) (cw s')"
    using assms by (auto simp: wgood_def world_conn_def)
  moreover have "hashes_ok (C(IDHash p \<mapsto> p))"
    using assms(1) by (auto simp: wgood_def hashes_ok_def)
  ultimately show ?thesis
    using assms world_join_put by (simp add: wgood_def)
qed

lemma edge_joining: "peer_edge L A c evs c' \<Longrightarrow> is_joining c' \<Longrightarrow> is_joining c"
proof (induction rule: peer_edge.induct)
qed (auto elim: begins.elims)

lemma wtrans_no_join: "wtrans A k s s' \<Longrightarrow> no_join (cw s) \<Longrightarrow> no_join (cw s')"
  unfolding wtrans_def no_join_def
  by (metis ANDWorld.select_convs(7) ANDWorld.surjective ANDWorld.update_convs(7) edge_joining fun_upd_other)

lemma wmoves_no_join: "wmoves A s s' \<Longrightarrow> no_join (cw s) \<Longrightarrow> no_join (cw s')"
  by (induction rule: rtranclp_induct) (auto simp: wmove_def dest: wtrans_no_join)

lemma wtrans_quiet:
  assumes "cw s' = cw s" "ech s' = ech s" "sent s' = sent s" "counted (o_stat s) [] (o_stat s')"
  shows "wtrans A k s s'"
  using assms by (auto simp: wtrans_def intro!: peer_edge.stay)

lemma wmoves_quiet:
  assumes "cw s' = cw s" "ech s' = ech s" "sent s' = sent s" "counted (o_stat s) [] (o_stat s')"
  shows "wmoves A s s'"
  using wtrans_quiet [OF assms] wtrans_wmove by blast

section \<open>Operations that move one cell\<close>

lemma PeerConnected_moves:
  assumes g: "wgood C s" and c: "C (IDHash p) = None"
  shows "wp (ANDWorld_PeerConnected p)
           (\<lambda>_ s'. wgood (C(IDHash p \<mapsto> p)) s' \<and> wtrans (\<lambda>_. {}) (IDHash p) s s') s"
proof (cases "peers (cw s) (IDHash p)")
  case None
  then show ?thesis using g 
    by (auto intro: wgood_connect [OF g] peer_edge.connect
        simp: ANDWorld_PeerConnected_def handler_simps wtrans_def counted_def all_ahmp_type stat_wf_def)
next
  case (Some i)
  then show ?thesis using g wgood_cell_dc [OF g c Some] wgood_no_join [OF g Some]
    by (cases "state i") (auto intro: wgood_connect [OF g] 
       simp: ANDWorld_PeerConnected_def handler_simps move_simps)
qed

lemma JN_moves:
  assumes g: "wgood C s" and c: "C k = Some p" and ps: "Peer ps = Some p" and nj: "no_join (cw s)"
  shows "wp (ANDWorld_JN ps ts) (\<lambda>_ s'. wgood C s' \<and> wtrans (\<lambda>_. {}) k s s') s"
proof -
  from g c obtain i where i: "peers (cw s) k = Some i" "Peer i = Some p" "\<not> dc (state i)" "IDHash p = k"
    by (rule wgood_cell)
  note G = wgood_put [OF g, where k = k] wgood_same [OF g]
  show ?thesis
    using i g ps c nj
    by (cases "state i") (auto intro: G simp: ANDWorld_JN_def handler_simps move_simps)
qed

lemma JDN_moves:
  assumes g: "wgood C s" and c: "C (IDHash p) = Some p"
  shows "wp (ANDWorld_JDN p code message)
           (\<lambda>_ s'. wgood C s' \<and> wtrans (\<lambda>_. {}) (IDHash p) s s') s"
proof -
  from g c obtain i where i: "peers (cw s) (IDHash p) = Some i" "Peer i = Some p" "\<not> dc (state i)"
    by (rule wgood_cell)
  note G = wgood_put [OF g, where k = "IDHash p"] wgood_same [OF g]
  show ?thesis
    using i g c by (cases "state i") (auto intro: G simp: ANDWorld_JDN_def handler_simps move_simps)
qed

lemma MEM_moves:
  assumes g: "wgood C s" and c: "C k = Some p" and ps: "Peer ps = Some p"
  shows "wp (ANDWorld_MEM ps ts) (\<lambda>_ s'. wgood C s' \<and> wtrans (\<lambda>_. {}) k s s') s"
proof -
  from g c obtain i where i: "peers (cw s) k = Some i" "Peer i = Some p" "\<not> dc (state i)" "IDHash p = k"
    by (rule wgood_cell)
  note G = wgood_put [OF g, where k = k] wgood_same [OF g]
  show ?thesis
    using i g ps c wgood_no_join [OF g i(1)]
    by (cases "state i") (auto intro: G simp: ANDWorld_MEM_def handler_simps move_simps)
qed

lemma SOA_moves:
  assumes g: "wgood C s" and c: "C k = Some p" and ps: "Peer ps = Some p"
  shows "wp (ANDWorld_SOA ps obs) (\<lambda>_ s'. wgood C s' \<and> wtrans (\<lambda>_. {}) k s s') s"
proof -
  from g c obtain i where i: "peers (cw s) k = Some i" "Peer i = Some p" "\<not> dc (state i)" "IDHash p = k"
    by (rule wgood_cell)
  show ?thesis
    using i g ps by (auto intro: wgood_same [OF g]
      simp: ANDWorld_SOA_def handler_simps move_simps side_event_def)
qed

lemma SOD_moves:
  assumes g: "wgood C s" and c: "C k = Some p" and ps: "Peer ps = Some p"
  shows "wp (ANDWorld_SOD ps ids) (\<lambda>_ s'. wgood C s' \<and> wtrans (\<lambda>_. {}) k s s') s"
proof -
  from g c obtain i where i: "peers (cw s) k = Some i" "Peer i = Some p" "\<not> dc (state i)" "IDHash p = k"
    by (rule wgood_cell)
  show ?thesis
    using i g ps by (auto intro: wgood_same [OF g]
      simp: ANDWorld_SOD_def handler_simps move_simps side_event_def)
qed

lemma clear_moves:
  assumes g: "wgood C s" and c: "C k = Some p"
  shows "wp (ClearStates k k msg) (\<lambda>_ s'. wgood C s' \<and> wtrans (\<lambda>_. {}) k s s'
           \<and> (\<exists>i. peers (cw s) k = Some i \<and> cw s' = (cw s)\<lparr>peers := (peers (cw s))(k \<mapsto> cleared i)\<rparr>)) s"
proof -
  from g c obtain i where i: "peers (cw s) k = Some i" "Peer i = Some p" "\<not> dc (state i)" "IDHash p = k"
    by (rule wgood_cell)
  note G = wgood_put [OF g, where k = k] wgood_same [OF g]
  show ?thesis
    using i g c by (cases "state i") (auto intro: G simp: handler_simps move_simps)
qed

lemma RST_moves:
  assumes g: "wgood C s" and c: "C k = Some p" and ps: "Peer ps = Some p"
  shows "wp (ANDWorld_RST ps) (\<lambda>_ s'. wgood C s' \<and> wtrans (\<lambda>_. {}) k s s') s"
proof -
  from g c obtain i where i: "peers (cw s) k = Some i" "Peer i = Some p" "\<not> dc (state i)" "IDHash p = k"
    by (rule wgood_cell)
  note G = wgood_put [OF g, where k = k] wgood_same [OF g]
  show ?thesis
    using i g ps c by (cases "state i") (auto intro: G simp: ANDWorld_RST_def handler_simps move_simps)
qed

lemma RemovePeer_moves:
  assumes g: "wgood C s" and c: "C (IDHash p) = Some p"
  shows "wp (ANDWorld_RemovePeer p)
     (\<lambda>_ s'. wgood (C(IDHash p := None)) s' \<and> wtrans (\<lambda>_. {}) (IDHash p) s s') s"
proof -
  from g c obtain i where i: "peers (cw s) (IDHash p) = Some i" "Peer i = Some p" "\<not> dc (state i)"
    by (rule wgood_cell)
  show ?thesis
    using i g by (cases "state i")
     (auto intro: wgood_remove [OF g] simp: ANDWorld_RemovePeer_def handler_simps move_simps)
qed

lemma Decline_moves:
  assumes g: "wgood C s" and ps: "Peer ps = Some p" and nj: "\<not> is_joining (peers (cw s) (IDHash p))"
  shows "wp (ANDWorld_DeclineSession ps code msg)
     (\<lambda>_ s'. wgood C s' \<and> wtrans (\<lambda>_. {}) (IDHash p) s s') s"
proof (cases "peers (cw s) (IDHash p)")
  case None
  then show ?thesis using g ps
   by (auto intro: wgood_same [OF g] simp: ANDWorld_DeclineSession_def handler_simps move_simps)
next
  case (Some i)
  note G = wgood_put [OF g, where k = "IDHash p"] wgood_same [OF g]
  show ?thesis 
  proof (cases "dc (state i)")
    case True
    then have "C (IDHash p) = None" using g Some by (auto simp: wgood_def world_conn_def)
    then have "wgood C s'" if "cw s' = (cw s)\<lparr>peers := (peers (cw s))(IDHash p := None)\<rparr>" "stat_wf (o_stat s')" for s'
       using wgood_remove [OF g that] by (simp add: fun_upd_idem)
    then show ?thesis using Some True g ps nj
      by (cases "state i") (auto intro: G simp: ANDWorld_DeclineSession_def handler_simps move_simps)
  next
    case False
    obtain q where "C (IDHash p) = Some q" "Peer i = Some q" "IDHash q = IDHash p"
      by (rule wgood_some_cell [OF g Some False])
    with False show ?thesis using Some g ps
      by (cases "state i") (auto intro: G simp: ANDWorld_DeclineSession_def handler_simps move_simps)
  qed
qed

lemma JNI_MEMS_moves:
  assumes g: "wgood C s" and nj: "no_join (cw s)"
  shows "wp (ANDWorld_JNI_MEMS sender m)
     (\<lambda>_ s'. wgood C s' \<and> wtrans (\<lambda>_. {}) (Hash (full_AURL m)) s s') s"
proof (cases "peers (cw s) (Hash (full_AURL m))")
  case None
  then have "C (Hash (full_AURL m)) = None" using g by (auto simp: wgood_def world_conn_def dom_def)
  then show ?thesis using g nj None
   by (auto intro: wgood_same [OF g] wgood_put [OF g] simp: ANDWorld_JNI_MEMS_def handler_simps move_simps)
next
  case (Some i)
  note G = wgood_put [OF g, where k = "Hash (full_AURL m)"] wgood_same [OF g]
  show ?thesis 
  proof (cases "dc (state i)")
    case True
    then have "C (Hash (full_AURL m)) = None" "Peer i = None" using g Some by (auto simp: wgood_def world_conn_def)
    moreover have "\<not> joining_ws (state i)" using nj Some by (metis is_joining_simps(2) no_join_def)
    ultimately show ?thesis using Some True g nj
      by (cases "state i") (auto intro: G simp: ANDWorld_JNI_MEMS_def handler_simps move_simps)
  next
    case False
    obtain q where "C (Hash (full_AURL m)) = Some q" "Peer i = Some q" "IDHash q = Hash (full_AURL m)"
      by (rule wgood_some_cell [OF g Some False])
    moreover have "\<not> joining_ws (state i)" using nj Some by (metis is_joining_simps(2) no_join_def)
    ultimately show ?thesis using False Some g nj
      by (cases "state i") (auto intro: G simp: ANDWorld_JNI_MEMS_def handler_simps move_simps)
  qed
qed

end
