(* ===== verification/And_World_Ops.thy ===== *)
theory And_World_Ops
  imports And_World_Inv
begin

text \<open>
  The operations of a world that run several moves: messages that carry lists of members, the
  acceptance of a joiner, the timer, and the creation and the shutdown of a world.
\<close>

section \<open>Operations that run several moves\<close>

text \<open>The state between two statements of an operation that started in \<open>s0\<close>.\<close>

definition wkeeps :: "(hash \<rightharpoonup> IANDPeer) \<Rightarrow> (hash \<Rightarrow> uuid set) \<Rightarrow> wctx \<Rightarrow> wctx \<Rightarrow> bool" where
  "wkeeps C A s0 s \<longleftrightarrow> wgood C s \<and> (\<lambda>s s'. wmove A s s' \<and> wgood C s')\<^sup>*\<^sup>* s0 s"

lemma wkeeps_refl: "wgood C s \<Longrightarrow> wkeeps C A s s"
  by (simp add: wkeeps_def)

lemma wkeeps_step: "wkeeps C A s0 s \<Longrightarrow> wgood C s' \<Longrightarrow> wtrans A k s s' \<Longrightarrow> wkeeps C A s0 s'"
  unfolding wkeeps_def by (blast intro: rtranclp.rtrancl_into_rtrancl wtrans_wmove)

lemma wkeeps_wmoves: "wkeeps C A s0 s \<Longrightarrow> wmoves A s0 s"
  unfolding wkeeps_def by (blast intro: mono_rtranclp [rule_format, rotated])

lemma wkeeps_induct:
  assumes "wkeeps C A s0 s" and "wgood C s0" and "P s0"
    and "\<And>s k s'. P s \<Longrightarrow> wgood C s \<Longrightarrow> wgood C s' \<Longrightarrow> wtrans A k s s' \<Longrightarrow> P s'"
  shows "P s"
proof -
  have "(\<lambda>s s'. wmove A s s' \<and> wgood C s')\<^sup>*\<^sup>* s0 s" using assms(1) by (simp add: wkeeps_def)
  then have "P s \<and> wgood C s"
    by (induction rule: rtranclp_induct) (use assms(2-4) in \<open>auto simp: wmove_def\<close>)
  then show ?thesis ..
qed

lemma wkeeps_no_join: "wkeeps C A s0 s \<Longrightarrow> no_join (cw s0) \<Longrightarrow> no_join (cw s)"
  using wmoves_no_join wkeeps_wmoves by blast

text \<open>Statements that leave the world and the events alone: counting and sending.\<close>

lemma wkeeps_counts:
  assumes "wkeeps C A s0 s" and "cw s' = cw s" "ech s' = ech s" 
    and "sent s' = sent s @ ms" "counted (o_stat s) ms (o_stat s')"
  shows "wkeeps C A s0 s'"
proof -
  have g: "wgood C s" using assms(1) by (simp add: wkeeps_def)
  have "stat_wf (o_stat s')" using wgood_stat [OF g] assms by (simp add: stat_wf_def counted_def)
  moreover have "wtrans A k s s'" for k using assms by (auto simp: wtrans_def intro!: peer_edge.stay)
  ultimately show ?thesis using wkeeps_step [OF assms(1)] wgood_same [OF g assms(2)] by blast
qed

lemma counted_tick [simp]:
  "counted st [] (st\<lparr>stat_w := (stat_w st)[i := v]\<rparr>)"
  "counted st [] (JNI_RX_update f st)" "counted st [] (SJN_RX_update f st)" "counted st [] (JOK_RX_update f st)"
  "counted st [] (CRR_RX_update f st)"
  by (simp_all add: counted_def all_ahmp_type)

lemma wp_stat_W_keeps:
  assumes "wkeeps C A s0 s" "i < 85"
  shows "wp (stat_W i) (\<lambda>_. wkeeps C A s0) s"
proof -
  have "length (stat_w (o_stat s)) = 85" using assms(1) by (auto simp: wkeeps_def)
  then show ?thesis using assms(2) by (auto simp: wp_rules intro: wkeeps_counts [OF assms(1)])
qed

lemma IsProperMember_spec:
  assumes g: "wgood C s" and c: "C k = Some p"
  shows "wp (IsProperMemberOrReset k ps) (\<lambda>proper s'. wgood C s' \<and> wtrans A k s s' \<and>
     (proper \<longrightarrow> s' = s \<and> no_join (cw s) \<and>
        (\<exists>i. peers (cw s) k = Some i \<and> state i = WS_MEM \<and> PeerSessionID i = PeerSessionID ps))) s"
proof -
  from g c obtain i where i: "peers (cw s) k = Some i" "Peer i = Some p" "\<not> dc (state i)" "IDHash p = k"
    by (rule wgood_cell)
  note G = wgood_put [OF g, where k = k] wgood_same [OF g]
  show ?thesis
    using i g c wgood_no_join [OF g i(1)]
    by (cases "state i") (auto intro: G simp: handler_simps move_simps)
qed

lemma wp_stat_W_keeps_P:
  assumes "wkeeps C A s0 s" "n < 85" "P (cw s)"
  shows "wp (stat_W n) (\<lambda>_ s'. wkeeps C A s0 s' \<and> P (cw s')) s"
  unfolding wpx_conj using wp_stat_W_keeps [OF assms(1,2)] assms(3) by (simp add: wp_rules split: if_splits)

text \<open>A message of a member: the sender is checked, then the body runs in a world that is not joining.\<close>

lemma member_guard:
  assumes k: "wkeeps C A s0 s" and c: "C k = Some p" and n: "n < 85"
    and yes: "no_join (cw s) \<Longrightarrow> is_member (peers (cw s) k) \<Longrightarrow> wp h (\<lambda>_. wkeeps C A s0) s"
  shows "wp (go_bind (IsProperMemberOrReset k ps) (\<lambda>proper. if \<not> proper then stat_W n else h))
      (\<lambda>_. wkeeps C A s0) s"
proof -
  have g: "wgood C s" using k by (simp add: wkeeps_def)
  show ?thesis
    unfolding wpx_bind
    by (rule wpx_mono [OF IsProperMember_spec [OF g c, of ps A]])
       (auto intro: wp_stat_W_keeps wkeeps_step [OF k] yes n)
qed

text \<open>The receive counter and the sender of a handler.\<close>

lemma wp_receive:
  assumes g: "wgood C s" and c: "C k = Some p" and ps: "Peer ps = Some p"
    and t: "\<And>st. counted st [] (fld (\<lambda>n. n + (1::go_int)) st)"
    and h: "\<And>s'. wkeeps C A s s' \<Longrightarrow> cw s' = cw s \<Longrightarrow> wp (h k) (\<lambda>_. wkeeps C A s) s'"
  shows "wp (go_block [stat_inc fld, go_bind (IDHash_of (Peer ps)) h]) (\<lambda>_. wkeeps C A s) s"
proof -
  from g c have k: "IDHash p = k" by (auto simp: wgood_def hashes_ok_def)
  have "wkeeps C A s (s\<lparr>o_stat := fld (\<lambda>n. n + 1) (o_stat s)\<rparr>)"
    by (rule wkeeps_counts [OF wkeeps_refl [OF g]]) (simp_all, rule t)
  from h [OF this] show ?thesis using ps k by (simp add: wp_rules)
qed

lemma JNI_MEMS_keeps:
  assumes k: "wkeeps C (\<lambda>_. {}) s0 s" and nj: "no_join (cw s)" 
  shows "wp (ANDWorld_JNI_MEMS sender m) (\<lambda>_ s'. wkeeps C (\<lambda>_. {}) s0 s' \<and> no_join (cw s')) s"
proof -
  have "wgood C s" using k by (simp add: wkeeps_def)
  then show ?thesis
    by (rule wpx_mono [OF JNI_MEMS_moves [OF _ nj]])
       (auto intro: wkeeps_step [OF k] dest: wtrans_no_join [OF _ nj])
qed

lemma stat_W_JNI_MEMS_keeps:
  assumes k: "wkeeps C (\<lambda>_. {}) s0 s" and nj: "no_join (cw s)" and n: "n < 85"
  shows "wp (go_block [stat_W n, ANDWorld_JNI_MEMS sender m]) (\<lambda>_ s'. wkeeps C (\<lambda>_. {}) s0 s' \<and> no_join (cw s')) s"
  unfolding go_block.simps
  by (rule wp_then [OF wp_stat_W_keeps_P [where P = no_join, OF k n nj]], rule wp_then [OF JNI_MEMS_keeps]) (auto simp: wp_rules)

lemma JNI_moves:
  assumes g: "wgood C s" and c: "C k = Some p" and ps: "Peer ps = Some p"
  shows "wp (ANDWorld_JNI ps m) (\<lambda>_. wkeeps C (\<lambda>_. {}) s) s"
  unfolding ANDWorld_JNI_def
  by (rule wp_receive [OF g c ps], simp, rule member_guard [where C=C, OF _ c])
     (auto simp del: go_block.simps intro!: wpx_mono [OF stat_W_JNI_MEMS_keeps])

lemma SJN_MEMS_moves:
  assumes g: "wgood C s" and c: "C k = Some p" and ps: "Peer ps = Some p"
  shows "wp (ANDWorld_SJN_MEMS ps m) (\<lambda>_ s'. wgood C s' \<and> wtrans A (PeerHash m) s s') s"
proof -
  note G = wgood_put [OF g, where k = "PeerHash m"] wgood_same [OF g]
  show ?thesis
  proof (cases "peers (cw s) (PeerHash m)")
    case None
    then show ?thesis using g ps by (auto intro: G simp: ANDWorld_SJN_MEMS_def handler_simps move_simps)
  next
    case (Some i)
    show ?thesis
    proof (cases "state i = WS_MEM")
      case True
      then have nd: "\<not> dc (state i)" by simp
      obtain q where "C (PeerHash m) = Some q" "Peer i = Some q" by (rule wgood_some_cell [OF g Some nd])
      with True Some g ps wgood_no_join [OF g Some] show ?thesis
         by (auto intro: G simp: ANDWorld_SJN_MEMS_def handler_simps move_simps)
    next
      case False
      then show ?thesis using Some g ps by (auto intro: G simp: ANDWorld_SJN_MEMS_def handler_simps move_simps)
    qed
  qed
qed

text \<open>A loop of counted statements over the entries of a message; \<open>P\<close> is what the loop keeps of the
  world.\<close>

lemma wp_for_keeps:
  assumes "wkeeps C A s0 s" and n: "n < 85" and "P (cw s)"
    and f: "\<And>m s'. m \<in> set ms \<Longrightarrow> wkeeps C A s0 s' \<Longrightarrow> P (cw s') \<Longrightarrow>
       wp (f m) (\<lambda>_ s'. wkeeps C A s0 s' \<and> P (cw s')) s'"
  shows "wp (go_for ms (\<lambda>m. go_block [stat_W n, f m])) (\<lambda>_. wkeeps C A s0) s"
proof (rule wpx_for_inv [where I = "\<lambda>s. wkeeps C A s0 s \<and> P (cw s)"])
  fix m s assume "m \<in> set ms" and k: "wkeeps C A s0 s \<and> P (cw s)"
  then show "wp (go_block [stat_W n, f m]) (\<lambda>_ s. wkeeps C A s0 s \<and> P (cw s)) s"
    unfolding go_block.simps
    by (intro wp_then [OF wp_stat_W_keeps_P [where P = P, OF _ n]]) (auto simp: wp_rules intro: f)
qed (use assms in auto)

lemma wkeeps_trans_step:
  assumes "wkeeps C A s0 s" and "\<And>s. wgood C s \<Longrightarrow> Q s \<Longrightarrow> wp f (\<lambda>_ s'. wgood C s' \<and> wtrans A k s s' \<and> P s') s" and "Q s"
  shows "wp f (\<lambda>_ s'. wkeeps C A s0 s' \<and> P s') s"
proof -
  have "wp f (\<lambda>_ s'. wgood C s' \<and> wtrans A k s s' \<and> P s') s"
    using assms by (auto simp: wkeeps_def)
  then show ?thesis by (rule wpx_mono) (auto intro: wkeeps_step [OF assms(1)])
qed

lemma SJN_moves:
  assumes g: "wgood C s" and c: "C k = Some p" and ps: "Peer ps = Some p"
  shows "wp (ANDWorld_SJN ps ms) (\<lambda>_. wkeeps C (\<lambda>_. {}) s) s"
proof -
  have "wp (ANDWorld_SJN_MEMS ps m) (\<lambda>_ s'. wkeeps C (\<lambda>_. {}) s s' \<and> True) s'"
    if "wkeeps C (\<lambda>_. {}) s s'" for m s'
    by (rule wkeeps_trans_step [OF that, where Q = "\<lambda>_. True" and k = "PeerHash m"])
       (simp_all add: SJN_MEMS_moves [where C=C, OF _ c ps])
  then show ?thesis unfolding ANDWorld_SJN_def
    by (intro wp_receive [OF g c ps] member_guard [where C=C, OF _ c] wp_for_keeps [where P = "\<lambda>_. True"])
       simp_all
qed

definition crr_ok :: "ANDWorld \<Rightarrow> ANDPeerSessionIdentity list \<Rightarrow> bool" where
  "crr_ok w ms \<longleftrightarrow> (\<forall>m \<in> set ms. \<forall>i. peers w (PeerHash m) = Some i \<longrightarrow> PeerSessionID i = SessionID m
      \<longrightarrow> Peer i \<noteq> None)"

lemma CRR_MEMS_keeps:
  assumes k: "wkeeps C A s0 s" and c: "C k = Some p" and ms: "crr_ok (cw s) ms" "m \<in> set ms"
  shows "wp (ANDWorld_CRR_MEMS k m) (\<lambda>_ s'. wkeeps C A s0 s' \<and> cw s' = cw s) s"
proof -
  have g: "wgood C s" using k by (simp add: wkeeps_def)
  from g c obtain i where i: "peers (cw s) k = Some i" "Peer i = Some p" by (rule wgood_cell)
  show ?thesis using i g ms wkeeps_counts [OF k]
    by (auto simp: ANDWorld_CRR_MEMS_def wp_rules crr_ok_def counted_def all_ahmp_type split: option.split)
qed

lemma CRR_moves:
  assumes g: "wgood C s" and c: "C k = Some p" and ps: "Peer ps = Some p" and ms: "crr_ok (cw s) ms"
  shows "wp (ANDWorld_CRR ps ms) (\<lambda>_. wkeeps C (\<lambda>_. {}) s) s"
  unfolding ANDWorld_CRR_def
  by (intro wp_receive [OF g c ps] member_guard [where C=C, OF _ c] wp_for_keeps [where P = "\<lambda>w. w = cw s"])
     (auto simp: ms intro!: wpx_mono [OF CRR_MEMS_keeps [where C=C, OF _ c]])

lemma no_join_world_join: "no_join w \<Longrightarrow> world_join w"
  by (simp add: no_join_def world_join_def)

text \<open>The accepted answer of the join target decides the join before the members are introduced.\<close>

lemma JOK_accepted:
  assumes g: "wgood C s" and c: "C k = Some p" and ps: "Peer ps = Some p"
    and i: "peers (cw s) k = Some i" and jt: "join_hash (cw s) = k" "state i = WS_JT"
  shows "\<exists>s1. wtrans (\<lambda>_. {}) k s s1 \<and> wgood C s1 \<and> no_join (cw s1) \<and>
     (\<exists>i'. peers (cw s1) k = Some i' \<and> state i' = WS_RMEM) \<and> wp (ANDWorld_JOK ps ts url ms) (\<lambda>_. wkeeps C (\<lambda>_. {}) s1) s"
proof -
  have p: "Peer i = Some p" "IDHash p = k" using wgood_cell [OF g c] i by auto
  define s1 where "s1 = s\<lparr>o_stat := JOK_RX_update (\<lambda>n. n + 1) (o_stat s)
      \<lparr>stat_w := (stat_w (o_stat s))[13 := stat_w (o_stat s) ! 13 + 1]\<rparr>,
    ech := ech s @ [join_success_event (lsid (cw s)) url, session_event ANDSessionRequest (lsid (cw s)) ps],
    cw := (cw s)\<lparr>peers := (peers (cw s))(k \<mapsto> i\<lparr>Peer := Peer ps, PeerSessionID := PeerSessionID ps,
       TimeStamp := ts, state := WS_RMEM, sjnp := True\<rparr>)\<rparr>\<rparr>"
  have t: "wtrans (\<lambda>_. {}) k s s1"
    using jt i p ps by (auto simp: s1_def move_simps)
  have nj: "no_join (cw s1)" by (rule wgood_after_target [OF g i]) (auto simp: s1_def jt)
  have "world_conn C (cw s1)"
    unfolding s1_def using g i p ps c by (auto simp: wgood_def intro!: world_conn_put)
  then have g1: "wgood C s1" using g no_join_world_join [OF nj] by (auto simp: s1_def wgood_def stat_wf_def simp del: wgood_stat)
  have "wp (go_for ms (\<lambda>m. go_block [stat_W 14, ANDWorld_JNI_MEMS k m])) (\<lambda>_. wkeeps C (\<lambda>_. {}) s1) s1"
    by (rule wp_for_keeps [where P = no_join, OF wkeeps_refl [OF g1] _ nj]) (auto intro: JNI_MEMS_keeps)
  then have "wp (ANDWorld_JOK ps ts url ms) (\<lambda>_. wkeeps C (\<lambda>_. {}) s1) s"
    using jt i p ps g by (simp add: ANDWorld_JOK_def wp_rules s1_def)
  moreover have "\<exists>i'. peers (cw s1) k = Some i' \<and> state i' = WS_RMEM" by (simp add: s1_def)
  ultimately show ?thesis using t g1 nj by blast
qed

lemma JOK_rejected:
  assumes g: "wgood C s" and c: "C k = Some p" and ps: "Peer ps = Some p"
    and i: "peers (cw s) k = Some i" and jt: "\<not> (join_hash (cw s) = k \<and> state i = WS_JT)"
  shows "wp (ANDWorld_JOK ps ts url ms) (\<lambda>_ s'. cw s' = cw s \<and> ech s' = ech s \<and>
     (\<exists>ms. sent s' = sent s @ ms \<and> counted (o_stat s) ms (o_stat s'))) s"
proof -
  have "Peer i = Some p" "IDHash p = k" using wgood_cell [OF g c] i by auto
  then show ?thesis using jt i g ps
    by (auto simp: ANDWorld_JOK_def wp_rules counted_def all_ahmp_type)
qed

lemma wkeeps_trans: "wkeeps C A s s1 \<Longrightarrow> wkeeps C A s1 s2 \<Longrightarrow> wkeeps C A s s2"
  by (auto simp: wkeeps_def)

lemma JOK_moves:
  assumes g: "wgood C s" and c: "C k = Some p" and ps: "Peer ps = Some p"
  shows "wp (ANDWorld_JOK ps ts url ms) (\<lambda>_. wkeeps C (\<lambda>_. {}) s) s"
proof -
  obtain i where i: "peers (cw s) k = Some i" by (rule wgood_cell [OF g c])
  show ?thesis
  proof (cases "join_hash (cw s) = k \<and> state i = WS_JT")
    case False
    show ?thesis
      by (rule wpx_mono [OF JOK_rejected [OF g c ps i False]]) (auto intro: wkeeps_counts [OF wkeeps_refl [OF g]])
  next
    case True
    then obtain s1 where "wtrans (\<lambda>_. {}) k s s1" "wgood C s1"
        "wp (ANDWorld_JOK ps ts url ms) (\<lambda>_. wkeeps C (\<lambda>_. {}) s1) s"
      using JOK_accepted [OF g c ps i] by blast
    then show ?thesis using wkeeps_step [OF wkeeps_refl [OF g]] wkeeps_trans by (blast intro: wpx_mono)
  qed
qed

section \<open>What no move changes\<close>

lemma wtrans_const:
  assumes "wtrans A k s s'"
  shows "\<exists>ps. cw s' = (cw s)\<lparr>peers := ps\<rparr>"
  using assms unfolding wtrans_def by blast

lemma wmoves_const: "wmoves A s s' \<Longrightarrow> \<exists>ps. cw s' = (cw s)\<lparr>peers := ps\<rparr>"
proof (induction rule: rtranclp_induct)
  case base
  show ?case by (rule exI [where x = "peers (cw s)"]) simp
next
  case (step s1 s2)
  then show ?case by (auto simp: wmove_def dest!: wtrans_const)
qed

lemma wkeeps_lsid: "wkeeps C A s0 s \<Longrightarrow> lsid (cw s) = lsid (cw s0)"
  using wmoves_const [OF wkeeps_wmoves] by fastforce

section \<open>Accepting a session, the timer\<close>

lemma wpx_range_acc:
  assumes "I a s"
    and "\<And>k info a s. I a s \<Longrightarrow> peers (cw s) k = Some info \<Longrightarrow> wpx b (body k info a) I s"
    and "\<And>a s. I a s \<Longrightarrow> Q a s"
  shows "wpx b (range_peers_acc ord body a) Q s"
  unfolding range_peers_acc_def
  by (rule wpx_fold [where I = "\<lambda>_. I"]) (use assms in \<open>auto simp: wp_rules split: option.split\<close>)

lemma wkeeps_mem_peer:
  assumes "wkeeps C A s0 s" and "peers (cw s) k = Some i" and "state i = WS_MEM"
  obtains q where "C k = Some q" "Peer i = Some q" "IDHash q = k" "no_join (cw s)"
proof -
  have g: "wgood C s" using assms(1) by (simp add: wkeeps_def)
  have nd: "\<not> dc (state i)" using assms(3) by simp
  obtain q where "C k = Some q" "Peer i = Some q" "IDHash q = k" by (rule wgood_some_cell [OF g assms(2) nd])
  with wgood_no_join [OF g assms(2)] assms(3) that show ?thesis by simp
qed

lemma wkeeps_stat: "wkeeps C A s0 s \<Longrightarrow> length (stat_w (o_stat s)) = 85"
  by (auto simp: wkeeps_def)

lemma introduce_joiner_keeps:
  assumes "wkeeps C A s0 s" and "peers (cw s) k = Some p"
  shows "wp (introduce_joiner L info k p a) (\<lambda>_ s'. wkeeps C A s0 s' \<and> cw s' = cw s) s"
proof -
  have "\<exists>q. Peer p = Some q" if "state p = WS_MEM"
    using that assms by (metis wkeeps_mem_peer)
  then show ?thesis
    using wkeeps_stat [OF assms(1)] wkeeps_counts [OF assms(1)]
    by (auto simp: introduce_joiner_def wp_rules counted_def all_ahmp_type)
qed

text \<open>The acceptance of a joiner: members are told first, then the joiner gets its answer.\<close>

lemma accept_joiner_keeps:
  assumes k: "wkeeps C A s0 s" and i: "peers (cw s) k = Some i" "state i = WS_JN" "PeerSessionID i \<in> A k"
  shows "wp (go_bind (range_peers_acc ord (introduce_joiner L i) [])
     (\<lambda>ms. go_block [stat_inc JOK_TX_update, send_to (Peer i) (TrySendJOK a b c d ms),
        set_info k (\<lambda>i. i\<lparr>state := WS_TMEM\<rparr>)])) (\<lambda>_. wkeeps C A s0) s"
  unfolding wpx_bind
proof (rule wpx_range_acc [where I = "\<lambda>_ s'. wkeeps C A s0 s' \<and> cw s' = cw s"], goal_cases)
  case (2 k info a s1)
  then show ?case using introduce_joiner_keeps [of C A s0 s1 k info L i a] by simp
next
  case (3 ms s1)
  then have K: "wkeeps C A s0 s1" and w: "cw s1 = cw s" by simp_all
  then have g: "wgood C s1" by (simp add: wkeeps_def)
  have i1: "peers (cw s1) k = Some i" "\<not> dc (state i)" using i w by simp_all
  obtain q where q: "C k = Some q" "Peer i = Some q" by (rule wgood_some_cell [OF g i1])
  have "wp (go_block [stat_inc JOK_TX_update, send_to (Peer i) (TrySendJOK a b c d ms),
        set_info k (\<lambda>i. i\<lparr>state := WS_TMEM\<rparr>)]) (\<lambda>_ s'. wgood C s' \<and> wtrans A k s1 s') s1"
    using i1 i q g wgood_no_join [OF g i1(1)] by (auto intro: wgood_put [OF g] simp: wp_rules move_simps)
  then show ?case by (rule wpx_mono) (auto intro: wkeeps_step [OF K])
qed (use k in simp)

lemma accept_one:
  assumes g: "wgood C s" and ps: "Peer ps = Some p" and k: "IDHash p = k" and nj: "\<not> is_joining (peers (cw s) k)"
    and A: "PeerSessionID ps \<in> A k"
    and nJN: "\<And>i. peers (cw s) k = Some i \<Longrightarrow> PeerSessionID i = PeerSessionID ps \<Longrightarrow> state i \<noteq> WS_JN"
  shows "wp (ANDWorld_AcceptSession ord ps) (\<lambda>_ s'. wgood C s' \<and> wtrans A k s s') s"
proof (cases "peers (cw s) k")
  case None
  then show ?thesis using g ps k
    by (auto intro: wgood_same [OF g] simp: ANDWorld_AcceptSession_def handler_simps move_simps)
next
  case (Some i)
  note G = wgood_put [OF g, where k = k] wgood_same [OF g]
  show ?thesis
  proof (cases "dc (state i)")
    case True
    then show ?thesis using Some g ps k nj
      by (cases "state i") (auto intro: G simp: ANDWorld_AcceptSession_def handler_simps move_simps)
  next
    case nd: False
    obtain q where q: "C k = Some q" "Peer i = Some q" "IDHash q = k"
      by (rule wgood_some_cell [OF g Some nd])
    show ?thesis using Some nd q g ps k nj A nJN wgood_no_join [OF g Some]
      by (cases "state i") (auto intro: G simp: ANDWorld_AcceptSession_def handler_simps move_simps)
  qed
qed

lemma Accept_moves:
  assumes g: "wgood C s" and ps: "Peer ps = Some p" and nj: "\<not> is_joining (peers (cw s) (IDHash p))"
    and A: "PeerSessionID ps \<in> A (IDHash p)"
  shows "wp (ANDWorld_AcceptSession ord ps) (\<lambda>_. wkeeps C A s) s"
proof (cases "\<exists>i. peers (cw s) (IDHash p) = Some i \<and> PeerSessionID i = PeerSessionID ps \<and> state i = WS_JN")
  case False
  show ?thesis
    by (rule wpx_mono [OF accept_one [OF g ps refl nj, of A]])
       (use False A in \<open>auto intro: wkeeps_step [OF wkeeps_refl [OF g]]\<close>)
next
  case True
  then obtain i where i: "peers (cw s) (IDHash p) = Some i" "PeerSessionID i = PeerSessionID ps" "state i = WS_JN"
    by blast
  let ?s = "s\<lparr>o_stat := (o_stat s)\<lparr>stat_w := (stat_w (o_stat s))[57 := stat_w (o_stat s) ! 57 + 1]\<rparr>\<rparr>"
  have "wkeeps C A s ?s" using wkeeps_counts [OF wkeeps_refl [OF g], where ms = "[]"] by simp
  from accept_joiner_keeps [OF this, of "IDHash p" i] i A g ps show ?thesis
    by (simp add: ANDWorld_AcceptSession_def wp_rules)
qed

lemma sjn_collect_keeps:
  assumes K: "wkeeps C A s0 s" and i: "peers (cw s) k = Some info"
  shows "wp (sjn_collect now k info a) (\<lambda>_. wkeeps C A s0) s"
proof (cases "sjn_due (now k) info")
  case False
  then show ?thesis using wkeeps_stat [OF K] wkeeps_counts [OF K, where ms = "[]"]
    by (auto simp: sjn_collect_def wp_rules)
next
  case True
  then have m: "state info = WS_MEM" by (simp add: sjn_due_def)
  have g: "wgood C s" using K by (simp add: wkeeps_def)
  obtain q where q: "C k = Some q" "Peer info = Some q" "no_join (cw s)"
    by (rule wkeeps_mem_peer [OF K i m])
  have "wp (sjn_collect now k info a) (\<lambda>_ s'. wgood C s' \<and> wtrans A k s s') s"
    using True m q i g by (auto intro: wgood_put [OF g] simp: sjn_collect_def wp_rules move_simps)
  then show ?thesis by (rule wpx_mono) (auto intro: wkeeps_step [OF K])
qed

lemma sjn_announce_keeps:
  assumes K: "wkeeps C A s0 s" and i: "peers (cw s) k = Some info" and n: "0 \<le> n"
  shows "wp (sjn_announce L ms k info n) (\<lambda>n' s'. 0 \<le> n' \<and> wkeeps C A s0 s') s"
proof -
  have "\<exists>q. Peer info = Some q" if "state info = WS_MEM"
    using that assms by (metis wkeeps_mem_peer)
  then show ?thesis
    using n K wkeeps_stat [OF K] wkeeps_counts [OF K]
    by (auto simp: sjn_announce_def wp_rules counted_def all_ahmp_type)
qed

lemma Timer_moves:
  assumes g: "wgood C s"
  shows "wp (ANDWorld_TimerExpire ord1 ord2 now r) (\<lambda>_. wkeeps C A s) s"
proof -
  have emit: "wp (go_bind (rand_Intn r (300 * (n + 1))) (\<lambda>v. emit (timer_event (lsid (cw s)) (300 + v))))
      (\<lambda>_. wkeeps C A s) s1" if K: "wkeeps C A s s1" and n: "0 \<le> n" for n s1
  proof -
    let ?s = "s1\<lparr>ech := ech s1 @ [timer_event (lsid (cw s)) (300 + int r mod (300 * (n + 1)))]\<rparr>"
    have g1: "wgood C s1" using K by (simp add: wkeeps_def)
    have "wgood C ?s" using g1 by (rule wgood_same) (use wgood_stat [OF g1] in \<open>simp_all add: stat_wf_def\<close>)
    moreover have "wtrans A k s1 ?s" for k
      using wkeeps_lsid [OF K] by (auto simp: move_simps side_event_def timer_event_def)
    ultimately have "wkeeps C A s ?s" by (rule wkeeps_step [OF K])
    then show ?thesis using n by (simp add: wp_rules)
  qed
  have second: "wp (go_bind (range_peers_acc ord2 (sjn_announce (lsid (cw s)) ms) 0) (\<lambda>n.
      go_bind (rand_Intn r (300 * (n + 1))) (\<lambda>v. emit (timer_event (lsid (cw s)) (300 + v)))))
      (\<lambda>_. wkeeps C A s) s1" if "wkeeps C A s s1" for ms s1
    unfolding wpx_bind [of _ "range_peers_acc _ _ _"]
    by (rule wpx_range_acc [where I = "\<lambda>n s'. 0 \<le> n \<and> wkeeps C A s s'"])
       (use that in \<open>auto intro: emit sjn_announce_keeps simp del: distrib_left_numeral\<close>)
  show ?thesis
    unfolding ANDWorld_TimerExpire_def wpx_bind [of _ the_world] wpx_the_world
      wpx_bind [of _ "range_peers_acc ord1 _ _"]
    by (rule wpx_range_acc [where I = "\<lambda>_. wkeeps C A s"])
       (use g in \<open>auto intro: second sjn_collect_keeps wkeeps_refl simp del: distrib_left_numeral\<close>)
qed

section \<open>Creating and closing a world\<close>

definition fresh_cell :: "IANDPeer \<Rightarrow> ANDPeerSessionState" where
  "fresh_cell p = NewANDPeerSessionState (Some p) uuid_Nil zero_time WS_CC"

definition fresh_cells :: "(hash \<rightharpoonup> IANDPeer) \<Rightarrow> hash \<rightharpoonup> ANDPeerSessionState" where
  "fresh_cells C k = map_option fresh_cell (C k)"

lemma fresh_cell_sel [simp]:
  "Peer (fresh_cell p) = Some p" "state (fresh_cell p) = WS_CC" "PeerSessionID (fresh_cell p) = uuid_Nil"
  "TimeStamp (fresh_cell p) = zero_time" "sjnp (fresh_cell p) = False" "sjnc (fresh_cell p) = 0"
  by (simp_all add: fresh_cell_def)

text \<open>A new world starts with one idle cell per connected peer.\<close>

lemma wp_fresh_loop:
  assumes "stat_wf (o_stat s)" and "n < 85"
  shows "wp (go_for ord (\<lambda>k. case C k of None \<Rightarrow> go_ret () | Some p \<Rightarrow>
      go_block [stat_W n, put_info k (NewANDPeerSessionState (Some p) uuid_Nil zero_time WS_CC)]))
    (\<lambda>_ s'. cw s' = (cw s)\<lparr>peers := peers (cw s) ++ fresh_cells (C |` set ord)\<rparr> \<and>
       ech s' = ech s \<and> sent s' = sent s \<and> stat_wf (o_stat s') \<and> counted (o_stat s) [] (o_stat s')) s"
  using assms(1)
proof (induction ord arbitrary: s)
  case Nil
  have "fresh_cells Map.empty = Map.empty" by (simp add: fun_eq_iff fresh_cells_def)
  then show ?case using Nil by (simp add: wp_rules counted_def)
next
  case (Cons k ord)
  show ?case
  proof (cases "C k")
    case None
    then have "C |` insert k (set ord) = C |` set ord" by (auto simp: fun_eq_iff restrict_map_def)
    then show ?thesis using Cons None by (simp add: wp_rules)
  next
    case (Some p)
    let ?s = "s\<lparr>o_stat := (o_stat s)\<lparr>stat_w := (stat_w (o_stat s))[n := stat_w (o_stat s) ! n + 1]\<rparr>,
       cw := (cw s)\<lparr>peers := (peers (cw s))(k \<mapsto> fresh_cell p)\<rparr>\<rparr>"
    have "stat_wf (o_stat ?s)" using Cons.prems by (simp add: stat_wf_def)
    note IH = Cons.IH [OF this]
    have "(peers (cw s))(k \<mapsto> fresh_cell p) ++ fresh_cells (C |` set ord) =
       peers (cw s) ++ fresh_cells (C |` insert k (set ord))"
      using Some by (auto simp: fun_eq_iff fresh_cells_def restrict_map_def map_add_def split: option.split)
    then have "wp (go_for ord (\<lambda>k. case C k of None \<Rightarrow> go_ret () | Some p \<Rightarrow>
        go_block [stat_W n, put_info k (NewANDPeerSessionState (Some p) uuid_Nil zero_time WS_CC)]))
      (\<lambda>_ s'. cw s' = (cw s)\<lparr>peers := peers (cw s) ++ fresh_cells (C |` set (k # ord))\<rparr> \<and>
       ech s' = ech s \<and> sent s' = sent s \<and> stat_wf (o_stat s') \<and> counted (o_stat s) [] (o_stat s')) ?s"
      by (intro wpx_mono [OF IH]) (auto simp: counted_def all_ahmp_type simp del: fun_upd_apply)
    then show ?thesis using Some Cons.prems assms(2)
      by (simp add: wp_rules stat_wf_def flip: fresh_cell_def)
  qed
qed

lemma fresh_cells_range:
  assumes "range_order ord C"
  shows "fresh_cells (C |` set ord) = fresh_cells C"
proof -
  have "C |` set ord = C"
    using assms unfolding range_order_def by (auto simp: fun_eq_iff restrict_map_def dom_def)
  then show ?thesis by simp
qed

lemma fresh_cells_simps [simp]:
  "fresh_cells C k = None \<longleftrightarrow> C k = None"
  "fresh_cells C k = Some i \<longleftrightarrow> (\<exists>p. C k = Some p \<and> i = fresh_cell p)"
  by (auto simp: fresh_cells_def)

lemma dom_fresh_cells [simp]: "dom (fresh_cells C) = dom C"
  by (auto simp: dom_def)

definition opened_world :: "time \<Rightarrow> hash \<Rightarrow> uuid \<Rightarrow> string \<Rightarrow> (hash \<rightharpoonup> IANDPeer) \<Rightarrow> ANDWorld" where
  "opened_world now h l url C = \<lparr>local = h, lsid = l, timestamp = now, join_hash = '''', join_path = '''',
     wurl = url, peers = fresh_cells C\<rparr>"

lemma NewWorldOpen_spec:
  assumes "stat_wf (o_stat s)" and "range_order ord C" and "hashes_ok C"
  shows "wp (NewWorldOpen ord now h l url C) (\<lambda>_ s'. cw s' = opened_world now h l url C \<and>
     ech s' = ech s @ [join_success_event l url, timer_event l 500] \<and> sent s' = sent s \<and>
     counted (o_stat s) [] (o_stat s') \<and> wgood C s' \<and> no_join (cw s')) s"
proof -
  let ?w = "opened_world now h l url C"
  let ?s = "s\<lparr>cw := ?w\<lparr>peers := Map.empty\<rparr>\<rparr>"
  have conn: "world_conn C ?w"
    using range_order_finite [OF assms(2)] by (auto simp: world_conn_def opened_world_def)
  have nj: "no_join ?w"
    by (auto simp: no_join_def is_joining_def opened_world_def)
  note loop = wp_fresh_loop [of ?s 0 ord C, simplified fresh_cells_range [OF assms(2)]]
  have "wp (go_for ord (\<lambda>k. case C k of None \<Rightarrow> go_ret () | Some p \<Rightarrow>
      go_block [stat_W 0, put_info k (NewANDPeerSessionState (Some p) uuid_Nil zero_time WS_CC)]))
    (\<lambda>_. wp (go_block [emit (join_success_event l url), emit (timer_event l 500)]) 
      (\<lambda>_ s'. cw s' = opened_world now h l url C \<and>
     ech s' = ech s @ [join_success_event l url, timer_event l 500] \<and> sent s' = sent s \<and>
     counted (o_stat s) [] (o_stat s') \<and> wgood C s' \<and> no_join (cw s'))) ?s"
    by (rule wpx_mono [OF loop])
       (use assms conn nj in \<open>auto simp: wp_rules wgood_def opened_world_def no_join_world_join simp del: wgood_stat\<close>)
  then show ?thesis
    by (simp add: NewWorldOpen_def wp_rules zero_world_def opened_world_def)
qed

definition joined_world ::
    "time \<Rightarrow> hash \<Rightarrow> uuid \<Rightarrow> AURL \<Rightarrow> (hash \<rightharpoonup> IANDPeer) \<Rightarrow> ANDWorld" where
  "joined_world now h l target C = \<lparr>local = h, lsid = l, timestamp = now,
     join_hash = Hash target, join_path = Path target, wurl = '''',
     peers = (fresh_cells C)(Hash target \<mapsto>
       (case C (Hash target) of
          Some p \<Rightarrow> (fresh_cell p)\<lparr>state := WS_JT\<rparr>
        | None \<Rightarrow> NewANDPeerSessionState None uuid_Nil zero_time WS_DC_JT))\<rparr>"

lemma joined_world_conn: "finite (dom C) \<Longrightarrow> world_conn C (joined_world now h l target C)"
  by (auto simp: world_conn_def joined_world_def split: option.splits)

lemma joined_world_join: "world_join (joined_world now h l target C)"
  by (auto simp: world_join_def joined_world_def is_joining_def split: option.splits if_splits)

lemma NewWorldJoin_spec:
  assumes st: "stat_wf (o_stat s)" and ord: "range_order ord C" and h: "hashes_ok C"
  shows "wp (NewWorldJoin ord now h l target C) (\<lambda>_ s'. cw s' = joined_world now h l target C \<and>
     (case C (Hash target) of
        Some p \<Rightarrow> ech s' = ech s \<and> sent s' = sent s @ [(p, TrySendJN l (Path target) now)] \<and>
          counted (o_stat s) [(p, TrySendJN l (Path target) now)] (o_stat s')
      | None \<Rightarrow> ech s' = ech s @ [(NeighborEvent_of ANDConnectRequest)\<lparr>Object := AnyAURL target\<rparr>] \<and>
          sent s' = sent s \<and> counted (o_stat s) [] (o_stat s')) \<and> wgood C s') s"
  (is "wp _ (\<lambda>_. ?Q) s")
proof -
  let ?w = "joined_world now h l target C"
  let ?s = "s\<lparr>cw := ?w\<lparr>peers := Map.empty\<rparr>\<rparr>"
  let ?body = "go_bind (lookup_info (Hash target)) (\<lambda>connected_target.
         case connected_target of
           Some info \<Rightarrow> go_block [
             stat_W 2,
             set_info (Hash target) (\<lambda>i. i\<lparr>state := WS_JT\<rparr>),
             stat_inc JN_TX_update,
             send_to (Peer info) (TrySendJN l (Path target) now)]
         | None \<Rightarrow> go_block [
             stat_W 3,
             put_info (Hash target) (NewANDPeerSessionState None uuid_Nil zero_time WS_DC_JT),
             emit ((NeighborEvent_of ANDConnectRequest)\<lparr>Object := AnyAURL target\<rparr>)])"
  have good: "wgood C s'" if "cw s' = ?w" "stat_wf (o_stat s')" for s'
    using that h joined_world_conn [OF range_order_finite [OF ord]] joined_world_join
    by (simp add: wgood_def del: wgood_stat)
  have last: "wp ?body (\<lambda>_. ?Q) s1"
    if s1: "cw s1 = ?w\<lparr>peers := fresh_cells C\<rparr>" "ech s1 = ech s" "sent s1 = sent s"
      "stat_wf (o_stat s1)" "counted (o_stat s) [] (o_stat s1)" for s1
    using s1
    by (cases "C (Hash target)")
       (auto simp: wp_rules joined_world_def stat_wf_def counted_def all_ahmp_type fresh_cells_def
         simp del: fresh_cells_simps intro!: good [unfolded joined_world_def stat_wf_def])
  note loop = wp_fresh_loop [of ?s 1 ord C, simplified fresh_cells_range [OF ord]]
  have "wp (go_for ord (\<lambda>k. case C k of None \<Rightarrow> go_ret () | Some p \<Rightarrow>
      go_block [stat_W 1, put_info k (NewANDPeerSessionState (Some p) uuid_Nil zero_time WS_CC)]))
    (\<lambda>_. wp ?body (\<lambda>_. ?Q)) ?s"
    by (rule wpx_mono [OF loop]) (use st in \<open>auto intro!: last\<close>)
  moreover have "s\<lparr>cw := zero_world\<lparr>local := h, lsid := l, timestamp := now,
      join_hash := Hash target, join_path := Path target\<rparr>\<rparr> = ?s"
    by (simp add: zero_world_def joined_world_def)
  ultimately show ?thesis
    by (simp only: NewWorldJoin_def wpx_block wpx_modify)
qed

text \<open>Closing: what each cell still owes to the application.\<close>

definition close_events :: "uuid \<Rightarrow> cell \<Rightarrow> NeighborEvent list" where
  "close_events L c = (case c of None \<Rightarrow> [] | Some i \<Rightarrow>
     (case state i of
        WS_JT \<Rightarrow> [join_fail_event L JNM_CANCELED JNC_CANCELED]
      | WS_MEM \<Rightarrow> [session_event ANDSessionClose L i]
      | _ \<Rightarrow> []))"

definition world_leave_event :: "uuid \<Rightarrow> NeighborEvent" where
  "world_leave_event L = (NeighborEvent_of ANDWorldLeave)\<lparr>LocalSessionID := L\<rparr>"

text \<open>A statement that leaves the world alone, raises \<open>evs\<close> and counts what it sends.\<close>

definition reports :: "NeighborEvent list \<Rightarrow> wctx \<Rightarrow> wctx \<Rightarrow> bool" where
  "reports evs s s' \<longleftrightarrow> cw s' = cw s \<and> ech s' = ech s @ evs \<and>
     (\<exists>ms. sent s' = sent s @ ms \<and> counted (o_stat s) ms (o_stat s'))"

lemma counted_trans:
  "counted a ms b \<Longrightarrow> counted b ms' c \<Longrightarrow> counted a (ms @ ms') c"
  by (simp add: counted_def)

lemma reports_refl [simp]: "reports [] s s"
  by (auto simp: reports_def counted_def)

lemma reports_trans: "reports a s s1 \<Longrightarrow> reports b s1 s2 \<Longrightarrow> reports (a @ b) s s2"
  by (auto simp: reports_def intro: counted_trans)

lemma reports_good: "reports evs s s' \<Longrightarrow> wgood C s \<Longrightarrow> wgood C s'"
  by (rule wgood_same) (auto simp: reports_def stat_wf_def counted_def)

lemma close_cell_spec:
  assumes g: "wgood C s" and i: "peers (cw s) k = Some i"
  shows "wp (close_cell L k i) (\<lambda>_. reports (close_events L (Some i)) s) s"
proof (cases "dc (state i)")
  case True
  then show ?thesis using g
    by (cases "state i") (auto simp: close_cell_def close_events_def wp_rules)
next
  case False
  obtain p where "Peer i = Some p" by (rule wgood_some_cell [OF g i False])
  with False g show ?thesis
    by (cases "state i")
       (auto simp: close_cell_def close_events_def wp_rules counted_def reports_def all_ahmp_type)
qed

lemma close_loop_spec:
  assumes "wgood C s"
  shows "wp (range_peers ks (close_cell L))
     (\<lambda>_. reports (concat (map (\<lambda>k. close_events L (peers (cw s) k)) ks)) s) s"
  using assms
proof (induction ks arbitrary: s)
  case Nil
  show ?case by (simp add: range_peers_def wp_rules)
next
  case (Cons k ks)
  let ?E = "\<lambda>s ks. concat (map (\<lambda>k. close_events L (peers (cw s) k)) ks)"
  have rest: "wp (range_peers ks (close_cell L)) (\<lambda>_. reports (?E s (k # ks)) s) s1"
    if r: "reports (close_events L (peers (cw s) k)) s s1" for s1
  proof (rule wpx_mono [OF Cons.IH [OF reports_good [OF r Cons.prems]]])
    fix s' assume "reports (?E s1 ks) s1 s'"
    from reports_trans [OF r this] show "reports (?E s (k # ks)) s s'"
      using r by (simp add: reports_def)
  qed
  show ?case
  proof (cases "peers (cw s) k")
    case None
    then show ?thesis using rest [of s] by (simp add: close_events_def range_peers_def wp_rules)
  next
    case (Some i)
    have "wp (close_cell L k i) (\<lambda>_. wp (range_peers ks (close_cell L)) (\<lambda>_. reports (?E s (k # ks)) s)) s"
      by (rule wpx_mono [OF close_cell_spec [OF Cons.prems Some]]) (rule rest, simp add: Some)
    then show ?thesis using Some by (simp add: range_peers_def wp_rules)
  qed
qed

lemma Close_spec:
  assumes g: "wgood C s"
  shows "wp (ANDWorld_Close ord) (\<lambda>_. reports
     (concat (map (\<lambda>k. close_events (lsid (cw s)) (peers (cw s) k)) ord)
        @ [world_leave_event (lsid (cw s))]) s) s"
proof -
  have last: "wp (go_block [stat_W 81, emit (world_leave_event (lsid (cw s)))]) (\<lambda>_. reports (es @ [world_leave_event (lsid (cw s))]) s) s1"
    if r: "reports es s s1" for es s1
  proof -
    have "wp (go_block [stat_W 81, emit (world_leave_event (lsid (cw s)))]) (\<lambda>_. reports [world_leave_event (lsid (cw s))] s1) s1"
      using reports_good [OF r g] by (simp add: wp_rules reports_def)
    then show ?thesis by (rule wpx_mono) (rule reports_trans [OF r])
  qed
  show ?thesis
    unfolding ANDWorld_Close_def wpx_bind [of _ the_world] wpx_the_world
    by (subst go_block.simps, rule wp_then [OF close_loop_spec [OF g]])
       (simp only: flip: world_leave_event_def, rule last)
qed

end
