(* ===== verification/And_World_Log.thy ===== *)
theory And_World_Log
  imports And_World_Ops
begin

text \<open>
  What the events of a world tell the application. Three observers read the event sequence:
  \<open>member_run\<close> follows the membership of one peer and fails when a session becomes ready twice or
  is closed without having been ready; \<open>join_run\<close> counts the join results since the world was
  last left; \<open>requested\<close> says that a session of the world was ever offered. Each is related to the
  cells of the world along the edges of the peer automaton.
\<close>

section \<open>Observers\<close>

definition member_of :: "cell \<Rightarrow> uuid option" where
  "member_of c = (case c of None \<Rightarrow> None | Some i \<Rightarrow>
     if state i = WS_MEM then Some (PeerSessionID i) else None)"

definition about :: "uuid \<Rightarrow> hash \<Rightarrow> NeighborEvent \<Rightarrow> bool" where
  "about L k e \<longleftrightarrow> LocalSessionID e = L \<and>
     (case Peer e of None \<Rightarrow> False | Some p \<Rightarrow> IDHash p = k)"

definition member_step :: "uuid \<Rightarrow> hash \<Rightarrow> uuid option \<Rightarrow> NeighborEvent \<Rightarrow> uuid option option" where
  "member_step L k m e =
     (if \<not> about L k e then Some m
      else if Type e = ANDSessionReady then
        (if m = None then Some (Some (PeerSessionID e)) else None)
      else if Type e = ANDSessionClose then
        (if m = Some (PeerSessionID e) then Some None else None)
      else Some m)"

primrec member_run ::
    "uuid \<Rightarrow> hash \<Rightarrow> uuid option \<Rightarrow> NeighborEvent list \<Rightarrow> uuid option option" where
  "member_run L k m [] = Some m"
| "member_run L k m (e # es) = (case member_step L k m e of
     None \<Rightarrow> None | Some m' \<Rightarrow> member_run L k m' es)"

definition join_step :: "uuid \<Rightarrow> nat \<Rightarrow> NeighborEvent \<Rightarrow> nat" where
  "join_step L n e =
     (if LocalSessionID e \<noteq> L then n
      else if Type e \<in> {ANDJoinSuccess, ANDJoinFail} then n + 1
      else if Type e = ANDWorldLeave then 0 else n)"

definition join_run :: "uuid \<Rightarrow> nat \<Rightarrow> NeighborEvent list \<Rightarrow> nat" where
  "join_run L = foldl (join_step L)"

definition requested :: "uuid \<Rightarrow> NeighborEvent list \<Rightarrow> bool" where
  "requested L es \<longleftrightarrow> (\<exists>e \<in> set es. Type e = ANDSessionRequest \<and> LocalSessionID e = L)"

lemma member_run_append:
  "member_run L k m (es @ es') =
     (case member_run L k m es of None \<Rightarrow> None | Some m' \<Rightarrow> member_run L k m' es')"
  by (induction es arbitrary: m) (auto split: option.split)

lemma member_run_skip:
  "(\<And>e. e \<in> set es \<Longrightarrow> Type e \<in> {ANDSessionReady, ANDSessionClose} \<Longrightarrow> \<not> about L k e)
   \<Longrightarrow> member_run L k m es = Some m"
  by (induction es) (auto simp: member_step_def)

lemma join_run_simps [simp]:
  "join_run L n [] = n"
  "join_run L n (e # es) = join_run L (join_step L n e) es"
  "join_run L n (es @ es') = join_run L (join_run L n es) es'"
  by (simp_all add: join_run_def)

lemma join_run_skip:
  "(\<And>e. e \<in> set es \<Longrightarrow> Type e \<in> {ANDJoinSuccess, ANDJoinFail, ANDWorldLeave} \<Longrightarrow> LocalSessionID e \<noteq> L)
   \<Longrightarrow> join_run L n es = n"
  by (induction es) (auto simp: join_step_def)

lemma requested_simps [simp]:
  "\<not> requested L []"
  "requested L (es @ es') \<longleftrightarrow> requested L es \<or> requested L es'"
  by (auto simp: requested_def)

section \<open>Edges and observers\<close>

text \<open>A connected cell holds a peer object whose hash is its key.\<close>

definition cell_at :: "hash \<Rightarrow> cell \<Rightarrow> bool" where
  "cell_at k c \<longleftrightarrow> (\<forall>i. c = Some i \<longrightarrow> \<not> dc (state i) \<longrightarrow> (\<exists>p. Peer i = Some p \<and> IDHash p = k))"

lemma wgood_cell_at: "wgood C s \<Longrightarrow> cell_at k (peers (cw s) k)"
  unfolding cell_at_def by (metis wgood_some_cell)

lemma event_sel [simp]:
  "Type (session_event t L ps) = t" "LocalSessionID (session_event t L ps) = L"
  "Peer (session_event t L ps) = Peer ps" "PeerSessionID (session_event t L ps) = PeerSessionID ps"
  "Type (join_fail_event L m c) = ANDJoinFail" "LocalSessionID (join_fail_event L m c) = L"
  "Peer (join_fail_event L m c) = None"
  "Type (join_success_event L u) = ANDJoinSuccess" "LocalSessionID (join_success_event L u) = L"
  "Peer (join_success_event L u) = None"
  "Type (timer_event L ms) = ANDTimerRequest" "LocalSessionID (timer_event L ms) = L"
  "Peer (timer_event L ms) = None"
  "Type (world_leave_event L) = ANDWorldLeave" "LocalSessionID (world_leave_event L) = L"
  "Peer (world_leave_event L) = None"
  by (simp_all add: session_event_def join_fail_event_def join_success_event_def timer_event_def
      world_leave_event_def)

lemma map_Type_mem: "map Type evs = ts \<Longrightarrow> e \<in> set evs \<Longrightarrow> Type e \<in> set ts"
  by auto

text \<open>The events of an edge that matter carry the local session id of the world and, for the
  life cycle of a session, the peer of the cell.\<close>

definition session_types :: "NeighborEventType set" where
  "session_types = {ANDSessionRequest, ANDSessionReady, ANDSessionClose}"

lemma edge_events:
  assumes "peer_edge L A c evs c'" and "e \<in> set evs"
    and "Type e \<notin> {ANDPeerRegister, ANDConnectRequest}"
  shows "LocalSessionID e = L"
  using assms
  by (induction rule: peer_edge.induct)
     (auto simp: side_event_def clear_events_def begin_events_def dest: map_Type_mem split: ws.splits if_splits)

lemma edge_no_leave: "peer_edge L A c evs c' \<Longrightarrow> e \<in> set evs \<Longrightarrow> Type e \<noteq> ANDWorldLeave"
  by (induction rule: peer_edge.induct)
     (auto simp: side_event_def clear_events_def begin_events_def dest: map_Type_mem split: ws.splits if_splits)

lemma about_inj: "about L k e \<Longrightarrow> about L' k' e \<Longrightarrow> k = k'"
  by (auto simp: about_def split: option.splits)

lemma edge_about:
  assumes "peer_edge L A c evs c'" and "cell_at k c" and "cell_at k c'" and "e \<in> set evs"
    and "Type e \<in> session_types"
  shows "about L k e"
  using assms
  by (induction rule: peer_edge.induct)
     (auto simp: side_event_def clear_events_def begin_events_def cell_at_def about_def session_types_def
        dest: map_Type_mem split: ws.splits if_splits)

lemma edge_member:
  assumes "peer_edge L A c evs c'" and "cell_at k c" and "cell_at k c'"
  shows "member_run L k (member_of c) evs = Some (member_of c')"
  using assms
proof (induction rule: peer_edge.induct)
  case (stay evs c)
  show ?case by (rule member_run_skip) (use stay in \<open>auto simp: side_event_def\<close>)
next
  case (introduce evs sid ts)
  show ?case by (subst member_run_skip) (use introduce in \<open>auto simp: member_of_def dest: map_Type_mem\<close>)
qed (auto simp: member_of_def cell_at_def clear_events_def begin_events_def member_step_def about_def
       member_run_append split: ws.splits)

lemma begins_joining: "begins st \<Longrightarrow> \<not> joining_ws st"
  by (cases st) auto

lemma edge_join:
  assumes "peer_edge L A c evs c'"
  shows "join_run L n evs + of_bool (is_joining c') = n + of_bool (is_joining c)"
  using assms
proof (induction rule: peer_edge.induct)
  case (stay evs c)
  have "join_run L n evs = n" by (rule join_run_skip) (use stay in \<open>auto simp: side_event_def\<close>)
  then show ?case by simp
next
  case (introduce evs sid ts)
  have "join_run L n evs = n" by (rule join_run_skip) (use introduce in \<open>auto dest: map_Type_mem\<close>)
  then show ?case by simp
qed (auto simp: clear_events_def begin_events_def join_step_def dest: begins_joining split: ws.splits)

lemma edge_request:
  assumes "peer_edge L A c evs c'" and "requested L' evs"
  shows "\<exists>i. c' = Some i \<and> state i \<in> {WS_JN, WS_JNI, WS_RMEM}"
  using assms
  by (induction rule: peer_edge.induct)
     (auto simp: requested_def side_event_def clear_events_def begin_events_def elim: begins.elims
        dest: map_Type_mem split: ws.splits if_splits)

text \<open>Only sessions the application accepted get past the request.\<close>

definition admitted_in :: "uuid set \<Rightarrow> cell \<Rightarrow> bool" where
  "admitted_in S c \<longleftrightarrow> (\<forall>i. c = Some i \<longrightarrow> state i \<in> {WS_TMEM, WS_MEM} \<longrightarrow> PeerSessionID i \<in> S)"

lemma edge_admitted:
  assumes "peer_edge L A c evs c'" and "admitted_in S c" and "A \<subseteq> S"
  shows "admitted_in S c'" and "e \<in> set evs \<Longrightarrow> Type e = ANDSessionReady \<Longrightarrow> PeerSessionID e \<in> S"
  using assms
  by (induction rule: peer_edge.induct)
     (auto simp: admitted_in_def side_event_def clear_events_def begin_events_def elim: begins.elims
        dest: map_Type_mem split: ws.splits if_splits)

text \<open>Objects are reported only from a current member.\<close>

lemma edge_objects:
  assumes "peer_edge L A c evs c'" and "e \<in> set evs" and "Type e \<in> {ANDObjectAppend, ANDObjectDelete}"
  shows "\<exists>i. c = Some i \<and> state i = WS_MEM \<and> Peer e = Peer i \<and> PeerSessionID e = PeerSessionID i"
  using assms
  by (induction rule: peer_edge.induct)
     (auto simp: side_event_def clear_events_def begin_events_def dest: map_Type_mem split: ws.splits if_splits)

text \<open>A session under way is replaced only by a session with a newer time stamp.\<close>

lemma edge_newer:
  assumes "peer_edge L A (Some i) evs (Some i')" and "established (state i)" and "established (state i')"
    and "PeerSessionID i' \<noteq> PeerSessionID i"
  shows "TimeStamp i < TimeStamp i'"
  using assms by (auto simp: peer_edge.simps)

section \<open>Worlds and their log\<close>

text \<open>What the log says about a world: \<open>S k\<close> are the sessions of peer \<open>k\<close> that the application
  accepted.\<close>

definition world_ledger :: "(hash \<Rightarrow> uuid set) \<Rightarrow> ANDWorld \<Rightarrow> NeighborEvent list \<Rightarrow> bool" where
  "world_ledger S w es \<longleftrightarrow>
     (\<forall>k. member_run (lsid w) k None es = Some (member_of (peers w k))) \<and>
     join_run (lsid w) 0 es + of_bool (\<not> no_join w) = 1 \<and>
     (requested (lsid w) es \<longrightarrow> no_join w) \<and>
     (\<forall>k. admitted_in (S k) (peers w k))"

definition ready_in :: "(hash \<Rightarrow> uuid set) \<Rightarrow> NeighborEvent list \<Rightarrow> bool" where
  "ready_in S es \<longleftrightarrow> (\<forall>e \<in> set es. Type e = ANDSessionReady \<longrightarrow>
     (\<exists>p. Peer e = Some p \<and> PeerSessionID e \<in> S (IDHash p)))"

definition only_about :: "uuid \<Rightarrow> NeighborEvent list \<Rightarrow> bool" where
  "only_about L es \<longleftrightarrow> (\<forall>e \<in> set es.
     Type e \<notin> {ANDPeerRegister, ANDConnectRequest} \<longrightarrow> LocalSessionID e = L)"

text \<open>What an operation of a world adds to the shared logs.\<close>

definition wext :: "(hash \<Rightarrow> uuid set) \<Rightarrow> wctx \<Rightarrow> wctx \<Rightarrow> bool" where
  "wext S s0 s \<longleftrightarrow> lsid (cw s) = lsid (cw s0) \<and> local (cw s) = local (cw s0) \<and>
     (\<exists>evs ms. ech s = ech s0 @ evs \<and> sent s = sent s0 @ ms \<and> counted (o_stat s0) ms (o_stat s) \<and>
        only_about (lsid (cw s0)) evs \<and> ready_in S evs)"

lemma wext_refl [simp]: "wext S s s"
  by (auto simp: wext_def counted_def only_about_def ready_in_def)

lemma wext_trans: "wext S s s1 \<Longrightarrow> wext S s1 s2 \<Longrightarrow> wext S s s2"
proof (unfold wext_def, elim conjE exE, intro conjI)
  fix evs ms evs' ms'
  assume "ech s1 = ech s @ evs" "sent s1 = sent s @ ms" "counted (o_stat s) ms (o_stat s1)"
    "only_about (lsid (cw s)) evs" "ready_in S evs" "lsid (cw s1) = lsid (cw s)"
    "ech s2 = ech s1 @ evs'" "sent s2 = sent s1 @ ms'" "counted (o_stat s1) ms' (o_stat s2)"
    "only_about (lsid (cw s1)) evs'" "ready_in S evs'"
  then have "ech s2 = ech s @ (evs @ evs') \<and> sent s2 = sent s @ (ms @ ms') \<and>
      counted (o_stat s) (ms @ ms') (o_stat s2) \<and> only_about (lsid (cw s)) (evs @ evs') \<and> ready_in S (evs @ evs')"
    by (auto simp: only_about_def ready_in_def intro: counted_trans)
  then show "\<exists>evs ms. ech s2 = ech s @ evs \<and> sent s2 = sent s @ ms \<and>
      counted (o_stat s) ms (o_stat s2) \<and> only_about (lsid (cw s)) evs \<and> ready_in S evs" by blast
qed simp_all

lemma no_join_after_put:
  assumes "world_join w" and "w' = w\<lparr>peers := (peers w)(k := c')\<rparr>" and "is_joining c' \<Longrightarrow> is_joining (peers w k)"
  shows "(\<not> no_join w' \<longleftrightarrow> is_joining c' \<or> (\<not> no_join w \<and> \<not> is_joining (peers w k)))"
  using assms unfolding no_join_def world_join_def by (auto split: if_splits) metis

lemma wtrans_wext:
  assumes t: "wtrans A k s s'" and g: "wgood C s" "wgood C' s'" and A: "A k \<subseteq> S k"
    and adm: "admitted_in (S k) (peers (cw s) k)"
  shows "wext S s s'"
proof -
  from t obtain evs ms where e: "ech s' = ech s @ evs" "sent s' = sent s @ ms"
      "peer_edge (lsid (cw s)) (A k) (peers (cw s) k) evs (peers (cw s') k)"
      "counted (o_stat s) ms (o_stat s')"
    by (auto simp: wtrans_def)
  note at = wgood_cell_at [OF g(1), of k] wgood_cell_at [OF g(2), of k]
  have "only_about (lsid (cw s)) evs"
    using edge_events [OF e(3)] by (auto simp: only_about_def)
  moreover have "ready_in S evs"
    using edge_admitted(2) [OF e(3) adm A] edge_about [OF e(3) at]
    by (fastforce simp: ready_in_def about_def session_types_def split: option.splits)
  moreover obtain ps where "cw s' = (cw s)\<lparr>peers := ps\<rparr>" using wtrans_const [OF t] by blast
  ultimately show ?thesis using e by (auto simp: wext_def)
qed

lemma wtrans_ledger:
  assumes t: "wtrans A k s s'" and g: "wgood C s" "wgood C' s'" and A: "A k \<subseteq> S k"
    and l: "world_ledger S (cw s) (ech s)"
  shows "world_ledger S (cw s') (ech s')"
proof -
  let ?L = "lsid (cw s)" and ?c = "peers (cw s) k" and ?c' = "peers (cw s') k"
  from t obtain evs where e: "ech s' = ech s @ evs"
      and ed: "peer_edge ?L (A k) ?c evs ?c'"
      and w: "cw s' = (cw s)\<lparr>peers := (peers (cw s))(k := ?c')\<rparr>"
    by (auto simp: wtrans_def)
  note at = wgood_cell_at [OF g(1), of k] wgood_cell_at [OF g(2), of k]
  have L: "lsid (cw s') = ?L" by (subst w) simp
  have cells: "peers (cw s') k' = peers (cw s) k'" if "k' \<noteq> k" for k' using that by (subst w) simp
  have mem: "member_run ?L k' (member_of (peers (cw s) k')) evs = Some (member_of (peers (cw s') k'))" for k'
  proof (cases "k' = k")
    case True
    then show ?thesis using edge_member [OF ed at] by simp
  next
    case False
    have "member_run ?L k' (member_of (peers (cw s) k')) evs = Some (member_of (peers (cw s) k'))"
      by (rule member_run_skip)
         (use edge_about [OF ed at] about_inj False in \<open>unfold session_types_def, blast\<close>)
    then show ?thesis using cells [OF False] by simp
  qed
  have wj: "world_join (cw s)" using g by (simp add: wgood_def)
  have J: "\<not> no_join (cw s') \<longleftrightarrow> is_joining ?c' \<or> (\<not> no_join (cw s) \<and> \<not> is_joining ?c)"
    by (rule no_join_after_put [OF wj w edge_joining [OF ed]])
  have "is_joining ?c \<Longrightarrow> \<not> no_join (cw s)" by (auto simp: no_join_def)
  then have join: "join_run ?L 0 (ech s') + of_bool (\<not> no_join (cw s')) = 1"
    using l edge_join [OF ed, of "join_run ?L 0 (ech s)"] J edge_joining [OF ed]
    by (auto simp: world_ledger_def e split: if_splits)
  have "no_join (cw s')" if req: "requested ?L evs"
  proof -
    obtain i where i: "?c' = Some i" "state i \<in> {WS_JN, WS_JNI, WS_RMEM}"
      using edge_request [OF ed req] by blast
    show ?thesis by (rule wgood_no_join [OF g(2) i(1)]) (use i(2) in auto)
  qed
  moreover have "no_join (cw s')" if "no_join (cw s)" using wtrans_no_join [OF t that] .
  moreover have "admitted_in (S k') (peers (cw s') k')" for k'
    using l edge_admitted(1) [OF ed _ A] cells [of k'] by (cases "k' = k") (auto simp: world_ledger_def)
  ultimately show ?thesis
    using l mem join L by (auto simp: world_ledger_def e member_run_append)
qed

text \<open>A whole operation.\<close>

definition wstep :: "(hash \<Rightarrow> uuid set) \<Rightarrow> wctx \<Rightarrow> wctx \<Rightarrow> bool" where
  "wstep S s s' \<longleftrightarrow> (world_ledger S (cw s) (ech s) \<longrightarrow> world_ledger S (cw s') (ech s') \<and> wext S s s')"

lemma wtrans_wstep:
  assumes "wtrans A k s s'" and "wgood C s" and "wgood C' s'" and "A k \<subseteq> S k"
  shows "wstep S s s'"
  unfolding wstep_def
proof
  assume l: "world_ledger S (cw s) (ech s)"
  then have "admitted_in (S k) (peers (cw s) k)" by (simp add: world_ledger_def)
  then show "world_ledger S (cw s') (ech s') \<and> wext S s s'"
    using wtrans_ledger [OF assms l] wtrans_wext [where S = S, OF assms] by blast
qed

lemma wstep_trans: "wstep S s s1 \<Longrightarrow> wstep S s1 s2 \<Longrightarrow> wstep S s s2"
  using wext_trans by (auto simp: wstep_def)

lemma wkeeps_wstep:
  assumes k: "wkeeps C A s0 s" and g: "wgood C s0" and A: "\<And>k. A k \<subseteq> S k"
  shows "wstep S s0 s"
  by (rule wkeeps_induct [OF k g, where P = "wstep S s0"])
     (auto intro: wtrans_wstep [where S = S, OF _ _ _ A] elim!: wstep_trans simp: wstep_def [of S s0 s0])

end
