(* ===== verification/And.thy ===== *)
theory And
  imports And_World
begin

text \<open>
  The neighbor discovery object (\<open>and/and.go\<close>): the connected peers, the worlds by local session
  id, the counters and the event channel they share. Every method locks \<open>api_mtx\<close> for its whole
  body, so a method call is one atomic step and a history is a sequence of calls.

  The event channel is the sequence of events ever sent to it; the capacity of 4096 that would
  block a sender, and the debug output, are not modelled.
\<close>

section \<open>State\<close>

record AND =
  eventCh :: "NeighborEvent list"
  local_hash :: hash
  and_peers :: "hash \<rightharpoonup> IANDPeer"
  worlds :: "uuid \<rightharpoonup> ANDWorld"
  stat :: ANDStatistics
  and_sent :: "(IANDPeer \<times> ahmp_send) list"

definition NewAND :: "hash \<Rightarrow> AND" where
  "NewAND h = \<lparr>eventCh = [], local_hash = h, and_peers = Map.empty, worlds = Map.empty,
     stat = ANDStatistics_zero, and_sent = []\<rparr>"

definition stat_B :: "nat \<Rightarrow> (AND, unit) go" where
  "stat_B i = go_zoom stat (\<lambda>x a. a\<lparr>stat := x\<rparr>) (ANDStatistics_B i)"

text \<open>The context in which a world of this object runs, and writing it back.\<close>

definition ctx_of :: "AND \<Rightarrow> ANDWorld \<Rightarrow> wctx" where
  "ctx_of a w = \<lparr>cw = w, o_stat = stat a, ech = eventCh a, sent = and_sent a\<rparr>"

definition put_ctx :: "uuid \<Rightarrow> wctx \<Rightarrow> AND \<Rightarrow> AND" where
  "put_ctx L s a = a\<lparr>worlds := (worlds a)(L \<mapsto> cw s), stat := o_stat s, eventCh := ech s,
     and_sent := sent s\<rparr>"

definition in_world :: "uuid \<Rightarrow> (wctx, unit) go \<Rightarrow> (AND, unit) go" where
  "in_world L f a = (case worlds a L of
       None \<Rightarrow> Inl NilDeref
     | Some w \<Rightarrow> (case f (ctx_of a w) of
         Inl e \<Rightarrow> Inl e
       | Inr (_, s) \<Rightarrow> Inr ((), put_ctx L s a)))"

text \<open>\<open>a.worlds[world.lsid] = world\<close> for a constructor \<open>f\<close>.\<close>

definition new_world :: "(wctx, unit) go \<Rightarrow> (AND, unit) go" where
  "new_world f a = (case f (ctx_of a zero_world) of
       Inl e \<Rightarrow> Inl e
     | Inr (_, s) \<Rightarrow> Inr ((), put_ctx (lsid (cw s)) s a))"

text \<open>The common shape of the methods that address one world: look it up, count, delegate.\<close>

definition at_world :: "uuid \<Rightarrow> nat \<Rightarrow> nat \<Rightarrow> (AND, unit) go \<Rightarrow> (AND, ANDERROR) go" where
  "at_world L missing found f = go_bind (go_read (\<lambda>a. worlds a L)) (\<lambda>world.
     case world of
       None \<Rightarrow> go_bind (stat_B missing) (\<lambda>_. go_ret 0)
     | Some _ \<Rightarrow> go_bind (go_block [stat_B found, f]) (\<lambda>_. go_ret 0))"

section \<open>Methods\<close>

definition AND_PeerConnected :: "uuid list \<Rightarrow> IANDPeer \<Rightarrow> (AND, ANDERROR) go" where
  "AND_PeerConnected ord peer = go_bind (go_block [
     stat_B 0,
     go_modify (\<lambda>a. a\<lparr>and_peers := (and_peers a)(IDHash peer \<mapsto> peer)\<rparr>),
     go_for ord (\<lambda>L. go_block [stat_B 1, in_world L (ANDWorld_PeerConnected peer)])])
   (\<lambda>_. go_ret 0)"

definition AND_PeerClose :: "uuid list \<Rightarrow> IANDPeer \<Rightarrow> (AND, ANDERROR) go" where
  "AND_PeerClose ord peer = go_bind (go_block [
     stat_B 2,
     go_for ord (\<lambda>L. go_block [stat_B 3, in_world L (ANDWorld_RemovePeer peer)]),
     go_modify (\<lambda>a. a\<lparr>and_peers := (and_peers a)(IDHash peer := None)\<rparr>)])
   (\<lambda>_. go_ret 0)"

definition AND_OpenWorld ::
    "hash list \<Rightarrow> time \<Rightarrow> uuid \<Rightarrow> string \<Rightarrow> (AND, ANDERROR) go" where
  "AND_OpenWorld ord now local_session_id world_url = go_bind (go_block [
     stat_B 4,
     go_bind (go_read (\<lambda>a. a)) (\<lambda>a.
       new_world (NewWorldOpen ord now (local_hash a) local_session_id world_url (and_peers a)))])
   (\<lambda>_. go_ret 0)"

definition AND_JoinWorld ::
    "hash list \<Rightarrow> time \<Rightarrow> uuid \<Rightarrow> AURL \<Rightarrow> (AND, ANDERROR) go" where
  "AND_JoinWorld ord now local_session_id abyss_url = go_bind (go_block [
     stat_B 5,
     go_bind (go_read (\<lambda>a. a)) (\<lambda>a.
       new_world (NewWorldJoin ord now (local_hash a) local_session_id abyss_url (and_peers a)))])
   (\<lambda>_. go_ret 0)"

definition AND_AcceptSession ::
    "hash list \<Rightarrow> uuid \<Rightarrow> ANDPeerSession \<Rightarrow> (AND, ANDERROR) go" where
  "AND_AcceptSession ord L peer_session =
     at_world L 6 7 (in_world L (ANDWorld_AcceptSession ord peer_session))"

definition AND_DeclineSession ::
    "uuid \<Rightarrow> ANDPeerSession \<Rightarrow> int \<Rightarrow> string \<Rightarrow> (AND, ANDERROR) go" where
  "AND_DeclineSession L peer_session code message =
     at_world L 8 9 (in_world L (ANDWorld_DeclineSession peer_session code message))"

definition AND_CloseWorld :: "hash list \<Rightarrow> uuid \<Rightarrow> (AND, ANDERROR) go" where
  "AND_CloseWorld ord L =
     at_world L 10 11 (go_block [
       in_world L (ANDWorld_Close ord),
       go_modify (\<lambda>a. a\<lparr>worlds := (worlds a)(L := None)\<rparr>)])"

definition AND_TimerExpire ::
    "hash list \<Rightarrow> hash list \<Rightarrow> (hash \<Rightarrow> time) \<Rightarrow> nat \<Rightarrow> uuid \<Rightarrow> (AND, ANDERROR) go" where
  "AND_TimerExpire ord1 ord2 now r L =
     at_world L 12 13 (in_world L (ANDWorld_TimerExpire ord1 ord2 now r))"

definition AND_JN :: "uuid \<Rightarrow> ANDPeerSession \<Rightarrow> time \<Rightarrow> (AND, ANDERROR) go" where
  "AND_JN L peer_session ts = at_world L 14 15 (in_world L (ANDWorld_JN peer_session ts))"

definition AND_JOK ::
    "uuid \<Rightarrow> ANDPeerSession \<Rightarrow> time \<Rightarrow> string \<Rightarrow> ANDFullPeerSessionIdentity list
     \<Rightarrow> (AND, ANDERROR) go" where
  "AND_JOK L peer_session ts world_url member_infos =
     at_world L 16 17 (in_world L (ANDWorld_JOK peer_session ts world_url member_infos))"

definition AND_JDN :: "uuid \<Rightarrow> IANDPeer \<Rightarrow> int \<Rightarrow> string \<Rightarrow> (AND, ANDERROR) go" where
  "AND_JDN L peer code message = at_world L 18 19 (in_world L (ANDWorld_JDN peer code message))"

definition AND_JNI ::
    "uuid \<Rightarrow> ANDPeerSession \<Rightarrow> ANDFullPeerSessionIdentity \<Rightarrow> (AND, ANDERROR) go" where
  "AND_JNI L peer_session member_info =
     at_world L 20 21 (in_world L (ANDWorld_JNI peer_session member_info))"

definition AND_MEM :: "uuid \<Rightarrow> ANDPeerSession \<Rightarrow> time \<Rightarrow> (AND, ANDERROR) go" where
  "AND_MEM L peer_session ts = at_world L 22 23 (in_world L (ANDWorld_MEM peer_session ts))"

definition AND_SJN ::
    "uuid \<Rightarrow> ANDPeerSession \<Rightarrow> ANDPeerSessionIdentity list \<Rightarrow> (AND, ANDERROR) go" where
  "AND_SJN L peer_session member_infos =
     at_world L 24 25 (in_world L (ANDWorld_SJN peer_session member_infos))"

definition AND_CRR ::
    "uuid \<Rightarrow> ANDPeerSession \<Rightarrow> ANDPeerSessionIdentity list \<Rightarrow> (AND, ANDERROR) go" where
  "AND_CRR L peer_session member_infos =
     at_world L 26 27 (in_world L (ANDWorld_CRR peer_session member_infos))"

definition AND_RST :: "uuid list \<Rightarrow> uuid \<Rightarrow> ANDPeerSession \<Rightarrow> (AND, ANDERROR) go" where
  "AND_RST ord L peer_session =
     (if L \<noteq> uuid_Nil then at_world L 28 29 (in_world L (ANDWorld_RST peer_session))
      else go_bind (go_block [
        stat_B 30,
        go_for ord (\<lambda>L'. go_block [stat_B 31, in_world L' (ANDWorld_RST peer_session)])])
        (\<lambda>_. go_ret 0))"

definition AND_SOA :: "uuid \<Rightarrow> ANDPeerSession \<Rightarrow> ObjectInfo list \<Rightarrow> (AND, ANDERROR) go" where
  "AND_SOA L peer_session objects =
     at_world L 32 33 (in_world L (ANDWorld_SOA peer_session objects))"

definition AND_SOD :: "uuid \<Rightarrow> ANDPeerSession \<Rightarrow> uuid list \<Rightarrow> (AND, ANDERROR) go" where
  "AND_SOD L peer_session objectIDs =
     at_world L 34 35 (in_world L (ANDWorld_SOD peer_session objectIDs))"

section \<open>Calls\<close>

text \<open>A call with the choices it makes: map orders, clock readings, random draws.\<close>

datatype and_call =
    PeerConnected "uuid list" IANDPeer
  | PeerClose "uuid list" IANDPeer
  | OpenWorld "hash list" time uuid string
  | JoinWorld "hash list" time uuid AURL
  | AcceptSession "hash list" uuid ANDPeerSession
  | DeclineSession uuid ANDPeerSession int string
  | CloseWorld "hash list" uuid
  | TimerExpire "hash list" "hash list" "hash \<Rightarrow> time" nat uuid
  | JN uuid ANDPeerSession time
  | JOK uuid ANDPeerSession time string "ANDFullPeerSessionIdentity list"
  | JDN uuid IANDPeer int string
  | JNI uuid ANDPeerSession ANDFullPeerSessionIdentity
  | MEM uuid ANDPeerSession time
  | SJN uuid ANDPeerSession "ANDPeerSessionIdentity list"
  | CRR uuid ANDPeerSession "ANDPeerSessionIdentity list"
  | RST "uuid list" uuid ANDPeerSession
  | SOA uuid ANDPeerSession "ObjectInfo list"
  | SOD uuid ANDPeerSession "uuid list"

fun and_exec :: "and_call \<Rightarrow> (AND, ANDERROR) go" where
  "and_exec (PeerConnected ord p) = AND_PeerConnected ord p"
| "and_exec (PeerClose ord p) = AND_PeerClose ord p"
| "and_exec (OpenWorld ord now L url) = AND_OpenWorld ord now L url"
| "and_exec (JoinWorld ord now L target) = AND_JoinWorld ord now L target"
| "and_exec (AcceptSession ord L ps) = AND_AcceptSession ord L ps"
| "and_exec (DeclineSession L ps code msg) = AND_DeclineSession L ps code msg"
| "and_exec (CloseWorld ord L) = AND_CloseWorld ord L"
| "and_exec (TimerExpire ord1 ord2 now r L) = AND_TimerExpire ord1 ord2 now r L"
| "and_exec (JN L ps ts) = AND_JN L ps ts"
| "and_exec (JOK L ps ts url ms) = AND_JOK L ps ts url ms"
| "and_exec (JDN L p code msg) = AND_JDN L p code msg"
| "and_exec (JNI L ps m) = AND_JNI L ps m"
| "and_exec (MEM L ps ts) = AND_MEM L ps ts"
| "and_exec (SJN L ps ms) = AND_SJN L ps ms"
| "and_exec (CRR L ps ms) = AND_CRR L ps ms"
| "and_exec (RST ord L ps) = AND_RST ord L ps"
| "and_exec (SOA L ps obs) = AND_SOA L ps obs"
| "and_exec (SOD L ps ids) = AND_SOD L ps ids"

end
