(* ===== verification/And_Inv.thy ===== *)
theory And_Inv
  imports And_World_Log And
begin

text \<open>
  The neighbor discovery object as a whole: which calls its environment makes, the invariant that
  relates its worlds, its connections, its counters, and its event channel, and the proof that
  every such call returns and keeps it.
\<close>

section \<open>What the environment promises\<close>

definition sender_ok :: "'x ANDPeerSession_scheme \<Rightarrow> AND \<Rightarrow> bool" where
  "sender_ok ps a \<longleftrightarrow> (case Peer ps of None \<Rightarrow> False | Some p \<Rightarrow> and_peers a (IDHash p) = Some p)"

definition fresh_session :: "uuid \<Rightarrow> AND \<Rightarrow> bool" where
  "fresh_session L a \<longleftrightarrow> worlds a L = None \<and> L \<notin> LocalSessionID ` set (eventCh a)"

definition offered :: "uuid \<Rightarrow> ANDPeerSession \<Rightarrow> AND \<Rightarrow> bool" where
  "offered L ps a \<longleftrightarrow> Peer ps \<noteq> None \<and> (\<exists>e \<in> set (eventCh a). Type e = ANDSessionRequest \<and>
     LocalSessionID e = L \<and> Peer e = Peer ps \<and> PeerSessionID e = PeerSessionID ps)"

definition of_world :: "uuid \<Rightarrow> AND \<Rightarrow> (ANDWorld \<Rightarrow> bool) \<Rightarrow> bool" where
  "of_world L a P \<longleftrightarrow> (case worlds a L of None \<Rightarrow> True | Some w \<Rightarrow> P w)"

fun call_ok :: "and_call \<Rightarrow> AND \<Rightarrow> bool" where
  "call_ok (PeerConnected ord p) a \<longleftrightarrow> and_peers a (IDHash p) = None \<and> range_order ord (worlds a)"
| "call_ok (PeerClose ord p) a \<longleftrightarrow> and_peers a (IDHash p) = Some p \<and> range_order ord (worlds a)"
| "call_ok (OpenWorld ord now L url) a \<longleftrightarrow> fresh_session L a \<and> range_order ord (and_peers a)"
| "call_ok (JoinWorld ord now L target) a \<longleftrightarrow> fresh_session L a \<and> range_order ord (and_peers a)"
| "call_ok (AcceptSession ord L ps) a \<longleftrightarrow> offered L ps a \<and> of_world L a (\<lambda>w. range_order ord (peers w))"
| "call_ok (DeclineSession L ps code msg) a \<longleftrightarrow> offered L ps a"
| "call_ok (CloseWorld ord L) a \<longleftrightarrow> of_world L a (\<lambda>w. range_order ord (peers w))"
| "call_ok (TimerExpire ord1 ord2 now r L) a \<longleftrightarrow>
     of_world L a (\<lambda>w. range_order ord1 (peers w) \<and> range_order ord2 (peers w))"
| "call_ok (JN L ps ts) a \<longleftrightarrow> sender_ok ps a \<and> of_world L a no_join"
| "call_ok (JOK L ps ts url ms) a \<longleftrightarrow> sender_ok ps a"
| "call_ok (JDN L p code msg) a \<longleftrightarrow> and_peers a (IDHash p) = Some p"
| "call_ok (JNI L ps m) a \<longleftrightarrow> sender_ok ps a"
| "call_ok (MEM L ps ts) a \<longleftrightarrow> sender_ok ps a"
| "call_ok (SJN L ps ms) a \<longleftrightarrow> sender_ok ps a"
| "call_ok (CRR L ps ms) a \<longleftrightarrow> sender_ok ps a \<and> of_world L a (\<lambda>w. crr_ok w ms)"
| "call_ok (RST ord L ps) a \<longleftrightarrow> sender_ok ps a \<and> range_order ord (worlds a)"
| "call_ok (SOA L ps obs) a \<longleftrightarrow> sender_ok ps a"
| "call_ok (SOD L ps ids) a \<longleftrightarrow> sender_ok ps a"

section \<open>The invariant\<close>

definition accepted :: "and_call list \<Rightarrow> uuid \<Rightarrow> hash \<Rightarrow> uuid set" where
  "accepted cs L k = {sid. \<exists>ord ps p. AcceptSession ord L ps \<in> set cs \<and> Peer ps = Some p \<and>
     IDHash p = k \<and> PeerSessionID ps = sid}"

text \<open>\<open>CC L\<close> are the connections that world \<open>L\<close> knows of; between calls these are all of
  \<open>and_peers\<close>.\<close>

definition and_good ::
    "(uuid \<Rightarrow> hash \<Rightarrow> uuid set) \<Rightarrow> (uuid \<Rightarrow> hash \<rightharpoonup> IANDPeer) \<Rightarrow> AND \<Rightarrow> bool" where
  "and_good Acc CC a \<longleftrightarrow>
     stat_wf (stat a) \<and>
     (\<forall>t. tx_count t (stat a) = sent_count t (and_sent a)) \<and>
     (\<forall>L w. worlds a L = Some w \<longrightarrow> lsid w = L \<and> local w = local_hash a \<and>
        wgood (CC L) (ctx_of a w) \<and> world_ledger (Acc L) w (eventCh a)) \<and>
     (\<forall>L. worlds a L = None \<longrightarrow> (\<forall>k. member_run L k None (eventCh a) = Some None) \<and>
        join_run L 0 (eventCh a) = 0) \<and>
     (\<forall>e \<in> set (eventCh a). Type e = ANDSessionReady \<longrightarrow>
        (\<exists>p. Peer e = Some p \<and> PeerSessionID e \<in> Acc (LocalSessionID e) (IDHash p)))"

definition and_inv :: "and_call list \<Rightarrow> AND \<Rightarrow> bool" where
  "and_inv cs a \<longleftrightarrow> hashes_ok (and_peers a) \<and> and_good (accepted cs) (\<lambda>_. and_peers a) a"

lemma ctx_of_sel [simp]:
  "cw (ctx_of a w) = w" "o_stat (ctx_of a w) = stat a" "ech (ctx_of a w) = eventCh a"
  "sent (ctx_of a w) = and_sent a"
  by (simp_all add: ctx_of_def)

lemma put_ctx_sel [simp]:
  "worlds (put_ctx L s a) = (worlds a)(L \<mapsto> cw s)" "stat (put_ctx L s a) = o_stat s"
  "eventCh (put_ctx L s a) = ech s" "and_sent (put_ctx L s a) = sent s"
  "and_peers (put_ctx L s a) = and_peers a" "local_hash (put_ctx L s a) = local_hash a"
  by (simp_all add: put_ctx_def)

lemma wgood_ctx: "wgood C s \<Longrightarrow> cw s = w \<Longrightarrow> stat_wf (stat a) \<Longrightarrow> wgood C (ctx_of a w)"
  by (rule wgood_same) auto

lemma other_log:
  assumes "only_about L evs" and "L' \<noteq> L"
  shows "member_run L' k m evs = Some m" and "join_run L' n evs = n" and "\<not> requested L' evs"
proof -
  have ne: "LocalSessionID e \<noteq> L'" if "e \<in> set evs" "Type e \<notin> {ANDPeerRegister, ANDConnectRequest}" for e
    using that assms by (auto simp: only_about_def)
  show "member_run L' k m evs = Some m"
    by (rule member_run_skip) (use ne in \<open>fastforce simp: about_def\<close>)
  show "join_run L' n evs = n"
    by (rule join_run_skip) (use ne in fastforce)
  show "\<not> requested L' evs"
    using ne by (fastforce simp: requested_def)
qed

lemma other_ledger:
  assumes "world_ledger S w es" and "only_about L evs" and "lsid w \<noteq> L"
  shows "world_ledger S w (es @ evs)"
  using assms other_log [OF assms(2,3)] by (simp add: world_ledger_def member_run_append)

lemma and_good_store:
  assumes a: "and_good Acc CC a" and g: "wgood C' s" and led: "world_ledger (Acc L) (cw s) (ech s)"
    and e: "lsid (cw s) = L" "local (cw s) = local_hash a" "ech s = eventCh a @ evs"
      "sent s = and_sent a @ ms" "counted (stat a) ms (o_stat s)" "only_about L evs" "ready_in (Acc L) evs"
  shows "and_good Acc (CC(L := C')) (put_ctx L s a)"
proof -
  have st: "stat_wf (o_stat s)" using g by (simp add: wgood_def)
  have tx: "\<forall>t. tx_count t (o_stat s) = sent_count t (sent s)"
    using a e by (simp add: and_good_def counted_def)
  have ws: "lsid w' = L' \<and> local w' = local_hash a \<and> wgood ((CC(L := C')) L') (ctx_of (put_ctx L s a) w') \<and>
     world_ledger (Acc L') w' (ech s)" if "((worlds a)(L \<mapsto> cw s)) L' = Some w'" for L' w'
  proof (cases "L' = L")
    case True
    then show ?thesis using that e led wgood_ctx [OF g] st by auto
  next
    case False
    then have w': "worlds a L' = Some w'" using that by simp
    then have "lsid w' = L'" "wgood (CC L') (ctx_of a w')" "world_ledger (Acc L') w' (eventCh a)" "local w' = local_hash a"
      using a by (auto simp: and_good_def)
    then show ?thesis using False e other_ledger [OF _ e(6)] wgood_ctx st by auto
  qed
  have none: "(\<forall>k. member_run L' k None (ech s) = Some None) \<and> join_run L' 0 (ech s) = 0"
    if "((worlds a)(L \<mapsto> cw s)) L' = None" for L'
    using that a e other_log [OF e(6)] by (auto simp: and_good_def member_run_append split: if_splits)
  have "\<exists>p. Peer ev = Some p \<and> PeerSessionID ev \<in> Acc (LocalSessionID ev) (IDHash p)"
    if "ev \<in> set (ech s)" "Type ev = ANDSessionReady" for ev
    using that a e by (fastforce simp: and_good_def ready_in_def only_about_def)
  with st tx ws none show ?thesis unfolding and_good_def by simp
qed

lemma and_good_put:
  assumes a: "and_good Acc CC a" and w: "worlds a L = Some w"
    and g: "wgood C' s" and t: "wstep (Acc L) (ctx_of a w) s"
  shows "and_good Acc (CC(L := C')) (put_ctx L s a)"
proof -
  have L: "lsid w = L" "local w = local_hash a" "world_ledger (Acc L) w (eventCh a)"
    using a w by (auto simp: and_good_def)
  with t have led: "world_ledger (Acc L) (cw s) (ech s)" and x: "wext (Acc L) (ctx_of a w) s"
    by (auto simp: wstep_def)
  then obtain evs ms where "lsid (cw s) = L" "local (cw s) = local_hash a" "ech s = eventCh a @ evs"
      "sent s = and_sent a @ ms" "counted (stat a) ms (o_stat s)" "only_about L evs" "ready_in (Acc L) evs"
    using L by (auto simp: wext_def)
  then show ?thesis by (rule and_good_store [OF a g led])
qed

lemma wp_in_world:
  assumes "worlds a L = Some w" and "wpx b f Q (ctx_of a w)" and "\<And>s. Q () s \<Longrightarrow> R () (put_ctx L s a)"
  shows "wpx b (in_world L f) R a"
  using assms by (auto simp: wpx_def in_world_def split: sum.splits)

lemma wpx_stat_B_and [wp_rules]:
  "wpx b (stat_B i) Q a =
     (if i < length (stat_b (stat a))
      then Q () (a\<lparr>stat := (stat a)\<lparr>stat_b := (stat_b (stat a))[i := stat_b (stat a) ! i + 1]\<rparr>\<rparr>)
      else b)"
  by (simp add: stat_B_def wp_rules)

section \<open>Calls keep the invariant\<close>

lemma accepted_mono: "accepted cs L k \<subseteq> accepted (cs @ cs') L k"
  by (auto simp: accepted_def)

lemma and_inv_mono:
  assumes "and_inv cs a"
  shows "and_inv (cs @ cs') a"
  using assms accepted_mono [of cs _ _ cs']
  unfolding and_inv_def and_good_def world_ledger_def admitted_in_def by blast

text \<open>Counting changes nothing else.\<close>

lemma and_good_tick:
  assumes "and_good Acc CC a" and st: "stat_wf st" and "\<forall>t. tx_count t st = tx_count t (stat a)"
  shows "and_good Acc CC (a\<lparr>stat := st\<rparr>)"
proof -
  have "wgood C (ctx_of (a\<lparr>stat := st\<rparr>) w)" if "wgood C (ctx_of a w)" for C w
    using wgood_ctx [OF that] st by simp
  then show ?thesis using assms by (simp add: and_good_def)
qed

lemma wp_stat_B_good:
  assumes "and_good Acc CC a" and "i < 36"
    and "\<And>st. and_good Acc CC (a\<lparr>stat := st\<rparr>) \<Longrightarrow> Q () (a\<lparr>stat := st\<rparr>)"
  shows "wp (stat_B i) Q a"
proof -
  let ?st = "(stat a)\<lparr>stat_b := (stat_b (stat a))[i := stat_b (stat a) ! i + 1]\<rparr>"
  have l: "stat_wf (stat a)" using assms(1) by (simp add: and_good_def)
  have "tx_count t ?st = tx_count t (stat a)" for t by (cases t) simp_all
  then have "and_good Acc CC (a\<lparr>stat := ?st\<rparr>)"
    by (intro and_good_tick [OF assms(1)]) (use l in \<open>simp_all add: stat_wf_def\<close>)
  then show ?thesis using assms(2,3) l by (simp add: wp_rules stat_wf_def)
qed

lemma wp_stat_B:
  assumes "and_inv cs a" and "i < 36"
    and "\<And>st. and_inv cs (a\<lparr>stat := st\<rparr>) \<Longrightarrow> Q () (a\<lparr>stat := st\<rparr>)"
  shows "wp (stat_B i) Q a"
proof -
  have "and_good (accepted cs) (\<lambda>_. and_peers a) a" using assms(1) by (simp add: and_inv_def)
  then show ?thesis
    by (rule wp_stat_B_good [OF _ assms(2)]) (use assms(1,3) in \<open>auto simp: and_inv_def\<close>)
qed

lemma wp_at_world:
  assumes a: "and_inv cs a" and n: "m < 36" "n < 36"
    and f: "\<And>st w. and_inv cs (a\<lparr>stat := st\<rparr>) \<Longrightarrow> worlds a L = Some w \<Longrightarrow>
      wp f (\<lambda>_. and_inv cs) (a\<lparr>stat := st\<rparr>)"
  shows "wp (at_world L m n f) (\<lambda>_. and_inv cs) a"
proof (cases "worlds a L")
  case None
  then show ?thesis by (auto simp: at_world_def wp_rules(1-8) intro: wp_stat_B [OF a n(1)])
next
  case (Some w)
  have "wp (go_block [stat_B n, f]) (\<lambda>_. and_inv cs) a"
    unfolding wpx_block by (rule wp_stat_B [OF a n(2)]) (rule f [OF _ Some])
  then show ?thesis using Some by (simp only: at_world_def wpx_bind wpx_read wpx_ret_fun option.case)
qed

lemma and_inv_world:
  assumes "and_inv cs a" and "worlds a L = Some w"
  shows "wgood (and_peers a) (ctx_of a w)" and "lsid w = L" and "world_ledger (accepted cs L) w (eventCh a)"
  using assms by (auto simp: and_inv_def and_good_def)

lemma and_inv_world_tick:
  "and_inv cs (a\<lparr>stat := st\<rparr>) \<Longrightarrow> worlds a L = Some w \<Longrightarrow> wgood (and_peers a) (ctx_of (a\<lparr>stat := st\<rparr>) w)"
  using and_inv_world(1) [of cs "a\<lparr>stat := st\<rparr>" L w] by simp

lemma and_good_world: "and_good Acc CC a \<Longrightarrow> worlds a L = Some w \<Longrightarrow> wgood (CC L) (ctx_of a w)"
  by (simp add: and_good_def)

lemma and_good_and_peers [simp]: "and_good Acc CC (a\<lparr>and_peers := X\<rparr>) = and_good Acc CC a"
  by (simp add: and_good_def ctx_of_def)

lemma in_world_inv:
  assumes a: "and_inv cs a" and w: "worlds a L = Some w"
    and f: "wp f (\<lambda>_ s. wgood (and_peers a) s \<and> wstep (accepted cs L) (ctx_of a w) s) (ctx_of a w)"
  shows "wp (in_world L f) (\<lambda>_. and_inv cs) a"
proof (rule wp_in_world [OF w f])
  fix s assume s: "wgood (and_peers a) s \<and> wstep (accepted cs L) (ctx_of a w) s"
  have "and_good (accepted cs) (\<lambda>_. and_peers a) a" using a by (simp add: and_inv_def)
  from and_good_put [OF this w] s have "and_good (accepted cs) ((\<lambda>_. and_peers a)(L := and_peers a)) (put_ctx L s a)"
    by blast
  then show "and_inv cs (put_ctx L s a)" using a by (simp add: and_inv_def fun_upd_idem)
qed

lemma in_world_trans:
  assumes a: "and_inv cs a" and w: "worlds a L = Some w"
    and f: "wp f (\<lambda>_ s. wgood (and_peers a) s \<and> wtrans (\<lambda>_. {}) k (ctx_of a w) s) (ctx_of a w)"
  shows "wp (in_world L f) (\<lambda>_. and_inv cs) a"
  by (rule in_world_inv [OF a w wpx_mono [OF f]])
     (auto intro: wtrans_wstep [OF _ and_inv_world(1) [OF a w]])

lemma in_world_keeps:
  assumes a: "and_inv cs a" and w: "worlds a L = Some w"
    and f: "wp f (\<lambda>_. wkeeps (and_peers a) A (ctx_of a w)) (ctx_of a w)" and A: "\<And>k. A k \<subseteq> accepted cs L k"
  shows "wp (in_world L f) (\<lambda>_. and_inv cs) a"
  by (rule in_world_inv [OF a w wpx_mono [OF f]])
     (auto intro: wkeeps_wstep [OF _ and_inv_world(1) [OF a w] A] simp: wkeeps_def)

lemmas in_world_keeps0 = in_world_keeps [where A = "\<lambda>_. {}", simplified]

lemma sender_okE:
  assumes "sender_ok ps a"
  obtains p where "Peer ps = Some p" "and_peers a (IDHash p) = Some p"
  using assms by (auto simp: sender_ok_def split: option.splits)

lemma offered_no_join:
  assumes "and_inv cs a" and "offered L ps a" and "worlds a L = Some w"
  shows "no_join w"
  using assms and_inv_world(2,3) [OF assms(1,3)] by (auto simp: offered_def world_ledger_def requested_def)

text \<open>Messages of connected peers.\<close>

lemma message_inv:
  assumes a: "and_inv cs a" and ps: "sender_ok ps a"
  shows "of_world L a no_join \<Longrightarrow> wp (AND_JN L ps ts) (\<lambda>_. and_inv cs) a"
    and "wp (AND_JOK L ps ts url ms) (\<lambda>_. and_inv cs) a"
    and "wp (AND_JNI L ps m) (\<lambda>_. and_inv cs) a"
    and "wp (AND_MEM L ps ts) (\<lambda>_. and_inv cs) a"
    and "wp (AND_SJN L ps mis) (\<lambda>_. and_inv cs) a"
    and "of_world L a (\<lambda>w. crr_ok w mis) \<Longrightarrow> wp (AND_CRR L ps mis) (\<lambda>_. and_inv cs) a"
    and "wp (AND_SOA L ps obs) (\<lambda>_. and_inv cs) a"
    and "wp (AND_SOD L ps ids) (\<lambda>_. and_inv cs) a"
proof -
  obtain p where p: "Peer ps = Some p" "and_peers a (IDHash p) = Some p" using ps by (rule sender_okE)
  note G = and_inv_world(1)
  show "wp (AND_JN L ps ts) (\<lambda>_. and_inv cs) a" if "of_world L a no_join"
    unfolding AND_JN_def
    by (rule wp_at_world [OF a]) (use p that in \<open>auto intro!: in_world_trans JN_moves intro: G simp: of_world_def\<close>)
  show "wp (AND_JOK L ps ts url ms) (\<lambda>_. and_inv cs) a"
    unfolding AND_JOK_def
    by (rule wp_at_world [OF a]) (use p in \<open>auto intro!: in_world_keeps0 JOK_moves intro: G\<close>)
  show "wp (AND_JNI L ps m) (\<lambda>_. and_inv cs) a"
    unfolding AND_JNI_def
    by (rule wp_at_world [OF a]) (use p in \<open>auto intro!: in_world_keeps0 JNI_moves intro: G\<close>)
  show "wp (AND_MEM L ps ts) (\<lambda>_. and_inv cs) a"
    unfolding AND_MEM_def
    by (rule wp_at_world [OF a]) (use p in \<open>auto intro!: in_world_trans MEM_moves intro: G\<close>)
  show "wp (AND_SJN L ps mis) (\<lambda>_. and_inv cs) a"
    unfolding AND_SJN_def
    by (rule wp_at_world [OF a]) (use p in \<open>auto intro!: in_world_keeps0 SJN_moves intro: G\<close>)
  show "wp (AND_CRR L ps mis) (\<lambda>_. and_inv cs) a" if "of_world L a (\<lambda>w. crr_ok w mis)"
    unfolding AND_CRR_def
    by (rule wp_at_world [OF a]) (use p that in \<open>auto intro!: in_world_keeps0 CRR_moves intro: G simp: of_world_def\<close>)
  show "wp (AND_SOA L ps obs) (\<lambda>_. and_inv cs) a"
    unfolding AND_SOA_def
    by (rule wp_at_world [OF a]) (use p in \<open>auto intro!: in_world_trans SOA_moves intro: G\<close>)
  show "wp (AND_SOD L ps ids) (\<lambda>_. and_inv cs) a"
    unfolding AND_SOD_def
    by (rule wp_at_world [OF a]) (use p in \<open>auto intro!: in_world_trans SOD_moves intro: G\<close>)
qed

lemma JDN_inv:
  assumes "and_inv cs a" and "and_peers a (IDHash p) = Some p"
  shows "wp (AND_JDN L p code msg) (\<lambda>_. and_inv cs) a"
  unfolding AND_JDN_def
  by (rule wp_at_world [OF assms(1)])
     (use assms(2) in \<open>auto intro!: in_world_trans [where k = "IDHash p"] JDN_moves intro: and_inv_world(1)\<close>)

lemma Timer_inv:
  assumes "and_inv cs a"
  shows "wp (AND_TimerExpire ord1 ord2 now r L) (\<lambda>_. and_inv cs) a"
  unfolding AND_TimerExpire_def
  by (rule wp_at_world [OF assms])
     (auto intro!: in_world_keeps0 Timer_moves intro: and_inv_world(1))

text \<open>Answers of the application to sessions it was offered.\<close>

lemma no_joinD: "no_join w \<Longrightarrow> \<not> is_joining (peers w k)"
  by (simp add: no_join_def)

lemma Decline_inv:
  assumes a: "and_inv cs a" and o: "offered L ps a"
  shows "wp (AND_DeclineSession L ps code msg) (\<lambda>_. and_inv cs) a"
proof -
  obtain p where p: "Peer ps = Some p" using o by (auto simp: offered_def)
  show ?thesis
    unfolding AND_DeclineSession_def
    by (rule wp_at_world [OF a])
       (auto intro!: in_world_trans [where k = "IDHash p"] Decline_moves [OF _ p] no_joinD offered_no_join [OF a o] intro: and_inv_world_tick)
qed

lemma Accept_inv:
  assumes a: "and_inv cs a" and o: "offered L ps a" and c: "AcceptSession ord L ps \<in> set cs"
  shows "wp (AND_AcceptSession ord L ps) (\<lambda>_. and_inv cs) a"
proof -
  obtain p where p: "Peer ps = Some p" using o by (auto simp: offered_def)
  have A: "PeerSessionID ps \<in> accepted cs L (IDHash p)" using c p by (auto simp: accepted_def)
  show ?thesis
    unfolding AND_AcceptSession_def
    by (rule wp_at_world [OF a], simp, simp, rule in_world_keeps [where A = "accepted cs L"])
       (auto intro!: Accept_moves [where A = "accepted cs L", OF _ p _ A] no_joinD offered_no_join [OF a o] intro: and_inv_world_tick)
qed

section \<open>Calls that visit every world\<close>

lemma in_world_frame:
  "wlp (in_world L f) (\<lambda>_ a'. and_peers a' = and_peers a \<and> local_hash a' = local_hash a \<and>
     dom (worlds a') = dom (worlds a)) a"
  by (auto simp: wpx_def in_world_def split: option.splits sum.splits)

text \<open>\<open>J\<close> is anything else that the operation keeps.\<close>

lemma worlds_loop_gen:
  assumes ord: "range_order ord (worlds a)" and a: "and_good Acc (\<lambda>_. C) a" and n: "n < 36"
    and J: "J a" "\<And>a st. J a \<Longrightarrow> J (a\<lparr>stat := st\<rparr>)"
      "\<And>a L w s. J a \<Longrightarrow> worlds a L = Some w \<Longrightarrow> wgood C (ctx_of a w) \<Longrightarrow> lsid w = L \<Longrightarrow>
         op (ctx_of a w) = Inr ((), s) \<Longrightarrow> J (put_ctx L s a)"
    and op: "\<And>s. wgood C s \<Longrightarrow> wp op (\<lambda>_ s'. (wgood C' s' \<and> wtrans (\<lambda>_. {}) k s s') \<and> P (cw s')) s"
  shows "wp (go_for ord (\<lambda>L. go_block [stat_B n, in_world L op]))
     (\<lambda>_ a'. and_good Acc (\<lambda>_. C') a' \<and> and_peers a' = and_peers a \<and>
        dom (worlds a') = dom (worlds a) \<and> (\<forall>L w. worlds a' L = Some w \<longrightarrow> P w) \<and> J a') a"
proof (rule wpx_for [where I = "\<lambda>ys a'. distinct ys \<and> set ys \<subseteq> dom (worlds a') \<and>
    and_good Acc (\<lambda>L. if L \<in> set ys then C else C') a' \<and> and_peers a' = and_peers a \<and>
    dom (worlds a') = dom (worlds a) \<and> (\<forall>L w. worlds a' L = Some w \<longrightarrow> L \<notin> set ys \<longrightarrow> P w) \<and> J a'"], goal_cases)
  case 1
  have "and_good Acc (\<lambda>L. if L \<in> set ord then C else C') a"
    using a ord by (auto simp: and_good_def range_order_def dom_def)
  then show ?case using ord J(1) by (auto simp: range_order_def)
next
  case (2 L ys a1)
  let ?CC = "\<lambda>L'. if L' \<in> set (L # ys) then C else C'"
  let ?P = "\<lambda>a'. \<forall>L w. worlds a' L = Some w \<longrightarrow> L \<notin> set ys \<longrightarrow> P w"
  have I: "and_good Acc ?CC a1" "L \<notin> set ys" "distinct ys" "set ys \<subseteq> dom (worlds a1)" "and_peers a1 = and_peers a"
    "dom (worlds a1) = dom (worlds a)" "J a1"
    using 2(2) by auto
  obtain w where w: "worlds a1 L = Some w" using 2(2) by auto
  have "wp (in_world L op) (\<lambda>_ a'. and_good Acc (\<lambda>L. if L \<in> set ys then C else C') a' \<and> ?P a' \<and> J a') (a1\<lparr>stat := st\<rparr>)"
    if g: "and_good Acc ?CC (a1\<lparr>stat := st\<rparr>)" for st
  proof (rule wp_in_world)
    show "worlds (a1\<lparr>stat := st\<rparr>) L = Some w" using w by simp
    have gw: "wgood C (ctx_of (a1\<lparr>stat := st\<rparr>) w)" using and_good_world [OF g, of L w] w by simp
    have lw: "lsid w = L" using g w by (auto simp: and_good_def)
    have Jo: "wlp op (\<lambda>_ s. J (put_ctx L s (a1\<lparr>stat := st\<rparr>))) (ctx_of (a1\<lparr>stat := st\<rparr>) w)"
      by (rule wlpI) (use w in \<open>auto intro!: J(3) [OF J(2) [OF I(7)] _ gw lw]\<close>)
    show "wp op (\<lambda>_ s. ((wgood C' s \<and> wstep (Acc L) (ctx_of (a1\<lparr>stat := st\<rparr>) w) s) \<and> P (cw s))
        \<and> J (put_ctx L s (a1\<lparr>stat := st\<rparr>))) (ctx_of (a1\<lparr>stat := st\<rparr>) w)"
      by (rule wpx_mono [OF wp_wlp [OF op [OF gw] Jo]]) (auto intro: wtrans_wstep [OF _ gw])
    fix s assume s: "((wgood C' s \<and> wstep (Acc L) (ctx_of (a1\<lparr>stat := st\<rparr>) w) s) \<and> P (cw s))
      \<and> J (put_ctx L s (a1\<lparr>stat := st\<rparr>))"
    then have "and_good Acc (?CC(L := C')) (put_ctx L s (a1\<lparr>stat := st\<rparr>))"
      using and_good_put [OF g] w by simp
    moreover have "?CC(L := C') = (\<lambda>L. if L \<in> set ys then C else C')" using I(2) by (auto simp: fun_eq_iff)
    moreover have "?P (put_ctx L s (a1\<lparr>stat := st\<rparr>))" using s 2(2) by auto
    ultimately show "and_good Acc (\<lambda>L. if L \<in> set ys then C else C') (put_ctx L s (a1\<lparr>stat := st\<rparr>)) \<and>
       ?P (put_ctx L s (a1\<lparr>stat := st\<rparr>)) \<and> J (put_ctx L s (a1\<lparr>stat := st\<rparr>))" using s by simp
  qed
  note one = wp_wlp [OF this in_world_frame]
  show ?case unfolding wpx_block
    by (rule wp_stat_B_good [OF I(1) n], rule wpx_mono [OF one]) (use I in auto)
next
  case (3 a1)
  then show ?case by simp
qed

lemma worlds_loop_all:
  assumes "range_order ord (worlds a)" and "and_good Acc (\<lambda>_. C) a" and "n < 36"
    and "\<And>s. wgood C s \<Longrightarrow> wp op (\<lambda>_ s'. (wgood C' s' \<and> wtrans (\<lambda>_. {}) k s s') \<and> P (cw s')) s"
  shows "wp (go_for ord (\<lambda>L. go_block [stat_B n, in_world L op]))
     (\<lambda>_ a'. and_good Acc (\<lambda>_. C') a' \<and> and_peers a' = and_peers a \<and>
        dom (worlds a') = dom (worlds a) \<and> (\<forall>L w. worlds a' L = Some w \<longrightarrow> P w)) a"
  by (rule wpx_mono [OF worlds_loop_gen [OF assms(1-3), where J = "\<lambda>_. True" and P = P and k = k]])
     (use assms(4) in auto)

lemma worlds_loop:
  assumes "range_order ord (worlds a)" and "and_good Acc (\<lambda>_. C) a" and "n < 36"
    and "\<And>s. wgood C s \<Longrightarrow> wp op (\<lambda>_ s'. wgood C' s' \<and> wtrans (\<lambda>_. {}) k s s') s"
  shows "wp (go_for ord (\<lambda>L. go_block [stat_B n, in_world L op]))
     (\<lambda>_ a'. and_good Acc (\<lambda>_. C') a' \<and> and_peers a' = and_peers a) a"
  by (rule wpx_mono [OF worlds_loop_all [OF assms(1-3), where P = "\<lambda>_. True" and k = k]])
     (use assms(4) in auto)

text \<open>A reset without a session id goes to every world.\<close>

lemma RST_inv:
  assumes a: "and_inv cs a" and ps: "sender_ok ps a" and ord: "range_order ord (worlds a)"
  shows "wp (AND_RST ord L ps) (\<lambda>_. and_inv cs) a"
proof -
  obtain p where p: "Peer ps = Some p" "and_peers a (IDHash p) = Some p" using ps by (rule sender_okE)
  show ?thesis
  proof (cases "L = uuid_Nil")
    case False
    have "wp (at_world L 28 29 (in_world L (ANDWorld_RST ps))) (\<lambda>_. and_inv cs) a"
      by (rule wp_at_world [OF a]) (use p in \<open>auto intro!: in_world_trans RST_moves intro: and_inv_world(1)\<close>)
    then show ?thesis using False by (simp add: AND_RST_def)
  next
    case True
    have "wp (go_for ord (\<lambda>L'. go_block [stat_B 31, in_world L' (ANDWorld_RST ps)])) (\<lambda>_. and_inv cs) (a\<lparr>stat := st\<rparr>)"
      if a1: "and_inv cs (a\<lparr>stat := st\<rparr>)" for st
    proof (rule wpx_mono [OF worlds_loop [where C = "and_peers a" and C' = "and_peers a" and Acc = "accepted cs"]])
      show "and_good (accepted cs) (\<lambda>_. and_peers a) (a\<lparr>stat := st\<rparr>)" using a1 by (simp add: and_inv_def)
    qed (use a p ord in \<open>auto intro: RST_moves simp: and_inv_def\<close>)
    then show ?thesis using True
      by (simp only: AND_RST_def wpx_bind wpx_block wpx_ret_fun if_False simp_thms)
         (rule wp_stat_B [OF a], simp_all)
  qed
qed

lemma PeerConnected_inv:
  assumes a: "and_inv cs a" and p: "and_peers a (IDHash p) = None" and ord: "range_order ord (worlds a)"
  shows "wp (AND_PeerConnected ord p) (\<lambda>_. and_inv cs) a"
proof -
  let ?C = "and_peers a" and ?C' = "(and_peers a)(IDHash p \<mapsto> p)"
  have h: "hashes_ok ?C" using a by (simp add: and_inv_def)
  have "wp (go_for ord (\<lambda>L. go_block [stat_B 1, in_world L (ANDWorld_PeerConnected p)])) (\<lambda>_. and_inv cs)
      (a\<lparr>stat := st, and_peers := ?C'\<rparr>)" if a1: "and_inv cs (a\<lparr>stat := st\<rparr>)" for st
  proof (rule wpx_mono [OF worlds_loop [where C = ?C and C' = ?C' and Acc = "accepted cs"]])
    show "and_good (accepted cs) (\<lambda>_. ?C) (a\<lparr>stat := st, and_peers := ?C'\<rparr>)"
      using a1 by (simp add: and_inv_def)
  qed (use p ord h in \<open>auto intro: PeerConnected_moves simp: and_inv_def hashes_ok_def\<close>)
  then show ?thesis
    by (simp only: AND_PeerConnected_def wpx_bind wpx_block wpx_ret_fun)
       (rule wp_stat_B [OF a], simp_all add: wpx_modify wpx_modify_fun del: go_block.simps One_nat_def)
qed

lemma PeerClose_inv:
  assumes a: "and_inv cs a" and p: "and_peers a (IDHash p) = Some p" and ord: "range_order ord (worlds a)"
  shows "wp (AND_PeerClose ord p) (\<lambda>_. and_inv cs) a"
proof -
  let ?C = "and_peers a" and ?C' = "(and_peers a)(IDHash p := None)"
  have h: "hashes_ok ?C" using a by (simp add: and_inv_def)
  have "wp (go_for ord (\<lambda>L. go_block [stat_B 3, in_world L (ANDWorld_RemovePeer p)]))
      (\<lambda>_ a'. and_inv cs (a'\<lparr>and_peers := (and_peers a')(IDHash p := None)\<rparr>)) (a\<lparr>stat := st\<rparr>)"
    if a1: "and_inv cs (a\<lparr>stat := st\<rparr>)" for st
  proof (rule wpx_mono [OF worlds_loop [where C = ?C and C' = ?C' and Acc = "accepted cs"]])
    show "and_good (accepted cs) (\<lambda>_. ?C) (a\<lparr>stat := st\<rparr>)" using a1 by (simp add: and_inv_def)
    show "range_order ord (worlds (a\<lparr>stat := st\<rparr>))" using ord by simp
    show "wp (ANDWorld_RemovePeer p) (\<lambda>_ s'. wgood ?C' s' \<and> wtrans (\<lambda>_. {}) (IDHash p) s s') s"
      if "wgood ?C s" for s by (rule RemovePeer_moves [OF that p])
    fix a' assume "and_good (accepted cs) (\<lambda>_. ?C') a' \<and> and_peers a' = and_peers (a\<lparr>stat := st\<rparr>)"
    then show "and_inv cs (a'\<lparr>and_peers := (and_peers a')(IDHash p := None)\<rparr>)"
      using h by (simp add: and_inv_def hashes_ok_def)
  qed simp
  then show ?thesis
    by (simp only: AND_PeerClose_def wpx_bind wpx_block wpx_ret_fun)
       (rule wp_stat_B [OF a], simp_all add: wpx_modify wpx_modify_fun del: go_block.simps One_nat_def)
qed

section \<open>Creating and closing worlds\<close>

lemma fresh_log:
  assumes "and_inv cs a" and "fresh_session L a"
  shows "member_run L k None (eventCh a) = Some None" and "join_run L 0 (eventCh a) = 0"
    and "\<not> requested L (eventCh a)"
  using assms by (auto simp: fresh_session_def and_inv_def and_good_def requested_def)

lemma wp_new_world:
  assumes a: "and_inv cs a" and st: "wp f Q (ctx_of a zero_world)"
    and Q: "\<And>s. Q () s \<Longrightarrow> \<exists>evs ms. wgood (and_peers a) s \<and> world_ledger (accepted cs L) (cw s) (ech s) \<and>
      lsid (cw s) = L \<and> local (cw s) = local_hash a \<and> ech s = eventCh a @ evs \<and> sent s = and_sent a @ ms \<and>
      counted (stat a) ms (o_stat s) \<and> only_about L evs \<and> ready_in (accepted cs L) evs"
  shows "wp (new_world f) (\<lambda>_. and_inv cs) a"
proof -
  have "and_inv cs (put_ctx (lsid (cw s)) s a)" if q: "Q () s" for s
  proof -
    have g: "and_good (accepted cs) (\<lambda>_. and_peers a) a" using a by (simp add: and_inv_def)
    obtain evs ms where s: "wgood (and_peers a) s" "world_ledger (accepted cs L) (cw s) (ech s)"
      "lsid (cw s) = L" "local (cw s) = local_hash a" "ech s = eventCh a @ evs" "sent s = and_sent a @ ms"
      "counted (stat a) ms (o_stat s)" "only_about L evs" "ready_in (accepted cs L) evs"
      using Q [OF q] by blast
    from and_good_store [OF g s] show ?thesis using a s(3) by (simp add: and_inv_def fun_upd_idem)
  qed
  with st show ?thesis by (auto simp: wpx_def new_world_def split: sum.splits)
qed

lemma OpenWorld_inv:
  assumes a: "and_inv cs a" and fr: "fresh_session L a" and ord: "range_order ord (and_peers a)"
  shows "wp (AND_OpenWorld ord now L url) (\<lambda>_. and_inv cs) a"
proof -
  have "wp (new_world (NewWorldOpen ord now (local_hash a) L url (and_peers a))) (\<lambda>_. and_inv cs) (a\<lparr>stat := st\<rparr>)"
    if a1: "and_inv cs (a\<lparr>stat := st\<rparr>)" for st
  proof -
    have fr1: "fresh_session L (a\<lparr>stat := st\<rparr>)" using fr by (simp add: fresh_session_def)
    have h: "hashes_ok (and_peers a)" "stat_wf st" using a1 by (simp_all add: and_inv_def and_good_def)
    show ?thesis
    proof (rule wp_new_world [where L = L, OF a1 NewWorldOpen_spec [OF _ ord h(1)]], goal_cases)
      case 1
      then show ?case using h by simp
    next
      case (2 s)
      then have "world_ledger (accepted cs L) (cw s) (ech s)"
        using fresh_log [OF a1 fr1]
        by (auto simp: world_ledger_def member_run_append opened_world_def member_step_def about_def join_step_def
            member_of_def admitted_in_def requested_def fresh_cells_def split: option.splits)
      then show ?case using 2 by (auto simp: opened_world_def only_about_def ready_in_def)
    qed
  qed
  then show ?thesis
    by (simp only: AND_OpenWorld_def wpx_bind wpx_block wpx_ret_fun)
       (rule wp_stat_B [OF a], simp_all add: wpx_bind wpx_read)
qed

lemma JoinWorld_inv:
  assumes a: "and_inv cs a" and fr: "fresh_session L a" and ord: "range_order ord (and_peers a)"
  shows "wp (AND_JoinWorld ord now L target) (\<lambda>_. and_inv cs) a"
proof -
  have "wp (new_world (NewWorldJoin ord now (local_hash a) L target (and_peers a))) (\<lambda>_. and_inv cs) (a\<lparr>stat := st\<rparr>)"
    if a1: "and_inv cs (a\<lparr>stat := st\<rparr>)" for st
  proof -
    have fr1: "fresh_session L (a\<lparr>stat := st\<rparr>)" using fr by (simp add: fresh_session_def)
    have h: "hashes_ok (and_peers a)" "stat_wf st" using a1 by (simp_all add: and_inv_def and_good_def)
    have nj: "\<not> no_join (joined_world now (local_hash a) L target (and_peers a))"
      by (auto simp: no_join_def joined_world_def split: option.split intro!: exI [where x = "Hash target"])
    have cells: "member_of (peers (joined_world now (local_hash a) L target (and_peers a)) k) = None \<and>
        admitted_in S (peers (joined_world now (local_hash a) L target (and_peers a)) k)" for k S
      by (auto simp: joined_world_def member_of_def admitted_in_def split: option.splits)
    show ?thesis
    proof (rule wp_new_world [where L = L, OF a1 NewWorldJoin_spec [OF _ ord h(1)]], goal_cases)
      case 1
      then show ?case using h by simp
    next
      case (2 s)
      have "world_ledger (accepted cs L) (cw s) (ech s)"
        using 2 nj cells fresh_log [OF a1 fr1]
        by (cases "and_peers a (Hash target)")
           (auto simp: world_ledger_def member_run_append member_step_def about_def join_step_def
            requested_def joined_world_def)
      then show ?case using 2 by (cases "and_peers a (Hash target)") (auto simp: joined_world_def only_about_def ready_in_def)
    qed
  qed
  then show ?thesis
    by (simp only: AND_JoinWorld_def wpx_bind wpx_block wpx_ret_fun)
       (rule wp_stat_B [OF a], simp_all add: wpx_bind wpx_read)
qed

text \<open>Closing a world settles the membership of every peer.\<close>

lemma close_events_types:
  "e \<in> set (close_events L c) \<Longrightarrow> LocalSessionID e = L \<and> Type e \<in> {ANDJoinFail, ANDSessionClose}"
proof (cases c)
  case (Some i)
  then show "e \<in> set (close_events L c) \<Longrightarrow> LocalSessionID e = L \<and> Type e \<in> {ANDJoinFail, ANDSessionClose}"
    by (cases "state i") (auto simp: close_events_def)
qed (simp add: close_events_def)

lemma close_events_member:
  assumes "cell_at k' c"
  shows "member_run L k m (close_events L c) =
     (if k' = k \<and> is_member c \<and> m \<noteq> member_of c then None
      else Some (if k' = k \<and> is_member c then None else m))"
  using assms
  by (auto simp: close_events_def member_of_def member_step_def about_def cell_at_def
       split: option.splits ws.splits)

lemma close_all_member:
  assumes at: "\<And>k. cell_at k (P k)" and d: "distinct ks"
  shows "member_run L k (member_of (P k)) (concat (map (\<lambda>k. close_events L (P k)) ks)) =
    Some (if k \<in> set ks then None else member_of (P k))"
proof -
  have skip: "member_run L k m (concat (map (\<lambda>k. close_events L (P k)) ks)) = Some m" if "k \<notin> set ks" for m ks
    using that by (induction ks) (auto simp: member_run_append close_events_member [OF at])
  show ?thesis using d
  proof (induction ks)
    case (Cons k' ks)
    show ?case
    proof (cases "k' = k")
      case True
      then have "k \<notin> set ks" using Cons.prems by simp
      moreover have "\<not> is_member (P k) \<Longrightarrow> member_of (P k) = None"
        by (auto simp: member_of_def is_member_def split: option.splits)
      ultimately show ?thesis using True skip by (auto simp: member_run_append close_events_member [OF at])
    next
      case False
      then show ?thesis using Cons by (auto simp: member_run_append close_events_member [OF at])
    qed
  qed simp
qed

lemma and_good_drop:
  assumes a: "and_good Acc CC a" and st: "stat_wf (o_stat s)"
    and e: "ech s = eventCh a @ evs" "sent s = and_sent a @ ms" "counted (stat a) ms (o_stat s)" "only_about L evs"
    and L: "\<And>k. member_run L k None (ech s) = Some None" "join_run L 0 (ech s) = 0"
    and nr: "\<And>e. e \<in> set evs \<Longrightarrow> Type e \<noteq> ANDSessionReady"
  shows "and_good Acc CC (put_ctx L s a\<lparr>worlds := (worlds (put_ctx L s a))(L := None)\<rparr>)"
proof -
  let ?a = "put_ctx L s a\<lparr>worlds := (worlds (put_ctx L s a))(L := None)\<rparr>"
  have w: "lsid w = L' \<and> local w = local_hash a \<and> wgood (CC L') (ctx_of ?a w) \<and> world_ledger (Acc L') w (ech s)"
    if "worlds ?a L' = Some w" for L' w
  proof -
    have w: "L' \<noteq> L" "worlds a L' = Some w" using that by (auto split: if_splits)
    then have "lsid w = L'" "wgood (CC L') (ctx_of a w)" "world_ledger (Acc L') w (eventCh a)" "local w = local_hash a"
      using a by (auto simp: and_good_def)
    then show ?thesis using w e other_ledger [OF _ e(4)] wgood_ctx st by auto
  qed
  have none: "(\<forall>k. member_run L' k None (ech s) = Some None) \<and> join_run L' 0 (ech s) = 0"
    if "worlds ?a L' = None" for L'
    using that a e L other_log [OF e(4)] by (cases "L' = L") (auto simp: and_good_def member_run_append)
  have tx: "\<forall>t. tx_count t (o_stat s) = sent_count t (sent s)"
    using a e by (simp add: and_good_def counted_def)
  have "\<exists>p. Peer ev = Some p \<and> PeerSessionID ev \<in> Acc (LocalSessionID ev) (IDHash p)"
    if "ev \<in> set (ech s)" "Type ev = ANDSessionReady" for ev
    using that a e nr by (auto simp: and_good_def)
  with st tx w none show ?thesis unfolding and_good_def by simp
qed

lemma CloseWorld_inv:
  assumes a: "and_inv cs a" and ord: "of_world L a (\<lambda>w. range_order ord (peers w))"
  shows "wp (AND_CloseWorld ord L) (\<lambda>_. and_inv cs) a"
  unfolding AND_CloseWorld_def
proof (rule wp_at_world [OF a])
  fix st w assume a1: "and_inv cs (a\<lparr>stat := st\<rparr>)" and w: "worlds a L = Some w"
  let ?a = "a\<lparr>stat := st\<rparr>" and ?es = "concat (map (\<lambda>k. close_events L (peers w k)) ord)"
  have w1: "worlds ?a L = Some w" using w by simp
  note g = and_inv_world [OF a1 w1]
  have ord: "distinct ord" "set ord = dom (peers w)" using ord w by (auto simp: of_world_def range_order_def)
  have mem: "member_run L k None (eventCh a @ ?es @ [world_leave_event L]) = Some None" for k
  proof -
    have "member_run L k (member_of (peers w k)) ?es = Some None"
      using close_all_member [OF wgood_cell_at [OF g(1)], simplified, OF ord(1)] ord(2)
      by (auto simp: member_of_def dom_def split: option.splits)
    then show ?thesis using g by (simp add: world_ledger_def member_run_append member_step_def about_def)
  qed
  have "and_inv cs (put_ctx L s ?a\<lparr>worlds := (worlds (put_ctx L s ?a))(L := None)\<rparr>)"
    if r: "reports (?es @ [world_leave_event L]) (ctx_of ?a w) s" for s
  proof -
    have st: "stat_wf (o_stat s)" using reports_good [OF r g(1)] by (simp add: wgood_def)
    obtain ms where e: "ech s = eventCh ?a @ (?es @ [world_leave_event L])" "sent s = and_sent ?a @ ms"
        "counted (stat ?a) ms (o_stat s)"
      using r by (auto simp: reports_def)
    have oa: "only_about L (?es @ [world_leave_event L])"
      by (auto simp: only_about_def dest: close_events_types)
    have nr: "Type e \<noteq> ANDSessionReady" if "e \<in> set (?es @ [world_leave_event L])" for e
      using that by (auto dest: close_events_types)
    have "and_good (accepted cs) (\<lambda>_. and_peers a) ?a" using a1 by (simp add: and_inv_def)
    from and_good_drop [OF this st e oa] mem nr e(1) a1 show ?thesis
      by (simp add: and_inv_def join_step_def)
  qed
  then show "wp (go_block [in_world L (ANDWorld_Close ord), go_modify (\<lambda>a. a\<lparr>worlds := (worlds a)(L := None)\<rparr>)])
    (\<lambda>_. and_inv cs) ?a"
    unfolding wpx_block wpx_modify_fun
    using Close_spec [OF g(1), of ord] g(2)
    by (intro wp_in_world [OF w1]) (simp, simp)
qed simp_all

section \<open>Every history\<close>

lemma and_inv_init: "and_inv [] (NewAND h)"
  by (simp add: and_inv_def and_good_def NewAND_def hashes_ok_def stat_wf_def ANDStatistics_zero_def
      all_ahmp_type)

lemma and_inv_call:
  assumes a: "and_inv cs a" and c: "call_ok c a"
  shows "wp (and_exec c) (\<lambda>_. and_inv (cs @ [c])) a"
proof -
  note a' = and_inv_mono [OF a, of "[c]"]
  show ?thesis
    using c
    by (cases c)
       (use a' in \<open>auto intro: PeerConnected_inv PeerClose_inv OpenWorld_inv JoinWorld_inv Accept_inv
          Decline_inv CloseWorld_inv Timer_inv message_inv JDN_inv RST_inv\<close>)
qed

interpretation and_sys: call_system and_exec call_ok "NewAND h" and_inv for h
  by unfold_locales (auto intro: and_inv_init and_inv_call)

abbreviation and_runs :: "hash \<Rightarrow> and_call list \<Rightarrow> AND \<Rightarrow> bool" where
  "and_runs h \<equiv> runs and_exec call_ok (NewAND h)"

end
