(* ===== verification/And_World_Props.thy ===== *)
theory And_World_Props
  imports And_World_Log
begin

text \<open>
  What the single operations of a world do: the messages they send, the events they raise, and how
  they change the cells, each stated for a world that satisfies the invariant.
\<close>

section \<open>A sample world\<close>

definition ex_peer :: IANDPeer where
  "ex_peer = \<lparr>IDHash = ''p'', peer_ref = 0\<rparr>"

definition ex_session :: ANDPeerSession where
  "ex_session = \<lparr>Peer = Some ex_peer, PeerSessionID = 9\<rparr>"

definition ex_cell :: "ws \<Rightarrow> ANDPeerSessionState" where
  "ex_cell st = \<lparr>Peer = Some ex_peer, PeerSessionID = 9, TimeStamp = 5, state = st,
     sjnp = False, sjnc = 0\<rparr>"

definition ex_world :: "(hash \<rightharpoonup> ANDPeerSessionState) \<Rightarrow> hash \<Rightarrow> ANDWorld" where
  "ex_world ps h = \<lparr>local = h, lsid = 7, timestamp = 0, join_hash = '''', join_path = '''',
     wurl = ''url'', peers = ps\<rparr>"

definition ex_conn :: "hash \<rightharpoonup> IANDPeer" where
  "ex_conn = [''p'' \<mapsto> ex_peer]"

definition ex_ctx :: "ws \<Rightarrow> wctx" where
  "ex_ctx st = \<lparr>cw = ex_world [''p'' \<mapsto> ex_cell st] ''me'', o_stat = ANDStatistics_zero, ech = [], sent = []\<rparr>"

lemma ex_ctx_good:
  assumes "\<not> dc st" and "\<not> joining_ws st"
  shows "wgood ex_conn (ex_ctx st)" and "no_join (cw (ex_ctx st))"
    and "peers (cw (ex_ctx st)) ''p'' = Some (ex_cell st)" and "range_order [''p''] (peers (cw (ex_ctx st)))"
proof -
  show nj: "no_join (cw (ex_ctx st))"
    using assms by (simp add: no_join_def ex_ctx_def ex_world_def ex_cell_def)
  show "wgood ex_conn (ex_ctx st)"
    using assms no_join_world_join [OF nj]
    by (simp add: wgood_def hashes_ok_def world_conn_def ex_conn_def ex_ctx_def ex_world_def ex_cell_def
        ex_peer_def del: wgood_stat)
  show "peers (cw (ex_ctx st)) ''p'' = Some (ex_cell st)" "range_order [''p''] (peers (cw (ex_ctx st)))"
    by (simp_all add: ex_ctx_def ex_world_def range_order_def)
qed

lemma ex_sender: "ex_conn ''p'' = Some ex_peer" "Peer ex_session = Some ex_peer" "IDHash ex_peer = ''p''"
  by (simp_all add: ex_conn_def ex_session_def ex_peer_def)

section \<open>Refinement of the peer automaton\<close>

text \<open>C9: the message handlers refine the abstract peer automaton: a message of a connected peer is
  processed without a panic, and what it does to the world, the event channel, the messages and the
  counters is one move of the automaton (\<open>JN\<close>, \<open>MEM\<close>, \<open>RST\<close>, \<open>SOA\<close>, \<open>SOD\<close>) or a sequence of moves
  (\<open>JOK\<close>, \<open>JNI\<close>, \<open>SJN\<close>).\<close>

theorem handlers_refine_automaton:
  assumes "wgood C s" and "C k = Some p" and "Peer ps = Some p"
  shows "(no_join (cw s) \<longrightarrow> wp (ANDWorld_JN ps ts) (\<lambda>_. wtrans (\<lambda>_. {}) k s) s) \<and>
     wp (ANDWorld_MEM ps ts) (\<lambda>_. wtrans (\<lambda>_. {}) k s) s \<and>
     wp (ANDWorld_RST ps) (\<lambda>_. wtrans (\<lambda>_. {}) k s) s \<and>
     wp (ANDWorld_SOA ps objs) (\<lambda>_. wtrans (\<lambda>_. {}) k s) s \<and>
     wp (ANDWorld_SOD ps ids) (\<lambda>_. wtrans (\<lambda>_. {}) k s) s \<and>
     wp (ANDWorld_JOK ps ts url ms) (\<lambda>_. wmoves (\<lambda>_. {}) s) s \<and>
     wp (ANDWorld_JNI ps m) (\<lambda>_. wmoves (\<lambda>_. {}) s) s \<and>
     wp (ANDWorld_SJN ps mis) (\<lambda>_. wmoves (\<lambda>_. {}) s) s"
proof (intro conjI impI)
  show "wp (ANDWorld_JN ps ts) (\<lambda>_. wtrans (\<lambda>_. {}) k s) s" if "no_join (cw s)"
    by (rule wpx_mono [OF JN_moves [OF assms that]]) blast
  show "wp (ANDWorld_MEM ps ts) (\<lambda>_. wtrans (\<lambda>_. {}) k s) s"
    by (rule wpx_mono [OF MEM_moves [OF assms]]) blast
  show "wp (ANDWorld_RST ps) (\<lambda>_. wtrans (\<lambda>_. {}) k s) s"
    by (rule wpx_mono [OF RST_moves [OF assms]]) blast
  show "wp (ANDWorld_SOA ps objs) (\<lambda>_. wtrans (\<lambda>_. {}) k s) s"
    by (rule wpx_mono [OF SOA_moves [OF assms]]) blast
  show "wp (ANDWorld_SOD ps ids) (\<lambda>_. wtrans (\<lambda>_. {}) k s) s"
    by (rule wpx_mono [OF SOD_moves [OF assms]]) blast
  show "wp (ANDWorld_JOK ps ts url ms) (\<lambda>_. wmoves (\<lambda>_. {}) s) s"
    by (rule wpx_mono [OF JOK_moves [OF assms]]) (rule wkeeps_wmoves)
  show "wp (ANDWorld_JNI ps m) (\<lambda>_. wmoves (\<lambda>_. {}) s) s"
    by (rule wpx_mono [OF JNI_moves [OF assms]]) (rule wkeeps_wmoves)
  show "wp (ANDWorld_SJN ps mis) (\<lambda>_. wmoves (\<lambda>_. {}) s) s"
    by (rule wpx_mono [OF SJN_moves [OF assms]]) (rule wkeeps_wmoves)
qed

theorem handlers_refine_automaton_witness:
  "wp (ANDWorld_MEM ex_session 5) (\<lambda>_. wtrans (\<lambda>_. {}) ''p'' (ex_ctx WS_TMEM)) (ex_ctx WS_TMEM)"
  using handlers_refine_automaton [OF ex_ctx_good(1) ex_sender(1,2), of WS_TMEM 5] by simp

text \<open>C10: a session under way is replaced only by a session with a newer time stamp: \<open>JN\<close>, \<open>MEM\<close>, and
  an introduction leave the session id of such a peer alone unless the message is newer.\<close>

theorem session_replaced_only_by_newer:
  assumes "wgood C s" and "no_join (cw s)" and "peers (cw s) k = Some i" and "established (state i)"
    and "C k = Some p" and "Peer ps = Some p" and "Hash (full_AURL m) = k"
  shows "let newer = (\<lambda>_ s'. \<forall>i'. peers (cw s') k = Some i' \<and> established (state i') \<and>
           PeerSessionID i' \<noteq> PeerSessionID i \<longrightarrow> TimeStamp i < TimeStamp i')
     in wp (ANDWorld_JN ps ts) newer s \<and> wp (ANDWorld_MEM ps ts) newer s \<and>
        wp (ANDWorld_JNI_MEMS sender m) newer s"
proof -
  have newer: "TimeStamp i < TimeStamp i'" if "wtrans (\<lambda>_. {}) k s s'" "peers (cw s') k = Some i'"
    "established (state i')" "PeerSessionID i' \<noteq> PeerSessionID i" for s' i'
    using that(1) edge_newer [OF _ assms(4) that(3,4)] by (auto simp: wtrans_def that(2) assms(3))
  show ?thesis
    unfolding Let_def
    by (intro conjI wpx_mono [OF JN_moves [OF assms(1,5,6,2)]] wpx_mono [OF MEM_moves [OF assms(1,5,6)]]
         wpx_mono [OF JNI_MEMS_moves [OF assms(1,2)]]) (auto intro: newer simp: assms(7))
qed

theorem session_replaced_only_by_newer_witness:
  "wp (ANDWorld_JN ex_session 4) (\<lambda>_ s'. \<forall>i'. peers (cw s') ''p'' = Some i' \<and> established (state i') \<and>
      PeerSessionID i' \<noteq> 9 \<longrightarrow> 5 < TimeStamp i') (ex_ctx WS_MEM)"
proof -
  let ?m = "\<lparr>full_AURL = \<lparr>Scheme = '''', Hash = ''p'', Addresses = [], Path = ''''\<rparr>, full_SessionID = 0,
      full_TimeStamp = 0, full_RootCertificateDer = [], full_HandshakeKeyCertificateDer = []\<rparr>"
  have "established (state (ex_cell WS_MEM))" "Hash (full_AURL ?m) = ''p''" by (simp_all add: ex_cell_def)
  from session_replaced_only_by_newer [OF ex_ctx_good(1-3) this(1) ex_sender(1,2) this(2)]
  show ?thesis by (simp add: Let_def ex_cell_def)
qed

section \<open>Accepting a joiner\<close>

text \<open>The members of a world in the order of a range over its peers.\<close>

definition members_in :: "hash list \<Rightarrow> ANDWorld \<Rightarrow> ANDPeerSessionState list" where
  "members_in ord w = concat (map (\<lambda>k. case peers w k of None \<Rightarrow> [] | Some i \<Rightarrow>
     if state i = WS_MEM then [i] else []) ord)"

lemma members_in_simps [simp]:
  "members_in [] w = []"
  "members_in (k # ks) w = (case peers w k of None \<Rightarrow> [] | Some i \<Rightarrow>
     if state i = WS_MEM then [i] else []) @ members_in ks w"
  by (simp_all add: members_in_def)

lemma wpx_range_acc_simps:
  "wpx b (range_peers_acc [] body a) Q s = Q a s"
  "wpx b (range_peers_acc (k # ks) body a) Q s = (case peers (cw s) k of
     None \<Rightarrow> wpx b (range_peers_acc ks body a) Q s
   | Some i \<Rightarrow> wpx b (body k i a) (\<lambda>a. wpx b (range_peers_acc ks body a) Q) s)"
  by (simp_all add: range_peers_acc_def wp_rules split: option.split)

lemma introduce_loop:
  assumes "wgood C s"
  shows "wp (range_peers_acc ord (introduce_joiner L i) a) (\<lambda>r s'. cw s' = cw s \<and> ech s' = ech s \<and>
     stat_wf (o_stat s') \<and> r = a @ map ANDPeerSessionWithTimeStamp.truncate (members_in ord (cw s)) \<and>
     sent s' = sent s @ map (\<lambda>m. (the (Peer m), TrySendJNI L (PeerSessionID m)
        (ANDPeerSessionWithTimeStamp.truncate i))) (members_in ord (cw s))) s"
  using assms
proof (induction ord arbitrary: a s)
  case Nil
  then show ?case by (simp add: wpx_range_acc_simps stat_wf_def)
next
  case (Cons k ks)
  show ?case
  proof (cases "peers (cw s) k")
    case None
    then show ?thesis using Cons.IH [OF Cons.prems] by (simp add: wpx_range_acc_simps)
  next
    case (Some j)
    show ?thesis
    proof (cases "state j = WS_MEM")
      case False
      let ?s = "s\<lparr>o_stat := (o_stat s)\<lparr>stat_w := (stat_w (o_stat s))[59 := stat_w (o_stat s) ! 59 + 1]\<rparr>\<rparr>"
      have "wgood C ?s" by (rule wgood_same [OF Cons.prems]) (use Cons.prems in \<open>simp_all add: stat_wf_def\<close>)
      from Cons.IH [OF this, of a] show ?thesis using Some False Cons.prems
        by (simp add: wpx_range_acc_simps introduce_joiner_def wp_rules)
    next
      case True
      then have "\<not> dc (state j)" by simp
      with Cons.prems Some obtain q where q: "Peer j = Some q" by (rule wgood_some_cell)
      let ?s = "s\<lparr>o_stat := JNI_TX_update (\<lambda>n. n + 1) ((o_stat s)\<lparr>stat_w := (stat_w (o_stat s))[60 := stat_w (o_stat s) ! 60 + 1]\<rparr>),
         sent := sent s @ [(q, TrySendJNI L (PeerSessionID j) (ANDPeerSessionWithTimeStamp.truncate i))]\<rparr>"
      have "wgood C ?s" by (rule wgood_same [OF Cons.prems]) (use Cons.prems in \<open>simp_all add: stat_wf_def\<close>)
      from Cons.IH [OF this, of "a @ [ANDPeerSessionWithTimeStamp.truncate j]"] show ?thesis
        using Some True Cons.prems q by (simp add: wpx_range_acc_simps introduce_joiner_def wp_rules)
    qed
  qed
qed

text \<open>C11: accepting a joiner introduces it to every member and tells it of every member: one \<open>JNI\<close> to
  each member with the joiner's session, then one \<open>JOK\<close> to the joiner that lists exactly these
  members, and the joiner waits for confirmation.\<close>

theorem accept_introduces_joiner:
  assumes g: "wgood C s" and "peers (cw s) k = Some i" and "state i = WS_JN"
    and "Peer ps = Some p" and "IDHash p = k" and "PeerSessionID ps = PeerSessionID i"
  shows "wp (ANDWorld_AcceptSession ord ps) (\<lambda>_ s'.
      sent s' = sent s @
        map (\<lambda>m. (the (Peer m), TrySendJNI (lsid (cw s)) (PeerSessionID m)
          (ANDPeerSessionWithTimeStamp.truncate i))) (members_in ord (cw s)) @
        [(the (Peer i), TrySendJOK (lsid (cw s)) (PeerSessionID i) (timestamp (cw s)) (wurl (cw s))
          (map ANDPeerSessionWithTimeStamp.truncate (members_in ord (cw s))))] \<and>
      cw s' = (cw s)\<lparr>peers := (peers (cw s))(k \<mapsto> i\<lparr>state := WS_TMEM\<rparr>)\<rparr> \<and> ech s' = ech s) s"
proof -
  have nd: "\<not> dc (state i)" using assms(3) by simp
  obtain q where q: "Peer i = Some q" by (rule wgood_some_cell [OF g assms(2) nd])
  let ?s = "s\<lparr>o_stat := (o_stat s)\<lparr>stat_w := (stat_w (o_stat s))[57 := stat_w (o_stat s) ! 57 + 1]\<rparr>\<rparr>"
  have "wgood C ?s" by (rule wgood_same [OF g]) (use g in \<open>simp_all add: stat_wf_def\<close>)
  note loop = introduce_loop [OF this, of ord "lsid (cw s)" i "[]"]
  show ?thesis
    using assms q
    by (simp add: ANDWorld_AcceptSession_def wp_rules) (rule wpx_mono [OF loop], simp add: wp_rules)
qed

theorem accept_introduces_joiner_witness:
  "wp (ANDWorld_AcceptSession [''p''] ex_session) (\<lambda>_ s'.
     sent s' = [(ex_peer, TrySendJOK 7 9 0 ''url'' [])]) (ex_ctx WS_JN)"
  using accept_introduces_joiner [OF ex_ctx_good(1,3), of WS_JN ex_session ex_peer "[''p'']"] ex_sender
  by (simp add: ex_cell_def ex_session_def ex_ctx_def ex_world_def wpx_conj)

section \<open>The timer\<close>

text \<open>The members whose join is to be announced, with the identity that is announced.\<close>

definition due_in :: "(hash \<Rightarrow> time) \<Rightarrow> hash list \<Rightarrow> ANDWorld \<Rightarrow> ANDPeerSessionIdentity list" where
  "due_in now ord w = concat (map (\<lambda>k. case peers w k of None \<Rightarrow> [] | Some i \<Rightarrow>
     if sjn_due (now k) i then [\<lparr>PeerHash = k, SessionID = PeerSessionID i\<rparr>] else []) ord)"

definition bump :: "(hash \<Rightarrow> time) \<Rightarrow> hash list \<Rightarrow> (hash \<rightharpoonup> ANDPeerSessionState) \<Rightarrow> hash \<rightharpoonup> ANDPeerSessionState" where
  "bump now ord ps k = map_option (\<lambda>i. if k \<in> set ord \<and> sjn_due (now k) i then i\<lparr>sjnc := sjnc i + 1\<rparr> else i) (ps k)"

lemma due_in_Cons:
  "due_in now (k # ks) w = (case peers w k of None \<Rightarrow> [] | Some i \<Rightarrow>
     if sjn_due (now k) i then [\<lparr>PeerHash = k, SessionID = PeerSessionID i\<rparr>] else []) @ due_in now ks w"
  by (simp add: due_in_def)

lemma due_in_other: "k \<notin> set ks \<Longrightarrow> due_in now ks (w\<lparr>peers := (peers w)(k := c)\<rparr>) = due_in now ks w"
  by (auto simp: due_in_def intro!: arg_cong [where f = concat])

lemma bump_Nil [simp]: "bump now [] ps = ps"
  by (auto simp: bump_def fun_eq_iff option.map_ident)

lemma bump_Cons:
  assumes "k \<notin> set ks"
  shows "bump now (k # ks) ps = bump now ks (case ps k of None \<Rightarrow> ps | Some i \<Rightarrow>
     if sjn_due (now k) i then ps(k \<mapsto> i\<lparr>sjnc := sjnc i + 1\<rparr>) else ps)"
proof (rule ext)
  fix x
  show "bump now (k # ks) ps x = bump now ks (case ps k of None \<Rightarrow> ps | Some i \<Rightarrow>
     if sjn_due (now k) i then ps(k \<mapsto> i\<lparr>sjnc := sjnc i + 1\<rparr>) else ps) x"
    using assms by (cases "x = k"; cases "ps x"; cases "ps k") (auto simp: bump_def)
qed

lemma collect_loop:
  assumes "wgood C s" and "distinct ord"
  shows "wp (range_peers_acc ord (sjn_collect now) a) (\<lambda>r s'. wgood C s' \<and>
     cw s' = (cw s)\<lparr>peers := bump now ord (peers (cw s))\<rparr> \<and> ech s' = ech s \<and> sent s' = sent s \<and>
     r = a @ due_in now ord (cw s)) s"
  using assms
proof (induction ord arbitrary: a s)
  case Nil
  then show ?case by (simp add: wpx_range_acc_simps due_in_def)
next
  case (Cons k ks)
  note g = Cons.prems(1)
  show ?case
  proof (cases "peers (cw s) k")
    case None
    then show ?thesis using Cons.IH [OF g] Cons.prems(2)
      by (simp add: wpx_range_acc_simps due_in_Cons bump_Cons)
  next
    case (Some i)
    let ?t = "\<lambda>j. (o_stat s)\<lparr>stat_w := (stat_w (o_stat s))[j := stat_w (o_stat s) ! j + 1]\<rparr>"
    show ?thesis
    proof (cases "sjn_due (now k) i")
      case False
      have "wgood C (s\<lparr>o_stat := ?t 74\<rparr>)" by (rule wgood_same [OF g]) (use g in \<open>simp_all add: stat_wf_def\<close>)
      from Cons.IH [OF this, of a] show ?thesis using Some False Cons.prems
        by (simp add: wpx_range_acc_simps due_in_Cons bump_Cons sjn_collect_def wp_rules)
    next
      case True
      then have m: "state i = WS_MEM" by (simp add: sjn_due_def)
      have K: "wkeeps C (\<lambda>_. {}) s s" using g by (rule wkeeps_refl)
      obtain q where q: "C k = Some q" "Peer i = Some q" "IDHash q = k" "no_join (cw s)"
        by (rule wkeeps_mem_peer [OF K Some m])
      let ?s = "s\<lparr>o_stat := ?t 75, cw := (cw s)\<lparr>peers := (peers (cw s))(k \<mapsto> i\<lparr>sjnc := sjnc i + 1\<rparr>)\<rparr>\<rparr>"
      have "wgood C ?s" by (rule wgood_put [OF g, where k = k and i = "i\<lparr>sjnc := sjnc i + 1\<rparr>"]) (use g q m in \<open>simp_all add: stat_wf_def\<close>)
      from Cons.IH [OF this, of "a @ [\<lparr>PeerHash = k, SessionID = PeerSessionID i\<rparr>]"]
      show ?thesis using Some True Cons.prems q
        by (simp add: wpx_range_acc_simps due_in_Cons bump_Cons sjn_collect_def wp_rules due_in_other
            del: fun_upd_apply)
    qed
  qed
qed

definition announcements ::
    "uuid \<Rightarrow> ANDPeerSessionIdentity list \<Rightarrow> ANDPeerSessionState list \<Rightarrow> (IANDPeer \<times> ahmp_send) list" where
  "announcements L due members = (if due = [] then [] else
     map (\<lambda>m. (the (Peer m), TrySendSJN L (PeerSessionID m) due)) members)"

lemma announcements_simps [simp]:
  "announcements L due [] = []" "announcements L [] ms = []"
  "due \<noteq> [] \<Longrightarrow> announcements L due (m # ms) = (the (Peer m), TrySendSJN L (PeerSessionID m) due) # announcements L due ms"
  by (simp_all add: announcements_def)

lemma members_in_bump:
  "length (members_in ord (w\<lparr>peers := bump now ks (peers w)\<rparr>)) = length (members_in ord w)"
  "announcements L due (members_in ord (w\<lparr>peers := bump now ks (peers w)\<rparr>)) = announcements L due (members_in ord w)"
  by (induction ord) (auto simp: announcements_def bump_def split: option.split)

lemma announce_loop:
  assumes "wgood C s"
  shows "wp (range_peers_acc ord (sjn_announce L ms) n) (\<lambda>r s'. cw s' = cw s \<and> ech s' = ech s \<and>
     r = n + int (length (members_in ord (cw s))) \<and>
     sent s' = sent s @ announcements L ms (members_in ord (cw s))) s"
  using assms
proof (induction ord arbitrary: n s)
  case Nil
  then show ?case by (simp add: wpx_range_acc_simps)
next
  case (Cons k ks)
  note g = Cons.prems(1)
  show ?case
  proof (cases "peers (cw s) k")
    case None
    then show ?thesis using Cons.IH [OF g] by (simp add: wpx_range_acc_simps)
  next
    case (Some i)
    let ?t = "\<lambda>j. (o_stat s)\<lparr>stat_w := (stat_w (o_stat s))[j := stat_w (o_stat s) ! j + 1]\<rparr>"
    have g1: "wgood C (s\<lparr>o_stat := ?t 76\<rparr>)" by (rule wgood_same [OF g]) (use g in \<open>simp_all add: stat_wf_def\<close>)
    show ?thesis
    proof (cases "state i = WS_MEM \<and> ms \<noteq> []")
      case False
      then show ?thesis using Cons.IH [OF g1, of n] Cons.IH [OF g, of "n + 1"] Some g
        by (cases "state i = WS_MEM") (simp_all add: wpx_range_acc_simps sjn_announce_def wp_rules ac_simps)
    next
      case True
      then have nd: "\<not> dc (state i)" by auto
      obtain q where q: "Peer i = Some q" by (rule wgood_some_cell [OF g Some nd])
      let ?s = "s\<lparr>o_stat := SJN_TX_update (\<lambda>n. n + 1) (?t 77), sent := sent s @ [(q, TrySendSJN L (PeerSessionID i) ms)]\<rparr>"
      have "wgood C ?s" by (rule wgood_same [OF g]) (use g in \<open>simp_all add: stat_wf_def\<close>)
      from Cons.IH [OF this, of "n + 1"] show ?thesis using Some True g q
        by (simp add: wpx_range_acc_simps sjn_announce_def wp_rules ac_simps)
    qed
  qed
qed

text \<open>C12: a timer tick of a world sends the list of the members that still have to be announced to
  every member (and nothing when the list is empty), counts one announcement for each member on
  the list, and asks for the next tick in at least 300 ms and less than \<open>300 + 300 (n + 1)\<close> ms, where
  \<open>n\<close> is the number of members.\<close>

theorem timer_tick:
  assumes g: "wgood C s" and ord1: "range_order ord1 (peers (cw s))" and ord2: "range_order ord2 (peers (cw s))"
  shows "wp (ANDWorld_TimerExpire ord1 ord2 now r) (\<lambda>_ s'.
      let due = due_in now ord1 (cw s); members = members_in ord2 (cw s); L = lsid (cw s) in
      cw s' = (cw s)\<lparr>peers := bump now ord1 (peers (cw s))\<rparr> \<and>
      sent s' = sent s @ announcements L due members \<and>
      (\<exists>ms. ech s' = ech s @ [timer_event L ms] \<and> 300 \<le> ms \<and> ms < 300 + 300 * (int (length members) + 1))) s"
proof -
  have d: "distinct ord1" using ord1 by (simp add: range_order_def)
  have mod: "0 \<le> int r mod (300 * (n + 1)) \<and> int r mod (300 * (n + 1)) < 300 * (n + 1)" if "0 \<le> n" for n :: int
    using that by simp
  show ?thesis
    unfolding ANDWorld_TimerExpire_def wpx_bind wpx_the_world
  proof (rule wpx_mono [OF collect_loop [OF g d]], rule wpx_mono [OF announce_loop])
  qed (use mod [of "int (length (members_in ord2 (cw s)))"] in
      \<open>auto simp: wp_rules Let_def members_in_bump simp del: distrib_left_numeral\<close>)
qed

theorem timer_tick_witness:
  "wp (ANDWorld_TimerExpire [''p''] [''p''] (\<lambda>_. 2000000000) 17) (\<lambda>_ s'.
     sent s' = [(ex_peer, TrySendSJN 7 9 [\<lparr>PeerHash = ''p'', SessionID = 9\<rparr>])]) (ex_ctx WS_MEM)"
  by (rule wpx_mono [OF timer_tick [OF ex_ctx_good(1,4,4)]])
     (simp_all add: Let_def due_in_def ex_ctx_def ex_world_def ex_cell_def sjn_due_def)

section \<open>Closing a world\<close>

definition close_messages :: "uuid \<Rightarrow> cell \<Rightarrow> (IANDPeer \<times> ahmp_send) list" where
  "close_messages L c = (case c of None \<Rightarrow> [] | Some i \<Rightarrow>
     if state i = WS_JT \<or> established (state i)
     then [(the (Peer i), TrySendRST L (PeerSessionID i) ''Close'')] else [])"

lemma close_cell_messages:
  assumes g: "wgood C s" and i: "peers (cw s) k = Some i"
  shows "wp (close_cell L k i) (\<lambda>_ s'. sent s' = sent s @ close_messages L (Some i)) s"
proof (cases "dc (state i)")
  case True
  then show ?thesis by (cases "state i") (auto simp: close_cell_def close_messages_def wp_rules)
next
  case False
  obtain p where "Peer i = Some p" by (rule wgood_some_cell [OF g i False])
  with False g show ?thesis
    by (cases "state i") (auto simp: close_cell_def close_messages_def wp_rules)
qed

lemma close_loop_messages:
  assumes "wgood C s"
  shows "wp (range_peers ks (close_cell L)) (\<lambda>_ s'.
     sent s' = sent s @ concat (map (\<lambda>k. close_messages L (peers (cw s) k)) ks)) s"
  using assms
proof (induction ks arbitrary: s)
  case Nil
  show ?case by (simp add: range_peers_def wp_rules)
next
  case (Cons k ks)
  show ?case
  proof (cases "peers (cw s) k")
    case None
    then show ?thesis using Cons.IH [OF Cons.prems] by (simp add: close_messages_def range_peers_def wp_rules)
  next
    case (Some i)
    let ?Q = "\<lambda>_ s'. sent s' = sent s @ concat (map (\<lambda>k. close_messages L (peers (cw s) k)) (k # ks))"
    have one: "wp (close_cell L k i) (\<lambda>_ s'. reports (close_events L (Some i)) s s' \<and>
        sent s' = sent s @ close_messages L (Some i)) s"
      using close_cell_spec [OF Cons.prems Some] close_cell_messages [OF Cons.prems Some] by (simp add: wpx_conj)
    have "wp (close_cell L k i) (\<lambda>_. wp (range_peers ks (close_cell L)) ?Q) s"
    proof (rule wpx_mono [OF one])
      fix s1 assume r: "reports (close_events L (Some i)) s s1 \<and> sent s1 = sent s @ close_messages L (Some i)"
      then have w: "cw s1 = cw s" and g: "wgood C s1"
        using reports_good [OF _ Cons.prems] by (auto simp: reports_def)
      show "wp (range_peers ks (close_cell L)) ?Q s1"
        using Cons.IH [OF g] r Some w by simp
    qed
    then show ?thesis using Some by (simp add: range_peers_def wp_rules)
  qed
qed

text \<open>C13: closing a world notifies everybody: every peer with a session or a pending join gets a reset,
  every member is reported closed, a pending join to a connected target is reported cancelled, and
  the last event says that the world was left.\<close>

theorem close_notifies:
  assumes g: "wgood C s"
  shows "wp (ANDWorld_Close ord) (\<lambda>_ s'. let L = lsid (cw s) in
     sent s' = sent s @ concat (map (\<lambda>k. close_messages L (peers (cw s) k)) ord) \<and>
     ech s' = ech s @ concat (map (\<lambda>k. close_events L (peers (cw s) k)) ord) @ [world_leave_event L]) s"
proof -
  have "wp (ANDWorld_Close ord) (\<lambda>_ s'.
      sent s' = sent s @ concat (map (\<lambda>k. close_messages (lsid (cw s)) (peers (cw s) k)) ord)) s"
    unfolding ANDWorld_Close_def wpx_bind wpx_the_world wpx_block
  proof (rule wpx_mono [OF iffD2 [OF wpx_conj, OF conjI]])
    show "wp (range_peers ord (close_cell (lsid (cw s)))) (\<lambda>_. wgood C) s"
      by (rule wpx_mono [OF close_loop_spec [OF g]]) (rule reports_good [OF _ g])
    show "wp (range_peers ord (close_cell (lsid (cw s)))) (\<lambda>_ s'.
       sent s' = sent s @ concat (map (\<lambda>k. close_messages (lsid (cw s)) (peers (cw s) k)) ord)) s"
      by (rule close_loop_messages [OF g])
  qed (auto simp: wp_rules)
  moreover have "wp (ANDWorld_Close ord) (\<lambda>_ s'. ech s' = ech s @
      concat (map (\<lambda>k. close_events (lsid (cw s)) (peers (cw s) k)) ord) @ [world_leave_event (lsid (cw s))]) s"
    by (rule wpx_mono [OF Close_spec [OF g]]) (simp add: reports_def)
  ultimately show ?thesis by (simp add: Let_def wpx_conj)
qed

theorem close_notifies_witness:
  "wp (ANDWorld_Close [''p'']) (\<lambda>_ s'. sent s' = [(ex_peer, TrySendRST 7 9 ''Close'')] \<and>
     ech s' = [session_event ANDSessionClose 7 (ex_cell WS_MEM), world_leave_event 7]) (ex_ctx WS_MEM)"
  by (rule wpx_mono [OF close_notifies [OF ex_ctx_good(1)]])
     (simp_all add: Let_def close_messages_def close_events_def ex_ctx_def ex_world_def ex_cell_def)

lemma Close_silent:
  assumes g: "wgood C s" and i: "peers (cw s) k = Some i" "state i = WS_DC_JT"
  shows "wp (ANDWorld_Close ord) (\<lambda>_ s'. ech s' = ech s @ [world_leave_event (lsid (cw s))]) s"
proof -
  have "world_join (cw s)" "is_joining (peers (cw s) k)" using g i by (auto simp: wgood_def)
  then have "close_events (lsid (cw s)) (peers (cw s) k') = []" for k'
    using i unfolding world_join_def by (cases "k' = k") (fastforce simp: close_events_def split: option.split ws.split)+
  then have "concat (map (\<lambda>k. close_events (lsid (cw s)) (peers (cw s) k)) ord) = []" by simp
  then show ?thesis using Close_spec [OF g, of ord] by (auto elim!: wpx_mono simp: reports_def)
qed

text \<open>A join that is cancelled while its target is not connected is not reported: closing such a
  world raises only \<open>ANDWorldLeave\<close>, no join result.\<close>

lemma close_unreachable_join_silent:
  assumes "wgood C s" and "peers (cw s) k = Some i" and "state i = WS_DC_JT"
  shows "wp (ANDWorld_Close ord) (\<lambda>_ s'. ech s' = ech s @ [world_leave_event (lsid (cw s))]) s"
  using assms by (rule Close_silent)

definition ex_joining :: wctx where
  "ex_joining = \<lparr>cw = \<lparr>local = ''me'', lsid = 8, timestamp = 0, join_hash = ''t'', join_path = ''/'', wurl = '''',
     peers = [''t'' \<mapsto> NewANDPeerSessionState None uuid_Nil zero_time WS_DC_JT]\<rparr>,
     o_stat = ANDStatistics_zero, ech = [], sent = []\<rparr>"

lemma close_unreachable_join_silent_sample:
  "wp (ANDWorld_Close [''t'']) (\<lambda>_ s'. ech s' = [world_leave_event 8]) ex_joining"
proof -
  have g: "wgood Map.empty ex_joining"
    by (auto simp: wgood_def hashes_ok_def world_conn_def world_join_def ex_joining_def split: if_splits
        simp del: wgood_stat)
  have i: "peers (cw ex_joining) ''t'' = Some (NewANDPeerSessionState None uuid_Nil zero_time WS_DC_JT)"
    by (simp add: ex_joining_def)
  show ?thesis using close_unreachable_join_silent [OF g i, of "[''t'']"] by (simp add: ex_joining_def)
qed

section \<open>Objects, resets and join answers\<close>

text \<open>C15: shared objects are reported only from members: an object message raises an event exactly when
  the sender is a member with that session; a message for another session is answered with a reset
  and raises nothing.\<close>

theorem objects_only_from_members:
  assumes g: "wgood C s" and c: "C k = Some p" and ps: "Peer ps = Some p"
    and i: "peers (cw s) k = Some i"
  shows "wp (ANDWorld_SOA ps objs) (\<lambda>_ s'. cw s' = cw s \<and>
      ech s' = ech s @ (if state i = WS_MEM \<and> PeerSessionID i = PeerSessionID ps
        then [(session_event ANDObjectAppend (lsid (cw s)) ps)\<lparr>Object := AnyObjects objs\<rparr>] else []) \<and>
      sent s' = sent s @ (if PeerSessionID i = PeerSessionID ps then []
        else [(p, TrySendRST (lsid (cw s)) (PeerSessionID ps) ''SOA::sessionID mismatch'')])) s \<and>
    wp (ANDWorld_SOD ps ids) (\<lambda>_ s'. cw s' = cw s \<and>
      ech s' = ech s @ (if state i = WS_MEM \<and> PeerSessionID i = PeerSessionID ps
        then [(session_event ANDObjectDelete (lsid (cw s)) ps)\<lparr>Object := AnyObjectIDs ids\<rparr>] else []) \<and>
      sent s' = sent s @ (if PeerSessionID i = PeerSessionID ps then []
        else [(p, TrySendRST (lsid (cw s)) (PeerSessionID ps) ''SOA::sessionID mismatch'')])) s"
proof -
  have k: "IDHash p = k" using g c by (auto simp: wgood_def hashes_ok_def)
  show ?thesis using g ps i k by (auto simp: ANDWorld_SOA_def ANDWorld_SOD_def wp_rules)
qed

theorem objects_only_from_members_witness:
  "wp (ANDWorld_SOA ex_session []) (\<lambda>_ s'.
     ech s' = [(session_event ANDObjectAppend 7 ex_session)\<lparr>Object := AnyObjects []\<rparr>]) (ex_ctx WS_MEM)"
  by (rule wpx_mono [OF objects_only_from_members
        [OF ex_ctx_good(1) ex_sender(1,2) ex_ctx_good(3), THEN conjunct1]])
     (simp_all add: ex_cell_def ex_session_def ex_ctx_def ex_world_def)

text \<open>A reset returns the peer to the idle state in that world, whatever its state was, and a member
  is reported closed.\<close>

lemma reset_clears_peer:
  assumes g: "wgood C s" and c: "C k = Some p" and ps: "Peer ps = Some p"
    and i: "peers (cw s) k = Some i"
  shows "wp (ANDWorld_RST ps) (\<lambda>_ s'. cw s' = (cw s)\<lparr>peers := (peers (cw s))(k \<mapsto> cleared i)\<rparr> \<and>
     ech s' = ech s @ clear_events (lsid (cw s)) i) s"
proof -
  obtain j where j: "peers (cw s) k = Some j" "Peer j = Some p" "\<not> dc (state j)" "IDHash p = k"
    using g c by (rule wgood_cell)
  then show ?thesis using i ps
    by (cases "state i") (auto simp: ANDWorld_RST_def handler_simps clear_events_def fun_upd_idem)
qed

lemma reset_clears_peer_sample:
  "wp (ANDWorld_RST ex_session) (\<lambda>_ s'. peers (cw s') = [''p'' \<mapsto> fresh_cell ex_peer] \<and>
     ech s' = [session_event ANDSessionClose 7 (ex_cell WS_MEM)]) (ex_ctx WS_MEM)"
  by (rule wpx_mono [OF reset_clears_peer [OF ex_ctx_good(1) ex_sender(1,2) ex_ctx_good(3)]])
     (simp_all add: ex_ctx_def ex_world_def ex_cell_def cleared_def fresh_cell_def
        NewANDPeerSessionState_def clear_events_def)

text \<open>The answer to a join request makes the join target a member candidate and reports the join,
  but the world URL it carries is only reported and never stored in the world.\<close>

lemma join_answer_not_stored:
  assumes "wgood C s" and "C k = Some p" and "Peer ps = Some p"
  shows "wp (ANDWorld_JOK ps ts world_url ms) (\<lambda>_ s'. wurl (cw s') = wurl (cw s)) s"
proof (rule wpx_mono [OF JOK_moves [OF assms]])
  fix s' assume "wkeeps C (\<lambda>_. {}) s s'"
  then show "wurl (cw s') = wurl (cw s)" using wmoves_const [OF wkeeps_wmoves] by fastforce
qed

definition ex_joining_conn :: wctx where
  "ex_joining_conn = \<lparr>cw = \<lparr>local = ''me'', lsid = 8, timestamp = 0, join_hash = ''p'', join_path = ''/'',
     wurl = '''', peers = [''p'' \<mapsto> (fresh_cell ex_peer)\<lparr>state := WS_JT\<rparr>]\<rparr>,
     o_stat = ANDStatistics_zero, ech = [], sent = []\<rparr>"

lemma join_answer_not_stored_sample:
  "wp (ANDWorld_JOK ex_session 3 ''http://world'' []) (\<lambda>_ s'. wurl (cw s') = '''') ex_joining_conn"
proof -
  have g: "wgood ex_conn ex_joining_conn"
    by (auto simp: wgood_def hashes_ok_def world_conn_def world_join_def ex_conn_def ex_joining_conn_def
        ex_peer_def split: if_splits simp del: wgood_stat)
  show ?thesis using join_answer_not_stored [OF g ex_sender(1,2)] by (simp add: ex_joining_conn_def)
qed

end
