(* ===== verification/And_Props.thy ===== *)
theory And_Props
  imports And_Inv And_World_Props
begin

text \<open>
  The properties of the neighbor discovery module, over every history of calls that its
  environment may make, with sample histories at which they are applied, and the behaviour of the
  single operations that other peers and the application observe.
\<close>

section \<open>Sample histories\<close>

text \<open>The statements of a call computed on a concrete state.\<close>

lemma wpx_in_world [wp_rules]:
  "wpx b (in_world L f) Q a = (case worlds a L of
     None \<Rightarrow> b | Some w \<Rightarrow> wpx b f (\<lambda>_ s. Q () (put_ctx L s a)) (ctx_of a w))"
  by (auto simp: wpx_def in_world_def split: option.splits sum.splits)

lemma wpx_new_world [wp_rules]:
  "wpx b (new_world f) Q a = wpx b f (\<lambda>_ s. Q () (put_ctx (lsid (cw s)) s a)) (ctx_of a zero_world)"
  by (auto simp: wpx_def new_world_def split: sum.splits)

definition ex_opened :: "NeighborEvent list" where
  "ex_opened = [join_success_event 7 ''url'', timer_event 7 500]"

definition ex_request :: NeighborEvent where
  "ex_request = session_event ANDSessionRequest 7 ex_session"

definition ex_ready :: NeighborEvent where
  "ex_ready = session_event ANDSessionReady 7 ex_session"

text \<open>A history \<open>cs\<close> that leaves one world with the cells \<open>ps\<close> and the events \<open>es\<close>.\<close>

definition sample ::
    "hash \<Rightarrow> and_call list \<Rightarrow> (hash \<rightharpoonup> ANDPeerSessionState) \<Rightarrow> NeighborEvent list \<Rightarrow> AND \<Rightarrow> bool" where
  "sample h cs ps es a \<longleftrightarrow> and_runs h cs a \<and> and_peers a = [''p'' \<mapsto> ex_peer] \<and>
     worlds a = [7 \<mapsto> ex_world ps h] \<and> local_hash a = h \<and> eventCh a = es"

lemma run_step:
  assumes "and_runs h cs a" and "call_ok c a" and "wp (and_exec c) (\<lambda>_. P) a"
  shows "\<exists>a'. and_runs h (cs @ [c]) a' \<and> P a'"
proof -
  obtain r a' where "and_exec c a = Inr (r, a')" "P a'" using wp_returns [OF assms(3)] by blast
  then show ?thesis using assms(1,2) by (blast intro: runs.runs_snoc)
qed

lemma sample_step:
  assumes "sample h cs ps es a" and "call_ok c a"
    and "wp (and_exec c) (\<lambda>_ a. and_peers a = [''p'' \<mapsto> ex_peer] \<and>
           worlds a = [7 \<mapsto> ex_world ps' h] \<and> local_hash a = h \<and> eventCh a = es') a"
  shows "\<exists>a'. sample h (cs @ [c]) ps' es' a'"
  using run_step [OF _ assms(2,3)] assms(1) by (auto simp: sample_def)

lemma run_stat:
  "and_runs h cs a \<Longrightarrow> length (stat_b (stat a)) = 36 \<and> length (stat_w (stat a)) = 85"
  using and_sys.run_inv by (fastforce simp: and_inv_def and_good_def stat_wf_def)

lemma sampleD:
  assumes "sample h cs ps es a"
  shows "and_runs h cs a" "and_peers a = [''p'' \<mapsto> ex_peer]"
    "worlds a = [7 \<mapsto> ex_world ps h]" "eventCh a = es"
    "length (stat_b (stat a)) = 36" "length (stat_w (stat a)) = 85" "local_hash a = h"
  using assms run_stat by (auto simp: sample_def)

lemmas sample_simps = wp_rules handler_simps at_world_def ex_peer_def ex_session_def range_order_def
  of_world_def sender_ok_def fresh_session_def put_ctx_def ctx_of_def ex_world_def ex_cell_def
  ex_opened_def ex_request_def ex_ready_def

lemma sample_open:
  "\<exists>a. sample h [PeerConnected [] ex_peer, OpenWorld [''p''] 0 7 ''url'']
     [''p'' \<mapsto> fresh_cell ex_peer] ex_opened a"
proof -
  obtain a where a: "and_runs h [PeerConnected [] ex_peer] a"
      "and_peers a = [''p'' \<mapsto> ex_peer]" "worlds a = Map.empty" "eventCh a = []" "local_hash a = h"
    using run_step [OF runs.runs_nil, of "PeerConnected [] ex_peer" h
        "\<lambda>a. and_peers a = [''p'' \<mapsto> ex_peer] \<and> worlds a = Map.empty \<and> eventCh a = [] \<and> local_hash a = h"]
    by (auto simp: AND_PeerConnected_def NewAND_def ANDStatistics_zero_def sample_simps)
  show ?thesis
    using run_step [OF a(1), of "OpenWorld [''p''] 0 7 ''url''"
        "\<lambda>a. and_peers a = [''p'' \<mapsto> ex_peer] \<and>
         worlds a = [7 \<mapsto> ex_world [''p'' \<mapsto> fresh_cell ex_peer] h] \<and> local_hash a = h \<and>
         eventCh a = ex_opened"] run_stat [OF a(1)] a(2-)
    by (simp add: sample_def AND_OpenWorld_def NewWorldOpen_def zero_world_def fresh_cell_def
        sample_simps)
qed

lemma sample_request:
  "\<exists>a. sample h [PeerConnected [] ex_peer, OpenWorld [''p''] 0 7 ''url'', JN 7 ex_session 5]
     [''p'' \<mapsto> ex_cell WS_JN] (ex_opened @ [ex_request]) a"
proof -
  obtain a where a: "sample h [PeerConnected [] ex_peer, OpenWorld [''p''] 0 7 ''url'']
     [''p'' \<mapsto> fresh_cell ex_peer] ex_opened a" using sample_open by blast
  have "no_join (ex_world [''p'' \<mapsto> fresh_cell ex_peer] h)" for h
    by (auto simp: no_join_def ex_world_def)
  then show ?thesis
    using sample_step [OF a, of "JN 7 ex_session 5" "[''p'' \<mapsto> ex_cell WS_JN]"
        "ex_opened @ [ex_request]"] sampleD [OF a]
    by (simp add: AND_JN_def ANDWorld_JN_def fresh_cell_def NewANDPeerSessionState_def sample_simps)
qed

lemma sample_accept:
  "\<exists>a. sample h [PeerConnected [] ex_peer, OpenWorld [''p''] 0 7 ''url'', JN 7 ex_session 5,
      AcceptSession [''p''] 7 ex_session] [''p'' \<mapsto> ex_cell WS_TMEM] (ex_opened @ [ex_request]) a"
proof -
  obtain a where a: "sample h [PeerConnected [] ex_peer, OpenWorld [''p''] 0 7 ''url'',
     JN 7 ex_session 5] [''p'' \<mapsto> ex_cell WS_JN] (ex_opened @ [ex_request]) a"
    using sample_request by blast
  have "offered 7 ex_session a"
    using sampleD [OF a] by (simp add: offered_def ex_session_def ex_request_def)
  then show ?thesis
    using sample_step [OF a, of "AcceptSession [''p''] 7 ex_session" "[''p'' \<mapsto> ex_cell WS_TMEM]"
        "ex_opened @ [ex_request]"] sampleD [OF a]
    by (simp add: AND_AcceptSession_def ANDWorld_AcceptSession_def range_peers_acc_def
        introduce_joiner_def sample_simps)
qed

definition ex_calls :: "and_call list" where
  "ex_calls = [PeerConnected [] ex_peer, OpenWorld [''p''] 0 7 ''url'', JN 7 ex_session 5,
     AcceptSession [''p''] 7 ex_session, MEM 7 ex_session 5]"

lemma sample_member:
  "\<exists>a. sample h ex_calls [''p'' \<mapsto> ex_cell WS_MEM] (ex_opened @ [ex_request, ex_ready]) a"
proof -
  obtain a where a: "sample h [PeerConnected [] ex_peer, OpenWorld [''p''] 0 7 ''url'',
     JN 7 ex_session 5, AcceptSession [''p''] 7 ex_session] [''p'' \<mapsto> ex_cell WS_TMEM]
     (ex_opened @ [ex_request]) a"
    using sample_accept by blast
  show ?thesis
    using sample_step [OF a, of "MEM 7 ex_session 5" "[''p'' \<mapsto> ex_cell WS_MEM]"
        "ex_opened @ [ex_request, ex_ready]"] sampleD [OF a]
    by (simp add: AND_MEM_def ANDWorld_MEM_def ex_calls_def session_event_def with_session_def
        sample_simps)
qed

section \<open>Properties of every history\<close>

lemma wlp_True [simp]: "wlp f (\<lambda>_ _. True) = (\<lambda>_. True)"
  by (auto simp: wpx_def fun_eq_iff split: sum.split)

lemma and_exec_zero: "wlp (and_exec c) (\<lambda>r _. r = 0) a"
  by (cases c)
     (simp_all add: AND_PeerConnected_def AND_PeerClose_def AND_OpenWorld_def AND_JoinWorld_def
       AND_AcceptSession_def AND_DeclineSession_def AND_CloseWorld_def AND_TimerExpire_def AND_JN_def
       AND_JOK_def AND_JDN_def AND_JNI_def AND_MEM_def AND_SJN_def AND_CRR_def AND_RST_def AND_SOA_def
       AND_SOD_def at_world_def wpx_bind wpx_ret wpx_ret_fun wpx_read split: option.split)

lemma sample_close_ok:
  "sample h cs [''p'' \<mapsto> i] es a \<Longrightarrow> call_ok (CloseWorld [''p''] 7) a"
  by (simp add: sample_def of_world_def range_order_def ex_world_def)

text \<open>C1: in every state the neighbor discovery object reaches, every call its environment may make
  returns the error code 0: none of the panics, nil dereferences and index errors in the handlers
  of \<open>and.go\<close> and \<open>world.go\<close> is reached.\<close>

theorem and_calls_return:
  assumes "and_runs h cs a" and "call_ok c a"
  shows "\<exists>a'. and_exec c a = Inr (0, a')"
proof -
  obtain r a' where "and_exec c a = Inr (r, a')" using and_sys.run_returns [OF assms] by blast
  then show ?thesis using wpx_result [OF and_exec_zero] by blast
qed

theorem and_calls_return_witness:
  "\<exists>a. and_runs ''me'' ex_calls a \<and> call_ok (CloseWorld [''p''] 7) a \<and>
     (\<exists>a'. and_exec (CloseWorld [''p''] 7) a = Inr (0, a'))"
proof -
  obtain a where a: "sample ''me'' ex_calls [''p'' \<mapsto> ex_cell WS_MEM] (ex_opened @ [ex_request, ex_ready]) a"
    using sample_member by blast
  show ?thesis
    using and_calls_return [OF sampleD(1) [OF a] sample_close_ok [OF a]] sampleD(1) [OF a]
      sample_close_ok [OF a] by blast
qed

text \<open>C2: the session events of the application are consistent with the state: for every world
  session \<open>L\<close> and peer hash \<open>k\<close>, \<open>ANDSessionReady\<close> and \<open>ANDSessionClose\<close> alternate with matching
  session ids, and the last one tells whether the peer is a member now; a world that is gone has
  closed every session it had made ready.\<close>

theorem membership_events_consistent:
  assumes "and_runs h cs a"
  shows "member_run L k None (eventCh a) =
     Some (case worlds a L of None \<Rightarrow> None | Some w \<Rightarrow> member_of (peers w k))"
proof -
  have inv: "and_inv cs a" by (rule and_sys.run_inv [OF assms])
  show ?thesis
  proof (cases "worlds a L")
    case None
    then show ?thesis using inv by (auto simp: and_inv_def and_good_def)
  next
    case (Some w)
    then show ?thesis using and_inv_world(2,3) [OF inv Some] by (auto simp: world_ledger_def)
  qed
qed

theorem membership_events_consistent_witness:
  "\<exists>a. and_runs ''me'' ex_calls a \<and> member_run 7 ''p'' None (eventCh a) = Some (Some 9)"
proof -
  obtain a where a: "sample ''me'' ex_calls [''p'' \<mapsto> ex_cell WS_MEM] (ex_opened @ [ex_request, ex_ready]) a"
    using sample_member by blast
  show ?thesis
    using membership_events_consistent [OF sampleD(1) [OF a], of 7 "''p''"] sampleD [OF a]
    by (auto simp: ex_world_def ex_cell_def member_of_def)
qed

text \<open>C3: a world that exists has reported exactly one join result since it was created, unless its
  join target has not answered yet, and then none.\<close>

theorem one_join_result:
  assumes "and_runs h cs a" and "worlds a L = Some w"
  shows "join_run L 0 (eventCh a) = (if no_join w then 1 else 0)"
proof -
  have "world_ledger (accepted cs L) w (eventCh a)" "lsid w = L"
    using and_inv_world(2,3) [OF and_sys.run_inv [OF assms(1)] assms(2)] by auto
  then show ?thesis by (auto simp: world_ledger_def)
qed

theorem one_join_result_witness:
  "\<exists>a w. and_runs ''me'' ex_calls a \<and> worlds a 7 = Some w \<and> no_join w \<and> join_run 7 0 (eventCh a) = 1"
proof -
  obtain a where a: "sample ''me'' ex_calls [''p'' \<mapsto> ex_cell WS_MEM] (ex_opened @ [ex_request, ex_ready]) a"
    using sample_member by blast
  have w: "worlds a 7 = Some (ex_world [''p'' \<mapsto> ex_cell WS_MEM] ''me'')"
    using sampleD(3) [OF a] by simp
  have nj: "no_join (ex_world [''p'' \<mapsto> ex_cell WS_MEM] ''me'')"
    by (auto simp: no_join_def ex_world_def ex_cell_def)
  show ?thesis
    using one_join_result [OF sampleD(1) [OF a] w] sampleD(1) [OF a] w nj by auto
qed

text \<open>C4: a session becomes ready only if the application accepted it: every \<open>ANDSessionReady\<close> event
  names a peer and a session for which \<open>AcceptSession\<close> was called in that world.\<close>

theorem ready_only_if_accepted:
  assumes "and_runs h cs a" and "e \<in> set (eventCh a)" and "Type e = ANDSessionReady"
  shows "\<exists>ord ps p q. AcceptSession ord (LocalSessionID e) ps \<in> set cs \<and> Peer ps = Some p \<and>
     Peer e = Some q \<and> IDHash p = IDHash q \<and> PeerSessionID ps = PeerSessionID e"
proof -
  have "and_inv cs a" by (rule and_sys.run_inv [OF assms(1)])
  then obtain q where "Peer e = Some q"
      "PeerSessionID e \<in> accepted cs (LocalSessionID e) (IDHash q)"
    using assms(2,3) by (auto simp: and_inv_def and_good_def)
  then show ?thesis by (auto simp: accepted_def)
qed

theorem ready_only_if_accepted_witness:
  "\<exists>a. and_runs ''me'' ex_calls a \<and> ex_ready \<in> set (eventCh a) \<and>
     (\<exists>ord ps. AcceptSession ord 7 ps \<in> set ex_calls \<and> PeerSessionID ps = 9)"
proof -
  obtain a where a: "sample ''me'' ex_calls [''p'' \<mapsto> ex_cell WS_MEM] (ex_opened @ [ex_request, ex_ready]) a"
    using sample_member by blast
  have e: "ex_ready \<in> set (eventCh a)" using sampleD(4) [OF a] by simp
  show ?thesis
    using ready_only_if_accepted [OF sampleD(1) [OF a] e] sampleD(1) [OF a] e
    by (fastforce simp: ex_ready_def ex_session_def)
qed

text \<open>C5: the transmission counters are exact for what the neighbor discovery object itself sends: for every
  message type the counter is the number, modulo 2^64, of the messages of that type that its calls have handed
  to peers. The refusals of join requests for unknown paths (\<open>host/host.go\<close>) and the object messages of the
  application (\<open>host/peer.go\<close>) are sent by the host behind its back and are not counted
  (\<open>host_sends_not_counted\<close> in \<open>Host_Run\<close>).\<close>

theorem tx_counters_exact:
  assumes "and_runs h cs a"
  shows "tx_count t (stat a) = word_of_nat (length (filter (\<lambda>m. send_type (snd m) = t) (and_sent a)))"
  using and_sys.run_inv [OF assms]
  by (simp add: and_inv_def and_good_def sent_count_def)

theorem tx_counters_exact_witness:
  "\<exists>a. and_runs ''me'' ex_calls a \<and>
     JOK_TX (stat a) = word_of_nat (length (filter (\<lambda>m. send_type (snd m) = JOK_T) (and_sent a)))"
proof -
  obtain a where a: "sample ''me'' ex_calls [''p'' \<mapsto> ex_cell WS_MEM] (ex_opened @ [ex_request, ex_ready]) a"
    using sample_member by blast
  show ?thesis using tx_counters_exact [OF sampleD(1) [OF a], of JOK_T] sampleD(1) [OF a] by auto
qed

text \<open>C6: worlds and connections agree: every world has a cell for every connected peer, a cell holds
  exactly the peer object connected under its hash, and the cells without one are exactly those in
  the two disconnected states.\<close>

theorem cells_match_connections:
  assumes "and_runs h cs a" and "worlds a L = Some w"
  shows "dom (and_peers a) \<subseteq> dom (peers w) \<and>
     (\<forall>k i. peers w k = Some i \<longrightarrow> Peer i = and_peers a k \<and>
       (Peer i = None \<longleftrightarrow> state i = WS_DC_JT \<or> state i = WS_DC_JNI))"
proof -
  have "world_conn (and_peers a) w"
    using and_inv_world(1) [OF and_sys.run_inv [OF assms(1)] assms(2)] by (simp add: wgood_def)
  moreover have "dc st \<longleftrightarrow> st = WS_DC_JT \<or> st = WS_DC_JNI" for st by (cases st) simp_all
  ultimately show ?thesis by (auto simp: world_conn_def)
qed

theorem cells_match_connections_witness:
  "\<exists>a w i. and_runs ''me'' ex_calls a \<and> worlds a 7 = Some w \<and> peers w ''p'' = Some i \<and>
     Peer i = and_peers a ''p'' \<and> Peer i \<noteq> None"
proof -
  obtain a where a: "sample ''me'' ex_calls [''p'' \<mapsto> ex_cell WS_MEM] (ex_opened @ [ex_request, ex_ready]) a"
    using sample_member by blast
  have w: "worlds a 7 = Some (ex_world [''p'' \<mapsto> ex_cell WS_MEM] ''me'')"
    using sampleD(3) [OF a] by simp
  have i: "peers (ex_world [''p'' \<mapsto> ex_cell WS_MEM] ''me'') ''p'' = Some (ex_cell WS_MEM)"
    by (simp add: ex_world_def)
  have "Peer (ex_cell WS_MEM) = and_peers a ''p'' \<and> Peer (ex_cell WS_MEM) \<noteq> None"
    using cells_match_connections [OF sampleD(1) [OF a] w, THEN conjunct2, rule_format, OF i]
    by (auto simp: ex_cell_def dest: sym)
  then show ?thesis using sampleD(1) [OF a] w i by blast
qed

text \<open>C7: at most one peer of a world is a join target, it is the one \<open>JoinWorld\<close> named, and while
  the join is undecided no other peer of the world is past an unsolicited membership claim.\<close>

theorem joining_excludes_members:
  assumes "and_runs h cs a" and "worlds a L = Some w" and "peers w k = Some i"
    and "state i \<in> {WS_DC_JT, WS_JT}"
  shows "k = join_hash w \<and> (\<forall>k' i'. peers w k' = Some i' \<and> k' \<noteq> k \<longrightarrow> state i' \<in> {WS_CC, WS_RMEM_NJNI})"
proof -
  have "world_join w"
    using and_inv_world(1) [OF and_sys.run_inv [OF assms(1)] assms(2)] by (simp add: wgood_def)
  moreover have "is_joining (peers w k)" using assms(3,4) by auto
  ultimately show ?thesis unfolding world_join_def by blast
qed

definition ex_target :: AURL where
  "ex_target = \<lparr>Scheme = ''abyss'', Hash = ''t'', Addresses = [], Path = ''/home''\<rparr>"

lemma sample_joining:
  "\<exists>a w i. and_runs h [JoinWorld [] 0 8 ex_target] a \<and> worlds a 8 = Some w \<and>
     peers w ''t'' = Some i \<and> state i = WS_DC_JT \<and> join_hash w = ''t'' \<and> dom (peers w) = {''t''}"
  using run_step [OF runs.runs_nil, of "JoinWorld [] 0 8 ex_target" h
      "\<lambda>a. \<exists>w i. worlds a 8 = Some w \<and> peers w ''t'' = Some i \<and> state i = WS_DC_JT \<and>
        join_hash w = ''t'' \<and> dom (peers w) = {''t''}"]
  by (simp add: AND_JoinWorld_def NewWorldJoin_def NewAND_def ANDStatistics_zero_def zero_world_def
      ex_target_def sample_simps)

theorem joining_excludes_members_witness:
  "\<exists>a w. and_runs ''me'' [JoinWorld [] 0 8 ex_target] a \<and> worlds a 8 = Some w \<and> ''t'' = join_hash w"
proof -
  obtain a w i where a: "and_runs ''me'' [JoinWorld [] 0 8 ex_target] a" "worlds a 8 = Some w"
      "peers w ''t'' = Some i" "state i = WS_DC_JT"
    using sample_joining [of "''me''"] by (elim exE conjE) (rule that)
  have st: "state i \<in> {WS_DC_JT, WS_JT}" using a(4) by simp
  have "''t'' = join_hash w" by (rule joining_excludes_members [OF a(1-3) st, THEN conjunct1])
  then show ?thesis using a(1,2) by blast
qed

text \<open>A session is offered to the application only in worlds whose join is decided, and a decided
  join stays decided, so an answer of the application never meets a join target.\<close>

lemma offered_worlds_joined:
  assumes "and_runs h cs a" and "worlds a L = Some w" and "e \<in> set (eventCh a)"
    and "Type e = ANDSessionRequest" and "LocalSessionID e = L"
  shows "\<forall>k i. peers w k = Some i \<longrightarrow> state i \<notin> {WS_DC_JT, WS_JT}"
proof -
  have "no_join w"
    using and_inv_world(2,3) [OF and_sys.run_inv [OF assms(1)] assms(2)] assms(3-)
    by (auto simp: world_ledger_def requested_def)
  then have "\<not> joining_ws (state i)" if "peers w k = Some i" for k i
    using that unfolding no_join_def by (metis is_joining_simps(2))
  then show ?thesis by fastforce
qed

lemma offered_worlds_joined_sample:
  "\<exists>a w. and_runs ''me'' ex_calls a \<and> worlds a 7 = Some w \<and> ex_request \<in> set (eventCh a) \<and>
     (\<forall>k i. peers w k = Some i \<longrightarrow> state i \<notin> {WS_DC_JT, WS_JT})"
proof -
  obtain a where a: "sample ''me'' ex_calls [''p'' \<mapsto> ex_cell WS_MEM] (ex_opened @ [ex_request, ex_ready]) a"
    using sample_member by blast
  have w: "worlds a 7 = Some (ex_world [''p'' \<mapsto> ex_cell WS_MEM] ''me'')"
    using sampleD(3) [OF a] by simp
  have e: "ex_request \<in> set (eventCh a)" using sampleD(4) [OF a] by simp
  show ?thesis
    using offered_worlds_joined [OF sampleD(1) [OF a] w e] sampleD(1) [OF a] w e
    by (auto simp: ex_request_def)
qed

section \<open>Calls that concern every world\<close>

lemma run_good: "and_runs h cs a \<Longrightarrow> and_good (accepted cs) (\<lambda>_. and_peers a) a"
  using and_sys.run_inv by (fastforce simp: and_inv_def)

lemma RST_all:
  assumes r: "and_runs h cs a" and p: "Peer ps = Some p" "and_peers a (IDHash p) = Some p"
    and ord: "range_order ord (worlds a)"
  shows "wp (AND_RST ord uuid_Nil ps) (\<lambda>_ a'. dom (worlds a') = dom (worlds a) \<and>
     (\<forall>L w. worlds a' L = Some w \<longrightarrow> (\<exists>i. peers w (IDHash p) = Some (cleared i)))) a"
    (is "wp _ (\<lambda>_. ?Q) a")
proof -
  let ?C = "and_peers a" and ?P = "\<lambda>w. \<exists>i. peers w (IDHash p) = Some (cleared i)"
  have op: "wp (ANDWorld_RST ps) (\<lambda>_ s'. (wgood ?C s' \<and> wtrans (\<lambda>_. {}) (IDHash p) s s') \<and> ?P (cw s')) s"
    if g: "wgood ?C s" for s
  proof -
    obtain j where j: "peers (cw s) (IDHash p) = Some j" "Peer j = Some p" "\<not> dc (state j)"
      using g p(2) by (rule wgood_cell)
    have "wp (ANDWorld_RST ps) (\<lambda>_ s'. ?P (cw s')) s"
      using j p by (cases "state j") (auto simp: ANDWorld_RST_def handler_simps)
    with RST_moves [OF g p(2,1)] show ?thesis by (simp add: wpx_conj)
  qed
  have "wp (go_for ord (\<lambda>L'. go_block [stat_B 31, in_world L' (ANDWorld_RST ps)])) (\<lambda>_. ?Q) (a\<lparr>stat := st\<rparr>)"
    if g: "and_good (accepted cs) (\<lambda>_. ?C) (a\<lparr>stat := st\<rparr>)" for st
    by (rule wpx_mono [OF worlds_loop_all [OF _ g _ op]]) (use ord in auto)
  then show ?thesis
    by (simp only: AND_RST_def wpx_bind wpx_block wpx_ret_fun if_False simp_thms)
       (rule wp_stat_B_good [OF run_good [OF r]], simp_all)
qed

text \<open>A reset for the nil session id concerns every world: afterwards the peer is idle, with no
  session, in each of them.\<close>

lemma nil_reset_clears_all_worlds:
  assumes "and_runs h cs a" and "Peer ps = Some p" and "and_peers a (IDHash p) = Some p"
    and "range_order ord (worlds a)"
  shows "\<exists>a'. and_exec (RST ord uuid_Nil ps) a = Inr (0, a') \<and> dom (worlds a') = dom (worlds a) \<and>
     (\<forall>L w. worlds a' L = Some w \<longrightarrow> (\<exists>i. peers w (IDHash p) = Some i \<and> state i = WS_CC \<and>
        PeerSessionID i = uuid_Nil))"
proof -
  obtain r a' where r: "and_exec (RST ord uuid_Nil ps) a = Inr (r, a')"
      "dom (worlds a') = dom (worlds a) \<and> (\<forall>L w. worlds a' L = Some w \<longrightarrow> (\<exists>i. peers w (IDHash p) = Some (cleared i)))"
    using wp_returns [OF RST_all [OF assms]] by auto
  moreover have "r = 0" using wpx_result [OF and_exec_zero r(1)] .
  ultimately show ?thesis by fastforce
qed

lemma nil_reset_clears_all_worlds_sample:
  "\<exists>a a'. and_runs ''me'' ex_calls a \<and> and_exec (RST [7] uuid_Nil ex_session) a = Inr (0, a') \<and>
     (\<exists>w i. worlds a' 7 = Some w \<and> peers w ''p'' = Some i \<and> state i = WS_CC)"
proof -
  obtain a where a: "sample ''me'' ex_calls [''p'' \<mapsto> ex_cell WS_MEM] (ex_opened @ [ex_request, ex_ready]) a"
    using sample_member by blast
  have p: "and_peers a (IDHash ex_peer) = Some ex_peer" "range_order [7] (worlds a)"
    using sampleD(2,3) [OF a] by (simp_all add: ex_peer_def range_order_def)
  obtain a' where a': "and_exec (RST [7] uuid_Nil ex_session) a = Inr (0, a')" "dom (worlds a') = dom (worlds a)"
     "\<And>L w. worlds a' L = Some w \<Longrightarrow> \<exists>i. peers w (IDHash ex_peer) = Some i \<and> state i = WS_CC"
    using nil_reset_clears_all_worlds [OF sampleD(1) [OF a] ex_sender(2) p] by blast
  have "7 \<in> dom (worlds a')" using a'(2) sampleD(3) [OF a] by simp
  then obtain w where "worlds a' 7 = Some w" by blast
  with a' sampleD(1) [OF a] show ?thesis by (metis ex_sender(3))
qed

lemma PeerClose_all:
  assumes r: "and_runs h cs a" and p: "and_peers a (IDHash p) = Some p"
    and ord: "range_order ord (worlds a)"
  shows "wp (AND_PeerClose ord p) (\<lambda>_ a'. and_peers a' = (and_peers a)(IDHash p := None) \<and>
     (\<forall>L w. worlds a' L = Some w \<longrightarrow> peers w (IDHash p) = None)) a"
proof -
  let ?C = "and_peers a" and ?P = "\<lambda>w. peers w (IDHash p) = None"
  have op: "wp (ANDWorld_RemovePeer p)
      (\<lambda>_ s'. (wgood (?C(IDHash p := None)) s' \<and> wtrans (\<lambda>_. {}) (IDHash p) s s') \<and> ?P (cw s')) s"
    if g: "wgood ?C s" for s
  proof -
    obtain j where j: "peers (cw s) (IDHash p) = Some j" "Peer j = Some p" "\<not> dc (state j)"
      using g p by (rule wgood_cell)
    have "wp (ANDWorld_RemovePeer p) (\<lambda>_ s'. ?P (cw s')) s"
      using j by (cases "state j") (auto simp: ANDWorld_RemovePeer_def handler_simps)
    with RemovePeer_moves [OF g p] show ?thesis by (simp add: wpx_conj)
  qed
  have "wp (go_for ord (\<lambda>L'. go_block [stat_B 3, in_world L' (ANDWorld_RemovePeer p)]))
      (\<lambda>_ a'. (and_peers a')(IDHash p := None) = ?C(IDHash p := None) \<and> (\<forall>L w. worlds a' L = Some w \<longrightarrow> ?P w)) (a\<lparr>stat := st\<rparr>)"
    if g: "and_good (accepted cs) (\<lambda>_. ?C) (a\<lparr>stat := st\<rparr>)" for st
    by (rule wpx_mono [OF worlds_loop_all [OF _ g _ op]]) (use ord in auto)
  then show ?thesis
    by (simp only: AND_PeerClose_def wpx_bind wpx_block wpx_ret_fun)
       (rule wp_stat_B_good [OF run_good [OF r]],
        simp_all add: wpx_modify wpx_modify_fun del: go_block.simps One_nat_def)
qed

text \<open>When a connection is closed the peer is forgotten everywhere: it leaves the table of
  connections and no world keeps a cell for it.\<close>

lemma closed_peer_forgotten:
  assumes "and_runs h cs a" and "and_peers a (IDHash p) = Some p" and "range_order ord (worlds a)"
  shows "\<exists>a'. and_exec (PeerClose ord p) a = Inr (0, a') \<and> and_peers a' (IDHash p) = None \<and>
     (\<forall>L w. worlds a' L = Some w \<longrightarrow> peers w (IDHash p) = None)"
proof -
  obtain r a' where r: "and_exec (PeerClose ord p) a = Inr (r, a')"
      "and_peers a' = (and_peers a)(IDHash p := None) \<and> (\<forall>L w. worlds a' L = Some w \<longrightarrow> peers w (IDHash p) = None)"
    using wp_returns [OF PeerClose_all [OF assms]] by auto
  moreover have "r = 0" using wpx_result [OF and_exec_zero r(1)] .
  ultimately show ?thesis by fastforce
qed

lemma closed_peer_forgotten_sample:
  "\<exists>a a'. and_runs ''me'' ex_calls a \<and> and_exec (PeerClose [7] ex_peer) a = Inr (0, a') \<and> and_peers a' ''p'' = None"
proof -
  obtain a where a: "sample ''me'' ex_calls [''p'' \<mapsto> ex_cell WS_MEM] (ex_opened @ [ex_request, ex_ready]) a"
    using sample_member by blast
  have p: "and_peers a (IDHash ex_peer) = Some ex_peer" "range_order [7] (worlds a)"
    using sampleD(2,3) [OF a] by (simp_all add: ex_peer_def range_order_def)
  obtain a' where "and_exec (PeerClose [7] ex_peer) a = Inr (0, a')" "and_peers a' (IDHash ex_peer) = None"
    using closed_peer_forgotten [OF sampleD(1) [OF a] p] by blast
  with sampleD(1) [OF a] show ?thesis by (auto simp: ex_peer_def)
qed

section \<open>A message that crashes its receiver\<close>

definition ex_introduced :: ANDFullPeerSessionIdentity where
  "ex_introduced = \<lparr>full_AURL = \<lparr>Scheme = ''abyss'', Hash = ''q'', Addresses = [], Path = ''/''\<rparr>,
     full_SessionID = 11, full_TimeStamp = 6, full_RootCertificateDer = [],
     full_HandshakeKeyCertificateDer = []\<rparr>"

definition ex_named :: ANDPeerSessionIdentity where
  "ex_named = \<lparr>PeerHash = ''q'', SessionID = 11\<rparr>"

definition ex_introduction :: "NeighborEvent list" where
  "ex_introduction = [(NeighborEvent_of ANDPeerRegister)\<lparr>Object := AnyPeerCertificates
      \<lparr>RootCertDer = [], HandshakeKeyCertDer = []\<rparr>\<rparr>,
    (NeighborEvent_of ANDConnectRequest)\<lparr>Object := AnyAURL (full_AURL ex_introduced)\<rparr>]"

lemma sample_introduced:
  "\<exists>a. sample ''me'' (ex_calls @ [JNI 7 ex_session ex_introduced])
     [''p'' \<mapsto> ex_cell WS_MEM, ''q'' \<mapsto> NewANDPeerSessionState None 11 6 WS_DC_JNI]
     (ex_opened @ [ex_request, ex_ready] @ ex_introduction) a"
proof -
  obtain a where a: "sample ''me'' ex_calls [''p'' \<mapsto> ex_cell WS_MEM] (ex_opened @ [ex_request, ex_ready]) a"
    using sample_member by blast
  show ?thesis
    using sample_step [OF a, of "JNI 7 ex_session ex_introduced"
        "[''p'' \<mapsto> ex_cell WS_MEM, ''q'' \<mapsto> NewANDPeerSessionState None 11 6 WS_DC_JNI]"
        "ex_opened @ [ex_request, ex_ready] @ ex_introduction"] sampleD [OF a]
    by (simp add: AND_JNI_def ANDWorld_JNI_def ANDWorld_JNI_MEMS_def ex_introduced_def ex_introduction_def
        sample_simps)
qed

text \<open>C20: a connected member can crash the receiver: in a state that the object reaches, a \<open>CRR\<close> message
  that names a peer which was introduced but is not connected yet dereferences the nil peer of its
  cell.\<close>

theorem crr_naming_unconnected_peer_panics:
  "\<exists>cs a. and_runs ''me'' cs a \<and> sender_ok ex_session a \<and> and_exec (CRR 7 ex_session [ex_named]) a = Inl NilDeref"
proof -
  obtain a where a: "sample ''me'' (ex_calls @ [JNI 7 ex_session ex_introduced])
     [''p'' \<mapsto> ex_cell WS_MEM, ''q'' \<mapsto> NewANDPeerSessionState None 11 6 WS_DC_JNI]
     (ex_opened @ [ex_request, ex_ready] @ ex_introduction) a"
    using sample_introduced by blast
  note d = sampleD [OF a]
  have "sender_ok ex_session a" using d by (simp add: sender_ok_def ex_session_def ex_peer_def)
  moreover have "and_exec (CRR 7 ex_session [ex_named]) a = Inl NilDeref"
    using d
    by (simp add: AND_CRR_def at_world_def go_bind_def go_read_def stat_B_def go_zoom_def ANDStatistics_B_def
        in_world_def ctx_of_def ANDWorld_CRR_def stat_inc_def go_modify_def IDHash_of_def go_nonnil_def go_ret_def
        IsProperMemberOrReset_def info_at_def lookup_info_def ex_session_def ex_world_def ex_cell_def ex_peer_def
        stat_W_def ANDStatistics_W_def ANDWorld_CRR_MEMS_def the_world_def ex_named_def send_to_def go_panic_def
        NewANDPeerSessionState_def Let_def)
  ultimately show ?thesis using d(1) by blast
qed

end
