(* ===== verification/Ahmp.thy ===== *)
theory Ahmp
  imports Functional Interfaces
begin

text \<open>
  The messages of the Abyss handshake and membership protocol: their raw form on the wire
  (\<open>ahmp/raw_message.go\<close>), their parsed form (\<open>ahmp/message.go\<close>) and the parsers
  \<open>RawX.TryParse\<close>. The parser of UUIDs is code of another package: every parser takes it as its
  first argument \<open>parse\<close>. A slice of raw entries is parsed with the helpers of
  \<open>tools/functional\<close>. The lemmas \<open>..._parsed\<close> characterise success: a message is parsed exactly
  when all of its identifiers (and URLs) are, and then nothing of it is lost.
\<close>

section \<open>Sequences of fallible calls\<close>

text \<open>\<open>v, err := f(); if err != nil { return nil, err }\<close>\<close>

definition go_try :: "('s, 'e + 'a) go \<Rightarrow> ('a \<Rightarrow> ('s, 'e + 'b) go) \<Rightarrow> ('s, 'e + 'b) go" where
  "go_try f g = go_bind f (\<lambda>r. case r of Inl e \<Rightarrow> go_ret (Inl e) | Inr a \<Rightarrow> g a)"

lemma go_try_ret [simp]:
  "go_try (go_ret (Inl e)) g = go_ret (Inl e)"
  "go_try (go_ret (Inr a)) g = g a"
  by (simp_all add: go_try_def)

type_synonym uuid_parser = "string \<Rightarrow> string + uuid"

section \<open>Raw and parsed messages\<close>

record RawSessionInfoForDiscovery =
  rd_AURL :: string
  rd_SessionID :: string
  rd_TimeStamp :: int
  rd_RootCertificateDer :: bytes
  rd_HandshakeKeyCertificateDer :: bytes

record RawSessionInfoForSJN =
  rs_PeerHash :: string
  rs_SessionID :: string

text \<open>The type code that precedes a message, in the order of the constants of the source.\<close>

fun type_code :: "ahmp_type \<Rightarrow> int" where
  "type_code JN_T = 0"
| "type_code JOK_T = 1"
| "type_code JDN_T = 2"
| "type_code JNI_T = 3"
| "type_code MEM_T = 4"
| "type_code SJN_T = 5"
| "type_code CRR_T = 6"
| "type_code RST_T = 7"
| "type_code SOA_T = 8"
| "type_code SOD_T = 9"

definition Msg_type_names :: "string list" where
  "Msg_type_names = [''JN'', ''JOK'', ''JDN'', ''JNI'', ''MEM'', ''SJN'', ''CRR'', ''RST'', ''SOA'', ''SOD'']"

record JN =
  JN_SenderSessionID :: uuid
  JN_Text :: string
  JN_TimeStamp :: time

record JOK =
  JOK_SenderSessionID :: uuid
  JOK_RecverSessionID :: uuid
  JOK_TimeStamp :: time
  JOK_Neighbors :: "ANDFullPeerSessionIdentity list"
  JOK_Text :: string

record JDN =
  JDN_RecverSessionID :: uuid
  JDN_Text :: string
  JDN_Code :: int

record JNI =
  JNI_SenderSessionID :: uuid
  JNI_RecverSessionID :: uuid
  JNI_Neighbor :: ANDFullPeerSessionIdentity

record MEM =
  MEM_SenderSessionID :: uuid
  MEM_RecverSessionID :: uuid
  MEM_TimeStamp :: time

record SJN =
  SJN_SenderSessionID :: uuid
  SJN_RecverSessionID :: uuid
  SJN_MemberInfos :: "ANDPeerSessionIdentity list"

record CRR =
  CRR_SenderSessionID :: uuid
  CRR_RecverSessionID :: uuid
  CRR_MemberInfos :: "ANDPeerSessionIdentity list"

record RST =
  RST_SenderSessionID :: uuid
  RST_RecverSessionID :: uuid
  RST_Message :: string

record SOA =
  SOA_SenderSessionID :: uuid
  SOA_RecverSessionID :: uuid
  SOA_Objects :: "ObjectInfo list"

record SOD =
  SOD_SenderSessionID :: uuid
  SOD_RecverSessionID :: uuid
  SOD_ObjectIDs :: "uuid list"

record INVAL =
  INVAL_Err :: string

section \<open>The parsers\<close>

record RawJN =
  RawJN_SenderSessionID :: string
  RawJN_Text :: string
  RawJN_TimeStamp :: int

definition RawJN_TryParse :: "uuid_parser \<Rightarrow> RawJN \<Rightarrow> ('s, string + JN) go" where
  "RawJN_TryParse parse r =
     go_try (go_ret (parse (RawJN_SenderSessionID r))) (\<lambda>ssid.
     go_ret (Inr \<lparr>JN_SenderSessionID = ssid, JN_Text = RawJN_Text r,
       JN_TimeStamp = UnixMilli (RawJN_TimeStamp r)\<rparr>))"

record RawJOK =
  RawJOK_SenderSessionID :: string
  RawJOK_RecverSessionID :: string
  RawJOK_TimeStamp :: int
  RawJOK_Text :: string
  RawJOK_Neighbors :: "RawSessionInfoForDiscovery list"

text \<open>The callback of \<open>RawJOK.TryParse\<close>; the zero value fills the slice before the results are
  assigned.\<close>

definition zero_identity :: ANDFullPeerSessionIdentity where
  "zero_identity = \<lparr>full_AURL = \<lparr>Scheme = [], Hash = [], Addresses = [], Path = []\<rparr>,
     full_SessionID = uuid_Nil, full_TimeStamp = zero_time, full_RootCertificateDer = [],
     full_HandshakeKeyCertificateDer = []\<rparr>"

definition parse_neighbor ::
    "uuid_parser \<Rightarrow> RawSessionInfoForDiscovery \<Rightarrow> ('s, ANDFullPeerSessionIdentity option) go" where
  "parse_neighbor parse i = go_bind (TryParse (rd_AURL i)) (\<lambda>u. case u of
     Inl err \<Rightarrow> go_ret None
   | Inr abyss_url \<Rightarrow> (case parse (rd_SessionID i) of
       Inl err \<Rightarrow> go_ret None
     | Inr psid \<Rightarrow> go_ret (Some
         \<lparr>full_AURL = abyss_url, full_SessionID = psid, full_TimeStamp = UnixMilli (rd_TimeStamp i),
          full_RootCertificateDer = rd_RootCertificateDer i,
          full_HandshakeKeyCertificateDer = rd_HandshakeKeyCertificateDer i\<rparr>)))"

definition RawJOK_TryParse :: "uuid_parser \<Rightarrow> RawJOK \<Rightarrow> ('s, string + JOK) go" where
  "RawJOK_TryParse parse r =
     go_try (go_ret (parse (RawJOK_SenderSessionID r))) (\<lambda>ssid.
     go_try (go_ret (parse (RawJOK_RecverSessionID r))) (\<lambda>rsid.
     go_bind (Filter_strict_ok zero_identity (RawJOK_Neighbors r) (parse_neighbor parse)) (\<lambda>neig.
     case neig of
       None \<Rightarrow> go_ret (Inl ''failed to parse session information'')
     | Some neig \<Rightarrow> go_ret (Inr \<lparr>JOK_SenderSessionID = ssid, JOK_RecverSessionID = rsid,
         JOK_TimeStamp = UnixMilli (RawJOK_TimeStamp r), JOK_Neighbors = neig,
         JOK_Text = RawJOK_Text r\<rparr>))))"

record RawJDN =
  RawJDN_RecverSessionID :: string
  RawJDN_Code :: int
  RawJDN_Text :: string

definition RawJDN_TryParse :: "uuid_parser \<Rightarrow> RawJDN \<Rightarrow> ('s, string + JDN) go" where
  "RawJDN_TryParse parse r =
     go_try (go_ret (parse (RawJDN_RecverSessionID r))) (\<lambda>rsid.
     go_ret (Inr \<lparr>JDN_RecverSessionID = rsid, JDN_Text = RawJDN_Text r, JDN_Code = RawJDN_Code r\<rparr>))"

record RawJNI =
  RawJNI_SenderSessionID :: string
  RawJNI_RecverSessionID :: string
  RawJNI_Neighbor :: RawSessionInfoForDiscovery

definition RawJNI_TryParse :: "uuid_parser \<Rightarrow> RawJNI \<Rightarrow> ('s, string + JNI) go" where
  "RawJNI_TryParse parse r =
     go_try (go_ret (parse (RawJNI_SenderSessionID r))) (\<lambda>ssid.
     go_try (go_ret (parse (RawJNI_RecverSessionID r))) (\<lambda>rsid.
     go_try (TryParse (rd_AURL (RawJNI_Neighbor r))) (\<lambda>abyss_url.
     go_try (go_ret (parse (rd_SessionID (RawJNI_Neighbor r)))) (\<lambda>psid.
     go_ret (Inr \<lparr>JNI_SenderSessionID = ssid, JNI_RecverSessionID = rsid,
       JNI_Neighbor = \<lparr>full_AURL = abyss_url, full_SessionID = psid,
         full_TimeStamp = UnixMilli (rd_TimeStamp (RawJNI_Neighbor r)),
         full_RootCertificateDer = rd_RootCertificateDer (RawJNI_Neighbor r),
         full_HandshakeKeyCertificateDer = rd_HandshakeKeyCertificateDer (RawJNI_Neighbor r)\<rparr>\<rparr>)))))"

record RawMEM =
  RawMEM_SenderSessionID :: string
  RawMEM_RecverSessionID :: string
  RawMEM_TimeStamp :: int

definition RawMEM_TryParse :: "uuid_parser \<Rightarrow> RawMEM \<Rightarrow> ('s, string + MEM) go" where
  "RawMEM_TryParse parse r =
     go_try (go_ret (parse (RawMEM_SenderSessionID r))) (\<lambda>ssid.
     go_try (go_ret (parse (RawMEM_RecverSessionID r))) (\<lambda>rsid.
     go_ret (Inr \<lparr>MEM_SenderSessionID = ssid, MEM_RecverSessionID = rsid,
       MEM_TimeStamp = UnixMilli (RawMEM_TimeStamp r)\<rparr>)))"

record RawSJN =
  RawSJN_SenderSessionID :: string
  RawSJN_RecverSessionID :: string
  RawSJN_MemberInfos :: "RawSessionInfoForSJN list"

text \<open>The callback of the \<open>SJN\<close> and \<open>CRR\<close> parsers. With an error the value it returns beside the
  error is not used.\<close>

definition parse_member ::
    "uuid_parser \<Rightarrow> RawSessionInfoForSJN \<Rightarrow> ('s, string + ANDPeerSessionIdentity) go" where
  "parse_member parse info = go_ret (case parse (rs_SessionID info) of
     Inl err \<Rightarrow> Inl err
   | Inr i \<Rightarrow> Inr \<lparr>PeerHash = rs_PeerHash info, SessionID = i\<rparr>)"

definition RawSJN_TryParse :: "uuid_parser \<Rightarrow> RawSJN \<Rightarrow> ('s, string + SJN) go" where
  "RawSJN_TryParse parse r =
     go_try (go_ret (parse (RawSJN_SenderSessionID r))) (\<lambda>ssid.
     go_try (go_ret (parse (RawSJN_RecverSessionID r))) (\<lambda>rsid.
     go_bind (Filter_until_err (RawSJN_MemberInfos r) (parse_member parse)) (\<lambda>(infos, _, err).
     case err of
       Some e \<Rightarrow> go_ret (Inl e)
     | None \<Rightarrow> go_ret (Inr \<lparr>SJN_SenderSessionID = ssid, SJN_RecverSessionID = rsid,
         SJN_MemberInfos = infos\<rparr>))))"

record RawCRR =
  RawCRR_SenderSessionID :: string
  RawCRR_RecverSessionID :: string
  RawCRR_MemberInfos :: "RawSessionInfoForSJN list"

definition RawCRR_TryParse :: "uuid_parser \<Rightarrow> RawCRR \<Rightarrow> ('s, string + CRR) go" where
  "RawCRR_TryParse parse r =
     go_try (go_ret (parse (RawCRR_SenderSessionID r))) (\<lambda>ssid.
     go_try (go_ret (parse (RawCRR_RecverSessionID r))) (\<lambda>rsid.
     go_bind (Filter_until_err (RawCRR_MemberInfos r) (parse_member parse)) (\<lambda>(infos, _, err).
     case err of
       Some e \<Rightarrow> go_ret (Inl e)
     | None \<Rightarrow> go_ret (Inr \<lparr>CRR_SenderSessionID = ssid, CRR_RecverSessionID = rsid,
         CRR_MemberInfos = infos\<rparr>))))"

record RawRST =
  RawRST_SenderSessionID :: string
  RawRST_RecverSessionID :: string
  RawRST_Message :: string

definition RawRST_TryParse :: "uuid_parser \<Rightarrow> RawRST \<Rightarrow> ('s, string + RST) go" where
  "RawRST_TryParse parse r =
     go_try (go_ret (parse (RawRST_SenderSessionID r))) (\<lambda>ssid.
     go_try (go_ret (parse (RawRST_RecverSessionID r))) (\<lambda>rsid.
     go_ret (Inr \<lparr>RST_SenderSessionID = ssid, RST_RecverSessionID = rsid,
       RST_Message = RawRST_Message r\<rparr>)))"

record RawObjectInfo =
  ro_ID :: string
  ro_Address :: string
  ro_Transform :: "32 word list"

record RawSOA =
  RawSOA_SenderSessionID :: string
  RawSOA_RecverSessionID :: string
  RawSOA_Objects :: "RawObjectInfo list"

definition parse_object :: "uuid_parser \<Rightarrow> RawObjectInfo \<Rightarrow> ('s, string + ObjectInfo) go" where
  "parse_object parse ob = go_ret (case parse (ro_ID ob) of
     Inl err \<Rightarrow> Inl err
   | Inr oid \<Rightarrow> Inr \<lparr>ID = oid, Addr = ro_Address ob, Transform = ro_Transform ob\<rparr>)"

definition RawSOA_TryParse :: "uuid_parser \<Rightarrow> RawSOA \<Rightarrow> ('s, string + SOA) go" where
  "RawSOA_TryParse parse r =
     go_try (go_ret (parse (RawSOA_SenderSessionID r))) (\<lambda>ssid.
     go_try (go_ret (parse (RawSOA_RecverSessionID r))) (\<lambda>rsid.
     go_bind (Filter_until_err (RawSOA_Objects r) (parse_object parse)) (\<lambda>(objects, _, err).
     case err of
       Some e \<Rightarrow> go_ret (Inl e)
     | None \<Rightarrow> go_ret (Inr \<lparr>SOA_SenderSessionID = ssid, SOA_RecverSessionID = rsid,
         SOA_Objects = objects\<rparr>))))"

record RawSOD =
  RawSOD_SenderSessionID :: string
  RawSOD_RecverSessionID :: string
  RawSOD_ObjectIDs :: "string list"

definition RawSOD_TryParse :: "uuid_parser \<Rightarrow> RawSOD \<Rightarrow> ('s, string + SOD) go" where
  "RawSOD_TryParse parse r =
     go_try (go_ret (parse (RawSOD_SenderSessionID r))) (\<lambda>ssid.
     go_try (go_ret (parse (RawSOD_RecverSessionID r))) (\<lambda>rsid.
     go_bind (Filter_until_err (RawSOD_ObjectIDs r) (\<lambda>oid. go_ret (parse oid))) (\<lambda>(oids, _, err).
     case err of
       Some e \<Rightarrow> go_ret (Inl e)
     | None \<Rightarrow> go_ret (Inr \<lparr>SOD_SenderSessionID = ssid, SOD_RecverSessionID = rsid,
         SOD_ObjectIDs = oids\<rparr>))))"


section \<open>The parsers without effects\<close>

text \<open>Parsing an entry of a neighbor list, and the parsers of the messages with lists, in terms of
  the pure list functions: all entries, or an error.\<close>

definition neighbor_ref :: "uuid_parser \<Rightarrow> RawSessionInfoForDiscovery \<Rightarrow> ANDFullPeerSessionIdentity option" where
  "neighbor_ref parse i = (case (aurl_ref (rd_AURL i), parse (rd_SessionID i)) of
     (Inr abyss_url, Inr psid) \<Rightarrow> Some
       \<lparr>full_AURL = abyss_url, full_SessionID = psid, full_TimeStamp = UnixMilli (rd_TimeStamp i),
        full_RootCertificateDer = rd_RootCertificateDer i,
        full_HandshakeKeyCertificateDer = rd_HandshakeKeyCertificateDer i\<rparr>
   | _ \<Rightarrow> None)"

lemma parse_neighbor_ref: "parse_neighbor parse = (\<lambda>i. go_ret (neighbor_ref parse i))"
  by (auto simp: fun_eq_iff parse_neighbor_def neighbor_ref_def TryParse_ref split: sum.splits)

definition member_ref :: "uuid_parser \<Rightarrow> RawSessionInfoForSJN \<Rightarrow> string + ANDPeerSessionIdentity" where
  "member_ref parse info = (case parse (rs_SessionID info) of
     Inl err \<Rightarrow> Inl err | Inr i \<Rightarrow> Inr \<lparr>PeerHash = rs_PeerHash info, SessionID = i\<rparr>)"

definition object_ref :: "uuid_parser \<Rightarrow> RawObjectInfo \<Rightarrow> string + ObjectInfo" where
  "object_ref parse ob = (case parse (ro_ID ob) of
     Inl err \<Rightarrow> Inl err | Inr oid \<Rightarrow> Inr \<lparr>ID = oid, Addr = ro_Address ob, Transform = ro_Transform ob\<rparr>)"

lemma parse_member_ref: "parse_member parse = (\<lambda>i. go_ret (member_ref parse i))"
  by (simp add: fun_eq_iff parse_member_def member_ref_def)

lemma parse_object_ref: "parse_object parse = (\<lambda>ob. go_ret (object_ref parse ob))"
  by (simp add: fun_eq_iff parse_object_def object_ref_def)

text \<open>A list of entries, all of them parsed, or the first error.\<close>

definition all_ok :: "('t \<Rightarrow> 'e + 'q) \<Rightarrow> 't list \<Rightarrow> 'e + 'q list" where
  "all_ok f xs = (case until_err f xs of (vs, _, Some e) \<Rightarrow> Inl e | (vs, _, None) \<Rightarrow> Inr vs)"

lemma all_ok_Inr: "all_ok f xs = Inr vs \<longleftrightarrow> map f xs = map Inr vs"
proof
  assume ok: "all_ok f xs = Inr vs"
  obtain us rest err where u: "until_err f xs = (us, rest, err)" by (cases "until_err f xs")
  then have "err = None" "us = vs" using ok by (auto simp: all_ok_def split: option.splits)
  then show "map f xs = map Inr vs" using until_err_split [OF u] by auto
next
  assume "map f xs = map Inr vs"
  then show "all_ok f xs = Inr vs" by (simp add: all_ok_def until_err_all)
qed

lemma RawJOK_ref: "RawJOK_TryParse parse r =
    go_try (go_ret (parse (RawJOK_SenderSessionID r))) (\<lambda>ssid.
    go_try (go_ret (parse (RawJOK_RecverSessionID r))) (\<lambda>rsid.
    go_try (go_ret (case all_some (map (neighbor_ref parse) (RawJOK_Neighbors r)) of
        None \<Rightarrow> Inl ''failed to parse session information'' | Some neig \<Rightarrow> Inr neig)) (\<lambda>neig.
    go_ret (Inr \<lparr>JOK_SenderSessionID = ssid, JOK_RecverSessionID = rsid,
      JOK_TimeStamp = UnixMilli (RawJOK_TimeStamp r), JOK_Neighbors = neig, JOK_Text = RawJOK_Text r\<rparr>))))"
  by (auto simp: RawJOK_TryParse_def parse_neighbor_ref go_try_def split: sum.splits option.splits)

lemma RawJNI_ref: "RawJNI_TryParse parse r =
    go_try (go_ret (parse (RawJNI_SenderSessionID r))) (\<lambda>ssid.
    go_try (go_ret (parse (RawJNI_RecverSessionID r))) (\<lambda>rsid.
    go_try (go_ret (aurl_ref (rd_AURL (RawJNI_Neighbor r)))) (\<lambda>abyss_url.
    go_try (go_ret (parse (rd_SessionID (RawJNI_Neighbor r)))) (\<lambda>psid.
    go_ret (Inr \<lparr>JNI_SenderSessionID = ssid, JNI_RecverSessionID = rsid,
      JNI_Neighbor = \<lparr>full_AURL = abyss_url, full_SessionID = psid,
        full_TimeStamp = UnixMilli (rd_TimeStamp (RawJNI_Neighbor r)),
        full_RootCertificateDer = rd_RootCertificateDer (RawJNI_Neighbor r),
        full_HandshakeKeyCertificateDer = rd_HandshakeKeyCertificateDer (RawJNI_Neighbor r)\<rparr>\<rparr>)))))"
  by (simp add: RawJNI_TryParse_def TryParse_ref)

lemma go_bind_until:
  "go_bind (go_ret (until_err f xs)) (\<lambda>(vs, _, err). case err of Some e \<Rightarrow> go_ret (Inl e) | None \<Rightarrow> go_ret (Inr (g vs)))
    = go_try (go_ret (all_ok f xs)) (\<lambda>vs. go_ret (Inr (g vs)))"
  by (auto simp: all_ok_def split: prod.splits option.splits)

lemma RawSJN_ref: "RawSJN_TryParse parse r =
    go_try (go_ret (parse (RawSJN_SenderSessionID r))) (\<lambda>ssid.
    go_try (go_ret (parse (RawSJN_RecverSessionID r))) (\<lambda>rsid.
    go_try (go_ret (all_ok (member_ref parse) (RawSJN_MemberInfos r))) (\<lambda>infos.
    go_ret (Inr \<lparr>SJN_SenderSessionID = ssid, SJN_RecverSessionID = rsid, SJN_MemberInfos = infos\<rparr>))))"
  by (simp only: RawSJN_TryParse_def parse_member_ref Filter_until_err_pure go_bind_until)

lemma RawCRR_ref: "RawCRR_TryParse parse r =
    go_try (go_ret (parse (RawCRR_SenderSessionID r))) (\<lambda>ssid.
    go_try (go_ret (parse (RawCRR_RecverSessionID r))) (\<lambda>rsid.
    go_try (go_ret (all_ok (member_ref parse) (RawCRR_MemberInfos r))) (\<lambda>infos.
    go_ret (Inr \<lparr>CRR_SenderSessionID = ssid, CRR_RecverSessionID = rsid, CRR_MemberInfos = infos\<rparr>))))"
  by (simp only: RawCRR_TryParse_def parse_member_ref Filter_until_err_pure go_bind_until)

lemma RawSOA_ref: "RawSOA_TryParse parse r =
    go_try (go_ret (parse (RawSOA_SenderSessionID r))) (\<lambda>ssid.
    go_try (go_ret (parse (RawSOA_RecverSessionID r))) (\<lambda>rsid.
    go_try (go_ret (all_ok (object_ref parse) (RawSOA_Objects r))) (\<lambda>objects.
    go_ret (Inr \<lparr>SOA_SenderSessionID = ssid, SOA_RecverSessionID = rsid, SOA_Objects = objects\<rparr>))))"
  by (simp only: RawSOA_TryParse_def parse_object_ref Filter_until_err_pure go_bind_until)

lemma RawSOD_ref: "RawSOD_TryParse parse r =
    go_try (go_ret (parse (RawSOD_SenderSessionID r))) (\<lambda>ssid.
    go_try (go_ret (parse (RawSOD_RecverSessionID r))) (\<lambda>rsid.
    go_try (go_ret (all_ok parse (RawSOD_ObjectIDs r))) (\<lambda>oids.
    go_ret (Inr \<lparr>SOD_SenderSessionID = ssid, SOD_RecverSessionID = rsid, SOD_ObjectIDs = oids\<rparr>))))"
  by (simp only: RawSOD_TryParse_def Filter_until_err_pure go_bind_until)

end
