(* ===== verification/Identity.thy ===== *)
theory Identity
  imports Ahmp
begin

text \<open>
  Identities of peers, \<open>net_service/cert_helper.go\<close>: the key material of the local host, its TLS
  identity, and what is known of a remote peer. Cryptography is a parameter: the record \<open>crypto\<close>
  holds the primitives that the code calls (X.509, SHA-3, Base58, RSA-OAEP, AES-GCM, PEM), and
  \<open>crypto_ok\<close> their documented behaviour. Random values (serial numbers, fresh keys, nonces) are
  arguments of the operations that draw them.
\<close>

section \<open>Keys and certificates\<close>

datatype PublicKey = Ed25519 bytes | RSA bytes | OtherKey bytes

type_synonym PrivateKey = bytes

text \<open>The fields of an \<open>x509.Certificate\<close> that the code sets or reads; a template has no public key.\<close>

record Certificate =
  Issuer :: string
  Subject :: string
  cert_PublicKey :: "PublicKey option"
  SerialNumber :: int
  NotBefore :: time
  NotAfter :: time
  IsCA :: bool

record crypto =
  Public :: "PrivateKey \<Rightarrow> PublicKey"
  CreateCertificate :: "Certificate \<Rightarrow> Certificate \<Rightarrow> PublicKey \<Rightarrow> PrivateKey \<Rightarrow> string + bytes"
  ParseCertificate :: "bytes \<Rightarrow> string + Certificate"
  CheckSignatureFrom :: "Certificate \<Rightarrow> Certificate \<Rightarrow> string option"
  MarshalPKIXPublicKey :: "PublicKey \<Rightarrow> string + bytes"
  Sum512 :: "bytes \<Rightarrow> bytes"
  base58_Encode :: "bytes \<Rightarrow> string"
  key_Size :: "PrivateKey \<Rightarrow> nat"
  EncryptOAEP :: "PublicKey \<Rightarrow> bytes \<Rightarrow> string + bytes"
  DecryptOAEP :: "PrivateKey \<Rightarrow> bytes \<Rightarrow> string + bytes"
  GCM_Seal :: "bytes \<Rightarrow> bytes \<Rightarrow> bytes \<Rightarrow> bytes"
  GCM_Open :: "bytes \<Rightarrow> bytes \<Rightarrow> bytes \<Rightarrow> string + bytes"
  pem_Encode :: "bytes \<Rightarrow> string + string"
  pem_Decode :: "string \<Rightarrow> bytes option"

section \<open>The local identity\<close>

record RootSecrets =
  root_priv_key :: PrivateKey
  rs_root_self_cert_x509 :: Certificate
  root_self_cert :: string
  rs_root_id_hash :: hash
  handshake_priv_key :: PrivateKey
  handshake_key_cert :: string

text \<open>A certificate with a key of an unknown kind has the nil key, for which the encoding of keys
  returns an error.\<close>

definition AbyssIdFromKey :: "crypto \<Rightarrow> PublicKey option \<Rightarrow> ('s, string + hash) go" where
  "AbyssIdFromKey cr pub = (case (case pub of
       None \<Rightarrow> Inl ''x509: unsupported public key type: <nil>''
     | Some k \<Rightarrow> MarshalPKIXPublicKey cr k) of
     Inl err \<Rightarrow> go_ret (Inl (''unable to marshal public key to DER: '' @ err))
   | Inr derBytes \<Rightarrow> go_ret (Inr (''I'' @ base58_Encode cr (Sum512 cr derBytes))))"

definition handshake_subject :: "hash \<Rightarrow> string" where
  "handshake_subject peer_hash = ''H-'' @ peer_hash @ ''-OAEP-SHA3-256-AES-256-GCM''"

text \<open>What \<open>NewRootIdentity\<close> draws: two serial numbers and an RSA key, each of which may fail, and
  the current time.\<close>

record root_random =
  rr_serial1 :: "string + int"
  rr_rsa :: "string + PrivateKey"
  rr_serial2 :: "string + int"
  rr_now :: time

definition root_template :: "hash \<Rightarrow> int \<Rightarrow> time \<Rightarrow> Certificate" where
  "root_template peer_hash serial now = \<lparr>Issuer = peer_hash, Subject = peer_hash, cert_PublicKey = None,
     SerialNumber = serial, NotBefore = now - 1000000000, NotAfter = zero_time, IsCA = True\<rparr>"

definition handshake_template :: "hash \<Rightarrow> int \<Rightarrow> time \<Rightarrow> Certificate" where
  "handshake_template peer_hash serial now = \<lparr>Issuer = peer_hash, Subject = handshake_subject peer_hash,
     cert_PublicKey = None, SerialNumber = serial, NotBefore = now - 1000000000, NotAfter = zero_time,
     IsCA = False\<rparr>"

definition NewRootIdentity ::
    "crypto \<Rightarrow> root_random \<Rightarrow> PrivateKey \<Rightarrow> ('s, string + RootSecrets) go" where
  "NewRootIdentity cr rnd root_private_key =
     (let root_public_key = Public cr root_private_key in
      go_try (go_ret (rr_serial1 rnd)) (\<lambda>serialNumber.
      go_try (AbyssIdFromKey cr (Some root_public_key)) (\<lambda>peer_hash.
      let r_template = root_template peer_hash serialNumber (rr_now rnd) in
      go_try (go_ret (CreateCertificate cr r_template r_template root_public_key root_private_key)) (\<lambda>r_derBytes.
      go_try (go_ret (ParseCertificate cr r_derBytes)) (\<lambda>r_x509.
      go_try (go_ret (rr_rsa rnd)) (\<lambda>handshake_private_key.
      go_try (go_ret (rr_serial2 rnd)) (\<lambda>serialNumber.
      let h_template = handshake_template peer_hash serialNumber (rr_now rnd) in
      go_try (go_ret (CreateCertificate cr h_template r_template (Public cr handshake_private_key) root_private_key))
        (\<lambda>h_derBytes.
      go_try (go_ret (pem_Encode cr r_derBytes)) (\<lambda>root_cert_buf.
      go_try (go_ret (pem_Encode cr h_derBytes)) (\<lambda>handshake_cert_buf.
      go_ret (Inr \<lparr>root_priv_key = root_private_key, rs_root_self_cert_x509 = r_x509,
        root_self_cert = root_cert_buf, rs_root_id_hash = peer_hash,
        handshake_priv_key = handshake_private_key, handshake_key_cert = handshake_cert_buf\<rparr>)))))))))))"

text \<open>\<open>aes.NewCipher\<close> refuses keys that are not 16, 24 or 32 bytes long; opening a GCM message with a
  nonce that is not 12 bytes long panics.\<close>

definition NewCipher :: "bytes \<Rightarrow> string + bytes" where
  "NewCipher key = (if length key \<in> {16, 24, 32} then Inr key else Inl ''crypto/aes: invalid key size'')"

definition gcm_open :: "crypto \<Rightarrow> bytes \<Rightarrow> bytes \<Rightarrow> bytes \<Rightarrow> ('s, string + bytes) go" where
  "gcm_open cr key nonce body = (if length nonce \<noteq> 12
     then go_panic (Panic ''crypto/cipher: incorrect nonce length given to GCM'')
     else go_ret (GCM_Open cr key nonce body))"

text \<open>Go slices up to the capacity. The body is a byte string that the CBOR decoder has allocated for it, and
  the decrypted block a slice to the end of its array, so for both the capacity is the length.\<close>

definition DecryptHandshake :: "crypto \<Rightarrow> RootSecrets \<Rightarrow> bytes \<Rightarrow> ('s, string + bytes) go" where
  "DecryptHandshake cr r body =
     (let key_block_size = int (key_Size cr (handshake_priv_key r)) in
      go_bind (go_slice 0 key_block_size body) (\<lambda>head.
      go_try (go_ret (DecryptOAEP cr (handshake_priv_key r) head)) (\<lambda>aes_key_nonce.
      go_bind (go_slice 0 32 aes_key_nonce) (\<lambda>key.
      go_try (go_ret (NewCipher key)) (\<lambda>block.
      go_bind (go_slice 32 (int (length aes_key_nonce)) aes_key_nonce) (\<lambda>nonce.
      go_bind (go_slice key_block_size (int (length body)) body) (\<lambda>rest.
      gcm_open cr block nonce rest)))))))"

section \<open>The TLS identity\<close>

record TLSIdentity =
  priv_key :: PrivateKey
  tls_self_cert :: bytes
  abyss_bind_cert :: bytes

record tls_random =
  tr_ed25519 :: "string + PrivateKey"
  tr_serial1 :: "string + int"
  tr_serial2 :: "string + int"
  tr_now :: time

definition tls_valid_for :: time where
  "tls_valid_for = 7 * 24 * 3600 * 1000000000"

definition NewTLSIdentity :: "crypto \<Rightarrow> tls_random \<Rightarrow> RootSecrets \<Rightarrow> ('s, string + TLSIdentity) go" where
  "NewTLSIdentity cr rnd r =
     go_try (go_ret (tr_ed25519 rnd)) (\<lambda>ed25519_private_key.
     let ed25519_public_key = Public cr ed25519_private_key in
     go_try (go_ret (tr_serial1 rnd)) (\<lambda>serialNumber.
     let self_template = \<lparr>Issuer = [], Subject = [], cert_PublicKey = None, SerialNumber = serialNumber,
       NotBefore = tr_now rnd - 1000000000, NotAfter = tr_now rnd + tls_valid_for, IsCA = True\<rparr> in
     go_try (go_ret (CreateCertificate cr self_template self_template ed25519_public_key ed25519_private_key))
       (\<lambda>self_derBytes.
     go_try (go_ret (tr_serial2 rnd)) (\<lambda>serialNumber.
     let auth_template = \<lparr>Issuer = rs_root_id_hash r, Subject = ''T-'' @ rs_root_id_hash r,
       cert_PublicKey = None, SerialNumber = serialNumber,
       NotBefore = tr_now rnd - 1000000000, NotAfter = tr_now rnd + tls_valid_for, IsCA = False\<rparr> in
     go_try (go_ret (CreateCertificate cr auth_template (rs_root_self_cert_x509 r) ed25519_public_key (root_priv_key r)))
       (\<lambda>auth_derBytes.
     go_ret (Inr \<lparr>priv_key = ed25519_private_key, tls_self_cert = self_derBytes,
       abyss_bind_cert = auth_derBytes\<rparr>))))))"

section \<open>The identity of a remote peer\<close>

record PeerIdentity =
  root_id_hash :: hash
  root_self_cert_x509 :: Certificate
  handshake_pub_key :: PublicKey
  root_self_cert_der :: bytes
  handshake_key_cert_der :: bytes

definition NewPeerIdentity :: "crypto \<Rightarrow> bytes \<Rightarrow> bytes \<Rightarrow> ('s, string + PeerIdentity) go" where
  "NewPeerIdentity cr root_cert hs_cert =
     go_try (go_ret (ParseCertificate cr root_cert)) (\<lambda>root_x509.
     go_try (go_ret (ParseCertificate cr hs_cert)) (\<lambda>hs_x509.
     if Issuer root_x509 \<noteq> Subject root_x509 then go_ret (Inl ''invalid root certificate'')
     else go_try (AbyssIdFromKey cr (cert_PublicKey root_x509)) (\<lambda>peer_hash.
       if peer_hash \<noteq> Issuer root_x509 then go_ret (Inl ''invalid root certificate'')
       else if Issuer hs_x509 \<noteq> Issuer root_x509 then go_ret (Inl ''issuer mismatch'')
       else if Subject hs_x509 \<noteq> handshake_subject (Issuer root_x509) then
         go_ret (Inl (''unsupported public key encryption scheme: '' @ Subject hs_x509))
       else (case CheckSignatureFrom cr hs_x509 root_x509 of
         Some err \<Rightarrow> go_ret (Inl err)
       | None \<Rightarrow> (case cert_PublicKey hs_x509 of
           Some (RSA k) \<Rightarrow> go_ret (Inr \<lparr>root_id_hash = peer_hash, root_self_cert_x509 = root_x509,
             handshake_pub_key = RSA k, root_self_cert_der = root_cert, handshake_key_cert_der = hs_cert\<rparr>)
         | _ \<Rightarrow> go_ret (Inl ''unsupported public key''))))))"

text \<open>The random key and nonce that \<open>EncryptHandshake\<close> draws.\<close>

definition EncryptHandshake ::
    "crypto \<Rightarrow> (string + bytes) \<Rightarrow> (string + bytes) \<Rightarrow> PeerIdentity \<Rightarrow> bytes \<Rightarrow> ('s, string + bytes) go" where
  "EncryptHandshake cr rkey rnonce p payload =
     go_try (go_ret rkey) (\<lambda>aesKey.
     go_try (go_ret rnonce) (\<lambda>nonce.
     go_try (go_ret (NewCipher aesKey)) (\<lambda>block.
     let encrypted_payload = GCM_Seal cr block nonce payload in
     go_try (go_ret (EncryptOAEP cr (handshake_pub_key p) (aesKey @ nonce))) (\<lambda>encrypted_key_nonce.
     go_ret (Inr (encrypted_key_nonce @ encrypted_payload))))))"

definition VerifyTLSBinding :: "crypto \<Rightarrow> PeerIdentity \<Rightarrow> Certificate \<Rightarrow> Certificate \<Rightarrow> ('s, string option) go" where
  "VerifyTLSBinding cr p bind_cert tls_cert = (case cert_PublicKey bind_cert of
     Some (Ed25519 k) \<Rightarrow>
       if cert_PublicKey tls_cert \<noteq> Some (Ed25519 k) then go_ret (Some ''tls public key mismatch'')
       else if Issuer bind_cert \<noteq> Issuer (root_self_cert_x509 p) then go_ret (Some ''issuer mismatch'')
       else if Subject bind_cert \<noteq> ''T-'' @ Issuer (root_self_cert_x509 p) then go_ret (Some ''subject mismatch'')
       else (case CheckSignatureFrom cr bind_cert (root_self_cert_x509 p) of
         Some err \<Rightarrow> go_ret (Some (''VerifyTLSBinding'' @ [CHR 0x0A] @ err))
       | None \<Rightarrow> go_ret None)
   | _ \<Rightarrow> go_panic (Panic ''interface conversion''))"

section \<open>What the cryptography promises\<close>

text \<open>The documented behaviour of the primitives. A created certificate parses to one with the
  subject of the template, the subject of the parent as issuer, and the given key, and is accepted
  under every authority certificate that holds the signing key. Decryption inverts encryption.\<close>

definition x509_ok :: "crypto \<Rightarrow> bool" where
  "x509_ok cr \<longleftrightarrow> (\<forall>t p pub priv der. CreateCertificate cr t p pub priv = Inr der \<longrightarrow>
     (\<exists>c. ParseCertificate cr der = Inr c \<and> Subject c = Subject t \<and> Issuer c = Subject p
       \<and> cert_PublicKey c = Some pub \<and> IsCA c = IsCA t
       \<and> (\<forall>P. IsCA P \<and> cert_PublicKey P = Some (Public cr priv) \<longrightarrow> CheckSignatureFrom cr c P = None)))"

definition pem_ok :: "crypto \<Rightarrow> bool" where
  "pem_ok cr \<longleftrightarrow> (\<forall>d s. pem_Encode cr d = Inr s \<longrightarrow> pem_Decode cr s = Some d)"

definition cipher_ok :: "crypto \<Rightarrow> bool" where
  "cipher_ok cr \<longleftrightarrow>
     (\<forall>priv m ct. EncryptOAEP cr (Public cr priv) m = Inr ct \<longrightarrow>
        length ct = key_Size cr priv \<and> DecryptOAEP cr priv ct = Inr m)
   \<and> (\<forall>k n m. GCM_Open cr k n (GCM_Seal cr k n m) = Inr m)"

lemma x509_okD:
  assumes "x509_ok cr" and "CreateCertificate cr t p pub priv = Inr der"
  obtains c where "ParseCertificate cr der = Inr c" "Subject c = Subject t" "Issuer c = Subject p"
    "cert_PublicKey c = Some pub" "IsCA c = IsCA t"
    "\<And>P. IsCA P \<Longrightarrow> cert_PublicKey P = Some (Public cr priv) \<Longrightarrow> CheckSignatureFrom cr c P = None"
  using assms unfolding x509_ok_def by blast

section \<open>Sequences of fallible calls, solved\<close>

lemma go_try_Inr: "go_try (go_ret x) g s = Inr (Inr r, s') \<longleftrightarrow> (\<exists>a. x = Inr a \<and> g a s = Inr (Inr r, s'))"
  by (cases x) (simp_all add: go_ret_def)

lemma go_ret_Inr: "go_ret a s = Inr (b, s') \<longleftrightarrow> b = a \<and> s' = s"
  by (auto simp: go_ret_def)

lemmas try_simps = go_try_Inr go_ret_Inr

lemma AbyssIdFromKey_Inr:
  "go_try (AbyssIdFromKey cr (Some pub)) g s = Inr (Inr r, s') \<longleftrightarrow>
    (\<exists>der. MarshalPKIXPublicKey cr pub = Inr der
       \<and> g (CHR ''I'' # base58_Encode cr (Sum512 cr der)) s = Inr (Inr r, s'))"
  by (auto simp: AbyssIdFromKey_def go_ret_def split: sum.splits)

lemma NewPeerIdentity_total: "\<exists>r. NewPeerIdentity cr root_cert hs_cert s = Inr (r, s)"
  by (auto simp: NewPeerIdentity_def AbyssIdFromKey_def go_try_def go_bind_def go_ret_def
      split: sum.split option.split PublicKey.split)

section \<open>The local identity is accepted by its peers\<close>

lemma NewRootIdentity_result:
  assumes "NewRootIdentity cr rnd k s = Inr (Inr r, s')"
  obtains der_k rder hder sn sn2 where
    "MarshalPKIXPublicKey cr (Public cr k) = Inr der_k"
    "rs_root_id_hash r = CHR ''I'' # base58_Encode cr (Sum512 cr der_k)"
    "CreateCertificate cr (root_template (rs_root_id_hash r) sn (rr_now rnd))
       (root_template (rs_root_id_hash r) sn (rr_now rnd)) (Public cr k) k = Inr rder"
    "ParseCertificate cr rder = Inr (rs_root_self_cert_x509 r)"
    "CreateCertificate cr (handshake_template (rs_root_id_hash r) sn2 (rr_now rnd))
       (root_template (rs_root_id_hash r) sn (rr_now rnd)) (Public cr (handshake_priv_key r)) k = Inr hder"
    "pem_Encode cr rder = Inr (root_self_cert r)" "pem_Encode cr hder = Inr (handshake_key_cert r)"
    "root_priv_key r = k" "s' = s"
  using assms by (auto simp: NewRootIdentity_def Let_def try_simps AbyssIdFromKey_Inr)

lemma root_identity_accepted:
  assumes "x509_ok cr" and "pem_ok cr" and "NewRootIdentity cr rnd k s = Inr (Inr r, s')"
    and "Public cr (handshake_priv_key r) = RSA m"
  obtains rc hc p where "pem_Decode cr (root_self_cert r) = Some rc" "pem_Decode cr (handshake_key_cert r) = Some hc"
    "NewPeerIdentity cr rc hc s = Inr (Inr p, s)" "root_id_hash p = rs_root_id_hash r"
    "root_self_cert_x509 p = rs_root_self_cert_x509 r" "handshake_pub_key p = Public cr (handshake_priv_key r)"
    "Issuer (rs_root_self_cert_x509 r) = rs_root_id_hash r" "Subject (rs_root_self_cert_x509 r) = rs_root_id_hash r"
    "cert_PublicKey (rs_root_self_cert_x509 r) = Some (Public cr (root_priv_key r))" "IsCA (rs_root_self_cert_x509 r)"
proof -
  obtain der_k rder hder sn sn2 where
    id: "MarshalPKIXPublicKey cr (Public cr k) = Inr der_k"
      "rs_root_id_hash r = CHR ''I'' # base58_Encode cr (Sum512 cr der_k)"
    and root: "CreateCertificate cr (root_template (rs_root_id_hash r) sn (rr_now rnd))
       (root_template (rs_root_id_hash r) sn (rr_now rnd)) (Public cr k) k = Inr rder"
      "ParseCertificate cr rder = Inr (rs_root_self_cert_x509 r)"
    and hs: "CreateCertificate cr (handshake_template (rs_root_id_hash r) sn2 (rr_now rnd))
       (root_template (rs_root_id_hash r) sn (rr_now rnd)) (Public cr (handshake_priv_key r)) k = Inr hder"
    and pem: "pem_Encode cr rder = Inr (root_self_cert r)" "pem_Encode cr hder = Inr (handshake_key_cert r)"
    and k: "root_priv_key r = k"
    using NewRootIdentity_result [OF assms(3)] by metis
  have x: "Issuer (rs_root_self_cert_x509 r) = rs_root_id_hash r" "Subject (rs_root_self_cert_x509 r) = rs_root_id_hash r"
    "cert_PublicKey (rs_root_self_cert_x509 r) = Some (Public cr k)" "IsCA (rs_root_self_cert_x509 r)"
    using x509_okD [OF assms(1) root(1)] root(2) by (auto simp: root_template_def)
  obtain c where c: "ParseCertificate cr hder = Inr c" "Subject c = handshake_subject (rs_root_id_hash r)"
    "Issuer c = rs_root_id_hash r" "cert_PublicKey c = Some (Public cr (handshake_priv_key r))"
    "CheckSignatureFrom cr c (rs_root_self_cert_x509 r) = None"
    using x509_okD [OF assms(1) hs] x by (auto simp: handshake_template_def root_template_def)
  have "NewPeerIdentity cr rder hder s = Inr (Inr \<lparr>root_id_hash = rs_root_id_hash r,
      root_self_cert_x509 = rs_root_self_cert_x509 r, handshake_pub_key = RSA m,
      root_self_cert_der = rder, handshake_key_cert_der = hder\<rparr>, s)"
    using root(2) c x id assms(4)
    by (simp add: NewPeerIdentity_def AbyssIdFromKey_def go_nonnil_def go_ret_def)
  moreover have "pem_Decode cr (root_self_cert r) = Some rder" "pem_Decode cr (handshake_key_cert r) = Some hder"
    using assms(2) pem by (auto simp: pem_ok_def)
  ultimately show ?thesis using that x k assms(4) by auto
qed

lemma tls_binding_accepted:
  assumes "x509_ok cr" and "NewTLSIdentity cr rnd r s = Inr (Inr t, s')"
    and "Public cr (priv_key t) = Ed25519 m"
    and "root_self_cert_x509 p = rs_root_self_cert_x509 r"
    and "Issuer (rs_root_self_cert_x509 r) = rs_root_id_hash r" and "Subject (rs_root_self_cert_x509 r) = rs_root_id_hash r"
    and "cert_PublicKey (rs_root_self_cert_x509 r) = Some (Public cr (root_priv_key r))"
    and "IsCA (rs_root_self_cert_x509 r)"
  obtains b c where "ParseCertificate cr (abyss_bind_cert t) = Inr b" "ParseCertificate cr (tls_self_cert t) = Inr c"
    "VerifyTLSBinding cr p b c s = Inr (None, s)"
proof -
  obtain st at where
    self: "CreateCertificate cr st st (Public cr (priv_key t)) (priv_key t) = Inr (tls_self_cert t)" and
    auth: "CreateCertificate cr at (rs_root_self_cert_x509 r) (Public cr (priv_key t)) (root_priv_key r)
      = Inr (abyss_bind_cert t)" "Subject at = ''T-'' @ rs_root_id_hash r"
    using assms(2) by (auto simp: NewTLSIdentity_def Let_def try_simps)
  obtain c where c: "ParseCertificate cr (tls_self_cert t) = Inr c" "cert_PublicKey c = Some (Ed25519 m)"
    using x509_okD [OF assms(1) self] assms(3) by metis
  obtain b where b: "ParseCertificate cr (abyss_bind_cert t) = Inr b" "cert_PublicKey b = Some (Ed25519 m)"
    "Subject b = ''T-'' @ rs_root_id_hash r" "Issuer b = rs_root_id_hash r"
    "CheckSignatureFrom cr b (rs_root_self_cert_x509 r) = None"
    using x509_okD [OF assms(1) auth(1)] auth(2) assms(3,6-8) by metis
  then have "VerifyTLSBinding cr p b c s = Inr (None, s)"
    using c assms(4,5) by (simp add: VerifyTLSBinding_def go_ret_def)
  then show ?thesis using that b(1) c(1) by blast
qed

section \<open>The handshake\<close>

lemma DecryptHandshake_Encrypt:
  assumes "cipher_ok cr" and "handshake_pub_key p = Public cr (handshake_priv_key r)"
    and "length key = 32" and "length nonce = 12"
    and "EncryptHandshake cr (Inr key) (Inr nonce) p payload s = Inr (Inr body, s')"
  shows "DecryptHandshake cr r body s = Inr (Inr payload, s)"
proof -
  obtain ct where ct: "EncryptOAEP cr (Public cr (handshake_priv_key r)) (key @ nonce) = Inr ct"
    and body: "body = ct @ GCM_Seal cr key nonce payload"
    using assms(2,3,5) by (auto simp: EncryptHandshake_def Let_def try_simps NewCipher_def)
  have len: "length ct = key_Size cr (handshake_priv_key r)"
    and dec: "DecryptOAEP cr (handshake_priv_key r) ct = Inr (key @ nonce)"
    using assms(1) ct by (auto simp: cipher_ok_def)
  then show ?thesis
    using assms(1,3,4)
    by (simp add: DecryptHandshake_def Let_def body go_slice_def NewCipher_def gcm_open_def cipher_ok_def go_ret_def)
qed

lemma DecryptHandshake_short:
  assumes "length body < key_Size cr (handshake_priv_key r)"
  shows "DecryptHandshake cr r body s = Inl SliceRange"
  using assms by (simp add: DecryptHandshake_def go_slice_def go_bind_def go_panic_def)

end
