(* ===== verification/Utf8.thy ===== *)
theory Utf8
  imports Aurl
begin

text \<open>
  Texts in UTF-8. The package \<open>cbor\<close> writes any string but refuses a text that is not valid UTF-8 when it
  reads; a \<open>string\<close> of Go is a sequence of bytes. What the program prints itself is ASCII.
\<close>

definition tail_byte :: "nat \<Rightarrow> bool" where
  "tail_byte b \<longleftrightarrow> 0x80 \<le> b \<and> b \<le> 0xBF"

text \<open>\<open>utf8.Valid\<close>: no overlong forms, no surrogates, nothing above U+10FFFF.\<close>

fun utf8_valid :: "nat list \<Rightarrow> bool" where
  "utf8_valid [] \<longleftrightarrow> True"
| "utf8_valid (b # bs) \<longleftrightarrow> (
     if b < 0x80 then utf8_valid bs
     else if b < 0xC2 \<or> 0xF4 < b then False
     else if b < 0xE0 then (case bs of
       c # r \<Rightarrow> tail_byte c \<and> utf8_valid r | _ \<Rightarrow> False)
     else if b < 0xF0 then (case bs of
       c # d # r \<Rightarrow> (if b = 0xE0 then 0xA0 else 0x80) \<le> c \<and> c \<le> (if b = 0xED then 0x9F else 0xBF)
         \<and> tail_byte d \<and> utf8_valid r | _ \<Rightarrow> False)
     else (case bs of
       c # d # e # r \<Rightarrow> (if b = 0xF0 then 0x90 else 0x80) \<le> c \<and> c \<le> (if b = 0xF4 then 0x8F else 0xBF)
         \<and> tail_byte d \<and> tail_byte e \<and> utf8_valid r | _ \<Rightarrow> False))"

definition text_ok :: "string \<Rightarrow> bool" where
  "text_ok s \<longleftrightarrow> utf8_valid (map byte_of s)"

definition ascii :: "string \<Rightarrow> bool" where
  "ascii s \<longleftrightarrow> list_all (\<lambda>c. byte_of c < 0x80) s"

lemma ascii_text_ok: "ascii s \<Longrightarrow> text_ok s"
  by (induction s) (simp_all add: ascii_def text_ok_def)

lemma ascii_append [simp]: "ascii (s @ t) \<longleftrightarrow> ascii s \<and> ascii t"
  by (simp add: ascii_def)

section \<open>What the program prints\<close>

lemma ascii_hex: "\<forall>c \<in> set s. is_hex c \<or> c \<in> {CHR ''.'', CHR '':'', CHR ''-''} \<Longrightarrow> ascii s"
  by (auto simp: ascii_def list_all_iff is_hex_def digit_val_def split: if_splits)

lemma digit_is_hex: "is_digit c \<Longrightarrow> is_hex c"
  by (auto simp: is_hex_def digit_val_def is_digit_def)

lemma ascii_Itoa: "ascii (Itoa i)"
  using Itoa_chars digit_is_hex by (intro ascii_hex) fastforce

lemma ascii_Join: "\<forall>p \<in> set ps. ascii p \<Longrightarrow> ascii sep \<Longrightarrow> ascii (Join ps sep)"
  using set_Join [of ps sep] by (fastforce simp: ascii_def list_all_iff)

lemma ascii_IP_String: "length ip = 4 \<or> length ip = 16 \<Longrightarrow> ascii (IP_String ip)"
  using dotted_chars string6_chars digit_is_hex
  by (intro ascii_hex) (fastforce simp: IP_String_valid split: option.splits)

lemma ascii_UDPAddr: "addr_printable a \<Longrightarrow> ascii (UDPAddr_String a)"
  using ascii_IP_String [of "IP a"] ascii_Itoa [of "Port a"]
  by (auto simp: addr_printable_def UDPAddr_String_def JoinHostPort_def) (simp_all add: ascii_def)

lemma ascii_peer_id:
  assumes "IsValidPeerID h"
  shows "ascii h"
proof -
  have "byte_of c < 0x80" if c: "c \<in> set h" for c
  proof -
    obtain x xs where h: "h = x # xs" using c by (cases h) auto
    have "c \<in> set base58Chars \<or> byte_of c \<le> 90"
      using assms c by (auto simp: IsValidPeerID_def list_all_iff h split: if_splits)
    then show ?thesis by (auto simp: base58Chars_def)
  qed
  then show ?thesis by (simp add: ascii_def list_all_iff)
qed

lemma ascii_ToString:
  assumes "ascii (Scheme a)" and "IsValidPeerID (Hash a)" and "list_all addr_printable (Addresses a)" and "ascii (Path a)"
  shows "ascii (ToString a)"
proof -
  have "ascii (Join (map UDPAddr_String (Addresses a)) ''|'')"
    by (rule ascii_Join) (use assms(3) ascii_UDPAddr in \<open>auto simp: list_all_iff\<close>, simp add: ascii_def)
  then show ?thesis using assms(1,4) ascii_peer_id [OF assms(2)] by (simp add: ToString_def) (simp add: ascii_def)
qed

end
