(* ===== verification/Cbor_Values.thy ===== *)
theory Cbor_Values
  imports Ahmp Utf8
begin

text \<open>
  The values that pass through the package \<open>cbor\<close> unchanged. With its default options it refuses texts that
  are not valid UTF-8 and arrays of more than 131072 elements when it decodes, and it encodes every NaN as
  the same one; integers are those of the Go types, 64 bits wide, and an array of floats has its seven
  elements.
\<close>

definition few :: "'a list \<Rightarrow> bool" where
  "few xs \<longleftrightarrow> length xs \<le> 131072"

text \<open>The bit pattern of a float that is not a NaN.\<close>

definition float_ok :: "32 word \<Rightarrow> bool" where
  "float_ok x \<longleftrightarrow> \<not> (unat x div 2 ^ 23 mod 256 = 255 \<and> unat x mod 2 ^ 23 \<noteq> 0)"

definition transform_ok :: "32 word list \<Rightarrow> bool" where
  "transform_ok fs \<longleftrightarrow> length fs = 7 \<and> list_all float_ok fs"

definition raw_session_ok :: "RawSessionInfoForDiscovery \<Rightarrow> bool" where
  "raw_session_ok r \<longleftrightarrow> text_ok (rd_AURL r) \<and> text_ok (rd_SessionID r) \<and> int64 (rd_TimeStamp r)"

definition raw_member_ok :: "RawSessionInfoForSJN \<Rightarrow> bool" where
  "raw_member_ok r \<longleftrightarrow> text_ok (rs_PeerHash r) \<and> text_ok (rs_SessionID r)"

definition raw_object_ok :: "RawObjectInfo \<Rightarrow> bool" where
  "raw_object_ok r \<longleftrightarrow> text_ok (ro_ID r) \<and> text_ok (ro_Address r) \<and> transform_ok (ro_Transform r)"

definition RawJN_ok :: "RawJN \<Rightarrow> bool" where
  "RawJN_ok r \<longleftrightarrow> text_ok (RawJN_SenderSessionID r) \<and> text_ok (RawJN_Text r) \<and> int64 (RawJN_TimeStamp r)"

definition RawJOK_ok :: "RawJOK \<Rightarrow> bool" where
  "RawJOK_ok r \<longleftrightarrow> text_ok (RawJOK_SenderSessionID r) \<and> text_ok (RawJOK_RecverSessionID r) \<and> int64 (RawJOK_TimeStamp r)
     \<and> text_ok (RawJOK_Text r) \<and> few (RawJOK_Neighbors r) \<and> list_all raw_session_ok (RawJOK_Neighbors r)"

definition RawJDN_ok :: "RawJDN \<Rightarrow> bool" where
  "RawJDN_ok r \<longleftrightarrow> text_ok (RawJDN_RecverSessionID r) \<and> int64 (RawJDN_Code r) \<and> text_ok (RawJDN_Text r)"

definition RawJNI_ok :: "RawJNI \<Rightarrow> bool" where
  "RawJNI_ok r \<longleftrightarrow> text_ok (RawJNI_SenderSessionID r) \<and> text_ok (RawJNI_RecverSessionID r) \<and> raw_session_ok (RawJNI_Neighbor r)"

definition RawMEM_ok :: "RawMEM \<Rightarrow> bool" where
  "RawMEM_ok r \<longleftrightarrow> text_ok (RawMEM_SenderSessionID r) \<and> text_ok (RawMEM_RecverSessionID r) \<and> int64 (RawMEM_TimeStamp r)"

definition RawSJN_ok :: "RawSJN \<Rightarrow> bool" where
  "RawSJN_ok r \<longleftrightarrow> text_ok (RawSJN_SenderSessionID r) \<and> text_ok (RawSJN_RecverSessionID r)
     \<and> few (RawSJN_MemberInfos r) \<and> list_all raw_member_ok (RawSJN_MemberInfos r)"

definition RawCRR_ok :: "RawCRR \<Rightarrow> bool" where
  "RawCRR_ok r \<longleftrightarrow> text_ok (RawCRR_SenderSessionID r) \<and> text_ok (RawCRR_RecverSessionID r)
     \<and> few (RawCRR_MemberInfos r) \<and> list_all raw_member_ok (RawCRR_MemberInfos r)"

definition RawRST_ok :: "RawRST \<Rightarrow> bool" where
  "RawRST_ok r \<longleftrightarrow> text_ok (RawRST_SenderSessionID r) \<and> text_ok (RawRST_RecverSessionID r) \<and> text_ok (RawRST_Message r)"

definition RawSOA_ok :: "RawSOA \<Rightarrow> bool" where
  "RawSOA_ok r \<longleftrightarrow> text_ok (RawSOA_SenderSessionID r) \<and> text_ok (RawSOA_RecverSessionID r)
     \<and> few (RawSOA_Objects r) \<and> list_all raw_object_ok (RawSOA_Objects r)"

definition RawSOD_ok :: "RawSOD \<Rightarrow> bool" where
  "RawSOD_ok r \<longleftrightarrow> text_ok (RawSOD_SenderSessionID r) \<and> text_ok (RawSOD_RecverSessionID r)
     \<and> few (RawSOD_ObjectIDs r) \<and> list_all text_ok (RawSOD_ObjectIDs r)"

lemmas raw_ok_defs = raw_session_ok_def raw_member_ok_def raw_object_ok_def RawJN_ok_def RawJOK_ok_def RawJDN_ok_def
  RawJNI_ok_def RawMEM_ok_def RawSJN_ok_def RawCRR_ok_def RawRST_ok_def RawSOA_ok_def RawSOD_ok_def

end
