(* ===== verification/Abyss_Peer.thy ===== *)
theory Abyss_Peer
  imports Identity Cbor_Values
begin

text \<open>
  A peer connection, \<open>net_service/abyss_peer.go\<close>, with the activity counter of
  \<open>net_service/peer_context.go\<close> and the receiving loop of \<open>net_service/abyss_inbound.go\<close>.

  A stream is the list of the CBOR items on it; \<open>'w\<close> is the type of items. The CBOR library is a
  parameter, the record \<open>cbor\<close> of its encoders and decoders, with \<open>cbor_ok\<close> its documented
  behaviour. An encoder is the list of the items written so far, a decoder the list of the items
  that are still to be read. Whether a write fails is decided by the connection, so it is an
  argument (\<open>werr\<close>, by the number of items written before).
\<close>

section \<open>Items on the wire\<close>

record 'w cbor =
  enc_int :: "int \<Rightarrow> 'w"
  dec_int :: "'w \<Rightarrow> string + int"
  enc_JN :: "RawJN \<Rightarrow> 'w"
  dec_JN :: "'w \<Rightarrow> string + RawJN"
  enc_JOK :: "RawJOK \<Rightarrow> 'w"
  dec_JOK :: "'w \<Rightarrow> string + RawJOK"
  enc_JDN :: "RawJDN \<Rightarrow> 'w"
  dec_JDN :: "'w \<Rightarrow> string + RawJDN"
  enc_JNI :: "RawJNI \<Rightarrow> 'w"
  dec_JNI :: "'w \<Rightarrow> string + RawJNI"
  enc_MEM :: "RawMEM \<Rightarrow> 'w"
  dec_MEM :: "'w \<Rightarrow> string + RawMEM"
  enc_SJN :: "RawSJN \<Rightarrow> 'w"
  dec_SJN :: "'w \<Rightarrow> string + RawSJN"
  enc_CRR :: "RawCRR \<Rightarrow> 'w"
  dec_CRR :: "'w \<Rightarrow> string + RawCRR"
  enc_RST :: "RawRST \<Rightarrow> 'w"
  dec_RST :: "'w \<Rightarrow> string + RawRST"
  enc_SOA :: "RawSOA \<Rightarrow> 'w"
  dec_SOA :: "'w \<Rightarrow> string + RawSOA"
  enc_SOD :: "RawSOD \<Rightarrow> 'w"
  dec_SOD :: "'w \<Rightarrow> string + RawSOD"

text \<open>Decoding into a variable of the type that was encoded gives the value back, for the values that the
  decoder accepts.\<close>

definition cbor_ok :: "'w cbor \<Rightarrow> bool" where
  "cbor_ok c \<longleftrightarrow> (\<forall>x. int64 x \<longrightarrow> dec_int c (enc_int c x) = Inr x)
   \<and> (\<forall>x. RawJN_ok x \<longrightarrow> dec_JN c (enc_JN c x) = Inr x) \<and> (\<forall>x. RawJOK_ok x \<longrightarrow> dec_JOK c (enc_JOK c x) = Inr x)
   \<and> (\<forall>x. RawJDN_ok x \<longrightarrow> dec_JDN c (enc_JDN c x) = Inr x) \<and> (\<forall>x. RawJNI_ok x \<longrightarrow> dec_JNI c (enc_JNI c x) = Inr x)
   \<and> (\<forall>x. RawMEM_ok x \<longrightarrow> dec_MEM c (enc_MEM c x) = Inr x) \<and> (\<forall>x. RawSJN_ok x \<longrightarrow> dec_SJN c (enc_SJN c x) = Inr x)
   \<and> (\<forall>x. RawCRR_ok x \<longrightarrow> dec_CRR c (enc_CRR c x) = Inr x) \<and> (\<forall>x. RawRST_ok x \<longrightarrow> dec_RST c (enc_RST c x) = Inr x)
   \<and> (\<forall>x. RawSOA_ok x \<longrightarrow> dec_SOA c (enc_SOA c x) = Inr x) \<and> (\<forall>x. RawSOD_ok x \<longrightarrow> dec_SOD c (enc_SOD c x) = Inr x)"

text \<open>The values that the channel of decoded messages carries.\<close>

datatype ahmp_message =
    Msg_JN JN | Msg_JOK JOK | Msg_JDN JDN | Msg_JNI JNI | Msg_MEM MEM | Msg_SJN SJN | Msg_CRR CRR
  | Msg_RST RST | Msg_SOA SOA | Msg_SOD SOD | Msg_INVAL INVAL

section \<open>The peer\<close>

datatype PNCState = PNCS_DISCONNECTED | PNCS_INBOUND | PNCS_OUTBOUND | PNCS_CONNECTED | PNCS_CLOSED

record quic_conn =
  conn_id :: nat
  RemoteAddr :: UDPAddr

record 'w AbyssPeer =
  ap_state :: PNCState
  identity :: PeerIdentity
  addresses :: "UDPAddr list"
  inbound_conn :: "quic_conn option"
  outbound_conn :: "quic_conn option"
  ahmp_encoder :: "'w list option"
  ahmp_decoder :: "'w list option"
  ahmp_decoded_ch :: "ahmp_message list"
  ap_err :: "string option"

definition NewAbyssPeer :: "PeerIdentity \<Rightarrow> 'w AbyssPeer" where
  "NewAbyssPeer ident = \<lparr>ap_state = PNCS_DISCONNECTED, identity = ident, addresses = [],
     inbound_conn = None, outbound_conn = None, ahmp_encoder = None, ahmp_decoder = None,
     ahmp_decoded_ch = [], ap_err = None\<rparr>"

definition AbyssPeer_IDHash :: "('w, 'z) AbyssPeer_scheme \<Rightarrow> hash" where
  "AbyssPeer_IDHash p = root_id_hash (identity p)"

definition RootCertificateDer :: "('w, 'z) AbyssPeer_scheme \<Rightarrow> bytes" where
  "RootCertificateDer p = root_self_cert_der (identity p)"

definition HandshakeKeyCertificateDer :: "('w, 'z) AbyssPeer_scheme \<Rightarrow> bytes" where
  "HandshakeKeyCertificateDer p = handshake_key_cert_der (identity p)"

definition AbyssPeer_AURL :: "('w, 'z) AbyssPeer_scheme \<Rightarrow> AURL" where
  "AbyssPeer_AURL p = \<lparr>Scheme = ''abyss'', Hash = root_id_hash (identity p), Addresses = addresses p, Path = ''/''\<rparr>"

definition IsConnected :: "('w, 'z) AbyssPeer_scheme \<Rightarrow> bool" where
  "IsConnected p \<longleftrightarrow> ap_state p = PNCS_CONNECTED"

record Activity =
  active_cnt :: int
  LastActivity :: time

text \<open>A \<open>ContextedPeer\<close> embeds the peer; its context is the error of the context, \<open>None\<close> as long
  as it is alive.\<close>

record 'w ContextedPeer = "'w AbyssPeer" +
  ctx_Err :: "string option"
  activity :: Activity

definition cancelfunc :: "('w ContextedPeer, unit) go" where
  "cancelfunc = go_modify (\<lambda>p. p\<lparr>ctx_Err := (case ctx_Err p of None \<Rightarrow> Some ''context canceled'' | e \<Rightarrow> e)\<rparr>)"

section \<open>Sending\<close>

definition trySend :: "(nat \<Rightarrow> string option) \<Rightarrow> 'w \<Rightarrow> ('w ContextedPeer, bool) go" where
  "trySend werr v = go_bind (go_read ap_state) (\<lambda>st.
     if st \<noteq> PNCS_CONNECTED then go_ret False
     else go_bind (go_read ahmp_encoder) (\<lambda>e. go_bind (go_nonnil e) (\<lambda>written.
       case werr (length written) of
         Some err \<Rightarrow> go_bind (go_modify (\<lambda>p. p\<lparr>ap_state := PNCS_CLOSED, ap_err := Some err\<rparr>)) (\<lambda>_.
           go_bind cancelfunc (\<lambda>_. go_ret False))
       | None \<Rightarrow> go_bind (go_modify (\<lambda>p. p\<lparr>ahmp_encoder := Some (written @ [v])\<rparr>)) (\<lambda>_. go_ret True))))"

definition trySend2 ::
    "'w cbor \<Rightarrow> (nat \<Rightarrow> string option) \<Rightarrow> int \<Rightarrow> 'w \<Rightarrow> ('w ContextedPeer, bool) go" where
  "trySend2 c werr v w =
     go_bind (go_index v Msg_type_names) (\<lambda>_.
     go_bind (go_read inbound_conn) (\<lambda>ic. go_bind (go_nonnil ic) (\<lambda>_.
     go_bind (trySend werr (enc_int c v)) (\<lambda>type_sent.
     go_bind (trySend werr w) (\<lambda>body_sent.
     go_ret (type_sent \<and> body_sent))))))"

text \<open>The arguments shared by the senders: the CBOR library, the printer of UUIDs, the write
  failures, and the peer objects that session descriptions refer to.\<close>

record 'w wire_env =
  we_cbor :: "'w cbor"
  we_uuid_String :: "uuid \<Rightarrow> string"
  we_werr :: "nat \<Rightarrow> string option"
  we_peer :: "nat \<Rightarrow> 'w AbyssPeer"

definition raw_session ::
    "'w wire_env \<Rightarrow> ANDPeerSessionWithTimeStamp \<Rightarrow> ('s, RawSessionInfoForDiscovery) go" where
  "raw_session env session = go_bind (go_nonnil (Peer session)) (\<lambda>peer.
     let p = we_peer env (peer_ref peer) in
     go_ret \<lparr>rd_AURL = ToString (AbyssPeer_AURL p), rd_SessionID = we_uuid_String env (PeerSessionID session),
       rd_TimeStamp = to_UnixMilli (TimeStamp session), rd_RootCertificateDer = RootCertificateDer p,
       rd_HandshakeKeyCertificateDer = HandshakeKeyCertificateDer p\<rparr>)"

definition raw_member :: "'w wire_env \<Rightarrow> ANDPeerSessionIdentity \<Rightarrow> RawSessionInfoForSJN" where
  "raw_member env i = \<lparr>rs_PeerHash = PeerHash i, rs_SessionID = we_uuid_String env (SessionID i)\<rparr>"

definition raw_object :: "'w wire_env \<Rightarrow> ObjectInfo \<Rightarrow> RawObjectInfo" where
  "raw_object env u = \<lparr>ro_ID = we_uuid_String env (ID u), ro_Address = Addr u, ro_Transform = Transform u\<rparr>"

definition zero_raw_session :: RawSessionInfoForDiscovery where
  "zero_raw_session = \<lparr>rd_AURL = [], rd_SessionID = [], rd_TimeStamp = 0, rd_RootCertificateDer = [],
     rd_HandshakeKeyCertificateDer = []\<rparr>"

definition zero_raw_member :: RawSessionInfoForSJN where
  "zero_raw_member = \<lparr>rs_PeerHash = [], rs_SessionID = []\<rparr>"

definition zero_raw_object :: RawObjectInfo where
  "zero_raw_object = \<lparr>ro_ID = [], ro_Address = [], ro_Transform = replicate 7 0\<rparr>"

definition Peer_TrySendJN :: "'w wire_env \<Rightarrow> uuid \<Rightarrow> string \<Rightarrow> time \<Rightarrow> ('w ContextedPeer, bool) go" where
  "Peer_TrySendJN env local_session_id path timestamp =
     trySend2 (we_cbor env) (we_werr env) (type_code JN_T) (enc_JN (we_cbor env)
       \<lparr>RawJN_SenderSessionID = we_uuid_String env local_session_id, RawJN_Text = path,
        RawJN_TimeStamp = to_UnixMilli timestamp\<rparr>)"

definition Peer_TrySendJOK ::
    "'w wire_env \<Rightarrow> uuid \<Rightarrow> uuid \<Rightarrow> time \<Rightarrow> string \<Rightarrow> ANDPeerSessionWithTimeStamp list \<Rightarrow> ('w ContextedPeer, bool) go" where
  "Peer_TrySendJOK env local_session_id peer_session_id timestamp world_url member_sessions =
     go_bind (Filter zero_raw_session member_sessions (raw_session env)) (\<lambda>neighbors.
     trySend2 (we_cbor env) (we_werr env) (type_code JOK_T) (enc_JOK (we_cbor env)
       \<lparr>RawJOK_SenderSessionID = we_uuid_String env local_session_id,
        RawJOK_RecverSessionID = we_uuid_String env peer_session_id,
        RawJOK_TimeStamp = to_UnixMilli timestamp, RawJOK_Text = world_url, RawJOK_Neighbors = neighbors\<rparr>))"

definition Peer_TrySendJDN :: "'w wire_env \<Rightarrow> uuid \<Rightarrow> int \<Rightarrow> string \<Rightarrow> ('w ContextedPeer, bool) go" where
  "Peer_TrySendJDN env peer_session_id code message =
     trySend2 (we_cbor env) (we_werr env) (type_code JDN_T) (enc_JDN (we_cbor env)
       \<lparr>RawJDN_RecverSessionID = we_uuid_String env peer_session_id, RawJDN_Code = code, RawJDN_Text = message\<rparr>)"

definition Peer_TrySendJNI ::
    "'w wire_env \<Rightarrow> uuid \<Rightarrow> uuid \<Rightarrow> ANDPeerSessionWithTimeStamp \<Rightarrow> ('w ContextedPeer, bool) go" where
  "Peer_TrySendJNI env local_session_id peer_session_id member_session =
     go_bind (raw_session env member_session) (\<lambda>neighbor.
     trySend2 (we_cbor env) (we_werr env) (type_code JNI_T) (enc_JNI (we_cbor env)
       \<lparr>RawJNI_SenderSessionID = we_uuid_String env local_session_id,
        RawJNI_RecverSessionID = we_uuid_String env peer_session_id, RawJNI_Neighbor = neighbor\<rparr>))"

definition Peer_TrySendMEM :: "'w wire_env \<Rightarrow> uuid \<Rightarrow> uuid \<Rightarrow> time \<Rightarrow> ('w ContextedPeer, bool) go" where
  "Peer_TrySendMEM env local_session_id peer_session_id timestamp =
     trySend2 (we_cbor env) (we_werr env) (type_code MEM_T) (enc_MEM (we_cbor env)
       \<lparr>RawMEM_SenderSessionID = we_uuid_String env local_session_id,
        RawMEM_RecverSessionID = we_uuid_String env peer_session_id, RawMEM_TimeStamp = to_UnixMilli timestamp\<rparr>)"

definition Peer_TrySendSJN ::
    "'w wire_env \<Rightarrow> uuid \<Rightarrow> uuid \<Rightarrow> ANDPeerSessionIdentity list \<Rightarrow> ('w ContextedPeer, bool) go" where
  "Peer_TrySendSJN env local_session_id peer_session_id member_sessions =
     go_bind (Filter zero_raw_member member_sessions (\<lambda>i. go_ret (raw_member env i))) (\<lambda>infos.
     trySend2 (we_cbor env) (we_werr env) (type_code SJN_T) (enc_SJN (we_cbor env)
       \<lparr>RawSJN_SenderSessionID = we_uuid_String env local_session_id,
        RawSJN_RecverSessionID = we_uuid_String env peer_session_id, RawSJN_MemberInfos = infos\<rparr>))"

definition Peer_TrySendCRR ::
    "'w wire_env \<Rightarrow> uuid \<Rightarrow> uuid \<Rightarrow> ANDPeerSessionIdentity list \<Rightarrow> ('w ContextedPeer, bool) go" where
  "Peer_TrySendCRR env local_session_id peer_session_id member_sessions =
     go_bind (Filter zero_raw_member member_sessions (\<lambda>i. go_ret (raw_member env i))) (\<lambda>infos.
     trySend2 (we_cbor env) (we_werr env) (type_code CRR_T) (enc_CRR (we_cbor env)
       \<lparr>RawCRR_SenderSessionID = we_uuid_String env local_session_id,
        RawCRR_RecverSessionID = we_uuid_String env peer_session_id, RawCRR_MemberInfos = infos\<rparr>))"

definition Peer_TrySendRST :: "'w wire_env \<Rightarrow> uuid \<Rightarrow> uuid \<Rightarrow> string \<Rightarrow> ('w ContextedPeer, bool) go" where
  "Peer_TrySendRST env local_session_id peer_session_id message =
     trySend2 (we_cbor env) (we_werr env) (type_code RST_T) (enc_RST (we_cbor env)
       \<lparr>RawRST_SenderSessionID = we_uuid_String env local_session_id,
        RawRST_RecverSessionID = we_uuid_String env peer_session_id, RawRST_Message = message\<rparr>)"

definition Peer_TrySendSOA ::
    "'w wire_env \<Rightarrow> uuid \<Rightarrow> uuid \<Rightarrow> ObjectInfo list \<Rightarrow> ('w ContextedPeer, bool) go" where
  "Peer_TrySendSOA env local_session_id peer_session_id objects =
     go_bind (Filter zero_raw_object objects (\<lambda>u. go_ret (raw_object env u))) (\<lambda>raws.
     trySend2 (we_cbor env) (we_werr env) (type_code SOA_T) (enc_SOA (we_cbor env)
       \<lparr>RawSOA_SenderSessionID = we_uuid_String env local_session_id,
        RawSOA_RecverSessionID = we_uuid_String env peer_session_id, RawSOA_Objects = raws\<rparr>))"

definition Peer_TrySendSOD ::
    "'w wire_env \<Rightarrow> uuid \<Rightarrow> uuid \<Rightarrow> uuid list \<Rightarrow> ('w ContextedPeer, bool) go" where
  "Peer_TrySendSOD env local_session_id peer_session_id objectIDs =
     go_bind (Filter [] objectIDs (\<lambda>u. go_ret (we_uuid_String env u))) (\<lambda>ids.
     trySend2 (we_cbor env) (we_werr env) (type_code SOD_T) (enc_SOD (we_cbor env)
       \<lparr>RawSOD_SenderSessionID = we_uuid_String env local_session_id,
        RawSOD_RecverSessionID = we_uuid_String env peer_session_id, RawSOD_ObjectIDs = ids\<rparr>))"

text \<open>The method behind each message that the AND hands to a peer.\<close>

fun Peer_send :: "'w wire_env \<Rightarrow> ahmp_send \<Rightarrow> ('w ContextedPeer, bool) go" where
  "Peer_send env (TrySendJN l path ts) = Peer_TrySendJN env l path ts"
| "Peer_send env (TrySendJOK l p ts url ms) = Peer_TrySendJOK env l p ts url ms"
| "Peer_send env (TrySendJDN p code msg) = Peer_TrySendJDN env p code msg"
| "Peer_send env (TrySendJNI l p m) = Peer_TrySendJNI env l p m"
| "Peer_send env (TrySendMEM l p ts) = Peer_TrySendMEM env l p ts"
| "Peer_send env (TrySendSJN l p ms) = Peer_TrySendSJN env l p ms"
| "Peer_send env (TrySendCRR l p ms) = Peer_TrySendCRR env l p ms"
| "Peer_send env (TrySendRST l p msg) = Peer_TrySendRST env l p msg"
| "Peer_send env (TrySendSOA l p obs) = Peer_TrySendSOA env l p obs"
| "Peer_send env (TrySendSOD l p ids) = Peer_TrySendSOD env l p ids"

section \<open>Receiving\<close>

text \<open>The ten cases of \<open>listenAhmp\<close> differ only in the type of the message: the body is decoded and
  parsed, and a failure becomes the text of an \<open>INVAL\<close> message. \<open>None\<close> is the end of the stream.\<close>

definition parsing_error :: "string \<Rightarrow> string \<Rightarrow> string" where
  "parsing_error name err = ''parsing '' @ name @ [CHR 0x0A] @ err"

definition receive_as ::
    "string \<Rightarrow> ('w \<Rightarrow> string + 'r) \<Rightarrow> ('r \<Rightarrow> ('s, string + 'm) go) \<Rightarrow> ('m \<Rightarrow> ahmp_message) \<Rightarrow>
     'w option \<Rightarrow> ('s, string + ahmp_message) go" where
  "receive_as name dec try wrap body = (case body of
     None \<Rightarrow> go_ret (Inl (parsing_error name ''EOF''))
   | Some w \<Rightarrow> (case dec w of
       Inl err \<Rightarrow> go_ret (Inl (parsing_error name err))
     | Inr raw_msg \<Rightarrow> go_bind (try raw_msg) (\<lambda>r. case r of
         Inl err \<Rightarrow> go_ret (Inl (parsing_error name err))
       | Inr parsed_msg \<Rightarrow> go_ret (Inr (wrap parsed_msg)))))"

definition receive :: "uuid_parser \<Rightarrow> 'w cbor \<Rightarrow> int \<Rightarrow> 'w option \<Rightarrow> ('s, string + ahmp_message) go" where
  "receive parse c ty body =
     (if ty = type_code JN_T then receive_as ''JN'' (dec_JN c) (RawJN_TryParse parse) Msg_JN body
      else if ty = type_code JOK_T then receive_as ''JOK'' (dec_JOK c) (RawJOK_TryParse parse) Msg_JOK body
      else if ty = type_code JDN_T then receive_as ''JDN'' (dec_JDN c) (RawJDN_TryParse parse) Msg_JDN body
      else if ty = type_code JNI_T then receive_as ''JNI'' (dec_JNI c) (RawJNI_TryParse parse) Msg_JNI body
      else if ty = type_code MEM_T then receive_as ''MEM'' (dec_MEM c) (RawMEM_TryParse parse) Msg_MEM body
      else if ty = type_code SJN_T then receive_as ''SJN'' (dec_SJN c) (RawSJN_TryParse parse) Msg_SJN body
      else if ty = type_code CRR_T then receive_as ''CRR'' (dec_CRR c) (RawCRR_TryParse parse) Msg_CRR body
      else if ty = type_code RST_T then receive_as ''RST'' (dec_RST c) (RawRST_TryParse parse) Msg_RST body
      else if ty = type_code SOA_T then receive_as ''SOA'' (dec_SOA c) (RawSOA_TryParse parse) Msg_SOA body
      else if ty = type_code SOD_T then receive_as ''SOD'' (dec_SOD c) (RawSOD_TryParse parse) Msg_SOD body
      else go_ret (Inl ''unknown AHMP message type''))"

text \<open>The loop ends when the type of the next message cannot be read, in particular at the end of
  the stream, and after the first \<open>INVAL\<close>. It returns the messages it put on the channel.\<close>

fun listen_loop :: "uuid_parser \<Rightarrow> 'w cbor \<Rightarrow> 'w list \<Rightarrow> ('s, ahmp_message list) go" where
  "listen_loop parse c [] = go_ret []"
| "listen_loop parse c (t # ws) = (case dec_int c t of
     Inl err \<Rightarrow> go_ret []
   | Inr ty \<Rightarrow> go_bind (receive parse c ty (case ws of [] \<Rightarrow> None | b # _ \<Rightarrow> Some b)) (\<lambda>m. case m of
       Inl err \<Rightarrow> go_ret [Msg_INVAL \<lparr>INVAL_Err = err\<rparr>]
     | Inr msg \<Rightarrow> go_bind (listen_loop parse c (tl ws)) (\<lambda>ms. go_ret (msg # ms))))"

declare listen_loop.simps(2) [simp del]

text \<open>The deferred function closes the peer. The variable \<open>err\<close> it stores is the outer one, which the
  loop shadows and never assigns: the error of the peer becomes nil.\<close>

definition listenAhmp :: "uuid_parser \<Rightarrow> 'w cbor \<Rightarrow> ('w ContextedPeer, unit) go" where
  "listenAhmp parse c =
     go_bind (go_read ahmp_decoder) (\<lambda>d. go_bind (go_nonnil d) (\<lambda>items.
     go_bind (listen_loop parse c items) (\<lambda>ms.
     go_bind (go_modify (\<lambda>p. p\<lparr>ahmp_decoder := Some [], ahmp_decoded_ch := ahmp_decoded_ch p @ ms\<rparr>)) (\<lambda>_.
     go_modify (\<lambda>p. p\<lparr>ap_state := PNCS_CLOSED, ap_err := None\<rparr>)))))"

section \<open>Activity\<close>

text \<open>The three operations retry a compare-and-swap until it succeeds; each is atomic, and the time
  is that of the successful attempt.\<close>

definition Activate :: "time \<Rightarrow> ('w ContextedPeer, unit) go" where
  "Activate now = go_modify (\<lambda>p. p\<lparr>activity := \<lparr>active_cnt = active_cnt (activity p) + 1, LastActivity = now\<rparr>\<rparr>)"

definition Renew :: "time \<Rightarrow> ('w ContextedPeer, unit) go" where
  "Renew now = go_modify (\<lambda>p. p\<lparr>activity := \<lparr>active_cnt = active_cnt (activity p), LastActivity = now\<rparr>\<rparr>)"

definition Deactivate :: "time \<Rightarrow> ('w ContextedPeer, unit) go" where
  "Deactivate now = go_bind (go_read activity) (\<lambda>prev.
     let nxt = \<lparr>active_cnt = active_cnt prev - 1, LastActivity = now\<rparr> in
     if active_cnt nxt < 0 then
       go_panic (Panic ''invalid behavior:: you deactivated a peer context more than you activated it'')
     else go_modify (\<lambda>p. p\<lparr>activity := nxt\<rparr>))"

definition Peer_Context :: "'w ContextedPeer \<Rightarrow> string option" where
  "Peer_Context p = ctx_Err p"

definition Peer_Error :: "'w ContextedPeer \<Rightarrow> string option" where
  "Peer_Error p = ap_err p"

section \<open>Completing a connection\<close>

definition ABYSS_ALREADY_CONNECTED :: int where "ABYSS_ALREADY_CONNECTED = 0x0A01"
definition ABYSS_ALREADY_CONNECTED_M :: string where "ABYSS_ALREADY_CONNECTED_M = ''Alrady Connected''"
definition ABYSS_EARLY_RECONNECTION :: int where "ABYSS_EARLY_RECONNECTION = 0x0A02"
definition ABYSS_EARLY_RECONNECTION_M :: string where "ABYSS_EARLY_RECONNECTION_M = ''Too Early Reconnection''"

text \<open>What the deferred functions of the two handshakes ask for: closing the new connection with a
  code, starting the receiving loop, publishing the peer on \<open>abyssPeerCH\<close>.\<close>

datatype conn_action = CloseWithError quic_conn int string | Listen | Publish

definition fail_peer :: "string \<Rightarrow> ('w ContextedPeer, conn_action list) go" where
  "fail_peer err = go_bind (go_modify (\<lambda>p. p\<lparr>ap_err := (case ap_err p of None \<Rightarrow> Some err | e \<Rightarrow> e),
     ap_state := PNCS_CLOSED\<rparr>)) (\<lambda>_. go_ret [])"

definition finish_inbound ::
    "string option \<Rightarrow> quic_conn \<Rightarrow> 'w list \<Rightarrow> ('w ContextedPeer, conn_action list) go" where
  "finish_inbound err connection decoder = (case err of
     Some e \<Rightarrow> fail_peer e
   | None \<Rightarrow> go_bind (go_read ap_state) (\<lambda>st. case st of
       PNCS_DISCONNECTED \<Rightarrow> go_bind (go_modify (\<lambda>p. p\<lparr>ap_state := PNCS_INBOUND,
           inbound_conn := Some connection, ahmp_decoder := Some decoder\<rparr>)) (\<lambda>_. go_ret [Listen])
     | PNCS_OUTBOUND \<Rightarrow> go_bind (go_modify (\<lambda>p. p\<lparr>ap_state := PNCS_CONNECTED,
           inbound_conn := Some connection, ahmp_decoder := Some decoder\<rparr>)) (\<lambda>_. go_ret [Listen, Publish])
     | PNCS_INBOUND \<Rightarrow> go_ret [CloseWithError connection ABYSS_ALREADY_CONNECTED ABYSS_ALREADY_CONNECTED_M]
     | PNCS_CONNECTED \<Rightarrow> go_ret [CloseWithError connection ABYSS_ALREADY_CONNECTED ABYSS_ALREADY_CONNECTED_M]
     | PNCS_CLOSED \<Rightarrow> go_ret [CloseWithError connection ABYSS_EARLY_RECONNECTION ABYSS_EARLY_RECONNECTION_M]))"

definition finish_outbound ::
    "string option \<Rightarrow> quic_conn \<Rightarrow> 'w list \<Rightarrow> UDPAddr list \<Rightarrow> ('w ContextedPeer, conn_action list) go" where
  "finish_outbound err connection encoder addrs = (case err of
     Some e \<Rightarrow> fail_peer e
   | None \<Rightarrow> go_bind (go_read ap_state) (\<lambda>st. case st of
       PNCS_DISCONNECTED \<Rightarrow> go_bind (go_modify (\<lambda>p. p\<lparr>ap_state := PNCS_OUTBOUND,
           outbound_conn := Some connection, addresses := addresses p @ addrs,
           ahmp_encoder := Some encoder\<rparr>)) (\<lambda>_. go_ret [])
     | PNCS_INBOUND \<Rightarrow> go_bind (go_modify (\<lambda>p. p\<lparr>ap_state := PNCS_CONNECTED,
           outbound_conn := Some connection, addresses := addresses p @ addrs,
           ahmp_encoder := Some encoder\<rparr>)) (\<lambda>_. go_ret [Publish])
     | PNCS_OUTBOUND \<Rightarrow> go_ret [CloseWithError connection ABYSS_ALREADY_CONNECTED ABYSS_ALREADY_CONNECTED_M]
     | PNCS_CONNECTED \<Rightarrow> go_ret [CloseWithError connection ABYSS_ALREADY_CONNECTED ABYSS_ALREADY_CONNECTED_M]
     | PNCS_CLOSED \<Rightarrow> go_ret [CloseWithError connection ABYSS_EARLY_RECONNECTION ABYSS_EARLY_RECONNECTION_M]))"

end
