(* ===== verification/Wire.thy ===== *)
theory Wire
  imports Abyss_Peer
begin

text \<open>
  The wire between two hosts: what the senders of \<open>abyss_peer.go\<close> write is what the receiving
  loop of \<open>abyss_inbound.go\<close> hands to the other host, message by message and in order
  (\<open>listen_wires\<close>). Time stamps lose what is below a millisecond, addresses arrive in their
  16-byte form.
\<close>

section \<open>What arrives\<close>

definition trunc_ms :: "time \<Rightarrow> time" where
  "trunc_ms t = UnixMilli (to_UnixMilli t)"

definition session_peer :: "'w wire_env \<Rightarrow> ANDPeerSessionWithTimeStamp \<Rightarrow> 'w AbyssPeer" where
  "session_peer env session = we_peer env (peer_ref (the (Peer session)))"

definition recv_session :: "'w wire_env \<Rightarrow> ANDPeerSessionWithTimeStamp \<Rightarrow> ANDFullPeerSessionIdentity" where
  "recv_session env session = (let p = session_peer env session in
     \<lparr>full_AURL = (AbyssPeer_AURL p)\<lparr>Addresses := map addr16 (addresses p)\<rparr>,
      full_SessionID = PeerSessionID session, full_TimeStamp = trunc_ms (TimeStamp session),
      full_RootCertificateDer = RootCertificateDer p,
      full_HandshakeKeyCertificateDer = HandshakeKeyCertificateDer p\<rparr>)"

fun received :: "'w wire_env \<Rightarrow> ahmp_send \<Rightarrow> ahmp_message" where
  "received env (TrySendJN l path ts) =
     Msg_JN \<lparr>JN_SenderSessionID = l, JN_Text = path, JN_TimeStamp = trunc_ms ts\<rparr>"
| "received env (TrySendJOK l p ts url ms) =
     Msg_JOK \<lparr>JOK_SenderSessionID = l, JOK_RecverSessionID = p, JOK_TimeStamp = trunc_ms ts,
       JOK_Neighbors = map (recv_session env) ms, JOK_Text = url\<rparr>"
| "received env (TrySendJDN p code msg) =
     Msg_JDN \<lparr>JDN_RecverSessionID = p, JDN_Text = msg, JDN_Code = code\<rparr>"
| "received env (TrySendJNI l p m) =
     Msg_JNI \<lparr>JNI_SenderSessionID = l, JNI_RecverSessionID = p, JNI_Neighbor = recv_session env m\<rparr>"
| "received env (TrySendMEM l p ts) =
     Msg_MEM \<lparr>MEM_SenderSessionID = l, MEM_RecverSessionID = p, MEM_TimeStamp = trunc_ms ts\<rparr>"
| "received env (TrySendSJN l p ms) =
     Msg_SJN \<lparr>SJN_SenderSessionID = l, SJN_RecverSessionID = p, SJN_MemberInfos = ms\<rparr>"
| "received env (TrySendCRR l p ms) =
     Msg_CRR \<lparr>CRR_SenderSessionID = l, CRR_RecverSessionID = p, CRR_MemberInfos = ms\<rparr>"
| "received env (TrySendRST l p msg) =
     Msg_RST \<lparr>RST_SenderSessionID = l, RST_RecverSessionID = p, RST_Message = msg\<rparr>"
| "received env (TrySendSOA l p obs) =
     Msg_SOA \<lparr>SOA_SenderSessionID = l, SOA_RecverSessionID = p, SOA_Objects = obs\<rparr>"
| "received env (TrySendSOD l p ids) =
     Msg_SOD \<lparr>SOD_SenderSessionID = l, SOD_RecverSessionID = p, SOD_ObjectIDs = ids\<rparr>"

text \<open>What can be sent so that it can be read: the sessions that \<open>JOK\<close> and \<open>JNI\<close> describe have a peer object
  with a valid hash and addresses of 4 or 16 bytes; texts are valid UTF-8, integers and times in
  milliseconds have 64 bits, lists are not longer than the decoder accepts, and transforms are seven
  floats that are not NaN.\<close>

definition session_ok :: "'w wire_env \<Rightarrow> ANDPeerSessionWithTimeStamp \<Rightarrow> bool" where
  "session_ok env session \<longleftrightarrow> Peer session \<noteq> None
     \<and> IsValidPeerID (AbyssPeer_IDHash (session_peer env session))
     \<and> list_all addr_printable (addresses (session_peer env session))
     \<and> int64 (to_UnixMilli (TimeStamp session))"

fun sendable :: "'w wire_env \<Rightarrow> ahmp_send \<Rightarrow> bool" where
  "sendable env (TrySendJN l path ts) \<longleftrightarrow> text_ok path \<and> int64 (to_UnixMilli ts)"
| "sendable env (TrySendJOK l p ts url ms) \<longleftrightarrow>
     int64 (to_UnixMilli ts) \<and> text_ok url \<and> few ms \<and> list_all (session_ok env) ms"
| "sendable env (TrySendJDN p code msg) \<longleftrightarrow> int64 code \<and> text_ok msg"
| "sendable env (TrySendJNI l p m) \<longleftrightarrow> session_ok env m"
| "sendable env (TrySendMEM l p ts) \<longleftrightarrow> int64 (to_UnixMilli ts)"
| "sendable env (TrySendSJN l p ms) \<longleftrightarrow> few ms \<and> list_all (\<lambda>m. text_ok (PeerHash m)) ms"
| "sendable env (TrySendCRR l p ms) \<longleftrightarrow> few ms \<and> list_all (\<lambda>m. text_ok (PeerHash m)) ms"
| "sendable env (TrySendRST l p msg) \<longleftrightarrow> text_ok msg"
| "sendable env (TrySendSOA l p obs) \<longleftrightarrow> few obs \<and> list_all (\<lambda>ob. text_ok (Addr ob) \<and> transform_ok (Transform ob)) obs"
| "sendable env (TrySendSOD l p ids) \<longleftrightarrow> few ids"

section \<open>What is written\<close>

definition raw_of :: "'w wire_env \<Rightarrow> ANDPeerSessionWithTimeStamp \<Rightarrow> RawSessionInfoForDiscovery" where
  "raw_of env session = (let p = session_peer env session in
     \<lparr>rd_AURL = ToString (AbyssPeer_AURL p), rd_SessionID = we_uuid_String env (PeerSessionID session),
      rd_TimeStamp = to_UnixMilli (TimeStamp session), rd_RootCertificateDer = RootCertificateDer p,
      rd_HandshakeKeyCertificateDer = HandshakeKeyCertificateDer p\<rparr>)"

lemma raw_session_run: "Peer session \<noteq> None \<Longrightarrow> raw_session env session = go_ret (raw_of env session)"
  by (auto simp: raw_session_def raw_of_def session_peer_def go_nonnil_def Let_def)

lemma raw_sessions_run:
  assumes "list_all (session_ok env) ms"
  shows "Filter zero_raw_session ms (raw_session env) = go_ret (map (raw_of env) ms)"
proof -
  have "go_map (raw_session env) ms = go_ret (map (raw_of env) ms)"
    using assms by (induction ms) (simp_all add: session_ok_def raw_session_run)
  then show ?thesis by (simp add: Filter_go_map)
qed

fun body :: "'w wire_env \<Rightarrow> ahmp_send \<Rightarrow> 'w" where
  "body env (TrySendJN l path ts) = enc_JN (we_cbor env)
     \<lparr>RawJN_SenderSessionID = we_uuid_String env l, RawJN_Text = path, RawJN_TimeStamp = to_UnixMilli ts\<rparr>"
| "body env (TrySendJOK l p ts url ms) = enc_JOK (we_cbor env)
     \<lparr>RawJOK_SenderSessionID = we_uuid_String env l, RawJOK_RecverSessionID = we_uuid_String env p,
      RawJOK_TimeStamp = to_UnixMilli ts, RawJOK_Text = url, RawJOK_Neighbors = map (raw_of env) ms\<rparr>"
| "body env (TrySendJDN p code msg) = enc_JDN (we_cbor env)
     \<lparr>RawJDN_RecverSessionID = we_uuid_String env p, RawJDN_Code = code, RawJDN_Text = msg\<rparr>"
| "body env (TrySendJNI l p m) = enc_JNI (we_cbor env)
     \<lparr>RawJNI_SenderSessionID = we_uuid_String env l, RawJNI_RecverSessionID = we_uuid_String env p,
      RawJNI_Neighbor = raw_of env m\<rparr>"
| "body env (TrySendMEM l p ts) = enc_MEM (we_cbor env)
     \<lparr>RawMEM_SenderSessionID = we_uuid_String env l, RawMEM_RecverSessionID = we_uuid_String env p,
      RawMEM_TimeStamp = to_UnixMilli ts\<rparr>"
| "body env (TrySendSJN l p ms) = enc_SJN (we_cbor env)
     \<lparr>RawSJN_SenderSessionID = we_uuid_String env l, RawSJN_RecverSessionID = we_uuid_String env p,
      RawSJN_MemberInfos = map (raw_member env) ms\<rparr>"
| "body env (TrySendCRR l p ms) = enc_CRR (we_cbor env)
     \<lparr>RawCRR_SenderSessionID = we_uuid_String env l, RawCRR_RecverSessionID = we_uuid_String env p,
      RawCRR_MemberInfos = map (raw_member env) ms\<rparr>"
| "body env (TrySendRST l p msg) = enc_RST (we_cbor env)
     \<lparr>RawRST_SenderSessionID = we_uuid_String env l, RawRST_RecverSessionID = we_uuid_String env p,
      RawRST_Message = msg\<rparr>"
| "body env (TrySendSOA l p obs) = enc_SOA (we_cbor env)
     \<lparr>RawSOA_SenderSessionID = we_uuid_String env l, RawSOA_RecverSessionID = we_uuid_String env p,
      RawSOA_Objects = map (raw_object env) obs\<rparr>"
| "body env (TrySendSOD l p ids) = enc_SOD (we_cbor env)
     \<lparr>RawSOD_SenderSessionID = we_uuid_String env l, RawSOD_RecverSessionID = we_uuid_String env p,
      RawSOD_ObjectIDs = map (we_uuid_String env) ids\<rparr>"

definition wire :: "'w wire_env \<Rightarrow> ahmp_send \<Rightarrow> 'w list" where
  "wire env m = [enc_int (we_cbor env) (type_code (send_type m)), body env m]"

text \<open>Every sender is \<open>trySend2\<close> on the type code and the body.\<close>

lemma Peer_send_trySend2:
  assumes "sendable env m"
  shows "Peer_send env m = trySend2 (we_cbor env) (we_werr env) (type_code (send_type m)) (body env m)"
  using assms
  by (cases m) (simp_all add: Peer_TrySendJN_def Peer_TrySendJOK_def Peer_TrySendJDN_def Peer_TrySendJNI_def
      Peer_TrySendMEM_def Peer_TrySendSJN_def Peer_TrySendCRR_def Peer_TrySendRST_def Peer_TrySendSOA_def
      Peer_TrySendSOD_def raw_sessions_run raw_session_run session_ok_def)

lemma type_code_name: "go_index (type_code t) Msg_type_names = go_ret (Msg_type_names ! nat (type_code t))"
  by (cases t) (simp_all add: go_index_def Msg_type_names_def)

definition writable :: "'w ContextedPeer \<Rightarrow> bool" where
  "writable p \<longleftrightarrow> ap_state p = PNCS_CONNECTED \<and> inbound_conn p \<noteq> None \<and> ahmp_encoder p \<noteq> None"

lemma trySend2_writes:
  assumes "writable p" and "ahmp_encoder p = Some written"
    and "werr (length written) = None" and "werr (Suc (length written)) = None"
  shows "trySend2 c werr (type_code t) w p
    = Inr (True, p\<lparr>ahmp_encoder := Some (written @ [enc_int c (type_code t), w])\<rparr>)"
  using assms
  by (auto simp: trySend2_def type_code_name trySend_def writable_def go_bind_def go_read_def go_nonnil_def
      go_modify_def go_ret_def)

text \<open>A write that fails closes the peer and cancels its context; the message counts as not sent.\<close>

lemma trySend2_fails:
  assumes "writable p" and "ahmp_encoder p = Some written"
    and "werr (length written) = Some e \<or> werr (length written) = None \<and> werr (Suc (length written)) = Some e"
  shows "\<exists>p'. trySend2 c werr (type_code t) w p = Inr (False, p') \<and> ap_state p' = PNCS_CLOSED
    \<and> ap_err p' = Some e \<and> ctx_Err p' \<noteq> None"
  using assms
  by (auto simp: trySend2_def type_code_name trySend_def writable_def go_bind_def go_read_def go_nonnil_def
      go_modify_def go_ret_def cancelfunc_def split: option.splits)

section \<open>What is read\<close>

definition parses :: "uuid_parser \<Rightarrow> 'w wire_env \<Rightarrow> bool" where
  "parses parse env \<longleftrightarrow> cbor_ok (we_cbor env)
     \<and> (\<forall>u. parse (we_uuid_String env u) = Inr u \<and> text_ok (we_uuid_String env u))"

lemma few_map [simp]: "few (map f xs) = few xs"
  by (simp add: few_def)

lemma raw_of_ok:
  assumes "parses parse env" and "session_ok env m"
  shows "raw_session_ok (raw_of env m)"
proof -
  have "ascii (ToString (AbyssPeer_AURL (session_peer env m)))"
    by (rule ascii_ToString)
      (use assms(2) in \<open>simp_all add: session_ok_def AbyssPeer_AURL_def AbyssPeer_IDHash_def ascii_def\<close>)
  then show ?thesis
    using assms ascii_text_ok by (simp add: raw_session_ok_def raw_of_def session_ok_def parses_def Let_def)
qed

lemma raw_lists_ok:
  "parses parse env \<Longrightarrow> list_all (session_ok env) ms \<Longrightarrow> list_all raw_session_ok (map (raw_of env) ms)"
  "parses parse env \<Longrightarrow> list_all (\<lambda>m. text_ok (PeerHash m)) is \<Longrightarrow> list_all raw_member_ok (map (raw_member env) is)"
  "parses parse env \<Longrightarrow> list_all (\<lambda>ob. text_ok (Addr ob) \<and> transform_ok (Transform ob)) obs \<Longrightarrow>
    list_all raw_object_ok (map (raw_object env) obs)"
  "parses parse env \<Longrightarrow> list_all text_ok (map (we_uuid_String env) ids)"
  using raw_of_ok
  by (auto simp: list_all_iff raw_member_ok_def raw_member_def raw_object_ok_def raw_object_def parses_def)

lemma peer_url_ref:
  assumes "IsValidPeerID (AbyssPeer_IDHash p)" and "list_all addr_printable (addresses p)"
  shows "aurl_ref (ToString (AbyssPeer_AURL p)) = Inr ((AbyssPeer_AURL p)\<lparr>Addresses := map addr16 (addresses p)\<rparr>)"
proof -
  have "\<not> ends_in_space ''/''" by code_simp
  then show ?thesis
    using assms aurl_ref_ToString [of "AbyssPeer_AURL p"] by (simp add: AbyssPeer_AURL_def AbyssPeer_IDHash_def)
qed

lemma neighbor_ref_raw_of:
  assumes "parses parse env" and "session_ok env m"
  shows "neighbor_ref parse (raw_of env m) = Some (recv_session env m)"
proof -
  have "aurl_ref (ToString (AbyssPeer_AURL (session_peer env m)))
      = Inr ((AbyssPeer_AURL (session_peer env m))\<lparr>Addresses := map addr16 (addresses (session_peer env m))\<rparr>)"
    using assms(2) by (simp add: session_ok_def peer_url_ref)
  then show ?thesis
    using assms by (simp add: neighbor_ref_def raw_of_def recv_session_def Let_def parses_def trunc_ms_def)
qed

lemma parse_neighbors_raw_of:
  assumes "parses parse env" and "list_all (session_ok env) ms"
  shows "Filter_strict_ok z (map (raw_of env) ms) (parse_neighbor parse) = go_ret (Some (map (recv_session env) ms))"
proof -
  have "map (neighbor_ref parse \<circ> raw_of env) ms = map Some (map (recv_session env) ms)"
    using assms(2) by (induction ms) (simp_all add: neighbor_ref_raw_of [OF assms(1)])
  then have "all_some (map (neighbor_ref parse \<circ> raw_of env) ms) = Some (map (recv_session env) ms)"
    by (simp only: all_some_iff)
  then show ?thesis by (simp add: parse_neighbor_ref)
qed

lemma until_err_raw:
  "parses parse env \<Longrightarrow> until_err (\<lambda>i. case parse (rs_SessionID i) of Inl err \<Rightarrow> Inl err
     | Inr x \<Rightarrow> Inr \<lparr>PeerHash = rs_PeerHash i, SessionID = x\<rparr>) (map (raw_member env) ms) = (ms, [], None)"
  "parses parse env \<Longrightarrow> until_err (\<lambda>ob. case parse (ro_ID ob) of Inl err \<Rightarrow> Inl err
     | Inr x \<Rightarrow> Inr \<lparr>ID = x, Addr = ro_Address ob, Transform = ro_Transform ob\<rparr>) (map (raw_object env) obs) = (obs, [], None)"
  "parses parse env \<Longrightarrow> until_err parse (map (we_uuid_String env) ids) = (ids, [], None)"
  by (rule until_err_all, simp add: parses_def raw_member_def raw_object_def)+

lemma raw_of_simps [simp]:
  "rd_AURL (raw_of env m) = ToString (AbyssPeer_AURL (session_peer env m))"
  "rd_SessionID (raw_of env m) = we_uuid_String env (PeerSessionID m)"
  "rd_TimeStamp (raw_of env m) = to_UnixMilli (TimeStamp m)"
  "rd_RootCertificateDer (raw_of env m) = RootCertificateDer (session_peer env m)"
  "rd_HandshakeKeyCertificateDer (raw_of env m) = HandshakeKeyCertificateDer (session_peer env m)"
  by (simp_all add: raw_of_def Let_def)

lemma session_url_ref: "session_ok env m \<Longrightarrow> aurl_ref (ToString (AbyssPeer_AURL (session_peer env m)))
    = Inr ((AbyssPeer_AURL (session_peer env m))\<lparr>Addresses := map addr16 (addresses (session_peer env m))\<rparr>)"
  by (simp add: session_ok_def peer_url_ref)

lemma receive_body:
  assumes "parses parse env" and "sendable env m"
  shows "receive parse (we_cbor env) (type_code (send_type m)) (Some (body env m)) = go_ret (Inr (received env m))"
  using assms parses_def [of parse env]
  by (cases m) (simp_all add: receive_def receive_as_def cbor_ok_def raw_lists_ok raw_of_ok RawJN_ok_def RawJOK_ok_def RawJDN_ok_def
      RawJNI_ok_def RawMEM_ok_def RawSJN_ok_def RawCRR_ok_def RawRST_ok_def RawSOA_ok_def RawSOD_ok_def trunc_ms_def RawJN_TryParse_def
      RawJOK_TryParse_def RawJDN_TryParse_def RawJNI_TryParse_def RawMEM_TryParse_def RawSJN_TryParse_def
      RawCRR_TryParse_def RawRST_TryParse_def RawSOA_TryParse_def RawSOD_TryParse_def
      parse_member_def [abs_def] parse_object_def [abs_def] until_err_raw parse_neighbors_raw_of
      recv_session_def Let_def TryParse_ref session_url_ref)

lemma listen_wire:
  assumes "parses parse env" and "sendable env m"
  shows "listen_loop parse (we_cbor env) (wire env m @ rest)
    = go_bind (listen_loop parse (we_cbor env) rest) (\<lambda>ms. go_ret (received env m # ms))"
proof -
  have "int64 (type_code t)" for t by (cases t) (simp_all add: int64_def)
  then have "dec_int (we_cbor env) (enc_int (we_cbor env) (type_code t)) = Inr (type_code t)" for t
    using assms(1) by (simp add: parses_def cbor_ok_def)
  then show ?thesis by (simp add: wire_def listen_loop.simps(2) receive_body [OF assms])
qed

lemma listen_wires:
  assumes "parses parse env" and "list_all (sendable env) ms"
  shows "listen_loop parse (we_cbor env) (concat (map (wire env) ms)) = go_ret (map (received env) ms)"
  using assms(2) by (induction ms) (simp_all add: listen_wire [OF assms(1)])

section \<open>Sequences of messages\<close>

definition send_all :: "'w wire_env \<Rightarrow> ahmp_send list \<Rightarrow> ('w ContextedPeer, bool) go" where
  "send_all env ms = go_fold ms (\<lambda>m ok. go_bind (Peer_send env m) (\<lambda>sent. go_ret (ok \<and> sent))) True"

lemma send_all_writes:
  assumes "writable p" and "ahmp_encoder p = Some written" and "\<forall>n. we_werr env n = None"
    and "list_all (sendable env) ms"
  shows "send_all env ms p = Inr (True, p\<lparr>ahmp_encoder := Some (written @ concat (map (wire env) ms))\<rparr>)"
  using assms
proof (induction ms arbitrary: p written)
  case Nil
  then show ?case by (simp add: send_all_def go_ret_def)
next
  case (Cons m ms)
  let ?p = "p\<lparr>ahmp_encoder := Some (written @ wire env m)\<rparr>"
  have "Peer_send env m p = Inr (True, ?p)"
    using Cons.prems trySend2_writes [of p written "we_werr env" "we_cbor env"]
    by (simp add: Peer_send_trySend2 wire_def)
  moreover have "send_all env ms ?p = Inr (True, ?p\<lparr>ahmp_encoder := Some ((written @ wire env m) @ concat (map (wire env) ms))\<rparr>)"
    using Cons.prems by (intro Cons.IH) (simp_all add: writable_def)
  ultimately show ?case by (simp add: send_all_def go_bind_def go_ret_def)
qed

text \<open>Shapes of what the receiving loop hands over: an \<open>INVAL\<close> can only be the last message.\<close>

fun is_INVAL :: "ahmp_message \<Rightarrow> bool" where
  "is_INVAL (Msg_INVAL _) = True"
| "is_INVAL _ = False"

lemma go_try_total: "(\<And>a. x = Inr a \<Longrightarrow> \<exists>r. g a = go_ret r) \<Longrightarrow> \<exists>r. go_try (go_ret x) g = go_ret r"
  by (cases x) simp_all

lemma RawTryParse_total:
  "\<exists>r. RawJN_TryParse parse jn = go_ret r" "\<exists>r. RawJDN_TryParse parse jdn = go_ret r"
  "\<exists>r. RawMEM_TryParse parse mem = go_ret r" "\<exists>r. RawRST_TryParse parse rst = go_ret r"
  "\<exists>r. RawJOK_TryParse parse jok = go_ret r" "\<exists>r. RawJNI_TryParse parse jni = go_ret r"
  "\<exists>r. RawSJN_TryParse parse sjn = go_ret r" "\<exists>r. RawCRR_TryParse parse crr = go_ret r"
  "\<exists>r. RawSOA_TryParse parse soa = go_ret r" "\<exists>r. RawSOD_TryParse parse sod = go_ret r"
  unfolding RawJN_TryParse_def RawJDN_TryParse_def RawMEM_TryParse_def RawRST_TryParse_def
    RawJOK_ref RawJNI_ref RawSJN_ref RawCRR_ref RawSOA_ref RawSOD_ref
  by (intro go_try_total; blast)+

lemma receive_as_total:
  assumes "\<And>raw. \<exists>r. tp raw = go_ret r" and "\<And>x. \<not> is_INVAL (wrap x)"
  shows "\<exists>r. receive_as name dec tp wrap b = go_ret r \<and> (\<forall>m. r = Inr m \<longrightarrow> \<not> is_INVAL m)"
proof (cases "\<exists>w raw. b = Some w \<and> dec w = Inr raw")
  case True
  then obtain w raw where "b = Some w" "dec w = Inr raw" by blast
  moreover obtain r where "tp raw = go_ret r" using assms(1) by blast
  ultimately show ?thesis using assms(2) by (cases r) (simp_all add: receive_as_def)
next
  case False
  then show ?thesis by (auto simp: receive_as_def split: option.splits sum.splits)
qed

lemma receive_eof: "receive parse c ty None \<noteq> go_ret (Inr m)"
  by (simp add: receive_def receive_as_def)

lemma receive_total:
  "\<exists>r. receive parse c ty b = go_ret r \<and> (\<forall>m. r = Inr m \<longrightarrow> \<not> is_INVAL m)"
  unfolding receive_def by (auto intro!: receive_as_total RawTryParse_total)

lemma listen_total:
  "\<exists>ms. (listen_loop parse c ws :: ('s, ahmp_message list) go) = go_ret ms
    \<and> (\<forall>m \<in> set (butlast ms). \<not> is_INVAL m) \<and> 2 * length ms \<le> Suc (length ws)"
proof (induction ws rule: length_induct)
  case (1 ws)
  show ?case
  proof (cases "\<exists>t ws' ty. ws = t # ws' \<and> dec_int c t = Inr ty")
    case False
    then show ?thesis by (cases ws) (auto simp: listen_loop.simps(2) split: sum.splits)
  next
    case True
    then obtain t ws' ty where ws: "ws = t # ws'" "dec_int c t = Inr ty" by blast
    obtain r where r: "receive parse c ty (case ws' of [] \<Rightarrow> None | b # _ \<Rightarrow> Some b)
        = (go_ret r :: ('s, string + ahmp_message) go)"
      "\<forall>m. r = Inr m \<longrightarrow> \<not> is_INVAL m"
      using receive_total by blast
    obtain ms where ms: "listen_loop parse c (tl ws') = (go_ret ms :: ('s, ahmp_message list) go)" "\<forall>m \<in> set (butlast ms). \<not> is_INVAL m"
      "2 * length ms \<le> Suc (length (tl ws'))"
    proof -
      have "length (tl ws') < length ws" using ws(1) by simp
      then show ?thesis using 1 that by blast
    qed
    show ?thesis
    proof (cases r)
      case (Inl e)
      then show ?thesis using ws r by (auto simp: listen_loop.simps(2))
    next
      case (Inr m)
      then have "ws' \<noteq> []" using r(1) by (cases ws') (auto simp: receive_eof)
      then have "2 * length (m # ms) \<le> Suc (length ws)" using ms(3) ws(1) by (cases ws') simp_all
      moreover have "listen_loop parse c ws = (go_ret (m # ms) :: ('s, ahmp_message list) go)"
        using ws r(1) ms(1) Inr by (simp add: listen_loop.simps(2))
      moreover have "\<forall>x \<in> set (butlast (m # ms)). \<not> is_INVAL x" using r(2) ms(2) Inr by simp
      ultimately show ?thesis by blast
    qed
  qed
qed

end
