(* ===== verification/Peer_Conn.thy ===== *)
theory Peer_Conn
  imports Wire
begin

text \<open>
  The life of a peer connection: the two handshakes complete in either order and possibly more
  than once, messages are sent, the receiving loop ends. A history of these operations is a run of
  the contract \<open>call_system\<close>; its invariant says which parts of the peer exist in which state, and
  that the peer is published once, when the second direction is connected.
\<close>

section \<open>Operations on a peer\<close>

datatype 'w peer_op =
    FinishInbound "string option" quic_conn "'w list"
  | FinishOutbound "string option" quic_conn "'w list" "UDPAddr list"
  | Send ahmp_send
  | ListenAhmp
  | ActivatePeer time
  | RenewPeer time
  | CancelPeer

text \<open>The state of a history is the peer and the actions that the handshakes asked for so far.\<close>

type_synonym 'w peer_state = "'w ContextedPeer \<times> conn_action list"

definition log_actions ::
    "('w ContextedPeer, conn_action list) go \<Rightarrow> ('w peer_state, unit) go" where
  "log_actions f = (\<lambda>(p, log). case f p of Inl e \<Rightarrow> Inl e | Inr (acts, p') \<Rightarrow> Inr ((), (p', log @ acts)))"

definition no_action :: "('w ContextedPeer, 'a) go \<Rightarrow> ('w ContextedPeer, conn_action list) go" where
  "no_action f = go_bind f (\<lambda>_. go_ret [])"

fun peer_exec :: "uuid_parser \<Rightarrow> 'w wire_env \<Rightarrow> 'w peer_op \<Rightarrow> ('w peer_state, unit) go" where
  "peer_exec parse env (FinishInbound err conn dec) = log_actions (finish_inbound err conn dec)"
| "peer_exec parse env (FinishOutbound err conn enc addrs) = log_actions (finish_outbound err conn enc addrs)"
| "peer_exec parse env (Send m) = log_actions (no_action (Peer_send env m))"
| "peer_exec parse env ListenAhmp = log_actions (no_action (listenAhmp parse (we_cbor env)))"
| "peer_exec parse env (ActivatePeer now) = log_actions (no_action (Activate now))"
| "peer_exec parse env (RenewPeer now) = log_actions (no_action (Renew now))"
| "peer_exec parse env CancelPeer = log_actions (no_action cancelfunc)"

text \<open>Messages are handed to a peer only after it was published; the receiving loop is started only
  by a completed inbound handshake.\<close>

fun peer_op_ok :: "'w wire_env \<Rightarrow> 'w peer_op \<Rightarrow> 'w peer_state \<Rightarrow> bool" where
  "peer_op_ok env (Send m) (p, log) = (sendable env m \<and> Publish \<in> set log)"
| "peer_op_ok env ListenAhmp (p, log) = (Listen \<in> set log)"
| "peer_op_ok env _ _ = True"

definition new_peer :: "PeerIdentity \<Rightarrow> time \<Rightarrow> 'w ContextedPeer" where
  "new_peer ident now = AbyssPeer.extend (NewAbyssPeer ident)
     \<lparr>ctx_Err = None, activity = \<lparr>active_cnt = 0, LastActivity = now\<rparr>\<rparr>"

section \<open>The invariant\<close>

definition parts_ok :: "'w ContextedPeer \<Rightarrow> bool" where
  "parts_ok p \<longleftrightarrow> (inbound_conn p \<noteq> None \<longleftrightarrow> ahmp_decoder p \<noteq> None)
     \<and> (outbound_conn p \<noteq> None \<longleftrightarrow> ahmp_encoder p \<noteq> None)
     \<and> (case ap_state p of
         PNCS_DISCONNECTED \<Rightarrow> inbound_conn p = None \<and> outbound_conn p = None
       | PNCS_INBOUND \<Rightarrow> inbound_conn p \<noteq> None \<and> outbound_conn p = None
       | PNCS_OUTBOUND \<Rightarrow> inbound_conn p = None \<and> outbound_conn p \<noteq> None
       | PNCS_CONNECTED \<Rightarrow> inbound_conn p \<noteq> None \<and> outbound_conn p \<noteq> None
       | PNCS_CLOSED \<Rightarrow> True)"

definition log_ok :: "'w ContextedPeer \<Rightarrow> conn_action list \<Rightarrow> bool" where
  "log_ok p log \<longleftrightarrow> count_list log Publish = (if inbound_conn p \<noteq> None \<and> outbound_conn p \<noteq> None then 1 else 0)
     \<and> count_list log Listen = (if inbound_conn p \<noteq> None then 1 else 0)"

fun peer_inv :: "'w peer_state \<Rightarrow> bool" where
  "peer_inv (p, log) = (parts_ok p \<and> log_ok p log)"

lemma wp_log_actions:
  "wp (log_actions f) Q (p, log) \<longleftrightarrow> wp f (\<lambda>acts p'. Q () (p', log @ acts)) p"
  by (auto simp: wpx_def log_actions_def split: sum.splits)

lemma wp_no_action: "wp (no_action f) Q p \<longleftrightarrow> wp f (\<lambda>_. Q []) p"
  by (simp add: no_action_def wp_rules)

lemma inv_context [simp]:
  "parts_ok (p\<lparr>activity := a\<rparr>) = parts_ok p" "log_ok (p\<lparr>activity := a\<rparr>) log = log_ok p log"
  "parts_ok (p\<lparr>ctx_Err := e\<rparr>) = parts_ok p" "log_ok (p\<lparr>ctx_Err := e\<rparr>) log = log_ok p log"
  by (simp_all add: parts_ok_def log_ok_def cong: PNCState.case_cong)

lemma wpx_bind_fun: "wpx b (go_bind f g) Q = wpx b f (\<lambda>a. wpx b (g a) Q)"
  by (rule ext) (simp add: wpx_bind)

lemmas conn_simps = parts_ok_def log_ok_def wp_rules

lemma finish_inbound_inv:
  "peer_inv (p, log) \<Longrightarrow> wp (finish_inbound err conn dec) (\<lambda>acts p'. peer_inv (p', log @ acts)) p"
  by (cases err; cases "ap_state p") (auto simp: finish_inbound_def fail_peer_def conn_simps)

lemma finish_outbound_inv:
  "peer_inv (p, log) \<Longrightarrow> wp (finish_outbound err conn enc addrs) (\<lambda>acts p'. peer_inv (p', log @ acts)) p"
  by (cases err; cases "ap_state p") (auto simp: finish_outbound_def fail_peer_def conn_simps)

lemma published_both:
  assumes "peer_inv (p, log)" and "Publish \<in> set log"
  shows "inbound_conn p \<noteq> None \<and> outbound_conn p \<noteq> None"
proof -
  have "count_list log Publish \<noteq> 0" using assms(2) by (simp add: count_list_0_iff)
  then show ?thesis using assms(1) by (auto simp: log_ok_def split: if_splits)
qed

lemma listening_inbound:
  assumes "peer_inv (p, log)" and "Listen \<in> set log"
  shows "inbound_conn p \<noteq> None"
proof -
  have "count_list log Listen \<noteq> 0" using assms(2) by (simp add: count_list_0_iff)
  then show ?thesis using assms(1) by (auto simp: log_ok_def split: if_splits)
qed

text \<open>One write, whatever its outcome, keeps the connections of the peer.\<close>

definition published_ok :: "conn_action list \<Rightarrow> 'w ContextedPeer \<Rightarrow> bool" where
  "published_ok log p \<longleftrightarrow> parts_ok p \<and> log_ok p log \<and> inbound_conn p \<noteq> None \<and> outbound_conn p \<noteq> None"

lemma trySend_inv:
  assumes "published_ok log p"
  shows "wp (trySend werr w) (\<lambda>_. published_ok log) p"
proof -
  obtain e where e: "ahmp_encoder p = Some e" using assms by (auto simp: published_ok_def parts_ok_def)
  show ?thesis
    using assms e by (cases "werr (length e)") (auto simp: trySend_def cancelfunc_def published_ok_def conn_simps)
qed

lemma send_inv:
  assumes "peer_inv (p, log)" and "Publish \<in> set log" and "sendable env m"
  shows "wp (Peer_send env m) (\<lambda>_ p'. peer_inv (p', log)) p"
proof -
  have I: "published_ok log p" using assms published_both by (auto simp: published_ok_def)
  then obtain ic where ic: "inbound_conn p = Some ic" by (auto simp: published_ok_def)
  have inv: "published_ok log q \<Longrightarrow> peer_inv (q, log)" for q :: "'a ContextedPeer"
    by (simp add: published_ok_def)
  have "wp (trySend (we_werr env) w) (\<lambda>a. wp (trySend (we_werr env) v) (\<lambda>b p'. peer_inv (p', log))) p" for w v
    by (rule wpx_mono [OF trySend_inv [OF I]], rule wpx_mono [OF trySend_inv]) (assumption, erule inv)
  then show ?thesis
    by (simp add: Peer_send_trySend2 [OF assms(3)] trySend2_def type_code_name wp_rules wpx_bind_fun ic
        del: peer_inv.simps)
qed

lemma listen_inv:
  assumes "peer_inv (p, log)" and "Listen \<in> set log"
  shows "wp (listenAhmp parse c) (\<lambda>_ p'. peer_inv (p', log)) p"
proof -
  have "inbound_conn p \<noteq> None" using listening_inbound [OF assms] .
  then obtain items where items: "ahmp_decoder p = Some items" using assms(1) by (auto simp: parts_ok_def)
  obtain ms where ms: "listen_loop parse c items = (go_ret ms :: ('a ContextedPeer, ahmp_message list) go)"
    using listen_total by blast
  show ?thesis using assms(1) items by (auto simp: listenAhmp_def conn_simps ms)
qed

lemma peer_exec_inv:
  assumes "peer_inv st" and "peer_op_ok env op st"
  shows "wp (peer_exec parse env op) (\<lambda>_. peer_inv) st"
proof -
  obtain p log where st: "st = (p, log)" by (cases st)
  show ?thesis
  proof (cases op)
    case (Send m)
    then show ?thesis using assms send_inv [of p log env m]
      by (simp add: st wp_log_actions wp_no_action)
  next
    case ListenAhmp
    then show ?thesis using assms listen_inv [of p log parse "we_cbor env"]
      by (simp add: st wp_log_actions wp_no_action)
  next
    case (FinishInbound err conn dec)
    then show ?thesis using assms(1) finish_inbound_inv by (simp add: st wp_log_actions del: peer_inv.simps)
  next
    case (FinishOutbound err conn enc addrs)
    then show ?thesis using assms(1) finish_outbound_inv by (simp add: st wp_log_actions del: peer_inv.simps)
  qed (use assms(1) in \<open>simp_all add: st wp_log_actions wp_no_action Activate_def Renew_def cancelfunc_def wp_rules\<close>)
qed

interpretation peer_sys: call_system "peer_exec parse env" "peer_op_ok env" "(new_peer ident now, [])" "\<lambda>_. peer_inv"
proof unfold_locales
  show "peer_inv (new_peer ident now, [])"
    by (simp add: new_peer_def NewAbyssPeer_def AbyssPeer.defs parts_ok_def log_ok_def)
qed (rule peer_exec_inv)

abbreviation peer_runs ::
    "uuid_parser \<Rightarrow> 'w wire_env \<Rightarrow> PeerIdentity \<Rightarrow> time \<Rightarrow> 'w peer_op list \<Rightarrow> 'w peer_state \<Rightarrow> bool" where
  "peer_runs parse env ident now \<equiv> runs (peer_exec parse env) (peer_op_ok env) (new_peer ident now, [])"

section \<open>Closed peers\<close>

text \<open>No operation brings a closed peer back, and none publishes it.\<close>

definition closed_still :: "conn_action list \<Rightarrow> 'w peer_state \<Rightarrow> bool" where
  "closed_still log st \<longleftrightarrow> ap_state (fst st) = PNCS_CLOSED \<and> count_list (snd st) Publish = count_list log Publish"

lemma wlp_raw_sessions: "wlp (go_map (raw_session env) ms) (\<lambda>_ q. q = p) p"
proof (induction ms)
  case (Cons m ms)
  have "wlp (raw_session env m) (\<lambda>_ q. q = p) p"
    by (simp add: raw_session_def wp_rules Let_def split: option.split)
  then have "wlp (raw_session env m) (\<lambda>v. wlp (go_map (raw_session env) ms) (\<lambda>_ q. q = p)) p"
    by (rule wpx_mono) (simp add: Cons.IH)
  then show ?case by (simp add: wp_rules wpx_bind_fun)
qed (simp add: wp_rules)

lemma wlp_trySend2_closed:
  "ap_state p = PNCS_CLOSED \<Longrightarrow> wlp (trySend2 c werr v w) (\<lambda>_ q. q = p) p"
  by (auto simp: trySend2_def trySend_def go_index_def wp_rules split: option.split)

lemma wlp_send_closed:
  assumes "ap_state p = PNCS_CLOSED"
  shows "wlp (Peer_send env m) (\<lambda>_ q. q = p) p"
proof -
  have send: "wlp (trySend2 c werr v w) (\<lambda>_ q. q = p) q" if "q = p" for c werr v w q
    using that wlp_trySend2_closed [OF assms] by simp
  show ?thesis
  proof (cases m)
    case (TrySendJOK l r ts url ms)
    show ?thesis
      by (simp add: TrySendJOK Peer_TrySendJOK_def Filter_go_map wpx_bind)
        (rule wpx_mono [OF wlp_raw_sessions], rule send)
  next
    case (TrySendJNI l r s)
    then show ?thesis using send
      by (auto simp: Peer_TrySendJNI_def raw_session_def wp_rules Let_def split: option.split)
  qed (simp_all add: send Peer_TrySendJN_def Peer_TrySendJDN_def Peer_TrySendMEM_def Peer_TrySendSJN_def
      Peer_TrySendCRR_def Peer_TrySendRST_def Peer_TrySendSOA_def Peer_TrySendSOD_def)
qed

lemma wlp_log_actions:
  "wlp (log_actions f) Q (p, log) \<longleftrightarrow> wlp f (\<lambda>acts p'. Q () (p', log @ acts)) p"
  by (auto simp: wpx_def log_actions_def split: sum.splits)

lemma wlp_no_action: "wlp (no_action f) Q p \<longleftrightarrow> wlp f (\<lambda>_. Q []) p"
  by (simp add: no_action_def wp_rules)

lemma closed_peer_exec:
  assumes "ap_state p = PNCS_CLOSED"
  shows "wlp (peer_exec parse env op) (\<lambda>_. closed_still log) (p, log)"
proof (cases op)
  case (Send m)
  then show ?thesis
    by (simp add: wlp_log_actions wlp_no_action)
      (rule wpx_mono [OF wlp_send_closed [OF assms]], simp add: closed_still_def assms)
next
  case ListenAhmp
  then show ?thesis
    by (auto simp: wlp_log_actions wlp_no_action listenAhmp_def wp_rules closed_still_def
        go_bind_def go_modify_def split: option.split intro!: wlpI)
next
  case (FinishInbound err conn dec)
  then show ?thesis using assms
    by (cases err) (auto simp: wlp_log_actions finish_inbound_def fail_peer_def wp_rules closed_still_def)
next
  case (FinishOutbound err conn enc addrs)
  then show ?thesis using assms
    by (cases err) (auto simp: wlp_log_actions finish_outbound_def fail_peer_def wp_rules closed_still_def)
qed (use assms in \<open>simp_all add: wlp_log_actions wlp_no_action Activate_def Renew_def cancelfunc_def wp_rules closed_still_def\<close>)

end
