(* ===== verification/Peer_Map.thy ===== *)
theory Peer_Map
  imports Peer_Conn
begin

text \<open>
  The table of known peers and the timeouts, \<open>net_service/peer_context.go\<close>. A peer object is
  referred to by its identity hash, the key it has in the table: an entry is never replaced or
  removed. A waiter is a caller of \<open>Wait\<close> that found no entry; a peer that is delivered to its
  channel is recorded in \<open>delivered\<close>. The loops over the maps visit each entry once and change
  only that entry, so they are stated for every entry at once.
\<close>

definition minute :: int where "minute = 60 * 1000000000"

definition INACTIVE_TIMEOUT_MIMUTE :: int where "INACTIVE_TIMEOUT_MIMUTE = minute * 5"
definition ACTIVE_TIMEOUT_MINUTE :: int where "ACTIVE_TIMEOUT_MINUTE = minute * 180"

section \<open>The table\<close>

record ContextedPeerWaiterInfo =
  waiter_id :: nat
  waiter_ctx_Err :: "string option"

record 'w ContextedPeerMap =
  pm_peers :: "hash \<rightharpoonup> 'w ContextedPeer"
  pm_waiters :: "hash \<rightharpoonup> ContextedPeerWaiterInfo list"
  delivered :: "(nat \<times> hash) list"

definition NewContextedPeerMap :: "'w ContextedPeerMap" where
  "NewContextedPeerMap = \<lparr>pm_peers = Map.empty, pm_waiters = Map.empty, delivered = []\<rparr>"

text \<open>One round of the cleaner.\<close>

definition clean_peer :: "time \<Rightarrow> 'w ContextedPeer \<Rightarrow> 'w ContextedPeer" where
  "clean_peer t_now p = (if ctx_Err p \<noteq> None then p
     else let age = t_now - LastActivity (activity p) in
       if age > ACTIVE_TIMEOUT_MINUTE
          \<or> active_cnt (activity p) = 0 \<and> age > INACTIVE_TIMEOUT_MIMUTE
       then p\<lparr>ctx_Err := Some ''context canceled''\<rparr> else p)"

definition clean_waiters :: "ContextedPeerWaiterInfo list \<Rightarrow> ContextedPeerWaiterInfo list option" where
  "clean_waiters wait_group = (let live = filter (\<lambda>w. waiter_ctx_Err w = None) wait_group in
     if live = [] then None else Some live)"

definition PeerMap_Cleaner :: "time \<Rightarrow> ('w ContextedPeerMap, unit) go" where
  "PeerMap_Cleaner t_now = go_modify (\<lambda>m. m\<lparr>
     pm_peers := (\<lambda>i. map_option (clean_peer t_now) (pm_peers m i)),
     pm_waiters := (\<lambda>i. Option.bind (pm_waiters m i) clean_waiters)\<rparr>)"

text \<open>\<open>Append\<close> makes a context under the given one: if that has been cancelled, the new one is
  cancelled too. The channel of a waiter has room for one peer, and the waiter is forgotten after
  the delivery, so the send does not block.\<close>

definition Append :: "string option \<Rightarrow> time \<Rightarrow> hash \<Rightarrow> 'w AbyssPeer \<Rightarrow> ('w ContextedPeerMap, hash option) go" where
  "Append ctx now i peer = go_bind (go_read (\<lambda>m. pm_peers m i)) (\<lambda>entry. case entry of
     Some _ \<Rightarrow> go_ret None
   | None \<Rightarrow>
       let result = AbyssPeer.extend peer \<lparr>ctx_Err = ctx, activity = \<lparr>active_cnt = 0, LastActivity = now\<rparr>\<rparr> in
       go_bind (go_modify (\<lambda>m. m\<lparr>pm_peers := (pm_peers m)(i \<mapsto> result)\<rparr>)) (\<lambda>_.
       go_bind (go_read (\<lambda>m. pm_waiters m i)) (\<lambda>ws. case ws of
         None \<Rightarrow> go_ret (Some i)
       | Some waiters \<Rightarrow> go_bind (go_modify (\<lambda>m. m\<lparr>
             delivered := delivered m @ map (\<lambda>w. (waiter_id w, i)) waiters,
             pm_waiters := (pm_waiters m)(i := None)\<rparr>)) (\<lambda>_. go_ret (Some i)))))"

definition Find :: "time \<Rightarrow> hash \<Rightarrow> ('w ContextedPeerMap, 'w ContextedPeer option) go" where
  "Find now i = go_bind (go_read (\<lambda>m. pm_peers m i)) (\<lambda>entry. case entry of
     None \<Rightarrow> go_ret None
   | Some info \<Rightarrow> (case Renew now info of
       Inl e \<Rightarrow> go_panic e
     | Inr (_, info') \<Rightarrow> go_bind (go_modify (\<lambda>m. m\<lparr>pm_peers := (pm_peers m)(i \<mapsto> info')\<rparr>)) (\<lambda>_.
         go_ret (Some info'))))"

text \<open>The first half of \<open>Wait\<close>, under the lock: the peer, or a new waiter. The second half waits for
  the context of the caller or for the delivery; when both are there, either may be taken.\<close>

definition Wait_register :: "string option \<Rightarrow> nat \<Rightarrow> hash \<Rightarrow> ('w ContextedPeerMap, 'w ContextedPeer option) go" where
  "Wait_register ctx wid i = go_bind (go_read (\<lambda>m. pm_peers m i)) (\<lambda>entry. case entry of
     Some info \<Rightarrow> go_ret (Some info)
   | None \<Rightarrow> go_bind (go_modify (\<lambda>m. m\<lparr>pm_waiters := (pm_waiters m)(i \<mapsto>
         (case pm_waiters m i of None \<Rightarrow> [] | Some ws \<Rightarrow> ws) @ [\<lparr>waiter_id = wid, waiter_ctx_Err = ctx\<rparr>])\<rparr>)) (\<lambda>_.
       go_ret None))"

definition Wait_select :: "string option \<Rightarrow> nat \<Rightarrow> 'w ContextedPeerMap \<Rightarrow> string + hash \<Rightarrow> bool" where
  "Wait_select ctx wid m r = (case r of Inl e \<Rightarrow> ctx = Some e | Inr i \<Rightarrow> (wid, i) \<in> set (delivered m))"

section \<open>Timeout groups\<close>

record ContextPack =
  cp_ctx_Err :: "string option"
  cp_timestamp :: time

definition NewTimeoutContextGroup :: "ContextPack list" where
  "NewTimeoutContextGroup = []"

text \<open>One round: the elements that stay, and the elements that are cancelled.\<close>

definition group_expired :: "int \<Rightarrow> time \<Rightarrow> ContextPack \<Rightarrow> bool" where
  "group_expired timeout t_now e \<longleftrightarrow> cp_ctx_Err e = None \<and> cp_timestamp e - t_now > timeout"

definition Group_Cleaner :: "int \<Rightarrow> time \<Rightarrow> ContextPack list \<Rightarrow> ContextPack list \<times> ContextPack list" where
  "Group_Cleaner timeout t_now elem =
     (filter (\<lambda>e. cp_ctx_Err e = None \<and> \<not> group_expired timeout t_now e) elem,
      filter (group_expired timeout t_now) elem)"

definition Instanciate :: "string option \<Rightarrow> time \<Rightarrow> ContextPack list \<Rightarrow> ContextPack list" where
  "Instanciate background_ctx now elem = elem @ [\<lparr>cp_ctx_Err = background_ctx, cp_timestamp = now\<rparr>]"

section \<open>The contract of the table\<close>

text \<open>What users of the table rely on: an entry, once made, is found; a second entry under the same
  hash is refused; other entries are not touched.\<close>

locale peer_table =
  fixes lookup :: "'t \<Rightarrow> hash \<rightharpoonup> 'p"
    and add :: "hash \<Rightarrow> 'n \<Rightarrow> ('t, hash option) go"
  assumes add_new: "lookup t i = None \<Longrightarrow>
      wp (add i p) (\<lambda>r t'. r = Some i \<and> lookup t' i \<noteq> None \<and> (\<forall>j. j \<noteq> i \<longrightarrow> lookup t' j = lookup t j)) t"
    and add_known: "lookup t i \<noteq> None \<Longrightarrow> add i p t = Inr (None, t)"
begin

lemma add_wp: "wp (add i p) (\<lambda>r t'. lookup t' i \<noteq> None \<and> (\<forall>j q. lookup t j = Some q \<longrightarrow> lookup t' j = Some q)) t"
proof (cases "lookup t i = None")
  case True
  show ?thesis by (rule wpx_mono [OF add_new [OF True]]) (metis True option.distinct(1))
next
  case False
  then show ?thesis by (simp add: wpx_def add_known)
qed

lemma add_returns: "\<exists>r t'. add i p t = Inr (r, t') \<and> lookup t' i \<noteq> None"
  using wp_returns [OF add_wp] by blast

lemma add_keeps: "add i p t = Inr (r, t') \<Longrightarrow> lookup t j = Some q \<Longrightarrow> lookup t' j = Some q"
  using wpx_result [OF add_wp] by blast

lemma add_twice: "add i p t = Inr (r, t') \<Longrightarrow> add i q t' = Inr (None, t')"
  using wpx_result [OF add_wp] add_known by blast

end

interpretation peer_map: peer_table pm_peers "Append ctx now"
  by unfold_locales (auto simp: Append_def wp_rules go_bind_def go_read_def go_ret_def Let_def split: option.split)

section \<open>Facts\<close>

lemma Append_delivers:
  assumes "pm_peers m i = None" and "Append ctx now i peer m = Inr (r, m')"
  shows "r = Some i \<and> pm_waiters m' i = None
    \<and> delivered m' = delivered m @ map (\<lambda>w. (waiter_id w, i)) (case pm_waiters m i of None \<Rightarrow> [] | Some ws \<Rightarrow> ws)"
  using assms
  by (auto simp: Append_def go_bind_def go_read_def go_modify_def go_ret_def Let_def split: option.splits)

lemma clean_keeps_count: "activity (clean_peer t p) = activity p"
  by (simp add: clean_peer_def Let_def)

lemma Group_Cleaner_idle:
  assumes "0 \<le> timeout" and "\<forall>e \<in> set elem. cp_timestamp e \<le> t_now"
  shows "snd (Group_Cleaner timeout t_now elem) = []"
  using assms by (auto simp: Group_Cleaner_def group_expired_def filter_empty_conv)

end
