(* ===== verification/Net_Service.thy ===== *)
theory Net_Service
  imports Peer_Map
begin

text \<open>
  The network service, \<open>net_service/net_service.go\<close>, \<open>abyss_inbound.go\<close>, \<open>abyss_outbound.go\<close>, and
  the address selector, \<open>address_selector.go\<close>. The results of the calls to the QUIC transport and
  the CBOR library during a handshake are an argument of the handshake (\<open>inbound_env\<close>,
  \<open>outbound_env\<close>). A handshake is atomic in the model: the code holds the lock of the peer only
  while its deferred function runs, which is the only part that changes the peer.
\<close>

section \<open>The address selector\<close>

record BetaAddressSelector =
  localPrivateAddr :: bytes
  localPublicAddr :: bytes

definition IPv4zero :: bytes where "IPv4zero = IPv4 0 0 0 0"
definition IPv4bcast :: bytes where "IPv4bcast = IPv4 255 255 255 255"

definition IsLoopback :: "bytes \<Rightarrow> bool" where
  "IsLoopback ip = (case To4 ip of Some p \<Rightarrow> p ! 0 = 127 | None \<Rightarrow> ip = replicate 15 0 @ [1])"

definition IsLinkLocalUnicast :: "bytes \<Rightarrow> bool" where
  "IsLinkLocalUnicast ip = (case To4 ip of
     Some p \<Rightarrow> p ! 0 = 169 \<and> p ! 1 = 254
   | None \<Rightarrow> length ip = 16 \<and> ip ! 0 = 0xFE \<and> unat (ip ! 1) div 64 = 2)"

text \<open>The interfaces of the machine: for each, an error or its addresses; an address of another kind
  has no IP.\<close>

primrec usable_address :: "bytes option list \<Rightarrow> bytes option" where
  "usable_address [] = None"
| "usable_address (a # addrs) = (case a of
     None \<Rightarrow> usable_address addrs
   | Some ip \<Rightarrow> if IsLoopback ip \<or> To4 ip = None \<or> IsLinkLocalUnicast ip then usable_address addrs else Some ip)"

primrec first_usable :: "(string + bytes option list) list \<Rightarrow> string + BetaAddressSelector" where
  "first_usable [] = Inl ''no network interface available''"
| "first_usable (i # is) = (case i of
     Inl err \<Rightarrow> Inl err
   | Inr addrs \<Rightarrow> (case usable_address addrs of
       Some ip \<Rightarrow> Inr \<lparr>localPrivateAddr = ip, localPublicAddr = IPv4zero\<rparr>
     | None \<Rightarrow> first_usable is))"

definition NewBetaAddressSelector ::
    "(string + (string + bytes option list) list) \<Rightarrow> string + BetaAddressSelector" where
  "NewBetaAddressSelector interfaces = (case interfaces of Inl err \<Rightarrow> Inl err | Inr ifs \<Rightarrow> first_usable ifs)"

definition SetPublicIP :: "bytes \<Rightarrow> BetaAddressSelector \<Rightarrow> BetaAddressSelector" where
  "SetPublicIP ip s = s\<lparr>localPublicAddr := ip\<rparr>"

text \<open>The variables of the loop: the public addresses, the loopback address, the private address.\<close>

type_synonym candidates = "UDPAddr list \<times> UDPAddr option \<times> UDPAddr option"

definition sort_address :: "BetaAddressSelector \<Rightarrow> UDPAddr \<Rightarrow> candidates \<Rightarrow> ('s, candidates) go" where
  "sort_address s address = (\<lambda>(public, loopback, private).
     if IP_Equal (IP address) IPv4zero \<or> IP_Equal (IP address) IPv4bcast then go_ret (public, loopback, private)
     else if IP_Equal (IP address) [127, 0, 0, 1] then go_ret (public, Some address, private)
     else go_bind (go_index 0 (IP address)) (\<lambda>b0.
       go_bind (if b0 = 192 then go_bind (go_index 1 (IP address)) (\<lambda>b1. go_ret (b1 = 168)) else go_ret False)
         (\<lambda>is_private.
       if is_private then go_ret (public, loopback, Some address)
       else if IP_Equal (IP address) (localPublicAddr s) then go_ret (public, loopback, private)
       else go_ret (public @ [address], loopback, private))))"

definition FilterAddressCandidates :: "BetaAddressSelector \<Rightarrow> UDPAddr list \<Rightarrow> ('s, UDPAddr list) go" where
  "FilterAddressCandidates s addrs =
     go_bind (go_fold addrs (sort_address s) ([], None, None)) (\<lambda>(public, loopback, private).
     if public = [] then
       (case private of
          Some a \<Rightarrow> if \<not> IP_Equal (IP a) (localPrivateAddr s) then go_ret [a]
            else (case loopback of Some l \<Rightarrow> go_ret [l] | None \<Rightarrow> go_ret [])
        | None \<Rightarrow> (case loopback of Some l \<Rightarrow> go_ret [l] | None \<Rightarrow> go_ret []))
     else go_ret public)"

section \<open>The service\<close>

record 'w BetaNetService =
  ns_ctx_Err :: "string option"
  localIdentity :: RootSecrets
  local_aurl :: AURL
  addressSelector :: BetaAddressSelector
  tlsIdentity :: TLSIdentity
  ns_peers :: "'w ContextedPeerMap"
  abyssPeerCH :: "hash list"
  ns_actions :: "(hash \<times> conn_action) list"

definition at_peers :: "('w ContextedPeerMap, 'a) go \<Rightarrow> ('w BetaNetService, 'a) go" where
  "at_peers = go_zoom ns_peers (\<lambda>m h. h\<lparr>ns_peers := m\<rparr>)"

text \<open>Run the deferred function of a handshake on a peer of the table: publishing puts the peer on
  the channel of connected peers, the other actions are recorded.\<close>

definition at_peer ::
    "hash \<Rightarrow> ('w ContextedPeer, conn_action list) go \<Rightarrow> ('w BetaNetService, unit) go" where
  "at_peer i f = go_bind (go_read (\<lambda>h. pm_peers (ns_peers h) i)) (\<lambda>entry.
     go_bind (go_nonnil entry) (\<lambda>p. case f p of
       Inl e \<Rightarrow> go_panic e
     | Inr (acts, p') \<Rightarrow> go_modify (\<lambda>h. h\<lparr>
         ns_peers := (ns_peers h)\<lparr>pm_peers := (pm_peers (ns_peers h))(i \<mapsto> p')\<rparr>,
         abyssPeerCH := abyssPeerCH h @ (if Publish \<in> set acts then [i] else []),
         ns_actions := ns_actions h @ map (\<lambda>a. (i, a)) acts\<rparr>)))"

text \<open>The own URL: the private address and the loopback address, with the port of the UDP socket.\<close>

definition local_url_text :: "hash \<Rightarrow> bytes \<Rightarrow> int \<Rightarrow> string" where
  "local_url_text peer_hash ip port = (let local_port = Itoa port in
     ''abyss:'' @ peer_hash @ '':'' @ IP_String ip @ '':'' @ local_port @ ''|127.0.0.1:'' @ local_port)"

definition new_service ::
    "RootSecrets \<Rightarrow> AURL \<Rightarrow> BetaAddressSelector \<Rightarrow> TLSIdentity \<Rightarrow> 'w BetaNetService" where
  "new_service root_secret url address_selector tls_identity =
     \<lparr>ns_ctx_Err = None, localIdentity = root_secret, local_aurl = url,
      addressSelector = address_selector, tlsIdentity = tls_identity,
      ns_peers = NewContextedPeerMap, abyssPeerCH = [], ns_actions = []\<rparr>"

definition NewBetaNetService ::
    "crypto \<Rightarrow> root_random \<Rightarrow> tls_random \<Rightarrow> (string + int) \<Rightarrow> PrivateKey \<Rightarrow> BetaAddressSelector \<Rightarrow>
     ('s, string + 'w BetaNetService) go" where
  "NewBetaNetService cr rr tr udp_port local_private_key address_selector =
     go_try (NewRootIdentity cr rr local_private_key) (\<lambda>root_secret.
     go_try (NewTLSIdentity cr tr root_secret) (\<lambda>tls_identity.
     go_try (go_ret udp_port) (\<lambda>port.
     go_try (TryParse (local_url_text (rs_root_id_hash root_secret) (localPrivateAddr address_selector) port)) (\<lambda>url.
     go_ret (Inr (new_service root_secret url address_selector tls_identity))))))"

text \<open>The check of the TLS certificates of a connection.\<close>

definition VerifyConnection :: "crypto \<Rightarrow> Certificate list \<Rightarrow> ('s, string option) go" where
  "VerifyConnection cr certs = (if length certs > 1 then go_ret (Some ''too many TLS peer certificate'')
     else go_bind (go_index 0 certs) (\<lambda>cert. case CheckSignatureFrom cr cert cert of
       Some err \<Rightarrow> go_ret (Some (''TLS Verify Failed'' @ [CHR 0x0A] @ err))
     | None \<Rightarrow> go_ret None))"

section \<open>Known peers\<close>

definition AppendKnownPeerDer :: "crypto \<Rightarrow> time \<Rightarrow> bytes \<Rightarrow> bytes \<Rightarrow> ('w BetaNetService, string option) go" where
  "AppendKnownPeerDer cr now root_cert hs_cert =
     go_bind (NewPeerIdentity cr root_cert hs_cert) (\<lambda>r. case r of
       Inl err \<Rightarrow> go_ret (Some err)
     | Inr peer_identity \<Rightarrow> go_bind (go_read ns_ctx_Err) (\<lambda>ctx.
         go_bind (at_peers (Append ctx now (root_id_hash peer_identity) (NewAbyssPeer peer_identity))) (\<lambda>_.
         go_ret None)))"

definition AppendKnownPeer :: "crypto \<Rightarrow> time \<Rightarrow> string \<Rightarrow> string \<Rightarrow> ('w BetaNetService, string option) go" where
  "AppendKnownPeer cr now root_cert hs_cert = (case pem_Decode cr root_cert of
     None \<Rightarrow> go_ret (Some ''failed to parse peer certificates'')
   | Some root_der \<Rightarrow> (case pem_Decode cr hs_cert of
       None \<Rightarrow> go_ret (Some ''failed to parse peer certificates'')
     | Some hs_der \<Rightarrow> AppendKnownPeerDer cr now root_der hs_der))"

section \<open>Inbound connections\<close>

record inbound_env =
  ie_conn :: quic_conn
  ie_tls_certs :: "Certificate list"
  ie_accept :: "string option"
  ie_handshake_1 :: "string + bytes"
  ie_unmarshal :: "bytes \<Rightarrow> string + bytes"
  ie_encode :: "string option"

text \<open>The handshake up to the lookup of the peer: \<open>None\<close> when the code returns without a target, the
  claimed hash and the binding certificate otherwise. The code then waits until the peer is known
  or the service ends; the table below is the one at that moment.\<close>

definition inbound_claim ::
    "crypto \<Rightarrow> RootSecrets \<Rightarrow> inbound_env \<Rightarrow> ('s, string + (hash \<times> Certificate)) go" where
  "inbound_claim cr ident ie =
     go_bind (go_index 0 (ie_tls_certs ie)) (\<lambda>_.
     go_try (go_ret (case ie_accept ie of Some e \<Rightarrow> Inl e | None \<Rightarrow> Inr ())) (\<lambda>_.
     go_try (go_ret (ie_handshake_1 ie)) (\<lambda>handshake_1_raw.
     go_try (DecryptHandshake cr ident handshake_1_raw) (\<lambda>handshake_1.
     go_try (go_ret (ie_unmarshal ie handshake_1)) (\<lambda>bind_cert.
     go_try (go_ret (ParseCertificate cr bind_cert)) (\<lambda>bind_x509.
     go_ret (Inr (Issuer bind_x509, bind_x509))))))))"

definition inbound_verify ::
    "crypto \<Rightarrow> inbound_env \<Rightarrow> PeerIdentity \<Rightarrow> Certificate \<Rightarrow> ('s, string option) go" where
  "inbound_verify cr ie ident bind_x509 =
     go_bind (go_index 0 (ie_tls_certs ie)) (\<lambda>client_tls_cert.
     go_bind (VerifyTLSBinding cr ident bind_x509 client_tls_cert) (\<lambda>v. case v of
       Some err \<Rightarrow> go_ret (Some err)
     | None \<Rightarrow> go_ret (ie_encode ie)))"

definition PrepareAbyssInbound ::
    "crypto \<Rightarrow> inbound_env \<Rightarrow> 'w list \<Rightarrow> ('w BetaNetService, unit) go" where
  "PrepareAbyssInbound cr ie stream =
     go_bind (go_read localIdentity) (\<lambda>ident.
     go_bind (inbound_claim cr ident ie) (\<lambda>claim. case claim of
       Inl err \<Rightarrow> go_ret ()
     | Inr (peer_hash, bind_x509) \<Rightarrow>
         go_bind (go_read (\<lambda>h. pm_peers (ns_peers h) peer_hash)) (\<lambda>entry. case entry of
           None \<Rightarrow> go_ret ()
         | Some target \<Rightarrow> go_bind (inbound_verify cr ie (identity target) bind_x509) (\<lambda>err.
             at_peer peer_hash (finish_inbound err (ie_conn ie) stream)))))"

section \<open>Outbound connections\<close>

record outbound_env =
  oe_dial :: "UDPAddr \<Rightarrow> string + quic_conn"
  oe_tls_certs :: "Certificate list"
  oe_open :: "string option"
  oe_marshal :: "string + bytes"
  oe_key :: "string + bytes"
  oe_nonce :: "string + bytes"
  oe_encode :: "string option"
  oe_handshake_2 :: "string + bytes"

text \<open>The outcome of the handshake: the value of the variable \<open>err\<close> that the deferred function sees,
  and the connection. The errors of the last two steps are assigned to variables that shadow it:
  a second handshake message that cannot be read and a certificate that does not verify leave
  \<open>err\<close> nil. A certificate that does not parse is nil, and verifying it panics.\<close>

definition outbound_handshake ::
    "crypto \<Rightarrow> outbound_env \<Rightarrow> PeerIdentity \<Rightarrow> UDPAddr \<Rightarrow> ('s, string + quic_conn) go" where
  "outbound_handshake cr oe ident address =
     go_try (go_ret (oe_dial oe address)) (\<lambda>connection.
     go_bind (go_index 0 (oe_tls_certs oe)) (\<lambda>client_tls_cert.
     go_try (go_ret (case oe_open oe of Some e \<Rightarrow> Inl e | None \<Rightarrow> Inr ())) (\<lambda>_.
     go_try (go_ret (oe_marshal oe)) (\<lambda>buf.
     go_try (EncryptHandshake cr (oe_key oe) (oe_nonce oe) ident buf) (\<lambda>payload.
     go_try (go_ret (case oe_encode oe of Some e \<Rightarrow> Inl e | None \<Rightarrow> Inr ())) (\<lambda>_.
     case oe_handshake_2 oe of
       Inl _ \<Rightarrow> go_ret (Inr connection)
     | Inr handshake_2 \<Rightarrow> (case ParseCertificate cr handshake_2 of
         Inl _ \<Rightarrow> go_panic NilDeref
       | Inr cert \<Rightarrow> go_bind (VerifyTLSBinding cr ident cert client_tls_cert) (\<lambda>_.
           go_ret (Inr connection)))))))))"

definition PrepareAbyssOutbound ::
    "crypto \<Rightarrow> outbound_env \<Rightarrow> hash \<Rightarrow> UDPAddr list \<Rightarrow> 'w list \<Rightarrow> ('w BetaNetService, unit) go" where
  "PrepareAbyssOutbound cr oe i addrs stream =
     go_bind (go_read addressSelector) (\<lambda>sel.
     go_bind (FilterAddressCandidates sel addrs) (\<lambda>address_selected.
     go_bind (go_index 0 address_selected) (\<lambda>address.
     go_bind (go_read (\<lambda>h. pm_peers (ns_peers h) i)) (\<lambda>entry.
     go_bind (go_nonnil entry) (\<lambda>target.
     go_bind (outbound_handshake cr oe (identity target) address) (\<lambda>r. case r of
       Inl err \<Rightarrow> at_peer i (fail_peer err)
     | Inr connection \<Rightarrow> at_peer i (finish_outbound None connection stream addrs)))))))"

text \<open>\<open>ConnectAbyssAsync\<close> checks the URL and looks the peer up; the outbound handshake runs in a
  goroutine of its own, with the addresses that \<open>Inr\<close> carries.\<close>

definition ConnectAbyssAsync ::
    "time \<Rightarrow> AURL \<Rightarrow> ('w BetaNetService, string + (hash \<times> UDPAddr list)) go" where
  "ConnectAbyssAsync now url = (if Scheme url \<noteq> ''abyss'' then go_ret (Inl ''url scheme mismatch'')
     else go_bind (go_read addressSelector) (\<lambda>sel.
       go_bind (FilterAddressCandidates sel (Addresses url)) (\<lambda>candidate_addresses.
       if candidate_addresses = [] then go_ret (Inl ''no valid IP address'')
       else go_bind (at_peers (Find now (Hash url))) (\<lambda>peer. case peer of
         None \<Rightarrow> go_ret (Inl ''unknown peer'')
       | Some _ \<Rightarrow> go_ret (Inr (Hash url, candidate_addresses))))))"

text \<open>\<open>ConnectAbyst\<close> up to the dialing of the address it returns.\<close>

definition ConnectAbyst :: "time \<Rightarrow> hash \<Rightarrow> ('w BetaNetService, string + UDPAddr) go" where
  "ConnectAbyst now peer_hash = go_bind (go_read localIdentity) (\<lambda>ident.
     if peer_hash = rs_root_id_hash ident then
       go_bind (go_read local_aurl) (\<lambda>url.
       go_bind (go_index (int (length (Addresses url)) - 1) (Addresses url)) (\<lambda>a. go_ret (Inr a)))
     else go_bind (at_peers (Find now peer_hash)) (\<lambda>peer. case peer of
       None \<Rightarrow> go_ret (Inl ''no abyss connection'')
     | Some p \<Rightarrow> if ap_state p \<noteq> PNCS_CONNECTED then go_ret (Inl ''abyss connection closed and not reconnected'')
         else go_bind (go_nonnil (outbound_conn p)) (\<lambda>conn. go_ret (Inr (RemoteAddr conn)))))"


section \<open>The address filter\<close>

definition ip_ok :: "UDPAddr \<Rightarrow> bool" where
  "ip_ok a \<longleftrightarrow> 2 \<le> length (IP a)"

datatype address_kind = A_Ignored | A_Loopback | A_Private | A_Public

definition address_kind :: "BetaAddressSelector \<Rightarrow> UDPAddr \<Rightarrow> address_kind" where
  "address_kind s a =
     (if IP_Equal (IP a) IPv4zero \<or> IP_Equal (IP a) IPv4bcast then A_Ignored
      else if IP_Equal (IP a) [127, 0, 0, 1] then A_Loopback
      else if IP a ! 0 = 192 \<and> IP a ! 1 = 168 then A_Private
      else if IP_Equal (IP a) (localPublicAddr s) then A_Ignored
      else A_Public)"

lemma sort_address_kind:
  assumes "ip_ok a"
  shows "sort_address s a (pub, loopback, priv) = go_ret (case address_kind s a of
     A_Ignored \<Rightarrow> (pub, loopback, priv) | A_Loopback \<Rightarrow> (pub, Some a, priv)
   | A_Private \<Rightarrow> (pub, loopback, Some a) | A_Public \<Rightarrow> (pub @ [a], loopback, priv))"
  using assms by (auto simp: sort_address_def address_kind_def go_index_def ip_ok_def)

text \<open>The last address of a kind.\<close>

definition last_of :: "('a \<Rightarrow> bool) \<Rightarrow> 'a option \<Rightarrow> 'a list \<Rightarrow> 'a option" where
  "last_of P d xs = fold (\<lambda>x r. if P x then Some x else r) xs d"

lemma last_of_simps [simp]:
  "last_of P d [] = d" "last_of P d (x # xs) = last_of P (if P x then Some x else d) xs"
  by (simp_all add: last_of_def)

lemma last_of_mem: "last_of P d xs = Some a \<Longrightarrow> d = Some a \<or> a \<in> set xs \<and> P a"
  by (induction xs arbitrary: d) (auto split: if_splits)

lemma sort_addresses:
  assumes "list_all ip_ok as"
  shows "go_fold as (sort_address s) (pub, loopback, priv)
    = go_ret (pub @ filter (\<lambda>a. address_kind s a = A_Public) as,
        last_of (\<lambda>a. address_kind s a = A_Loopback) loopback as,
        last_of (\<lambda>a. address_kind s a = A_Private) priv as)"
  using assms
  by (induction as arbitrary: pub loopback priv)
    (auto simp: sort_address_kind split: address_kind.split)

definition candidates_ref :: "BetaAddressSelector \<Rightarrow> UDPAddr list \<Rightarrow> UDPAddr list" where
  "candidates_ref s as =
     (let pub = filter (\<lambda>a. address_kind s a = A_Public) as;
          loopback = last_of (\<lambda>a. address_kind s a = A_Loopback) None as;
          priv = last_of (\<lambda>a. address_kind s a = A_Private) None as in
      if pub \<noteq> [] then pub
      else (case priv of
          Some a \<Rightarrow> if \<not> IP_Equal (IP a) (localPrivateAddr s) then [a] else (case loopback of Some l \<Rightarrow> [l] | None \<Rightarrow> [])
        | None \<Rightarrow> (case loopback of Some l \<Rightarrow> [l] | None \<Rightarrow> [])))"

lemma FilterAddressCandidates_ref:
  "list_all ip_ok as \<Longrightarrow> FilterAddressCandidates s as = go_ret (candidates_ref s as)"
  by (auto simp: FilterAddressCandidates_def candidates_ref_def sort_addresses Let_def split: option.split)

lemma candidates_subset: "set (candidates_ref s as) \<subseteq> set as"
  by (auto simp: candidates_ref_def Let_def dest!: last_of_mem last_of_mem [OF sym]
      split: option.splits if_splits)

lemma candidates_idem: "candidates_ref s (candidates_ref s as) = candidates_ref s as"
proof -
  have kinds: "address_kind s a = A_Private" if "last_of (\<lambda>a. address_kind s a = A_Private) None as = Some a" for a
    using last_of_mem [OF that] by simp
  have kindl: "address_kind s a = A_Loopback" if "last_of (\<lambda>a. address_kind s a = A_Loopback) None as = Some a" for a
    using last_of_mem [OF that] by simp
  show ?thesis
  proof (cases "filter (\<lambda>a. address_kind s a = A_Public) as = []")
    case True
    then show ?thesis
      by (auto simp: candidates_ref_def Let_def dest: kinds kindl split: option.splits)
  next
    case False
    then show ?thesis by (simp add: candidates_ref_def)
  qed
qed

lemma address_kind_16:
  assumes "length (IP a) = 16" and "take 12 (IP a) = v4InV6Prefix"
  shows "address_kind s a \<noteq> A_Private"
proof -
  have "IP a ! 0 = take 12 (IP a) ! 0" using assms(1) by simp
  then have "IP a ! 0 = 0" by (simp add: assms(2) v4InV6Prefix_def nth_append)
  then show ?thesis by (auto simp: address_kind_def)
qed

end
