(* ===== verification/Net_Inv.thy ===== *)
theory Net_Inv
  imports Net_Service
begin

text \<open>
  Histories of the network service: known peers are added, handshakes complete in both directions,
  messages are sent, the cleaner runs. Some of these calls may panic on what a remote host sends,
  so the service meets the weaker contract \<open>safe_system\<close>. Its invariant: a peer is filed under the
  hash of its identity, its parts fit its state, its activity count is not negative, and the
  channel of connected peers carries every fully connected peer exactly once.
\<close>

section \<open>Operations\<close>

datatype 'w net_op =
    Op_AppendKnownPeer time string string
  | Op_AppendKnownPeerDer time bytes bytes
  | Op_Inbound inbound_env "'w list"
  | Op_Outbound outbound_env hash "UDPAddr list" "'w list"
  | Op_ConnectAbyssAsync time AURL
  | Op_ConnectAbyst time hash
  | Op_Cleaner time
  | Op_Send hash ahmp_send
  | Op_Listen hash
  | Op_Activate hash time
  | Op_Renew hash time
  | Op_Deactivate hash time

definition go_ignore :: "('s, 'a) go \<Rightarrow> ('s, unit) go" where
  "go_ignore f = go_bind f (\<lambda>_. go_ret ())"

fun net_exec :: "crypto \<Rightarrow> uuid_parser \<Rightarrow> 'w wire_env \<Rightarrow> 'w net_op \<Rightarrow> ('w BetaNetService, unit) go" where
  "net_exec cr parse env (Op_AppendKnownPeer now root hs) = go_ignore (AppendKnownPeer cr now root hs)"
| "net_exec cr parse env (Op_AppendKnownPeerDer now root hs) = go_ignore (AppendKnownPeerDer cr now root hs)"
| "net_exec cr parse env (Op_Inbound ie stream) = PrepareAbyssInbound cr ie stream"
| "net_exec cr parse env (Op_Outbound oe i addrs stream) = PrepareAbyssOutbound cr oe i addrs stream"
| "net_exec cr parse env (Op_ConnectAbyssAsync now url) = go_ignore (ConnectAbyssAsync now url)"
| "net_exec cr parse env (Op_ConnectAbyst now i) = go_ignore (ConnectAbyst now i)"
| "net_exec cr parse env (Op_Cleaner now) = at_peers (PeerMap_Cleaner now)"
| "net_exec cr parse env (Op_Send i m) = at_peer i (no_action (Peer_send env m))"
| "net_exec cr parse env (Op_Listen i) = at_peer i (no_action (listenAhmp parse (we_cbor env)))"
| "net_exec cr parse env (Op_Activate i now) = at_peer i (no_action (Activate now))"
| "net_exec cr parse env (Op_Renew i now) = at_peer i (no_action (Renew now))"
| "net_exec cr parse env (Op_Deactivate i now) = at_peer i (no_action (Deactivate now))"

section \<open>The invariant\<close>

definition both :: "'w ContextedPeer \<Rightarrow> bool" where
  "both p \<longleftrightarrow> inbound_conn p \<noteq> None \<and> outbound_conn p \<noteq> None"

definition entry_ok :: "hash \<Rightarrow> 'w ContextedPeer \<Rightarrow> bool" where
  "entry_ok i p \<longleftrightarrow> root_id_hash (identity p) = i \<and> parts_ok p \<and> 0 \<le> active_cnt (activity p)"

definition net_inv :: "'w BetaNetService \<Rightarrow> bool" where
  "net_inv h \<longleftrightarrow> (\<forall>i p. pm_peers (ns_peers h) i = Some p \<longrightarrow> entry_ok i p)
     \<and> distinct (abyssPeerCH h)
     \<and> (\<forall>i. i \<in> set (abyssPeerCH h) \<longleftrightarrow> (\<exists>p. pm_peers (ns_peers h) i = Some p \<and> both p))"

text \<open>What one step does to a peer: the identity stays, a connection is not lost, a closed peer stays
  closed, and the step publishes exactly when it completes the second direction.\<close>

definition peer_move :: "'w ContextedPeer \<Rightarrow> conn_action list \<Rightarrow> 'w ContextedPeer \<Rightarrow> bool" where
  "peer_move p acts p' \<longleftrightarrow> identity p' = identity p \<and> parts_ok p' \<and> 0 \<le> active_cnt (activity p')
     \<and> (both p \<longrightarrow> both p') \<and> (Publish \<in> set acts \<longleftrightarrow> \<not> both p \<and> both p')
     \<and> (ap_state p = PNCS_CLOSED \<longrightarrow> ap_state p' = PNCS_CLOSED \<and> both p' = both p)"

lemma peer_move_quiet:
  "entry_ok i p \<Longrightarrow> identity p' = identity p \<Longrightarrow> parts_ok p' \<Longrightarrow> 0 \<le> active_cnt (activity p') \<Longrightarrow>
   both p' = both p \<Longrightarrow> (ap_state p = PNCS_CLOSED \<Longrightarrow> ap_state p' = PNCS_CLOSED) \<Longrightarrow> peer_move p [] p'"
  by (simp add: peer_move_def)

lemmas move_simps = entry_ok_def peer_move_def parts_ok_def both_def wp_rules

lemma finish_inbound_move:
  "entry_ok i p \<Longrightarrow> wlp (finish_inbound err conn dec) (peer_move p) p"
  by (cases err; cases "ap_state p") (auto simp: finish_inbound_def fail_peer_def move_simps)

lemma finish_outbound_move:
  "entry_ok i p \<Longrightarrow> wlp (finish_outbound err conn enc addrs) (peer_move p) p"
  by (cases err; cases "ap_state p") (auto simp: finish_outbound_def fail_peer_def move_simps)

lemma fail_peer_move: "entry_ok i p \<Longrightarrow> wlp (fail_peer e) (peer_move p) p"
  by (auto simp: fail_peer_def move_simps)

text \<open>A write changes at most the encoder, or closes the peer.\<close>

definition sent_move :: "'w ContextedPeer \<Rightarrow> 'w ContextedPeer \<Rightarrow> bool" where
  "sent_move p p' \<longleftrightarrow> identity p' = identity p \<and> parts_ok p' \<and> activity p' = activity p
     \<and> both p' = both p \<and> (ap_state p = PNCS_CLOSED \<longrightarrow> ap_state p' = PNCS_CLOSED)"

lemma sent_move_trans: "sent_move p q \<Longrightarrow> sent_move q r \<Longrightarrow> sent_move p r"
  by (auto simp: sent_move_def)

lemma trySend_move:
  assumes "parts_ok p"
  shows "wlp (trySend werr w) (\<lambda>_. sent_move p) p"
  using assms
  by (auto simp: trySend_def cancelfunc_def sent_move_def parts_ok_def both_def wp_rules split: option.splits)

lemma trySend2_move:
  assumes "parts_ok p"
  shows "wlp (trySend2 c werr v w) (\<lambda>_. sent_move p) p"
proof -
  have step: "wlp (trySend werr w) (\<lambda>_. sent_move p) q" if "sent_move p q" for q
  proof -
    have "parts_ok q" using that by (simp add: sent_move_def)
    from trySend_move [OF this] show ?thesis
      by (rule wpx_mono) (rule sent_move_trans [OF that])
  qed
  have "wlp (trySend werr x) (\<lambda>a. wlp (trySend werr w) (\<lambda>_. sent_move p)) p" for x
    by (rule wpx_mono [OF trySend_move [OF assms]]) (rule step)
  then show ?thesis
    by (auto simp: trySend2_def go_index_def wp_rules wpx_bind_fun split: option.split)
qed

lemma send_move:
  assumes "parts_ok p"
  shows "wlp (Peer_send env m) (\<lambda>_. sent_move p) p"
proof (cases m)
  case (TrySendJOK l r ts url ms)
  show ?thesis
    by (simp add: TrySendJOK Peer_TrySendJOK_def Filter_go_map wpx_bind)
      (rule wpx_mono [OF wlp_raw_sessions], simp add: trySend2_move assms)
next
  case (TrySendJNI l r s)
  then show ?thesis using trySend2_move [OF assms]
    by (auto simp: Peer_TrySendJNI_def raw_session_def wp_rules Let_def split: option.split)
qed (simp_all add: trySend2_move assms Peer_TrySendJN_def Peer_TrySendJDN_def Peer_TrySendMEM_def
    Peer_TrySendSJN_def Peer_TrySendCRR_def Peer_TrySendRST_def Peer_TrySendSOA_def Peer_TrySendSOD_def)

lemma no_action_move:
  assumes "entry_ok i p"
    and "wlp f (\<lambda>_ p'. identity p' = identity p \<and> parts_ok p' \<and> 0 \<le> active_cnt (activity p')
      \<and> both p' = both p \<and> (ap_state p = PNCS_CLOSED \<longrightarrow> ap_state p' = PNCS_CLOSED)) p"
  shows "wlp (no_action f) (peer_move p) p"
  by (simp add: wlp_no_action) (rule wpx_mono [OF assms(2)], rule peer_move_quiet [OF assms(1)], auto)

lemma send_action_move: "entry_ok i p \<Longrightarrow> wlp (no_action (Peer_send env m)) (peer_move p) p"
  by (rule no_action_move, assumption, rule wpx_mono [OF send_move]) (auto simp: entry_ok_def sent_move_def)

lemma activity_move:
  "entry_ok i p \<Longrightarrow> wlp (no_action (Activate now)) (peer_move p) p"
  "entry_ok i p \<Longrightarrow> wlp (no_action (Renew now)) (peer_move p) p"
  "entry_ok i p \<Longrightarrow> wlp (no_action (Deactivate now)) (peer_move p) p"
  by (rule no_action_move, assumption,
      simp add: Activate_def Renew_def Deactivate_def Let_def wp_rules entry_ok_def both_def)+

lemma listen_move: "entry_ok i p \<Longrightarrow> wlp (no_action (listenAhmp parse c)) (peer_move p) p"
proof (rule no_action_move, assumption)
  assume ok: "entry_ok i p"
  show "wlp (listenAhmp parse c) (\<lambda>_ p'. identity p' = identity p \<and> parts_ok p' \<and> 0 \<le> active_cnt (activity p')
      \<and> both p' = both p \<and> (ap_state p = PNCS_CLOSED \<longrightarrow> ap_state p' = PNCS_CLOSED)) p"
  proof (cases "ahmp_decoder p")
    case None
    then show ?thesis by (simp add: listenAhmp_def wp_rules)
  next
    case (Some items)
    obtain ms where ms: "listen_loop parse c items = (go_ret ms :: ('a ContextedPeer, ahmp_message list) go)"
      using listen_total by blast
    show ?thesis using ok Some by (auto simp: listenAhmp_def move_simps ms)
  qed
qed


section \<open>Preservation\<close>

text \<open>A step of the service keeps the invariant, and the table only grows: entries stay, with their
  identity, and a closed peer stays closed.\<close>

definition table_grows :: "'w ContextedPeerMap \<Rightarrow> 'w ContextedPeerMap \<Rightarrow> bool" where
  "table_grows m m' \<longleftrightarrow> (\<forall>i p. pm_peers m i = Some p \<longrightarrow>
     (\<exists>p'. pm_peers m' i = Some p' \<and> identity p' = identity p
        \<and> (ap_state p = PNCS_CLOSED \<longrightarrow> ap_state p' = PNCS_CLOSED \<and> both p' = both p)))"

definition net_step :: "'w BetaNetService \<Rightarrow> 'w BetaNetService \<Rightarrow> bool" where
  "net_step h h' \<longleftrightarrow> net_inv h' \<and> table_grows (ns_peers h) (ns_peers h')"

lemma table_grows_refl [simp]: "table_grows m m"
  by (simp add: table_grows_def)

lemma table_grows_trans: "table_grows m m' \<Longrightarrow> table_grows m' m'' \<Longrightarrow> table_grows m m''"
  unfolding table_grows_def by metis

lemma net_step_refl [simp]: "net_step h h \<longleftrightarrow> net_inv h"
  by (simp add: net_step_def)

lemma at_peer_inv:
  assumes "\<And>p. pm_peers (ns_peers h) i = Some p \<Longrightarrow> entry_ok i p \<Longrightarrow> wlp f (peer_move p) p" and "net_inv h"
  shows "wlp (at_peer i f) (\<lambda>_. net_step h) h"
proof (cases "pm_peers (ns_peers h) i")
  case None
  then show ?thesis by (simp add: at_peer_def wp_rules)
next
  case (Some p)
  have ok: "entry_ok i p" using assms(2) Some by (simp add: net_inv_def)
  show ?thesis
  proof (cases "f p")
    case (Inl e)
    then show ?thesis using Some by (simp add: at_peer_def wp_rules)
  next
    case (Inr r)
    obtain acts p' where r: "r = (acts, p')" by (cases r)
    have "peer_move p acts p'" using assms(1) [OF Some ok] Inr r by (simp add: wpx_def)
    then have m: "entry_ok i p'" "both p \<Longrightarrow> both p'" "Publish \<in> set acts \<longleftrightarrow> \<not> both p \<and> both p'"
      and g: "identity p' = identity p" "ap_state p = PNCS_CLOSED \<Longrightarrow> ap_state p' = PNCS_CLOSED \<and> both p' = both p"
      using ok by (auto simp: peer_move_def entry_ok_def)
    have ch: "i \<in> set (abyssPeerCH h) \<longleftrightarrow> both p" using assms(2) Some by (simp add: net_inv_def)
    let ?h = "h\<lparr>ns_peers := (ns_peers h)\<lparr>pm_peers := (pm_peers (ns_peers h))(i \<mapsto> p')\<rparr>,
      abyssPeerCH := abyssPeerCH h @ (if Publish \<in> set acts then [i] else []),
      ns_actions := ns_actions h @ map (\<lambda>a. (i, a)) acts\<rparr>"
    have "table_grows (ns_peers h) (ns_peers ?h)" using Some g by (simp add: table_grows_def)
    moreover have "net_inv ?h" using assms(2) m ch Some by (auto simp: net_inv_def)
    ultimately show ?thesis using Some Inr r by (simp add: at_peer_def wp_rules net_step_def)
  qed
qed

definition table_move :: "'w ContextedPeerMap \<Rightarrow> 'w ContextedPeerMap \<Rightarrow> bool" where
  "table_move m m' \<longleftrightarrow> (\<forall>i. case pm_peers m' i of
      None \<Rightarrow> pm_peers m i = None
    | Some p' \<Rightarrow> entry_ok i p' \<and> (case pm_peers m i of
        None \<Rightarrow> \<not> both p'
      | Some p \<Rightarrow> both p' = both p \<and> identity p' = identity p \<and> (ap_state p = PNCS_CLOSED \<longrightarrow> ap_state p' = PNCS_CLOSED)))"

lemma at_peers_inv:
  assumes "net_inv h" and "wlp f (\<lambda>_. table_move (ns_peers h)) (ns_peers h)"
  shows "wlp (at_peers f) (\<lambda>_. net_step h) h"
  unfolding at_peers_def wpx_zoom
proof (rule wpx_mono [OF assms(2)])
  fix m
  assume m: "table_move (ns_peers h) m"
  have "(\<exists>p. pm_peers m i = Some p \<and> both p) \<longleftrightarrow> (\<exists>p. pm_peers (ns_peers h) i = Some p \<and> both p)" for i
    using m [unfolded table_move_def, rule_format, of i] by (auto split: option.splits)
  moreover have "entry_ok i p" if "pm_peers m i = Some p" for i p
    using m [unfolded table_move_def, rule_format, of i] that by simp
  ultimately have "net_inv (h\<lparr>ns_peers := m\<rparr>)" using assms(1) by (simp add: net_inv_def)
  moreover have "table_grows (ns_peers h) m"
    unfolding table_grows_def
  proof (intro allI impI)
    fix i p
    assume "pm_peers (ns_peers h) i = Some p"
    then show "\<exists>p'. pm_peers m i = Some p' \<and> identity p' = identity p
        \<and> (ap_state p = PNCS_CLOSED \<longrightarrow> ap_state p' = PNCS_CLOSED \<and> both p' = both p)"
      using m [unfolded table_move_def, rule_format, of i] by (auto split: option.splits)
  qed
  ultimately show "net_step h (h\<lparr>ns_peers := m\<rparr>)" by (simp add: net_step_def)
qed

lemma new_entry_ok:
  "entry_ok (root_id_hash ident) (AbyssPeer.extend (NewAbyssPeer ident)
     \<lparr>ctx_Err = c, activity = \<lparr>active_cnt = 0, LastActivity = now\<rparr>\<rparr>)"
  "\<not> both (AbyssPeer.extend (NewAbyssPeer ident) \<lparr>ctx_Err = c, activity = \<lparr>active_cnt = 0, LastActivity = now\<rparr>\<rparr>)"
  by (simp_all add: entry_ok_def both_def parts_ok_def NewAbyssPeer_def AbyssPeer.defs)

definition entries_ok :: "'w ContextedPeerMap \<Rightarrow> bool" where
  "entries_ok m \<longleftrightarrow> (\<forall>i p. pm_peers m i = Some p \<longrightarrow> entry_ok i p)"

lemma net_inv_entries: "net_inv h \<Longrightarrow> entries_ok (ns_peers h)"
  by (simp add: net_inv_def entries_ok_def)

lemma Append_move:
  "entries_ok m \<Longrightarrow> wlp (Append ctx now (root_id_hash ident) (NewAbyssPeer ident)) (\<lambda>_. table_move m) m"
  by (auto simp: Append_def wp_rules Let_def entries_ok_def table_move_def new_entry_ok split: option.split)

lemma Find_move: "entries_ok m \<Longrightarrow> wlp (Find now i) (\<lambda>_. table_move m) m"
  by (auto simp: Find_def Renew_def go_modify_def wp_rules table_move_def entries_ok_def entry_ok_def both_def
      split: option.split)

lemma Cleaner_move: "entries_ok m \<Longrightarrow> wlp (PeerMap_Cleaner now) (\<lambda>_. table_move m) m"
  by (auto simp: PeerMap_Cleaner_def wp_rules table_move_def entries_ok_def entry_ok_def both_def clean_peer_def
      Let_def split: option.split)

lemma wlp_ignore: "wlp f (\<lambda>_. Q ()) s \<Longrightarrow> wlp (go_ignore f) Q s"
  by (simp add: go_ignore_def wp_rules)

section \<open>Functions that do not touch the state\<close>

definition stateless :: "('s, 'a) go \<Rightarrow> bool" where
  "stateless f \<longleftrightarrow> (\<forall>s r s'. f s = Inr (r, s') \<longrightarrow> s' = s)"

named_theorems stateless_intros

lemma stateless_ret [stateless_intros]: "stateless (go_ret a)"
  by (simp add: stateless_def go_ret_def)

lemma stateless_panic [stateless_intros]: "stateless (go_panic e)"
  by (simp add: stateless_def go_panic_def)

lemma stateless_read [stateless_intros]: "stateless (go_read f)"
  by (simp add: stateless_def go_read_def)

lemma stateless_bind [stateless_intros]:
  "stateless f \<Longrightarrow> (\<And>a. stateless (g a)) \<Longrightarrow> stateless (go_bind f g)"
  by (fastforce simp: stateless_def go_bind_def split: sum.splits)

lemma stateless_try [stateless_intros]:
  "stateless f \<Longrightarrow> (\<And>a. stateless (g a)) \<Longrightarrow> stateless (go_try f g)"
  unfolding go_try_def by (rule stateless_bind) (auto intro: stateless_intros split: sum.split)

lemma stateless_index [stateless_intros]: "stateless (go_index i xs)"
  by (simp add: go_index_def stateless_intros)

lemma stateless_slice [stateless_intros]: "stateless (go_slice i j xs)"
  by (simp add: go_slice_def stateless_intros)

lemma stateless_nonnil [stateless_intros]: "stateless (go_nonnil x)"
  by (simp add: go_nonnil_def stateless_intros split: option.split)

lemma stateless_case_sum [stateless_intros]:
  "(\<And>a. stateless (f a)) \<Longrightarrow> (\<And>b. stateless (g b)) \<Longrightarrow> stateless (case x of Inl a \<Rightarrow> f a | Inr b \<Rightarrow> g b)"
  by (cases x) simp_all

lemma stateless_case_option [stateless_intros]:
  "stateless f \<Longrightarrow> (\<And>a. stateless (g a)) \<Longrightarrow> stateless (case x of None \<Rightarrow> f | Some a \<Rightarrow> g a)"
  by (cases x) simp_all

lemma stateless_if [stateless_intros]: "stateless f \<Longrightarrow> stateless g \<Longrightarrow> stateless (if c then f else g)"
  by simp

lemma stateless_case_prod [stateless_intros]:
  "(\<And>a b. stateless (f a b)) \<Longrightarrow> stateless (case x of (a, b) \<Rightarrow> f a b)"
  by (cases x) simp

lemma stateless_case_key [stateless_intros]:
  "(\<And>b. stateless (f b)) \<Longrightarrow> (\<And>b. stateless (g b)) \<Longrightarrow> (\<And>b. stateless (h b)) \<Longrightarrow>
   stateless (case x of Ed25519 b \<Rightarrow> f b | RSA b \<Rightarrow> g b | OtherKey b \<Rightarrow> h b)"
  by (cases x) simp_all

lemma stateless_NewPeerIdentity: "stateless (NewPeerIdentity cr root hs)"
  unfolding NewPeerIdentity_def AbyssIdFromKey_def by (intro stateless_intros)

lemma stateless_Verify: "stateless (VerifyTLSBinding cr p b c)"
  unfolding VerifyTLSBinding_def by (intro stateless_intros)

lemma stateless_inbound: "stateless (inbound_claim cr ident ie)" "stateless (inbound_verify cr ie p b)"
  unfolding inbound_claim_def inbound_verify_def DecryptHandshake_def gcm_open_def Let_def
  by (intro stateless_intros stateless_Verify)+

lemma stateless_outbound: "stateless (outbound_handshake cr oe p a)"
  unfolding outbound_handshake_def EncryptHandshake_def Let_def
  by (intro stateless_intros stateless_Verify)

lemma stateless_fold [stateless_intros]:
  "(\<And>x a. stateless (f x a)) \<Longrightarrow> stateless (go_fold xs f a)"
  by (induction xs arbitrary: a) (simp_all add: stateless_intros)

lemma stateless_filter: "stateless (FilterAddressCandidates s as)"
  unfolding FilterAddressCandidates_def sort_address_def by (intro stateless_intros)

lemma wlp_stateless_bind:
  assumes "stateless f" and "\<And>a. wlp (g a) Q s"
  shows "wlp (go_bind f g) Q s"
  unfolding wpx_bind
proof (rule wlpI)
  fix a s'
  assume "f s = Inr (a, s')"
  then have "s' = s" using assms(1) by (simp add: stateless_def)
  then show "wlp (g a) Q s'" using assms(2) by simp
qed

section \<open>The contract of the service\<close>

lemma AppendKnownPeerDer_inv: "net_inv h \<Longrightarrow> wlp (AppendKnownPeerDer cr now root hs) (\<lambda>_. net_step h) h"
  unfolding AppendKnownPeerDer_def
  by (rule wlp_stateless_bind [OF stateless_NewPeerIdentity])
    (auto simp: wp_rules at_peers_inv Append_move net_inv_entries split: sum.split)

lemma AppendKnownPeer_inv: "net_inv h \<Longrightarrow> wlp (AppendKnownPeer cr now root hs) (\<lambda>_. net_step h) h"
  by (auto simp: AppendKnownPeer_def AppendKnownPeerDer_inv wp_rules split: option.split)

lemma PrepareAbyssInbound_inv: "net_inv h \<Longrightarrow> wlp (PrepareAbyssInbound cr ie stream) (\<lambda>_. net_step h) h"
  unfolding PrepareAbyssInbound_def wpx_bind [where f = "go_read localIdentity"] wpx_read
  by (rule wlp_stateless_bind [OF stateless_inbound(1)])
    (auto simp: wpx_read wpx_ret wpx_bind [where f = "go_read _"]
      intro!: wlp_stateless_bind stateless_inbound(2) at_peer_inv finish_inbound_move split: sum.split option.split)

lemma PrepareAbyssOutbound_inv: "net_inv h \<Longrightarrow> wlp (PrepareAbyssOutbound cr oe i addrs stream) (\<lambda>_. net_step h) h"
  unfolding PrepareAbyssOutbound_def wpx_bind [where f = "go_read addressSelector"] wpx_read
  by (intro wlp_stateless_bind stateless_filter stateless_index)
    (auto simp: wpx_read wpx_nonnil wpx_bind [where f = "go_read _"] wpx_bind [where f = "go_nonnil _"]
      intro!: wlp_stateless_bind stateless_read stateless_nonnil stateless_outbound at_peer_inv finish_outbound_move fail_peer_move
      split: sum.split option.split)

lemma ConnectAbyssAsync_inv: "net_inv h \<Longrightarrow> wlp (ConnectAbyssAsync now url) (\<lambda>_. net_step h) h"
  unfolding ConnectAbyssAsync_def
  by (auto simp: wpx_read wpx_ret wpx_bind [where f = "go_read _"]
      intro!: wlp_stateless_bind [OF stateless_filter])
    (simp add: wpx_bind, rule wpx_mono [OF at_peers_inv [OF _ Find_move]],
      auto simp: net_inv_entries wp_rules split: option.split)

lemma ConnectAbyst_inv: "net_inv h \<Longrightarrow> wlp (ConnectAbyst now i) (\<lambda>_. net_step h) h"
proof -
  assume inv: "net_inv h"
  have "wlp (at_peers (Find now i)) (\<lambda>_. net_step h) h"
    by (rule at_peers_inv [OF inv Find_move [OF net_inv_entries [OF inv]]])
  then have "wlp (at_peers (Find now i)) (\<lambda>peer. wlp (case peer of
       None \<Rightarrow> go_ret (Inl ''no abyss connection'')
     | Some p \<Rightarrow> if ap_state p \<noteq> PNCS_CONNECTED then go_ret (Inl ''abyss connection closed and not reconnected'')
         else go_bind (go_nonnil (outbound_conn p)) (\<lambda>conn. go_ret (Inr (RemoteAddr conn)))) (\<lambda>_. net_step h)) h"
    by (rule wpx_mono) (auto simp: wp_rules split: option.split)
  then show ?thesis
    using inv by (auto simp: ConnectAbyst_def wp_rules go_index_def)
qed

lemma net_exec_inv:
  assumes "net_inv h"
  shows "wlp (net_exec cr parse env op) (\<lambda>_. net_step h) h"
  using assms
  by (cases op)
    (auto intro!: wlp_ignore AppendKnownPeer_inv AppendKnownPeerDer_inv PrepareAbyssInbound_inv
      PrepareAbyssOutbound_inv ConnectAbyssAsync_inv ConnectAbyst_inv at_peers_inv Cleaner_move net_inv_entries
      at_peer_inv send_action_move listen_move activity_move)


interpretation net_sys: safe_system "net_exec cr parse env" "\<lambda>_ _. True" "new_service ident url sel tls" "\<lambda>_. net_inv"
  by unfold_locales (auto simp: new_service_def NewContextedPeerMap_def net_inv_def
      intro: wpx_mono [OF net_exec_inv] simp add: net_step_def)

abbreviation net_runs where
  "net_runs cr parse env ident url sel tls \<equiv>
     runs (net_exec cr parse env) (\<lambda>_ _. True) (new_service ident url sel tls)"

end
