(* ===== verification/Net_Props.thy ===== *)
theory Net_Props
  imports Net_Inv
begin

text \<open>
  Properties of the network side: messages on the wire, identities and handshakes, the table of
  peers and the life of a connection, the address filter. The sample environments at the start
  instantiate the parameters (cryptography, CBOR, UUIDs) with concrete functions; they show that
  what is assumed of these libraries can hold.
\<close>

section \<open>A concrete CBOR library\<close>

datatype item =
    I_int int | I_JN RawJN | I_JOK RawJOK | I_JDN RawJDN | I_JNI RawJNI | I_MEM RawMEM | I_SJN RawSJN
  | I_CRR RawCRR | I_RST RawRST | I_SOA RawSOA | I_SOD RawSOD

definition item_cbor :: "item cbor" where
  "item_cbor = \<lparr>
     enc_int = I_int, dec_int = (\<lambda>i. case i of I_int x \<Rightarrow> Inr x | _ \<Rightarrow> Inl ''type''),
     enc_JN = I_JN, dec_JN = (\<lambda>i. case i of I_JN x \<Rightarrow> Inr x | _ \<Rightarrow> Inl ''type''),
     enc_JOK = I_JOK, dec_JOK = (\<lambda>i. case i of I_JOK x \<Rightarrow> Inr x | _ \<Rightarrow> Inl ''type''),
     enc_JDN = I_JDN, dec_JDN = (\<lambda>i. case i of I_JDN x \<Rightarrow> Inr x | _ \<Rightarrow> Inl ''type''),
     enc_JNI = I_JNI, dec_JNI = (\<lambda>i. case i of I_JNI x \<Rightarrow> Inr x | _ \<Rightarrow> Inl ''type''),
     enc_MEM = I_MEM, dec_MEM = (\<lambda>i. case i of I_MEM x \<Rightarrow> Inr x | _ \<Rightarrow> Inl ''type''),
     enc_SJN = I_SJN, dec_SJN = (\<lambda>i. case i of I_SJN x \<Rightarrow> Inr x | _ \<Rightarrow> Inl ''type''),
     enc_CRR = I_CRR, dec_CRR = (\<lambda>i. case i of I_CRR x \<Rightarrow> Inr x | _ \<Rightarrow> Inl ''type''),
     enc_RST = I_RST, dec_RST = (\<lambda>i. case i of I_RST x \<Rightarrow> Inr x | _ \<Rightarrow> Inl ''type''),
     enc_SOA = I_SOA, dec_SOA = (\<lambda>i. case i of I_SOA x \<Rightarrow> Inr x | _ \<Rightarrow> Inl ''type''),
     enc_SOD = I_SOD, dec_SOD = (\<lambda>i. case i of I_SOD x \<Rightarrow> Inr x | _ \<Rightarrow> Inl ''type'')\<rparr>"

text \<open>UUIDs as decimal numbers.\<close>

definition uuid_text :: "uuid \<Rightarrow> string" where
  "uuid_text u = format_nat 10 (unat u)"

definition uuid_parse :: uuid_parser where
  "uuid_parse s = (if s \<noteq> [] \<and> list_all is_digit s then Inr (of_nat (digits_val 10 s)) else Inl ''invalid UUID'')"

lemma uuid_parse_text: "uuid_parse (uuid_text u) = Inr u"
  by (simp add: uuid_parse_def uuid_text_def format_nat_digits digits_val_format)

definition sample_identity :: PeerIdentity where
  "sample_identity = \<lparr>root_id_hash = sample_hash,
     root_self_cert_x509 = \<lparr>Issuer = sample_hash, Subject = sample_hash, cert_PublicKey = Some (Ed25519 [1]),
       SerialNumber = 1, NotBefore = 0, NotAfter = zero_time, IsCA = True\<rparr>,
     handshake_pub_key = RSA [2], root_self_cert_der = [1], handshake_key_cert_der = [2]\<rparr>"

definition sample_peer :: "item AbyssPeer" where
  "sample_peer = (NewAbyssPeer sample_identity)\<lparr>addresses := [\<lparr>IP = [10, 0, 0, 1], Port = 1605\<rparr>]\<rparr>"

definition sample_env :: "item wire_env" where
  "sample_env = \<lparr>we_cbor = item_cbor, we_uuid_String = uuid_text, we_werr = (\<lambda>_. None), we_peer = (\<lambda>_. sample_peer)\<rparr>"

lemma sample_parses: "parses uuid_parse sample_env"
proof -
  have "ascii (uuid_text u)" for u
    using format_nat_digits [of "unat u"] digit_is_hex by (intro ascii_hex) (auto simp: uuid_text_def list_all_iff)
  then show ?thesis
    by (simp add: parses_def sample_env_def uuid_parse_text ascii_text_ok cbor_ok_def item_cbor_def)
qed

definition sample_conn :: quic_conn where
  "sample_conn = \<lparr>conn_id = 1, RemoteAddr = \<lparr>IP = [10, 0, 0, 2], Port = 1605\<rparr>\<rparr>"

definition sample_connected :: "item ContextedPeer" where
  "sample_connected = (new_peer sample_identity 0)\<lparr>ap_state := PNCS_CONNECTED, inbound_conn := Some sample_conn,
     outbound_conn := Some sample_conn, ahmp_encoder := Some [], ahmp_decoder := Some []\<rparr>"

definition sample_session :: ANDPeerSessionWithTimeStamp where
  "sample_session = \<lparr>Peer = Some \<lparr>IDHash = sample_hash, peer_ref = 0\<rparr>, PeerSessionID = 7, TimeStamp = 1500000\<rparr>"

definition sample_messages :: "ahmp_send list" where
  "sample_messages = [TrySendJN 1 ''/home'' 2500001, TrySendJOK 1 2 3000000 ''url'' [sample_session],
     TrySendSJN 1 2 [\<lparr>PeerHash = ''x'', SessionID = 9\<rparr>], TrySendSOD 1 2 [4, 5],
     TrySendSOA 1 2 [\<lparr>ID = 3, Addr = [char_of (0xEA :: nat), char_of (0xB0 :: nat), char_of (0x80 :: nat)], Transform = replicate 7 0\<rparr>]]"

lemma sample_sendable: "list_all (sendable sample_env) sample_messages"
proof -
  have "IsValidPeerID sample_hash" by code_simp
  moreover have "text_ok ''/home''" "text_ok ''url''" "text_ok ''x''" by code_simp+
  moreover have "text_ok [char_of (0xEA :: nat), char_of (0xB0 :: nat), char_of (0x80 :: nat)]"
    by (simp add: text_ok_def tail_byte_def)
  moreover have "transform_ok (replicate 7 0)" by (simp add: transform_ok_def list_all_iff float_ok_def)
  ultimately show ?thesis
    by (simp add: sample_messages_def to_UnixMilli_def few_def session_ok_def sample_session_def session_peer_def sample_env_def
        AbyssPeer_IDHash_def sample_peer_def sample_identity_def addr_printable_def int64_def NewAbyssPeer_def)
qed

section \<open>Messages on the wire\<close>

text \<open>C25. The wire is faithful: if a connected peer accepts every write, sending a sequence of messages
  that can be read (\<open>sendable\<close>: texts in UTF-8, 64-bit integers, lists of at most 131072 elements, no NaN)
  succeeds, and the receiving loop of the other host, reading what was written, hands over as many
  messages, in the same order and each with the values that were sent, but for time stamps, which are
  cut to milliseconds, and addresses of neighbors, which arrive in 16-byte form (\<open>received\<close>). Assumed: the CBOR library
  gives back the values that its decoder accepts, and the UUID package parses what it prints.\<close>

theorem wire_roundtrip:
  assumes "parses parse env" and "\<forall>n. we_werr env n = None" and "list_all (sendable env) ms"
    and "writable p" and "ahmp_encoder p = Some []"
  shows "\<exists>p' items. send_all env ms p = Inr (True, p') \<and> ahmp_encoder p' = Some items
    \<and> listen_loop parse (we_cbor env) items = go_ret (map (received env) ms)"
  using send_all_writes [OF assms(4,5,2,3)] listen_wires [OF assms(1,3)] by auto

theorem wire_roundtrip_witness:
  "\<exists>p' items. send_all sample_env sample_messages sample_connected = Inr (True, p') \<and> ahmp_encoder p' = Some items
    \<and> listen_loop uuid_parse item_cbor items = (go_ret (map (received sample_env) sample_messages) :: (unit, ahmp_message list) go)"
proof -
  have "writable sample_connected" "ahmp_encoder sample_connected = Some []"
    by (simp_all add: writable_def sample_connected_def)
  moreover have "\<forall>n. we_werr sample_env n = None" "we_cbor sample_env = item_cbor"
    by (simp_all add: sample_env_def)
  ultimately show ?thesis using wire_roundtrip [OF sample_parses _ sample_sendable] by metis
qed

text \<open>C26. Whatever items a remote host puts on the stream, the receiving loop does not panic and ends;
  it hands over at most one message for every two items, and only the last message can be an
  \<open>INVAL\<close>: nothing behind an invalid message is processed.\<close>

theorem receiving_never_panics:
  fixes s :: 's
  shows "\<exists>ms. listen_loop parse c items s = Inr (ms, s) \<and> (\<forall>m \<in> set (butlast ms). \<not> is_INVAL m)
    \<and> 2 * length ms \<le> Suc (length items)"
proof -
  obtain ms where "listen_loop parse c items = (go_ret ms :: ('s, ahmp_message list) go)"
    "\<forall>m \<in> set (butlast ms). \<not> is_INVAL m" "2 * length ms \<le> Suc (length items)"
    using listen_total by blast
  then show ?thesis by (auto simp: go_ret_def)
qed

theorem receiving_never_panics_witness:
  "\<exists>ms. listen_loop uuid_parse item_cbor [I_int 0, I_int 0, I_int 1] () = Inr (ms, ())
    \<and> 2 * length ms \<le> Suc (length [I_int 0, I_int 0, I_int 1])"
  using receiving_never_panics [of uuid_parse item_cbor "[I_int 0, I_int 0, I_int 1]" "()"] by blast

text \<open>C27. Join answers are parsed completely or not at all: the parser succeeds exactly when the two
  session ids and the URL and session id of every neighbor parse, and then the message lists every
  neighbor, in order, with the parsed values.\<close>

theorem join_answer_all_or_nothing:
  "RawJOK_TryParse parse r s = Inr (Inr m, s') \<longleftrightarrow>
     s' = s \<and> parse (RawJOK_SenderSessionID r) = Inr (JOK_SenderSessionID m)
     \<and> parse (RawJOK_RecverSessionID r) = Inr (JOK_RecverSessionID m)
     \<and> JOK_TimeStamp m = UnixMilli (RawJOK_TimeStamp r) \<and> JOK_Text m = RawJOK_Text r
     \<and> list_all2 (\<lambda>i n. aurl_ref (rd_AURL i) = Inr (full_AURL n) \<and> parse (rd_SessionID i) = Inr (full_SessionID n)
         \<and> full_TimeStamp n = UnixMilli (rd_TimeStamp i) \<and> full_RootCertificateDer n = rd_RootCertificateDer i
         \<and> full_HandshakeKeyCertificateDer n = rd_HandshakeKeyCertificateDer i)
       (RawJOK_Neighbors r) (JOK_Neighbors m)"
proof -
  have map_eq: "map f xs = map g ys \<longleftrightarrow> list_all2 (\<lambda>x y. f x = g y) xs ys" for f :: "'x \<Rightarrow> 'z" and g :: "'y \<Rightarrow> 'z" and xs ys
    by (simp add: list.rel_eq [symmetric] list.rel_map)
  have neighbor: "neighbor_ref parse i = Some n \<longleftrightarrow>
      aurl_ref (rd_AURL i) = Inr (full_AURL n) \<and> parse (rd_SessionID i) = Inr (full_SessionID n)
      \<and> full_TimeStamp n = UnixMilli (rd_TimeStamp i) \<and> full_RootCertificateDer n = rd_RootCertificateDer i
      \<and> full_HandshakeKeyCertificateDer n = rd_HandshakeKeyCertificateDer i" for i n
    by (cases n) (auto simp: neighbor_ref_def split: sum.splits)
  have ns_iff: "all_some (map (neighbor_ref parse) (RawJOK_Neighbors r)) = Some ns \<longleftrightarrow>
      list_all2 (\<lambda>i n. neighbor_ref parse i = Some n) (RawJOK_Neighbors r) ns" for ns
    unfolding all_some_iff by (rule map_eq)
  show ?thesis
    by (cases m) (auto simp: RawJOK_ref try_simps neighbor [symmetric] ns_iff [symmetric] split: option.splits)
qed

section \<open>Concrete cryptography\<close>

text \<open>Certificates are encoded as a sequence of blocks, keys are their own public parts, every signature
  is accepted, and encryption is the identity on messages of the right length.\<close>

definition block :: "bytes \<Rightarrow> bytes" where
  "block b = concat (map (\<lambda>x. [1, x]) b) @ [0]"

fun unblock :: "bytes \<Rightarrow> bytes \<times> bytes" where
  "unblock (t # x # r) = (if t = 0 then ([], x # r) else (case unblock r of (b, r') \<Rightarrow> (x # b, r')))"
| "unblock [t] = ([], [])"
| "unblock [] = ([], [])"

lemma unblock_block: "unblock (block b @ r) = (b, r)"
proof (induction b)
  case Nil
  show ?case by (cases r) (simp_all add: block_def)
qed (simp add: block_def)

definition string_bytes :: "string \<Rightarrow> bytes" where
  "string_bytes s = map (\<lambda>c. of_nat (byte_of c)) s"

definition bytes_string :: "bytes \<Rightarrow> string" where
  "bytes_string b = map (\<lambda>w. char_of (unat w)) b"

lemma bytes_string_bytes: "bytes_string (string_bytes s) = s"
proof -
  have "char_of (unat (of_nat (byte_of c) :: 8 word)) = c" for c
    by (simp add: unat_of_nat)
  then show ?thesis by (simp add: bytes_string_def string_bytes_def comp_def)
qed

definition mock_Public :: "PrivateKey \<Rightarrow> PublicKey" where
  "mock_Public k = (if hd k = 1 then Ed25519 k else RSA k)"

definition mock_encode :: "Certificate \<Rightarrow> Certificate \<Rightarrow> PublicKey \<Rightarrow> bytes" where
  "mock_encode t p pub = block (string_bytes (Subject t)) @ block (string_bytes (Subject p))
     @ block (case pub of Ed25519 k \<Rightarrow> 1 # k | RSA k \<Rightarrow> 2 # k | OtherKey k \<Rightarrow> 3 # k)
     @ block (if IsCA t then [1] else [])"

definition mock_decode :: "bytes \<Rightarrow> Certificate" where
  "mock_decode b = (let (subj, b) = unblock b; (iss, b) = unblock b; (key, b) = unblock b; (ca, b) = unblock b in
     \<lparr>Issuer = bytes_string iss, Subject = bytes_string subj,
      cert_PublicKey = Some (if hd key = 1 then Ed25519 (tl key) else if hd key = 2 then RSA (tl key) else OtherKey (tl key)),
      SerialNumber = 0, NotBefore = 0, NotAfter = 0, IsCA = (ca \<noteq> [])\<rparr>)"

definition mock_crypto :: crypto where
  "mock_crypto = \<lparr>Public = mock_Public, CreateCertificate = (\<lambda>t p pub priv. Inr (mock_encode t p pub)),
     ParseCertificate = (\<lambda>b. Inr (mock_decode b)), CheckSignatureFrom = (\<lambda>c p. None),
     MarshalPKIXPublicKey = (\<lambda>pub. Inr [42]), Sum512 = (\<lambda>b. b), base58_Encode = (\<lambda>b. tl sample_hash),
     key_Size = (\<lambda>_. 44),
     EncryptOAEP = (\<lambda>pub m. if length m = 44 then Inr m else Inl ''message too long''), DecryptOAEP = (\<lambda>k c. Inr c),
     GCM_Seal = (\<lambda>k n m. m), GCM_Open = (\<lambda>k n c. Inr c),
     pem_Encode = (\<lambda>b. Inr (bytes_string b)), pem_Decode = (\<lambda>s. Some (string_bytes s))\<rparr>"

lemma mock_decode_encode:
  "Subject (mock_decode (mock_encode t p pub)) = Subject t" "Issuer (mock_decode (mock_encode t p pub)) = Subject p"
  "cert_PublicKey (mock_decode (mock_encode t p pub)) = Some pub" "IsCA (mock_decode (mock_encode t p pub)) = IsCA t"
  using unblock_block [where r = "[]"]
  by (simp_all add: mock_decode_def mock_encode_def Let_def unblock_block bytes_string_bytes split: PublicKey.split)

lemma mock_ok: "x509_ok mock_crypto" "pem_ok mock_crypto" "cipher_ok mock_crypto"
proof -
  show "x509_ok mock_crypto" by (simp add: x509_ok_def mock_crypto_def mock_decode_encode)
  have "string_bytes (bytes_string d) = d" for d
    using byte_less by (simp add: bytes_string_def string_bytes_def comp_def map_idI)
  then show "pem_ok mock_crypto" by (simp add: pem_ok_def mock_crypto_def)
  show "cipher_ok mock_crypto" by (auto simp: cipher_ok_def mock_crypto_def split: if_splits)
qed

section \<open>Identities and handshakes\<close>

text \<open>C28. A host accepts the identity of every other honest host: the certificates that
  \<open>NewRootIdentity\<close> makes are accepted by \<open>NewPeerIdentity\<close> under the hash of their owner, and the
  binding certificate of its TLS identity passes \<open>VerifyTLSBinding\<close> against that identity. Assumed:
  certificates parse back and verify under the key that signed them, and PEM is decoded to what was
  encoded; the handshake key is an RSA key and the TLS key an Ed25519 key.\<close>

theorem own_identity_accepted:
  assumes "x509_ok cr" and "pem_ok cr"
    and "NewRootIdentity cr rr k s = Inr (Inr r, s)" and "NewTLSIdentity cr tr r s = Inr (Inr t, s)"
    and "Public cr (handshake_priv_key r) = RSA m" and "Public cr (priv_key t) = Ed25519 n"
  shows "\<exists>rc hc p b c. pem_Decode cr (root_self_cert r) = Some rc \<and> pem_Decode cr (handshake_key_cert r) = Some hc
    \<and> NewPeerIdentity cr rc hc s = Inr (Inr p, s) \<and> root_id_hash p = rs_root_id_hash r
    \<and> handshake_pub_key p = Public cr (handshake_priv_key r)
    \<and> ParseCertificate cr (abyss_bind_cert t) = Inr b \<and> ParseCertificate cr (tls_self_cert t) = Inr c
    \<and> VerifyTLSBinding cr p b c s = Inr (None, s)"
proof -
  obtain rc hc p where p: "pem_Decode cr (root_self_cert r) = Some rc" "pem_Decode cr (handshake_key_cert r) = Some hc"
    "NewPeerIdentity cr rc hc s = Inr (Inr p, s)" "root_id_hash p = rs_root_id_hash r"
    "root_self_cert_x509 p = rs_root_self_cert_x509 r" "handshake_pub_key p = Public cr (handshake_priv_key r)"
    and x: "Issuer (rs_root_self_cert_x509 r) = rs_root_id_hash r" "Subject (rs_root_self_cert_x509 r) = rs_root_id_hash r"
    "cert_PublicKey (rs_root_self_cert_x509 r) = Some (Public cr (root_priv_key r))" "IsCA (rs_root_self_cert_x509 r)"
    using root_identity_accepted [OF assms(1,2,3,5)] .
  obtain b c where "ParseCertificate cr (abyss_bind_cert t) = Inr b" "ParseCertificate cr (tls_self_cert t) = Inr c"
    "VerifyTLSBinding cr p b c s = Inr (None, s)"
    using tls_binding_accepted [OF assms(1,4,6) p(5) x] .
  then show ?thesis using p by blast
qed

definition sample_root_random :: root_random where
  "sample_root_random = \<lparr>rr_serial1 = Inr 1, rr_rsa = Inr [2, 2], rr_serial2 = Inr 2, rr_now = 0\<rparr>"

definition sample_tls_random :: tls_random where
  "sample_tls_random = \<lparr>tr_ed25519 = Inr [1, 7], tr_serial1 = Inr 3, tr_serial2 = Inr 4, tr_now = 0\<rparr>"

definition sample_secrets :: RootSecrets where
  "sample_secrets = (case NewRootIdentity mock_crypto sample_root_random [1, 9] () of Inr (Inr r, _) \<Rightarrow> r)"

definition sample_tls :: TLSIdentity where
  "sample_tls = (case NewTLSIdentity mock_crypto sample_tls_random sample_secrets () of Inr (Inr t, _) \<Rightarrow> t)"

lemma sample_secrets_made:
  "NewRootIdentity mock_crypto sample_root_random [1, 9] s = Inr (Inr sample_secrets, s)"
  by (simp add: sample_secrets_def NewRootIdentity_def sample_root_random_def mock_crypto_def AbyssIdFromKey_def
      Let_def go_ret_def)

lemma sample_tls_made: "NewTLSIdentity mock_crypto sample_tls_random sample_secrets s = Inr (Inr sample_tls, s)"
  by (simp add: sample_tls_def NewTLSIdentity_def sample_tls_random_def mock_crypto_def Let_def go_ret_def)

lemma sample_keys:
  "handshake_priv_key sample_secrets = [2, 2]" "priv_key sample_tls = [1, 7]"
  by (simp_all add: sample_secrets_def NewRootIdentity_def sample_root_random_def mock_crypto_def
      AbyssIdFromKey_def sample_tls_def NewTLSIdentity_def sample_tls_random_def Let_def go_ret_def)

theorem own_identity_accepted_witness:
  "\<exists>rc hc p b c. NewPeerIdentity mock_crypto rc hc () = Inr (Inr p, ())
    \<and> root_id_hash p = rs_root_id_hash sample_secrets
    \<and> ParseCertificate mock_crypto (abyss_bind_cert sample_tls) = Inr b
    \<and> VerifyTLSBinding mock_crypto p b c () = Inr (None, ())"
proof -
  have "Public mock_crypto (handshake_priv_key sample_secrets) = RSA [2, 2]"
    "Public mock_crypto (priv_key sample_tls) = Ed25519 [1, 7]"
    by (simp_all add: sample_keys mock_crypto_def mock_Public_def)
  then show ?thesis
    using own_identity_accepted [OF mock_ok(1,2) sample_secrets_made sample_tls_made] by metis
qed

text \<open>C29. Round trip of the encrypted handshake: what a host encrypts for a peer with a fresh key of 32
  bytes and a nonce of 12 bytes, the owner of the handshake key decrypts to the same payload. Assumed:
  RSA-OAEP and AES-GCM decrypt what they encrypt.\<close>

theorem handshake_roundtrip:
  assumes "cipher_ok cr" and "handshake_pub_key p = Public cr (handshake_priv_key r)"
    and "length key = 32" and "length nonce = 12"
    and "EncryptHandshake cr (Inr key) (Inr nonce) p payload s = Inr (Inr ct, s)"
  shows "DecryptHandshake cr r ct s = Inr (Inr payload, s)"
  using assms by (rule DecryptHandshake_Encrypt)

theorem handshake_roundtrip_witness:
  "\<exists>ct. EncryptHandshake mock_crypto (Inr (replicate 32 5)) (Inr (replicate 12 6))
      (sample_identity\<lparr>handshake_pub_key := RSA [2, 2]\<rparr>) [10, 20] () = Inr (Inr ct, ())
    \<and> DecryptHandshake mock_crypto sample_secrets ct () = Inr (Inr [10, 20], ())"
proof -
  let ?p = "sample_identity\<lparr>handshake_pub_key := RSA [2, 2]\<rparr>"
  have "EncryptHandshake mock_crypto (Inr (replicate 32 5)) (Inr (replicate 12 6)) ?p [10, 20] ()
      = Inr (Inr (replicate 32 5 @ replicate 12 6 @ [10, 20]), ())"
    by (simp add: EncryptHandshake_def NewCipher_def mock_crypto_def Let_def go_ret_def)
  moreover have "handshake_pub_key ?p = Public mock_crypto (handshake_priv_key sample_secrets)"
    by (simp add: sample_keys mock_crypto_def mock_Public_def)
  ultimately show ?thesis
    using handshake_roundtrip [OF mock_ok(3)] by (metis length_replicate)
qed

text \<open>A remote host can crash the process before it has proved anything about itself: a first
  handshake message shorter than the RSA block makes the inbound handshake panic, whatever the
  state of the service.\<close>

lemma short_handshake_panics:
  assumes "ie_tls_certs ie \<noteq> []" and "ie_accept ie = None" and "ie_handshake_1 ie = Inr raw"
    and "length raw < key_Size cr (handshake_priv_key (localIdentity h))"
  shows "PrepareAbyssInbound cr ie stream h = Inl SliceRange"
  using assms
  by (simp add: PrepareAbyssInbound_def inbound_claim_def DecryptHandshake_short go_bind_def go_read_def
      go_index_def go_try_def go_ret_def)

definition sample_inbound :: "bytes \<Rightarrow> inbound_env" where
  "sample_inbound raw = \<lparr>ie_conn = sample_conn, ie_tls_certs = [mock_decode (tls_self_cert sample_tls)], ie_accept = None,
     ie_handshake_1 = Inr raw, ie_unmarshal = Inr, ie_encode = None\<rparr>"

definition sample_selector :: BetaAddressSelector where
  "sample_selector = \<lparr>localPrivateAddr = [192, 168, 0, 2], localPublicAddr = IPv4zero\<rparr>"

definition sample_service :: "item BetaNetService" where
  "sample_service = new_service sample_secrets sample_url sample_selector sample_tls"

lemma short_handshake_panics_sample:
  "PrepareAbyssInbound mock_crypto (sample_inbound [1, 2, 3]) [] sample_service = Inl SliceRange"
  by (rule short_handshake_panics [where raw = "[1, 2, 3]"])
    (simp_all add: sample_inbound_def mock_crypto_def)

section \<open>The table of peers and the life of a connection\<close>

text \<open>A sample history: a peer becomes known, and the first attempt to dial it fails.\<close>

definition sample_added :: "PeerIdentity \<Rightarrow> item BetaNetService" where
  "sample_added p = sample_service\<lparr>ns_peers :=
     \<lparr>pm_peers = [root_id_hash p \<mapsto> new_peer p 0], pm_waiters = Map.empty, delivered = []\<rparr>\<rparr>"

definition sample_outbound :: outbound_env where
  "sample_outbound = \<lparr>oe_dial = (\<lambda>_. Inl ''refused''), oe_tls_certs = [], oe_open = None, oe_marshal = Inr [],
     oe_key = Inr (replicate 32 5), oe_nonce = Inr (replicate 12 6), oe_encode = None, oe_handshake_2 = Inr []\<rparr>"

definition sample_addr :: UDPAddr where
  "sample_addr = \<lparr>IP = [10, 0, 0, 2], Port = 1605\<rparr>"

definition sample_closed :: "PeerIdentity \<Rightarrow> item BetaNetService" where
  "sample_closed p = sample_service\<lparr>ns_peers :=
     \<lparr>pm_peers = [root_id_hash p \<mapsto> (new_peer p 0)\<lparr>ap_err := Some ''refused'', ap_state := PNCS_CLOSED\<rparr>],
      pm_waiters = Map.empty, delivered = []\<rparr>\<rparr>"

lemma sample_candidates: "FilterAddressCandidates sample_selector [sample_addr] = go_ret [sample_addr]"
proof -
  have "candidates_ref sample_selector [sample_addr] = [sample_addr]" by code_simp
  then show ?thesis by (simp add: FilterAddressCandidates_ref ip_ok_def sample_addr_def)
qed

lemma sample_history:
  obtains rc hc p where
    "net_exec mock_crypto parse env (Op_AppendKnownPeerDer 0 rc hc) sample_service = Inr ((), sample_added p)"
    "net_exec mock_crypto parse env (Op_Outbound sample_outbound (root_id_hash p) [sample_addr] []) (sample_added p)
      = Inr ((), sample_closed p)"
proof -
  have "Public mock_crypto (handshake_priv_key sample_secrets) = RSA [2, 2]"
    by (simp add: sample_keys mock_crypto_def mock_Public_def)
  then obtain rc hc p where p: "NewPeerIdentity mock_crypto rc hc sample_service = Inr (Inr p, sample_service)"
    using root_identity_accepted [OF mock_ok(1,2) sample_secrets_made] by metis
  have "net_exec mock_crypto parse env (Op_AppendKnownPeerDer 0 rc hc) sample_service = Inr ((), sample_added p)"
    using p by (simp add: AppendKnownPeerDer_def go_ignore_def go_bind_def go_read_def at_peers_def go_zoom_def Append_def
        go_modify_def go_ret_def sample_service_def new_service_def NewContextedPeerMap_def sample_added_def
        new_peer_def Let_def)
  moreover have "net_exec mock_crypto parse env (Op_Outbound sample_outbound (root_id_hash p) [sample_addr] []) (sample_added p)
      = Inr ((), sample_closed p)"
    by (simp add: PrepareAbyssOutbound_def sample_candidates go_bind_def go_read_def sample_added_def sample_service_def
        new_service_def go_ret_def go_index_def go_nonnil_def outbound_handshake_def sample_outbound_def at_peer_def
        fail_peer_def go_modify_def sample_closed_def new_peer_def NewAbyssPeer_def AbyssPeer.defs)
  ultimately show ?thesis by (rule that)
qed

text \<open>C31. In every history of the network service, whatever remote hosts send: a peer is filed under
  the hash of its identity; a connected peer has both connections, its encoder and its decoder, so
  sending to it dereferences no nil; activity counts are not negative; and the channel of connected
  peers has carried each peer that got both connections exactly once, and no other.\<close>

theorem network_invariant:
  assumes "net_runs cr parse env ident url sel tls ops h"
  shows "distinct (abyssPeerCH h)
    \<and> (\<forall>i. i \<in> set (abyssPeerCH h) \<longleftrightarrow> (\<exists>p. pm_peers (ns_peers h) i = Some p \<and> inbound_conn p \<noteq> None \<and> outbound_conn p \<noteq> None))
    \<and> (\<forall>i p. pm_peers (ns_peers h) i = Some p \<longrightarrow> AbyssPeer_IDHash p = i \<and> 0 \<le> active_cnt (activity p)
        \<and> (IsConnected p \<longrightarrow> writable p \<and> ahmp_decoder p \<noteq> None \<and> i \<in> set (abyssPeerCH h)))"
proof -
  have inv: "net_inv h" using net_sys.safe_inv [OF assms] .
  have "writable p \<and> ahmp_decoder p \<noteq> None \<and> both p" if "parts_ok p" "IsConnected p" for p :: "'a ContextedPeer"
    using that by (auto simp: parts_ok_def IsConnected_def writable_def both_def)
  then show ?thesis
    using inv unfolding net_inv_def entry_ok_def AbyssPeer_IDHash_def both_def by blast
qed

lemma net_history_step:
  assumes "net_inv h" and "runs (net_exec cr parse env) (\<lambda>_ _. True) h ops h'"
  shows "net_step h h'"
  using assms(2)
proof (induction rule: runs.induct)
  case runs_nil
  show ?case using assms(1) by simp
next
  case (runs_snoc cs s c r s')
  have "net_step s s'"
    using wpx_result [OF net_exec_inv runs_snoc.hyps(3)] runs_snoc.IH by (simp add: net_step_def)
  then show ?case using runs_snoc.IH table_grows_trans by (auto simp: net_step_def)
qed

theorem network_invariant_witness:
  "\<exists>ops h i p. net_runs mock_crypto uuid_parse sample_env sample_secrets sample_url sample_selector sample_tls ops h
    \<and> pm_peers (ns_peers h) i = Some p \<and> AbyssPeer_IDHash p = i \<and> 0 \<le> active_cnt (activity p) \<and> abyssPeerCH h = []"
proof -
  obtain rc hc p where step: "net_exec mock_crypto uuid_parse sample_env (Op_AppendKnownPeerDer 0 rc hc) sample_service
      = Inr ((), sample_added p)"
    using sample_history [of uuid_parse sample_env] by metis
  have "net_runs mock_crypto uuid_parse sample_env sample_secrets sample_url sample_selector sample_tls
      ([] @ [Op_AppendKnownPeerDer 0 rc hc]) (sample_added p)"
    using step unfolding sample_service_def by (intro runs_snoc [OF runs_nil]) simp_all
  from network_invariant [OF this] this show ?thesis
    by (intro exI [of _ "[] @ [Op_AppendKnownPeerDer 0 rc hc]"] exI [of _ "sample_added p"] exI [of _ "root_id_hash p"]
        exI [of _ "new_peer p 0"] conjI)
      (simp_all add: sample_added_def sample_service_def new_service_def)
qed

text \<open>C32. A connection that was closed is never made again: the table keeps an entry for ever, a second
  entry for the same peer is refused, and no handshake, message or cleaning round of any further
  history takes a closed peer out of the closed state.\<close>

theorem closed_peer_stays_closed:
  assumes "net_runs cr parse env ident url sel tls ops h"
    and "pm_peers (ns_peers h) i = Some p" and "ap_state p = PNCS_CLOSED"
    and "runs (net_exec cr parse env) (\<lambda>_ _. True) h ops' h'"
  shows "\<exists>p'. pm_peers (ns_peers h') i = Some p' \<and> ap_state p' = PNCS_CLOSED \<and> identity p' = identity p
    \<and> (\<forall>q ctx now. Append ctx now i q (ns_peers h') = Inr (None, ns_peers h'))"
proof -
  have "net_step h h'" using net_history_step [OF net_sys.safe_inv [OF assms(1)] assms(4)] .
  then obtain p' where p': "pm_peers (ns_peers h') i = Some p'" "ap_state p' = PNCS_CLOSED" "identity p' = identity p"
    using assms(2,3) by (auto simp: net_step_def table_grows_def)
  then show ?thesis using peer_map.add_known [of "ns_peers h'" i] by auto
qed


theorem closed_peer_stays_closed_witness:
  "\<exists>ops h i p. net_runs mock_crypto uuid_parse sample_env sample_secrets sample_url sample_selector sample_tls ops h
    \<and> pm_peers (ns_peers h) i = Some p \<and> ap_state p = PNCS_CLOSED
    \<and> (\<forall>q ctx now. Append ctx now i q (ns_peers h) = Inr (None, ns_peers h))"
proof -
  obtain rc hc p where step:
    "net_exec mock_crypto uuid_parse sample_env (Op_AppendKnownPeerDer 0 rc hc) sample_service = Inr ((), sample_added p)"
    "net_exec mock_crypto uuid_parse sample_env (Op_Outbound sample_outbound (root_id_hash p) [sample_addr] []) (sample_added p)
      = Inr ((), sample_closed p)"
    using sample_history [of uuid_parse sample_env] by metis
  let ?ops = "([] @ [Op_AppendKnownPeerDer 0 rc hc]) @ [Op_Outbound sample_outbound (root_id_hash p) [sample_addr] []]"
  let ?p = "(new_peer p 0)\<lparr>ap_err := Some ''refused'', ap_state := PNCS_CLOSED\<rparr>"
  have run: "net_runs mock_crypto uuid_parse sample_env sample_secrets sample_url sample_selector sample_tls ?ops (sample_closed p)"
    using step unfolding sample_service_def by (intro runs_snoc [OF runs_snoc [OF runs_nil]]) simp_all
  have peer: "pm_peers (ns_peers (sample_closed p)) (root_id_hash p) = Some ?p" "ap_state ?p = PNCS_CLOSED"
    by (simp_all add: sample_closed_def)
  show ?thesis
    using closed_peer_stays_closed [OF run peer runs_nil] run peer by metis
qed

section \<open>Authentication\<close>

lemma wlp_stateless_result:
  assumes "stateless f" and "\<And>a. f s = Inr (a, s) \<Longrightarrow> wlp (g a) Q s"
  shows "wlp (go_bind f g) Q s"
  unfolding wpx_bind
proof (rule wlpI)
  fix a s'
  assume "f s = Inr (a, s')"
  moreover from this have "s' = s" using assms(1) by (simp add: stateless_def)
  ultimately show "wlp (g a) Q s'" using assms(2) by simp
qed

text \<open>What a successful verification shows: the binding certificate is issued for the peer under its
  root certificate, for the key of the TLS connection.\<close>

definition bound_to :: "crypto \<Rightarrow> PeerIdentity \<Rightarrow> Certificate \<Rightarrow> bool" where
  "bound_to cr p tls_cert \<longleftrightarrow> (\<exists>b k. cert_PublicKey b = Some (Ed25519 k) \<and> cert_PublicKey tls_cert = Some (Ed25519 k)
     \<and> Issuer b = Issuer (root_self_cert_x509 p) \<and> Subject b = ''T-'' @ Issuer (root_self_cert_x509 p)
     \<and> CheckSignatureFrom cr b (root_self_cert_x509 p) = None)"

lemma VerifyTLSBinding_None: "VerifyTLSBinding cr p b c s = Inr (None, s') \<Longrightarrow> bound_to cr p c"
  unfolding bound_to_def
  by (rule exI [of _ b])
    (auto simp: VerifyTLSBinding_def go_ret_def go_panic_def split: option.splits PublicKey.splits if_splits)

lemma inbound_verify_None:
  assumes "inbound_verify cr ie p b s = Inr (None, s)"
  shows "bound_to cr p (ie_tls_certs ie ! 0)"
proof -
  have "\<exists>v. VerifyTLSBinding cr p b (ie_tls_certs ie ! 0) s = Inr (None, v)"
    using assms by (auto simp: inbound_verify_def go_bind_def go_index_def go_ret_def go_panic_def
        split: sum.splits option.splits if_splits)
  then show ?thesis by (elim exE) (rule VerifyTLSBinding_None)
qed

definition inbound_only_bound :: "crypto \<Rightarrow> inbound_env \<Rightarrow> 'w BetaNetService \<Rightarrow> 'w BetaNetService \<Rightarrow> bool" where
  "inbound_only_bound cr ie h h' \<longleftrightarrow> (\<forall>i p p'. pm_peers (ns_peers h) i = Some p \<longrightarrow> pm_peers (ns_peers h') i = Some p' \<longrightarrow>
     inbound_conn p' \<noteq> inbound_conn p \<longrightarrow> inbound_conn p' = Some (ie_conn ie) \<and> bound_to cr (identity p) (ie_tls_certs ie ! 0))"

lemma finish_inbound_conn:
  "wlp (finish_inbound err conn dec) (\<lambda>_ p'. inbound_conn p' = inbound_conn p \<or> err = None \<and> inbound_conn p' = Some conn) p"
  by (cases err; cases "ap_state p") (auto simp: finish_inbound_def fail_peer_def wp_rules)

lemma at_peer_inbound_only:
  assumes "pm_peers (ns_peers h) i = Some p" and "err = None \<Longrightarrow> bound_to cr (identity p) (ie_tls_certs ie ! 0)"
  shows "wlp (at_peer i (finish_inbound err (ie_conn ie) dec)) (\<lambda>_. inbound_only_bound cr ie h) h"
proof -
  have "inbound_conn p' = inbound_conn p \<or> err = None \<and> inbound_conn p' = Some (ie_conn ie)"
    if "finish_inbound err (ie_conn ie) dec p = Inr (acts, p')" for acts p'
    using wpx_result [OF finish_inbound_conn that] .
  then show ?thesis
    using assms by (auto simp: at_peer_def wp_rules inbound_only_bound_def split: sum.split)
qed

lemma inbound_only_refl [simp]: "inbound_only_bound cr ie h h"
  by (simp add: inbound_only_bound_def)

lemma PrepareAbyssInbound_bound: "wlp (PrepareAbyssInbound cr ie stream) (\<lambda>_. inbound_only_bound cr ie h) h"
proof -
  have "wlp (go_bind (inbound_verify cr ie (identity p) b)
      (\<lambda>err. at_peer i (finish_inbound err (ie_conn ie) stream))) (\<lambda>_. inbound_only_bound cr ie h) h"
    if "pm_peers (ns_peers h) i = Some p" for i p b
    by (rule wlp_stateless_result [OF stateless_inbound(2)], rule at_peer_inbound_only [OF that])
      (auto dest: inbound_verify_None)
  then show ?thesis
    unfolding PrepareAbyssInbound_def wpx_bind [where f = "go_read localIdentity"] wpx_read
    by (intro wlp_stateless_bind [OF stateless_inbound(1)])
      (auto simp: wpx_read wpx_ret wpx_bind [where f = "go_read _"] split: sum.split option.split)
qed

text \<open>C33. Inbound connections are authenticated: an inbound handshake attaches its connection to a peer
  only if the key of the TLS connection is bound to that peer by a certificate that verifies under
  the root certificate of the peer.\<close>

theorem inbound_authenticated:
  assumes "PrepareAbyssInbound cr ie stream h = Inr ((), h')"
    and "pm_peers (ns_peers h) i = Some p" and "pm_peers (ns_peers h') i = Some p'"
    and "inbound_conn p' \<noteq> inbound_conn p"
  shows "inbound_conn p' = Some (ie_conn ie) \<and> bound_to cr (identity p) (ie_tls_certs ie ! 0)"
  using wpx_result [OF PrepareAbyssInbound_bound assms(1)] assms(2-4) by (auto simp: inbound_only_bound_def)

definition sample_handshake :: bytes where
  "sample_handshake = replicate 32 5 @ replicate 12 6 @ abyss_bind_cert sample_tls"

lemma sample_hash_secrets: "rs_root_id_hash sample_secrets = sample_hash"
  "Subject (rs_root_self_cert_x509 sample_secrets) = sample_hash"
  by (simp_all add: sample_secrets_def NewRootIdentity_def sample_root_random_def mock_crypto_def
      AbyssIdFromKey_def Let_def go_ret_def mock_decode_encode root_template_def sample_hash_def)

lemma sample_bind:
  "Issuer (mock_decode (abyss_bind_cert sample_tls)) = sample_hash"
  "Subject (mock_decode (abyss_bind_cert sample_tls)) = ''T-'' @ sample_hash"
  "cert_PublicKey (mock_decode (abyss_bind_cert sample_tls)) = Some (Ed25519 [1, 7])"
  "cert_PublicKey (mock_decode (tls_self_cert sample_tls)) = Some (Ed25519 [1, 7])"
  by (simp_all add: sample_tls_def NewTLSIdentity_def sample_tls_random_def mock_crypto_def Let_def go_ret_def
      mock_decode_encode sample_hash_secrets mock_Public_def)

lemma sample_decrypted:
  "DecryptHandshake mock_crypto sample_secrets sample_handshake = go_ret (Inr (abyss_bind_cert sample_tls))"
  by (simp add: DecryptHandshake_def Let_def go_slice_def NewCipher_def gcm_open_def mock_crypto_def sample_handshake_def)

lemma mock_parse: "ParseCertificate mock_crypto b = Inr (mock_decode b)"
  by (simp add: mock_crypto_def)

lemma sample_claim:
  "inbound_claim mock_crypto sample_secrets (sample_inbound sample_handshake)
    = go_ret (Inr (sample_hash, mock_decode (abyss_bind_cert sample_tls)))"
  by (simp add: inbound_claim_def sample_inbound_def go_index_def mock_parse sample_bind sample_decrypted)

lemma sample_verified:
  "VerifyTLSBinding mock_crypto sample_identity (mock_decode (abyss_bind_cert sample_tls))
     (mock_decode (tls_self_cert sample_tls)) = go_ret None"
  by (simp add: VerifyTLSBinding_def sample_bind sample_identity_def mock_crypto_def)

lemma new_peer_sel [simp]:
  "identity (new_peer ident now) = ident" "inbound_conn (new_peer ident now) = None"
  "ap_state (new_peer ident now) = PNCS_DISCONNECTED"
  by (simp_all add: new_peer_def NewAbyssPeer_def AbyssPeer.defs)

lemma sample_checked:
  "inbound_verify mock_crypto (sample_inbound raw) sample_identity (mock_decode (abyss_bind_cert sample_tls)) s = Inr (None, s)"
  by (simp add: inbound_verify_def sample_inbound_def go_index_def sample_verified go_ret_def)

theorem inbound_authenticated_witness:
  "\<exists>h' p'. PrepareAbyssInbound mock_crypto (sample_inbound sample_handshake) [] (sample_added sample_identity) = Inr ((), h')
    \<and> pm_peers (ns_peers h') sample_hash = Some p' \<and> inbound_conn p' = Some sample_conn
    \<and> bound_to mock_crypto sample_identity (mock_decode (tls_self_cert sample_tls))"
proof -
  let ?p' = "(new_peer sample_identity 0)\<lparr>ap_state := PNCS_INBOUND, inbound_conn := Some sample_conn, ahmp_decoder := Some []\<rparr>"
  have h: "localIdentity (sample_added sample_identity) = sample_secrets"
    by (simp add: sample_added_def sample_service_def new_service_def)
  have peer: "pm_peers (ns_peers (sample_added sample_identity)) sample_hash = Some (new_peer sample_identity 0)"
    by (simp add: sample_added_def sample_identity_def)
  have "\<exists>h'. PrepareAbyssInbound mock_crypto (sample_inbound sample_handshake) [] (sample_added sample_identity) = Inr ((), h')
      \<and> pm_peers (ns_peers h') sample_hash = Some ?p'"
    using peer h
    by (simp add: PrepareAbyssInbound_def go_bind_def go_read_def sample_claim [unfolded go_ret_def] sample_checked
        go_ret_def at_peer_def go_nonnil_def finish_inbound_def go_modify_def)
      (simp add: sample_inbound_def)
  then obtain h' where h': "PrepareAbyssInbound mock_crypto (sample_inbound sample_handshake) [] (sample_added sample_identity)
      = Inr ((), h')" "pm_peers (ns_peers h') sample_hash = Some ?p'" by blast
  have "inbound_conn ?p' \<noteq> inbound_conn (new_peer sample_identity 0)" by simp
  from inbound_authenticated [OF h'(1) peer h'(2) this] h' show ?thesis
    by (auto simp: sample_inbound_def)
qed

text \<open>C34. Outbound connections are not: the outbound handshake assigns the errors of its last two steps
  to variables that shadow the one its deferred function reads. A remote host whose certificate does
  not verify is attached to the peer, the peer becomes connected and is published, without an error.\<close>

theorem outbound_unverified_accepted:
  assumes "FilterAddressCandidates (addressSelector h) addrs h = Inr (a # as, h)"
    and "pm_peers (ns_peers h) i = Some p" and "ap_state p = PNCS_INBOUND"
    and "oe_dial oe a = Inr conn" and "oe_tls_certs oe = tls_cert # rest" and "oe_open oe = None" and "oe_marshal oe = Inr buf"
    and "EncryptHandshake cr (oe_key oe) (oe_nonce oe) (identity p) buf h = Inr (Inr payload, h)"
    and "oe_encode oe = None" and "oe_handshake_2 oe = Inr der" and "ParseCertificate cr der = Inr cert"
    and "VerifyTLSBinding cr (identity p) cert tls_cert h = Inr (Some e, h)"
  shows "\<exists>h' p'. PrepareAbyssOutbound cr oe i addrs stream h = Inr ((), h') \<and> pm_peers (ns_peers h') i = Some p'
    \<and> ap_state p' = PNCS_CONNECTED \<and> outbound_conn p' = Some conn \<and> ap_err p' = ap_err p \<and> i \<in> set (abyssPeerCH h')"
  using assms
  by (simp add: PrepareAbyssOutbound_def go_bind_def go_read_def go_index_def go_nonnil_def outbound_handshake_def
      go_try_def go_ret_def at_peer_def finish_outbound_def go_modify_def)

definition sample_stranger :: Certificate where
  "sample_stranger = (mock_decode (tls_self_cert sample_tls))\<lparr>cert_PublicKey := Some (Ed25519 [9])\<rparr>"

definition sample_half :: "item BetaNetService" where
  "sample_half = sample_service\<lparr>ns_peers := \<lparr>pm_peers = [sample_hash \<mapsto> (new_peer sample_identity 0)\<lparr>
       ap_state := PNCS_INBOUND, inbound_conn := Some sample_conn, ahmp_decoder := Some []\<rparr>],
     pm_waiters = Map.empty, delivered = []\<rparr>\<rparr>"

definition sample_forged :: outbound_env where
  "sample_forged = sample_outbound\<lparr>oe_dial := (\<lambda>_. Inr sample_conn), oe_tls_certs := [sample_stranger],
     oe_handshake_2 := Inr (abyss_bind_cert sample_tls)\<rparr>"

lemma sample_mismatch:
  "VerifyTLSBinding mock_crypto sample_identity (mock_decode (abyss_bind_cert sample_tls)) sample_stranger s
    = Inr (Some ''tls public key mismatch'', s)"
  by (simp add: VerifyTLSBinding_def sample_bind sample_stranger_def go_ret_def)

theorem outbound_unverified_accepted_witness:
  "\<exists>h' p'. PrepareAbyssOutbound mock_crypto sample_forged sample_hash [sample_addr] [] sample_half = Inr ((), h')
    \<and> pm_peers (ns_peers h') sample_hash = Some p' \<and> ap_state p' = PNCS_CONNECTED \<and> sample_hash \<in> set (abyssPeerCH h')"
proof -
  let ?p = "(new_peer sample_identity 0)\<lparr>ap_state := PNCS_INBOUND, inbound_conn := Some sample_conn, ahmp_decoder := Some []\<rparr>
    :: item ContextedPeer"
  have "addressSelector sample_half = sample_selector" by (simp add: sample_half_def sample_service_def new_service_def)
  then have "FilterAddressCandidates (addressSelector sample_half) [sample_addr] sample_half = Inr ([sample_addr], sample_half)"
    by (simp add: sample_candidates go_ret_def)
  moreover have "pm_peers (ns_peers sample_half) sample_hash = Some ?p" by (simp add: sample_half_def)
  moreover have "EncryptHandshake mock_crypto (oe_key sample_forged) (oe_nonce sample_forged) (identity ?p) [] sample_half
      = Inr (Inr (replicate 32 5 @ replicate 12 6), sample_half)"
    by (simp add: EncryptHandshake_def NewCipher_def mock_crypto_def Let_def go_ret_def sample_forged_def sample_outbound_def)
  moreover have "VerifyTLSBinding mock_crypto (identity ?p) (mock_decode (abyss_bind_cert sample_tls)) sample_stranger sample_half
      = Inr (Some ''tls public key mismatch'', sample_half)"
    by (simp add: sample_mismatch)
  moreover have "oe_dial sample_forged sample_addr = Inr sample_conn" "oe_tls_certs sample_forged = [sample_stranger]"
    "oe_open sample_forged = None" "oe_marshal sample_forged = Inr []" "oe_encode sample_forged = None"
    "oe_handshake_2 sample_forged = Inr (abyss_bind_cert sample_tls)" "ap_state ?p = PNCS_INBOUND"
    by (simp_all add: sample_forged_def sample_outbound_def)
  ultimately show ?thesis using outbound_unverified_accepted mock_parse by metis
qed

text \<open>C35. Anyone can close the connection of a known peer: an inbound handshake that merely claims the
  hash of the peer, and fails the verification, puts the genuine peer into the closed state, from
  which it does not return.\<close>

theorem forged_inbound_closes_peer:
  assumes "inbound_claim cr (localIdentity h) ie h = Inr (Inr (i, b), h)" and "ie_tls_certs ie \<noteq> []"
    and "pm_peers (ns_peers h) i = Some p"
    and "VerifyTLSBinding cr (identity p) b (ie_tls_certs ie ! 0) h = Inr (Some e, h)"
  shows "\<exists>h' p'. PrepareAbyssInbound cr ie stream h = Inr ((), h') \<and> pm_peers (ns_peers h') i = Some p'
    \<and> ap_state p' = PNCS_CLOSED"
  using assms
  by (simp add: PrepareAbyssInbound_def go_bind_def go_read_def inbound_verify_def go_index_def go_ret_def at_peer_def
      go_nonnil_def finish_inbound_def fail_peer_def go_modify_def)

theorem forged_inbound_closes_peer_witness:
  "\<exists>h' p'. PrepareAbyssInbound mock_crypto ((sample_inbound sample_handshake)\<lparr>ie_tls_certs := [sample_stranger]\<rparr>) [] sample_half
      = Inr ((), h') \<and> pm_peers (ns_peers h') sample_hash = Some p' \<and> ap_state p' = PNCS_CLOSED"
proof -
  let ?ie = "(sample_inbound sample_handshake)\<lparr>ie_tls_certs := [sample_stranger]\<rparr>"
  let ?p = "(new_peer sample_identity 0)\<lparr>ap_state := PNCS_INBOUND, inbound_conn := Some sample_conn, ahmp_decoder := Some []\<rparr>
    :: item ContextedPeer"
  have "localIdentity sample_half = sample_secrets" by (simp add: sample_half_def sample_service_def new_service_def)
  then have "inbound_claim mock_crypto (localIdentity sample_half) ?ie sample_half
      = Inr (Inr (sample_hash, mock_decode (abyss_bind_cert sample_tls)), sample_half)"
    by (simp add: inbound_claim_def sample_inbound_def go_index_def mock_parse sample_bind sample_decrypted go_ret_def)
  moreover have "pm_peers (ns_peers sample_half) sample_hash = Some ?p" by (simp add: sample_half_def)
  moreover have "VerifyTLSBinding mock_crypto (identity ?p) (mock_decode (abyss_bind_cert sample_tls)) (ie_tls_certs ?ie ! 0) sample_half
      = Inr (Some ''tls public key mismatch'', sample_half)"
    by (simp add: sample_mismatch)
  moreover have "ie_tls_certs ?ie \<noteq> []" by simp
  ultimately show ?thesis using forged_inbound_closes_peer by blast
qed

section \<open>Addresses\<close>

text \<open>C36. The address filter, for addresses of at least two bytes: it does not panic, it computes its
  reference definition (all public candidates; else the last private one that is not the own; else
  the last loopback one), and filtering its result again changes nothing, so an outbound handshake,
  which filters a second time, finds an address whenever the connect request found one.\<close>

theorem address_filter_correct:
  assumes "list_all ip_ok as"
  shows "FilterAddressCandidates s as = go_ret (candidates_ref s as)
    \<and> FilterAddressCandidates s (candidates_ref s as) = go_ret (candidates_ref s as)"
proof -
  have "list_all ip_ok (candidates_ref s as)"
    using assms candidates_subset [of s as] by (auto simp: list_all_iff)
  then show ?thesis using assms by (simp add: FilterAddressCandidates_ref candidates_idem)
qed

theorem address_filter_correct_witness:
  "FilterAddressCandidates sample_selector
     [\<lparr>IP = [127, 0, 0, 1], Port = 1\<rparr>, \<lparr>IP = [192, 168, 0, 9], Port = 2\<rparr>]
   = (go_ret [\<lparr>IP = [192, 168, 0, 9], Port = 2\<rparr>] :: (unit, UDPAddr list) go)"
proof -
  let ?as = "[\<lparr>IP = [127, 0, 0, 1], Port = 1\<rparr>, \<lparr>IP = [192, 168, 0, 9], Port = 2\<rparr>] :: UDPAddr list"
  have "list_all ip_ok ?as" by (simp add: ip_ok_def)
  moreover have "candidates_ref sample_selector ?as = [\<lparr>IP = [192, 168, 0, 9], Port = 2\<rparr>]" by code_simp
  ultimately show ?thesis using address_filter_correct by metis
qed

text \<open>The test for private addresses reads the first bytes of the slice. A parsed address has 16 bytes,
  and an IPv4 address of that form starts with zeros: it is never taken for a private one.\<close>

lemma parsed_never_private: "address_kind s \<lparr>IP = IPv4 a b c d, Port = n\<rparr> \<noteq> A_Private"
  by (rule address_kind_16) (simp_all add: IPv4_def v4InV6Prefix_def)

end
