(* ===== verification/Host.thy ===== *)
theory Host
  imports And Net_Service Peer_Conn
begin

text \<open>
  The host, \<open>host/*.go\<close>, which composes the other components: it owns the network service and the
  neighbor discovery object, hands the messages of connected peers to the latter (\<open>serveLoop\<close>),
  carries out what the latter asks for (\<open>eventLoop\<close>) and gives the application worlds with a channel
  of world events each.

  The state holds the states of both components. A \<open>TrySend...\<close> of the neighbor discovery object is
  performed on the peer of the network service (\<open>and_do\<close>). Worlds and the channels of pending joins are
  objects that are shared by reference, so the state has a store for each; a reference is an index.
  A method that waits is split where it waits, and a \<open>select\<close> takes the case it chooses as an
  argument.
\<close>

section \<open>The path resolver\<close>

record SimplePathResolver =
  pathMap :: "string \<rightharpoonup> uuid"

definition NewSimplePathResolver :: SimplePathResolver where
  "NewSimplePathResolver = \<lparr>pathMap = Map.empty\<rparr>"

definition TrySetMapping :: "string \<Rightarrow> uuid \<Rightarrow> (SimplePathResolver, bool) go" where
  "TrySetMapping path dest = go_bind (go_read (\<lambda>r. pathMap r path)) (\<lambda>old. case old of
     Some _ \<Rightarrow> go_ret False
   | None \<Rightarrow> go_bind (go_modify (\<lambda>r. r\<lparr>pathMap := (pathMap r)(path \<mapsto> dest)\<rparr>)) (\<lambda>_. go_ret True))"

definition DeleteMapping :: "string \<Rightarrow> (SimplePathResolver, unit) go" where
  "DeleteMapping path = go_modify (\<lambda>r. r\<lparr>pathMap := (pathMap r)(path := None)\<rparr>)"

definition PathToSessionID :: "string \<Rightarrow> SimplePathResolver \<Rightarrow> uuid option" where
  "PathToSessionID path r = pathMap r path"

section \<open>Worlds\<close>

type_synonym world_ref = nat

record WorldMember =
  wm_world :: world_ref
  wm_hash :: hash
  wm_peerSession :: ANDPeerSession

text \<open>The closures \<open>Accept\<close> and \<open>Decline\<close> of a member request are the values they capture.\<close>

datatype world_event =
    EWorldMemberRequest hash world_ref ANDPeerSession
  | EWorldMemberReady WorldMember
  | EMemberObjectAppend hash "ObjectInfo list"
  | EMemberObjectDelete hash "uuid list"
  | EWorldMemberLeave hash
  | EWorldTerminate

text \<open>The channel of a world is the list of the events that were sent on it and the number of those that
  were received. It holds the others, at most 4096 of them.\<close>

record World =
  w_session_id :: uuid
  w_url :: string
  eventChannel :: "world_event list"
  w_received :: nat

definition NewWorld :: "uuid \<Rightarrow> string \<Rightarrow> World" where
  "NewWorld sid u = \<lparr>w_session_id = sid, w_url = u, eventChannel = [], w_received = 0\<rparr>"

definition channel_full :: "World \<Rightarrow> bool" where
  "channel_full w \<longleftrightarrow> w_received w + 4096 \<le> length (eventChannel w)"

section \<open>The state of the host\<close>

record WorldCreationEvent =
  wce_ok :: bool
  wce_code :: int
  wce_message :: string
  wce_world :: "world_ref option"

record 'w AbyssHost =
  NetworkService :: "'w BetaNetService"
  neighborDiscoveryAlgorithm :: AND
  pathResolver :: SimplePathResolver
  host_worlds :: "uuid \<rightharpoonup> world_ref option"
  join_queue :: "uuid \<rightharpoonup> nat"
  world_store :: "World list"
  join_chans :: "WorldCreationEvent list list"
  timers :: "(uuid \<times> int) list"

definition NewAbyssHost :: "'w BetaNetService \<Rightarrow> AND \<Rightarrow> SimplePathResolver \<Rightarrow> 'w AbyssHost" where
  "NewAbyssHost netServ nda path_resolver = \<lparr>NetworkService = netServ, neighborDiscoveryAlgorithm = nda,
     pathResolver = path_resolver, host_worlds = Map.empty, join_queue = Map.empty, world_store = [],
     join_chans = [], timers = []\<rparr>"

text \<open>\<open>NewBetaAbyssHost\<close> ignores the error of \<open>NewBetaNetService\<close>; \<open>netserv\<close> is nil then.\<close>

definition NewBetaAbyssHost ::
    "crypto \<Rightarrow> root_random \<Rightarrow> tls_random \<Rightarrow> (string + int) \<Rightarrow> (string + (string + bytes option list) list) \<Rightarrow>
     PrivateKey \<Rightarrow> ('s, string + 'w AbyssHost) go" where
  "NewBetaAbyssHost cr rr tr udp_port interfaces root_private_key =
     (case NewBetaAddressSelector interfaces of
        Inl err \<Rightarrow> go_ret (Inl err)
      | Inr address_selector \<Rightarrow>
          go_bind (NewBetaNetService cr rr tr udp_port root_private_key address_selector) (\<lambda>r. case r of
            Inl _ \<Rightarrow> go_panic NilDeref
          | Inr netserv \<Rightarrow> go_ret (Inr (NewAbyssHost netserv (NewAND (Hash (local_aurl netserv)))
              NewSimplePathResolver))))"

definition GetLocalAbyssURL :: "('w AbyssHost, AURL) go" where
  "GetLocalAbyssURL = go_bind (go_read (\<lambda>h. local_aurl (NetworkService h))) (\<lambda>origin.
     go_bind (Accum_all (Addresses origin) [] (\<lambda>addr acc. go_ret (acc @ [addr]))) (\<lambda>addrs.
     go_ret \<lparr>Scheme = Scheme origin, Hash = Hash origin, Addresses = addrs, Path = Path origin\<rparr>))"

section \<open>Calls of the other components\<close>

definition net_do :: "('w BetaNetService, 'a) go \<Rightarrow> ('w AbyssHost, 'a) go" where
  "net_do = go_zoom NetworkService (\<lambda>n h. h\<lparr>NetworkService := n\<rparr>)"

text \<open>A method of a peer: the network service has one object for each hash.\<close>

definition peer_do :: "IANDPeer \<Rightarrow> ('w ContextedPeer, 'a) go \<Rightarrow> ('w AbyssHost, unit) go" where
  "peer_do p f = net_do (at_peer (IDHash p) (no_action f))"

definition deliver :: "'w wire_env \<Rightarrow> (IANDPeer \<times> ahmp_send) list \<Rightarrow> ('w AbyssHost, unit) go" where
  "deliver env ms = go_for ms (\<lambda>(p, m). peer_do p (Peer_send env m))"

definition and_do :: "'w wire_env \<Rightarrow> and_call \<Rightarrow> ('w AbyssHost, ANDERROR) go" where
  "and_do env c = go_bind (go_read (\<lambda>h. length (and_sent (neighborDiscoveryAlgorithm h)))) (\<lambda>n.
     go_bind (go_zoom neighborDiscoveryAlgorithm (\<lambda>a h. h\<lparr>neighborDiscoveryAlgorithm := a\<rparr>) (and_exec c)) (\<lambda>r.
     go_bind (go_read (\<lambda>h. drop n (and_sent (neighborDiscoveryAlgorithm h)))) (\<lambda>ms.
     go_bind (deliver env ms) (\<lambda>_. go_ret r))))"

section \<open>Raising world events\<close>

text \<open>\<open>w.eventChannel <- e\<close> for a world pointer, which may be nil; it waits while the channel is full.\<close>

definition raise_event :: "world_ref option \<Rightarrow> (world_ref \<Rightarrow> world_event) \<Rightarrow> ('w AbyssHost, unit) go" where
  "raise_event world e = go_bind (go_nonnil world) (\<lambda>w.
     go_bind (go_read (\<lambda>h. channel_full (world_store h ! w))) (\<lambda>full.
     if full then go_panic Blocked
     else go_modify (\<lambda>h. h\<lparr>world_store := (world_store h)[w := (world_store h ! w)\<lparr>
       eventChannel := eventChannel (world_store h ! w) @ [e w]\<rparr>]\<rparr>)))"

text \<open>\<open><-world.event_ch\<close> of the application; it waits while there is no event.\<close>

definition receive_event :: "world_ref \<Rightarrow> ('w AbyssHost, world_event) go" where
  "receive_event w = go_bind (go_read (\<lambda>h. world_store h ! w)) (\<lambda>world.
     if length (eventChannel world) \<le> w_received world then go_panic Blocked
     else go_bind (go_modify (\<lambda>h. h\<lparr>world_store := (world_store h)[w := world\<lparr>w_received := Suc (w_received world)\<rparr>]\<rparr>))
       (\<lambda>_. go_ret (eventChannel world ! w_received world)))"

definition peer_of :: "'x ANDPeerSession_scheme \<Rightarrow> ('s, IANDPeer) go" where
  "peer_of ps = go_nonnil (Peer ps)"

definition RaisePeerRequest :: "world_ref option \<Rightarrow> ANDPeerSession \<Rightarrow> ('w AbyssHost, unit) go" where
  "RaisePeerRequest world peer_session = go_bind (peer_of peer_session) (\<lambda>p.
     raise_event world (\<lambda>w. EWorldMemberRequest (IDHash p) w peer_session))"

definition RaisePeerReady :: "world_ref option \<Rightarrow> ANDPeerSession \<Rightarrow> ('w AbyssHost, unit) go" where
  "RaisePeerReady world peer_session = go_bind (peer_of peer_session) (\<lambda>p.
     raise_event world (\<lambda>w. EWorldMemberReady
       \<lparr>wm_world = w, wm_hash = IDHash p, wm_peerSession = peer_session\<rparr>))"

definition RaiseObjectAppend :: "world_ref option \<Rightarrow> hash \<Rightarrow> ObjectInfo list \<Rightarrow> ('w AbyssHost, unit) go" where
  "RaiseObjectAppend world peer_hash objects = raise_event world (\<lambda>_. EMemberObjectAppend peer_hash objects)"

definition RaiseObjectDelete :: "world_ref option \<Rightarrow> hash \<Rightarrow> uuid list \<Rightarrow> ('w AbyssHost, unit) go" where
  "RaiseObjectDelete world peer_hash objectIDs = raise_event world (\<lambda>_. EMemberObjectDelete peer_hash objectIDs)"

definition RaisePeerLeave :: "world_ref option \<Rightarrow> hash \<Rightarrow> ('w AbyssHost, unit) go" where
  "RaisePeerLeave world peer_hash = raise_event world (\<lambda>_. EWorldMemberLeave peer_hash)"

definition RaiseWorldTerminate :: "world_ref option \<Rightarrow> ('w AbyssHost, unit) go" where
  "RaiseWorldTerminate world = raise_event world (\<lambda>_. EWorldTerminate)"

text \<open>What the application calls on the values it receives: the closures of a request, and the
  methods of a member.\<close>

definition request_Accept :: "'w wire_env \<Rightarrow> hash list \<Rightarrow> world_ref \<Rightarrow> ANDPeerSession \<Rightarrow> ('w AbyssHost, unit) go" where
  "request_Accept env ord w peer_session = go_bind (go_read (\<lambda>h. w_session_id (world_store h ! w))) (\<lambda>L.
     go_bind (and_do env (AcceptSession ord L peer_session)) (\<lambda>_. go_ret ()))"

definition request_Decline ::
    "'w wire_env \<Rightarrow> world_ref \<Rightarrow> ANDPeerSession \<Rightarrow> int \<Rightarrow> string \<Rightarrow> ('w AbyssHost, unit) go" where
  "request_Decline env w peer_session code message = go_bind (go_read (\<lambda>h. w_session_id (world_store h ! w))) (\<lambda>L.
     go_bind (and_do env (DeclineSession L peer_session code message)) (\<lambda>_. go_ret ()))"

definition member_send :: "'w wire_env \<Rightarrow> WorldMember \<Rightarrow> (uuid \<Rightarrow> ahmp_send) \<Rightarrow> ('w AbyssHost, unit) go" where
  "member_send env m f = go_bind (peer_of (wm_peerSession m)) (\<lambda>p.
     go_bind (go_read (\<lambda>h. w_session_id (world_store h ! wm_world m))) (\<lambda>L. peer_do p (Peer_send env (f L))))"

definition AppendObjects :: "'w wire_env \<Rightarrow> WorldMember \<Rightarrow> ObjectInfo list \<Rightarrow> ('w AbyssHost, unit) go" where
  "AppendObjects env m objects = member_send env m (\<lambda>L. TrySendSOA L (PeerSessionID (wm_peerSession m)) objects)"

definition DeleteObjects :: "'w wire_env \<Rightarrow> WorldMember \<Rightarrow> uuid list \<Rightarrow> ('w AbyssHost, unit) go" where
  "DeleteObjects env m objectIDs = member_send env m (\<lambda>L. TrySendSOD L (PeerSessionID (wm_peerSession m)) objectIDs)"

section \<open>Opening, joining and leaving worlds\<close>

definition OpenOutboundConnection :: "time \<Rightarrow> AURL \<Rightarrow> ('w AbyssHost, unit) go" where
  "OpenOutboundConnection now abyss_url = go_bind (net_do (ConnectAbyssAsync now abyss_url)) (\<lambda>_. go_ret ())"

text \<open>A new channel for the join result, registered under the fresh local session id.\<close>

definition expect_join :: "uuid \<Rightarrow> ('w AbyssHost, nat) go" where
  "expect_join L = go_bind (go_read (\<lambda>h. length (join_chans h))) (\<lambda>ch.
     go_bind (go_modify (\<lambda>h. h\<lparr>join_chans := join_chans h @ [[]], join_queue := (join_queue h)(L \<mapsto> ch)\<rparr>))
     (\<lambda>_. go_ret ch))"

definition OpenWorld_begin ::
    "'w wire_env \<Rightarrow> hash list \<Rightarrow> time \<Rightarrow> uuid \<Rightarrow> string \<Rightarrow> ('w AbyssHost, string + nat) go" where
  "OpenWorld_begin env ord now L world_url = go_bind (expect_join L) (\<lambda>ch.
     go_bind (and_do env (OpenWorld ord now L world_url)) (\<lambda>retval.
     if retval = EINVAL then go_ret (Inl ''OpenWorld: invalid arguments'')
     else if retval = EPANIC then go_panic (Panic ''fatal:::AND corrupted while opening world'')
     else go_ret (Inr ch)))"

text \<open>The receive \<open><-join_res_ch\<close>; it waits while the channel is empty.\<close>

definition receive_join :: "nat \<Rightarrow> ('w AbyssHost, WorldCreationEvent) go" where
  "receive_join ch = go_bind (go_read (\<lambda>h. join_chans h ! ch)) (\<lambda>q. case q of
     [] \<Rightarrow> go_panic Blocked
   | r # rest \<Rightarrow> go_bind (go_modify (\<lambda>h. h\<lparr>join_chans := (join_chans h)[ch := rest]\<rparr>)) (\<lambda>_. go_ret r))"

definition OpenWorld_end :: "nat \<Rightarrow> ('w AbyssHost, world_ref option) go" where
  "OpenWorld_end ch = go_bind (receive_join ch) (\<lambda>join_res.
     if \<not> wce_ok join_res then go_panic (Panic ''world open failed unexpetedly'')
     else go_ret (wce_world join_res))"

definition JoinWorld_begin ::
    "'w wire_env \<Rightarrow> hash list \<Rightarrow> time \<Rightarrow> uuid \<Rightarrow> AURL \<Rightarrow> ('w AbyssHost, string + nat) go" where
  "JoinWorld_begin env ord now L abyss_url = go_bind (expect_join L) (\<lambda>ch.
     go_bind (and_do env (JoinWorld ord now L abyss_url)) (\<lambda>retval.
     if retval = EINVAL then go_ret (Inl ''failed to join world::unknown error'')
     else if retval = EPANIC then go_panic (Panic ''fatal:::AND corrupted while joining world'')
     else go_ret (Inr ch)))"

text \<open>The goroutine that watches the context of the join, when the context ends.\<close>

definition JoinWorld_cancel :: "'w wire_env \<Rightarrow> hash list \<Rightarrow> uuid \<Rightarrow> ('w AbyssHost, unit) go" where
  "JoinWorld_cancel env ord L = go_bind (and_do env (CloseWorld ord L)) (\<lambda>_. go_ret ())"

definition JoinWorld_end :: "nat \<Rightarrow> ('w AbyssHost, string + world_ref option) go" where
  "JoinWorld_end ch = go_bind (receive_join ch) (\<lambda>join_res.
     if \<not> wce_ok join_res then go_ret (Inl (wce_message join_res)) else go_ret (Inr (wce_world join_res)))"

definition LeaveWorld :: "'w wire_env \<Rightarrow> hash list \<Rightarrow> world_ref \<Rightarrow> ('w AbyssHost, unit) go" where
  "LeaveWorld env ord w = go_bind (go_read (\<lambda>h. w_session_id (world_store h ! w))) (\<lambda>L.
     go_bind (and_do env (CloseWorld ord L)) (\<lambda>r.
     if r \<noteq> 0 then go_panic (Panic ''World Leave failed'') else go_ret ()))"

section \<open>Serving a peer\<close>

definition session_of :: "IANDPeer \<Rightarrow> uuid \<Rightarrow> ANDPeerSession" where
  "session_of peer sid = \<lparr>Peer = Some peer, PeerSessionID = sid\<rparr>"

text \<open>The call of the neighbor discovery object for a message; \<open>None\<close> when there is none: the path of
  a join request is not known, or the message could not be parsed. \<open>ord\<close> is the order in which a
  reset ranges over the worlds.\<close>

definition message_call :: "uuid list \<Rightarrow> SimplePathResolver \<Rightarrow> IANDPeer \<Rightarrow> ahmp_message \<Rightarrow> and_call option" where
  "message_call ord resolver peer message = (case message of
     Msg_JN m \<Rightarrow> (case PathToSessionID (JN_Text m) resolver of
       None \<Rightarrow> None
     | Some L \<Rightarrow> Some (JN L (session_of peer (JN_SenderSessionID m)) (JN_TimeStamp m)))
   | Msg_JOK m \<Rightarrow> Some (JOK (JOK_RecverSessionID m) (session_of peer (JOK_SenderSessionID m)) (JOK_TimeStamp m)
       (JOK_Text m) (JOK_Neighbors m))
   | Msg_JDN m \<Rightarrow> Some (JDN (JDN_RecverSessionID m) peer (JDN_Code m) (JDN_Text m))
   | Msg_JNI m \<Rightarrow> Some (JNI (JNI_RecverSessionID m) (session_of peer (JNI_SenderSessionID m)) (JNI_Neighbor m))
   | Msg_MEM m \<Rightarrow> Some (MEM (MEM_RecverSessionID m) (session_of peer (MEM_SenderSessionID m)) (MEM_TimeStamp m))
   | Msg_SJN m \<Rightarrow> Some (SJN (SJN_RecverSessionID m) (session_of peer (SJN_SenderSessionID m)) (SJN_MemberInfos m))
   | Msg_CRR m \<Rightarrow> Some (CRR (CRR_RecverSessionID m) (session_of peer (CRR_SenderSessionID m)) (CRR_MemberInfos m))
   | Msg_RST m \<Rightarrow> Some (RST ord (RST_RecverSessionID m) (session_of peer (RST_SenderSessionID m)))
   | Msg_SOA m \<Rightarrow> Some (SOA (SOA_RecverSessionID m) (session_of peer (SOA_SenderSessionID m)) (SOA_Objects m))
   | Msg_SOD m \<Rightarrow> Some (SOD (SOD_RecverSessionID m) (session_of peer (SOD_SenderSessionID m)) (SOD_ObjectIDs m))
   | Msg_INVAL m \<Rightarrow> None)"

text \<open>One round of the loop for a message. The result \<open>EINVAL\<close> is only printed.\<close>

definition serve_message :: "'w wire_env \<Rightarrow> uuid list \<Rightarrow> IANDPeer \<Rightarrow> ahmp_message \<Rightarrow> ('w AbyssHost, unit) go" where
  "serve_message env ord peer message = go_bind (go_read pathResolver) (\<lambda>resolver.
     case message_call ord resolver peer message of
       Some c \<Rightarrow> go_bind (and_do env c) (\<lambda>and_result.
         if and_result = EPANIC then go_panic (Panic ''AND panic!!!'') else go_ret ())
     | None \<Rightarrow> (case message of
         Msg_JN m \<Rightarrow> peer_do peer (Peer_TrySendJDN env (JN_SenderSessionID m) JNC_NOT_FOUND JNM_NOT_FOUND)
       | _ \<Rightarrow> go_ret ()))"

text \<open>What the \<open>select\<close> of the loop chooses, with the order in which a reset ranges over the worlds.\<close>

datatype serve_input = HostDone | PeerDone | Received "uuid list" ahmp_message

text \<open>\<open>peer.Error().Error()\<close> dereferences the error of the peer.\<close>

definition peer_expired :: "IANDPeer \<Rightarrow> ('w AbyssHost, unit) go" where
  "peer_expired peer = go_bind (go_read (\<lambda>h. pm_peers (ns_peers (NetworkService h)) (IDHash peer))) (\<lambda>entry.
     go_bind (go_nonnil entry) (\<lambda>p. go_bind (go_nonnil (Peer_Error p)) (\<lambda>_. go_ret ())))"

fun serve_select :: "'w wire_env \<Rightarrow> IANDPeer \<Rightarrow> serve_input list \<Rightarrow> ('w AbyssHost, unit) go" where
  "serve_select env peer [] = go_ret ()"
| "serve_select env peer (HostDone # _) = go_ret ()"
| "serve_select env peer (PeerDone # _) = peer_expired peer"
| "serve_select env peer (Received ord m # inputs) =
     go_bind (serve_message env ord peer m) (\<lambda>_. serve_select env peer inputs)"

definition serveLoop ::
    "'w wire_env \<Rightarrow> uuid list \<Rightarrow> IANDPeer \<Rightarrow> serve_input list \<Rightarrow> ('w AbyssHost, unit) go" where
  "serveLoop env ord peer inputs =
     go_bind (go_read (\<lambda>h. pm_peers (ns_peers (NetworkService h)) (IDHash peer))) (\<lambda>entry.
     go_bind (go_nonnil entry) (\<lambda>p.
     if \<not> IsConnected p then go_ret ()
     else go_bind (and_do env (PeerConnected ord peer)) (\<lambda>retval.
       if retval \<noteq> 0 then go_ret () else serve_select env peer inputs)))"

section \<open>The event loop\<close>

definition lookup_world :: "uuid \<Rightarrow> ('w AbyssHost, world_ref option) go" where
  "lookup_world L = go_bind (go_read (\<lambda>h. host_worlds h L)) (\<lambda>world. case world of
     None \<Rightarrow> go_panic (Panic ''world not found'')
   | Some w \<Rightarrow> go_ret w)"

text \<open>The result of a join goes to the channel registered for it, which is removed. Sending on the nil
  channel of an unknown join, or on a full one, blocks.\<close>

definition answer_join :: "uuid \<Rightarrow> WorldCreationEvent \<Rightarrow> ('w AbyssHost, unit) go" where
  "answer_join L r = go_bind (go_read (\<lambda>h. join_queue h L)) (\<lambda>join_res_ch.
     go_bind (go_modify (\<lambda>h. h\<lparr>join_queue := (join_queue h)(L := None)\<rparr>)) (\<lambda>_. case join_res_ch of
       None \<Rightarrow> go_panic Blocked
     | Some ch \<Rightarrow> go_bind (go_read (\<lambda>h. join_chans h ! ch)) (\<lambda>q.
         if q \<noteq> [] then go_panic Blocked
         else go_modify (\<lambda>h. h\<lparr>join_chans := (join_chans h)[ch := q @ [r]]\<rparr>))))"

definition create_world :: "uuid \<Rightarrow> string \<Rightarrow> ('w AbyssHost, world_ref) go" where
  "create_world L u = go_bind (go_read (\<lambda>h. length (world_store h))) (\<lambda>w.
     go_bind (go_modify (\<lambda>h. h\<lparr>world_store := world_store h @ [NewWorld L u],
       host_worlds := (host_worlds h)(L \<mapsto> Some w)\<rparr>)) (\<lambda>_. go_ret w))"

definition event_session :: "NeighborEvent \<Rightarrow> ANDPeerSession" where
  "event_session e = \<lparr>Peer = Peer e, PeerSessionID = PeerSessionID e\<rparr>"

definition bad_object :: "('s, 'a) go" where
  "bad_object = go_panic (Panic ''interface conversion'')"

text \<open>The text of the panic for an unknown world that is left continues with the id.\<close>

definition handle_event :: "crypto \<Rightarrow> time \<Rightarrow> NeighborEvent \<Rightarrow> ('w AbyssHost, unit) go" where
  "handle_event cr now e = (let L = LocalSessionID e in case Type e of
     ANDSessionRequest \<Rightarrow> go_bind (lookup_world L) (\<lambda>world. RaisePeerRequest world (event_session e))
   | ANDSessionReady \<Rightarrow> go_bind (lookup_world L) (\<lambda>world. go_bind (peer_of e) (\<lambda>p. go_block [
       peer_do p (Activate now), RaisePeerReady world (event_session e)]))
   | ANDSessionClose \<Rightarrow> go_bind (lookup_world L) (\<lambda>world. go_bind (peer_of e) (\<lambda>p. go_block [
       peer_do p (Deactivate now), RaisePeerLeave world (IDHash p)]))
   | ANDJoinSuccess \<Rightarrow> go_bind (create_world L (Text e)) (\<lambda>w.
       answer_join L \<lparr>wce_ok = True, wce_code = Value e, wce_message = Text e, wce_world = Some w\<rparr>)
   | ANDJoinFail \<Rightarrow> go_block [
       go_modify (\<lambda>h. h\<lparr>host_worlds := (host_worlds h)(L \<mapsto> None)\<rparr>),
       answer_join L \<lparr>wce_ok = False, wce_code = Value e, wce_message = Text e, wce_world = None\<rparr>]
   | ANDWorldLeave \<Rightarrow> go_bind (go_read (\<lambda>h. host_worlds h L)) (\<lambda>world.
       go_bind (go_modify (\<lambda>h. h\<lparr>host_worlds := (host_worlds h)(L := None)\<rparr>)) (\<lambda>_. case world of
         None \<Rightarrow> go_panic (Panic ''world not found: '')
       | Some None \<Rightarrow> go_ret ()
       | Some w \<Rightarrow> RaiseWorldTerminate w))
   | ANDConnectRequest \<Rightarrow> (case Object e of
       AnyAURL u \<Rightarrow> go_bind (net_do (ConnectAbyssAsync now u)) (\<lambda>_. go_ret ())
     | _ \<Rightarrow> bad_object)
   | ANDTimerRequest \<Rightarrow> go_modify (\<lambda>h. h\<lparr>timers := timers h @ [(L, Value e)]\<rparr>)
   | ANDPeerRegister \<Rightarrow> (case Object e of
       AnyPeerCertificates c \<Rightarrow>
         go_bind (net_do (AppendKnownPeerDer cr now (RootCertDer c) (HandshakeKeyCertDer c))) (\<lambda>_. go_ret ())
     | _ \<Rightarrow> bad_object)
   | ANDObjectAppend \<Rightarrow> go_bind (lookup_world L) (\<lambda>world. go_bind (peer_of e) (\<lambda>p.
       go_bind (peer_do p (Renew now)) (\<lambda>_. case Object e of
         AnyObjects obs \<Rightarrow> RaiseObjectAppend world (IDHash p) obs
       | _ \<Rightarrow> bad_object)))
   | ANDObjectDelete \<Rightarrow> go_bind (lookup_world L) (\<lambda>world. go_bind (peer_of e) (\<lambda>p.
       go_bind (peer_do p (Renew now)) (\<lambda>_. case Object e of
         AnyObjectIDs ids \<Rightarrow> RaiseObjectDelete world (IDHash p) ids
       | _ \<Rightarrow> bad_object)))
   | ANDNeighborEventDebug \<Rightarrow> go_ret ())"

text \<open>The loop over the events it takes from the channel, each at its time. The goroutine of a timer
  request calls \<open>timer_fire\<close> when its time has come.\<close>

definition eventLoop :: "crypto \<Rightarrow> (time \<times> NeighborEvent) list \<Rightarrow> ('w AbyssHost, unit) go" where
  "eventLoop cr es = go_for es (\<lambda>(now, e). handle_event cr now e)"

definition timer_fire ::
    "'w wire_env \<Rightarrow> hash list \<Rightarrow> hash list \<Rightarrow> (hash \<Rightarrow> time) \<Rightarrow> nat \<Rightarrow> uuid \<Rightarrow> ('w AbyssHost, unit) go" where
  "timer_fire env ord1 ord2 now r L = go_bind (and_do env (TimerExpire ord1 ord2 now r L)) (\<lambda>_. go_ret ())"

end
