(* ===== verification/Step_Rel.thy ===== *)
theory Step_Rel
  imports Prelude
begin

text \<open>
  Relations that statements keep. A statement transits a relation when every run that returns relates
  the state before to the state after. The locale \<open>step_rel\<close> is the interface of the relations that are
  closed under composition of statements: they are reflexive and transitive.
\<close>

definition transits :: "('s \<Rightarrow> 's \<Rightarrow> bool) \<Rightarrow> ('s, 'a) go \<Rightarrow> bool" where
  "transits R f \<longleftrightarrow> (\<forall>s. wlp f (\<lambda>_. R s) s)"

lemma transitsI: "(\<And>s. wlp f (\<lambda>_. R s) s) \<Longrightarrow> transits R f"
  by (simp add: transits_def)

lemma transitsD: "transits R f \<Longrightarrow> f s = Inr (a, s') \<Longrightarrow> R s s'"
  unfolding transits_def by (rule wpx_result [where Q = "\<lambda>_. R s"]) blast+

lemma transits_modify: "(\<And>s. R s (f s)) \<Longrightarrow> transits R (go_modify f)"
  by (simp add: transits_def wp_rules)

lemma transits_zoom: "(\<And>s t. R s (put t s)) \<Longrightarrow> transits R (go_zoom get put f)"
  by (auto simp: transits_def wp_rules intro: wlpI)

locale step_rel =
  fixes R :: "'s \<Rightarrow> 's \<Rightarrow> bool"
  assumes R_refl: "R s s"
    and R_trans: "R s t \<Longrightarrow> R t u \<Longrightarrow> R s u"
begin

lemma R_ret: "transits R (go_ret a)"
  by (simp add: transits_def wp_rules R_refl)

lemma R_panic: "transits R (go_panic e)"
  by (simp add: transits_def wp_rules)

lemma R_read: "transits R (go_read f)"
  by (simp add: transits_def wp_rules R_refl)

lemma R_nonnil: "transits R (go_nonnil x)"
  by (simp add: transits_def wp_rules R_refl split: option.split)

lemma R_bind:
  assumes "transits R f" and "\<And>a. transits R (g a)"
  shows "transits R (go_bind f g)"
proof (rule transitsI)
  fix s
  have "wlp f (\<lambda>_. R s) s" using assms(1) by (simp add: transits_def)
  then show "wlp (go_bind f g) (\<lambda>_. R s) s" unfolding wpx_bind
  proof (rule wpx_mono)
    fix a t
    assume "R s t"
    have "wlp (g a) (\<lambda>_. R t) t" using assms(2) by (simp add: transits_def)
    then show "wlp (g a) (\<lambda>_. R s) t" by (rule wpx_mono) (rule R_trans [OF \<open>R s t\<close>])
  qed
qed

lemma R_block: "list_all (transits R) fs \<Longrightarrow> transits R (go_block fs)"
  by (induction fs) (auto intro: R_ret R_bind)

lemma R_fold: "(\<And>x a. transits R (f x a)) \<Longrightarrow> transits R (go_fold xs f a)"
  by (induction xs arbitrary: a) (auto intro: R_ret R_bind)

lemma R_for: "(\<And>x. x \<in> set xs \<Longrightarrow> transits R (f x)) \<Longrightarrow> transits R (go_for xs f)"
  by (induction xs) (auto intro: R_ret R_bind)

lemma R_if: "transits R f \<Longrightarrow> transits R g \<Longrightarrow> transits R (if c then f else g)"
  by simp

end

end
