(* ===== verification/Host_Loop.thy ===== *)
theory Host_Loop
  imports Host Net_Inv Step_Rel
begin

text \<open>
  The event loop against the ledger of joins and memberships that it follows. The ledger says for each
  local session id whether a join is pending, the world is up, or its join has failed, and which peers
  are members of which worlds; it accepts an event only where the event makes sense. The host tracks
  the ledger: as long as the events are accepted and the channels have room the loop does not panic, does
  not block, and puts on the channel of each world exactly the world events of its session.
\<close>

section \<open>The ledger\<close>

datatype phase = Absent | Joining | Up | Failed

record ledger =
  phase_of :: "uuid \<Rightarrow> phase"
  active :: "(uuid \<times> hash) set"

definition enter :: "uuid \<Rightarrow> phase set \<Rightarrow> phase \<Rightarrow> ledger \<Rightarrow> ledger option" where
  "enter L from ph st = (if phase_of st L \<in> from then Some (st\<lparr>phase_of := (phase_of st)(L := ph)\<rparr>) else None)"

definition with_member :: "NeighborEvent \<Rightarrow> ledger \<Rightarrow> (hash \<Rightarrow> ledger option) \<Rightarrow> ledger option" where
  "with_member e st f = (case Peer e of
     None \<Rightarrow> None
   | Some p \<Rightarrow> if phase_of st (LocalSessionID e) = Up then f (IDHash p) else None)"

definition ledger_step :: "ledger \<Rightarrow> NeighborEvent \<Rightarrow> ledger option" where
  "ledger_step st e = (let L = LocalSessionID e in case Type e of
     ANDJoinSuccess \<Rightarrow> enter L {Joining} Up st
   | ANDJoinFail \<Rightarrow> enter L {Joining} Failed st
   | ANDWorldLeave \<Rightarrow> enter L {Up, Failed} Absent st
   | ANDSessionRequest \<Rightarrow> with_member e st (\<lambda>_. Some st)
   | ANDSessionReady \<Rightarrow> with_member e st (\<lambda>k.
       if (L, k) \<in> active st then None else Some (st\<lparr>active := insert (L, k) (active st)\<rparr>))
   | ANDSessionClose \<Rightarrow> with_member e st (\<lambda>k.
       if (L, k) \<in> active st then Some (st\<lparr>active := active st - {(L, k)}\<rparr>) else None)
   | ANDObjectAppend \<Rightarrow> (case Object e of AnyObjects _ \<Rightarrow> with_member e st (\<lambda>_. Some st) | _ \<Rightarrow> None)
   | ANDObjectDelete \<Rightarrow> (case Object e of AnyObjectIDs _ \<Rightarrow> with_member e st (\<lambda>_. Some st) | _ \<Rightarrow> None)
   | ANDConnectRequest \<Rightarrow> (case Object e of
       AnyAURL u \<Rightarrow> if list_all ip_ok (Addresses u) then Some st else None | _ \<Rightarrow> None)
   | ANDPeerRegister \<Rightarrow> (case Object e of AnyPeerCertificates _ \<Rightarrow> Some st | _ \<Rightarrow> None)
   | ANDTimerRequest \<Rightarrow> Some st
   | ANDNeighborEventDebug \<Rightarrow> Some st)"

primrec ledger_run :: "ledger \<Rightarrow> NeighborEvent list \<Rightarrow> ledger option" where
  "ledger_run st [] = Some st"
| "ledger_run st (e # es) = (case ledger_step st e of None \<Rightarrow> None | Some st' \<Rightarrow> ledger_run st' es)"

definition peer_list :: "NeighborEvent \<Rightarrow> IANDPeer list" where
  "peer_list e = (case Peer e of None \<Rightarrow> [] | Some p \<Rightarrow> [p])"

text \<open>The world events that an event of its session puts on the channel of a world.\<close>

definition world_output :: "world_ref \<Rightarrow> NeighborEvent \<Rightarrow> world_event list" where
  "world_output w e = (case Type e of
     ANDWorldLeave \<Rightarrow> [EWorldTerminate]
   | ANDSessionRequest \<Rightarrow> map (\<lambda>p. EWorldMemberRequest (IDHash p) w (event_session e)) (peer_list e)
   | ANDSessionReady \<Rightarrow> map (\<lambda>p. EWorldMemberReady
       \<lparr>wm_world = w, wm_hash = IDHash p, wm_peerSession = event_session e\<rparr>) (peer_list e)
   | ANDSessionClose \<Rightarrow> map (\<lambda>p. EWorldMemberLeave (IDHash p)) (peer_list e)
   | ANDObjectAppend \<Rightarrow> (case (Peer e, Object e) of
       (Some p, AnyObjects obs) \<Rightarrow> [EMemberObjectAppend (IDHash p) obs] | _ \<Rightarrow> [])
   | ANDObjectDelete \<Rightarrow> (case (Peer e, Object e) of
       (Some p, AnyObjectIDs ids) \<Rightarrow> [EMemberObjectDelete (IDHash p) ids] | _ \<Rightarrow> [])
   | _ \<Rightarrow> [])"

definition channel_of :: "'w AbyssHost \<Rightarrow> world_ref \<Rightarrow> world_event list" where
  "channel_of h w = eventChannel (world_store h ! w)"

text \<open>The number of events on the channel of the world of a session that are not received yet.\<close>

definition backlog :: "'w AbyssHost \<Rightarrow> uuid \<Rightarrow> nat" where
  "backlog h L = (case host_worlds h L of
     Some (Some w) \<Rightarrow> length (channel_of h w) - w_received (world_store h ! w) | _ \<Rightarrow> 0)"

lemma length_world_output: "length (world_output w e) = length (world_output 0 e)"
  by (auto simp: world_output_def split: NeighborEventType.split option.split any.split)

section \<open>Peers\<close>

text \<open>The activity count of a peer is the number of worlds it is a member of.\<close>

definition peer_at :: "'w BetaNetService \<Rightarrow> hash \<rightharpoonup> 'w ContextedPeer" where
  "peer_at n = pm_peers (ns_peers n)"

definition worlds_of :: "(uuid \<times> hash) set \<Rightarrow> hash \<Rightarrow> uuid set" where
  "worlds_of A k = {L. (L, k) \<in> A}"

definition net_tracks :: "(uuid \<times> hash) set \<Rightarrow> 'w BetaNetService \<Rightarrow> bool" where
  "net_tracks A n \<longleftrightarrow> finite A \<and> (\<forall>L k. (L, k) \<in> A \<longrightarrow> peer_at n k \<noteq> None) \<and>
     (\<forall>k p. peer_at n k = Some p \<longrightarrow> active_cnt (activity p) = int (card (worlds_of A k)))"

definition net_goes :: "(uuid \<times> hash) set \<Rightarrow> 'w BetaNetService \<Rightarrow> 'w BetaNetService \<Rightarrow> bool" where
  "net_goes A n n' \<longleftrightarrow> net_tracks A n' \<and> dom (peer_at n) \<subseteq> dom (peer_at n')"

lemma finite_worlds_of: "finite A \<Longrightarrow> finite (worlds_of A k)"
  by (rule finite_subset [of _ "fst ` A"]) (force simp: worlds_of_def)+

lemma worlds_insert [simp]: "worlds_of (insert (L, k) A) k' = (if k' = k then insert L (worlds_of A k') else worlds_of A k')"
  by (auto simp: worlds_of_def)

lemma worlds_remove [simp]: "worlds_of (A - {(L, k)}) k' = (if k' = k then worlds_of A k' - {L} else worlds_of A k')"
  by (auto simp: worlds_of_def)

lemma worlds_of_iff: "L \<in> worlds_of A k \<longleftrightarrow> (L, k) \<in> A"
  by (simp add: worlds_of_def)

lemma wp_at_peer:
  assumes "peer_at n k = Some p" and "wp f (\<lambda>_. R) p"
    and "\<And>p' n'. R p' \<Longrightarrow> peer_at n' = (peer_at n)(k \<mapsto> p') \<Longrightarrow> Q () n'"
  shows "wp (at_peer k (no_action f)) Q n"
  using assms
  by (auto simp: at_peer_def no_action_def peer_at_def wpx_def go_bind_def go_read_def go_nonnil_def go_ret_def
      go_modify_def split: sum.splits)

lemma unknown_worlds_of: "net_tracks A n \<Longrightarrow> peer_at n k = None \<Longrightarrow> worlds_of A k = {}"
  by (auto simp: net_tracks_def worlds_of_def) (metis option.distinct(1))

lemma Activate_goes:
  assumes "net_tracks A n" and "peer_at n k \<noteq> None" and "(L, k) \<notin> A"
  shows "wp (at_peer k (no_action (Activate now))) (\<lambda>_. net_goes (insert (L, k) A) n) n"
proof -
  obtain p where p: "peer_at n k = Some p" using assms(2) by auto
  have "net_goes (insert (L, k) A) n n'" if "peer_at n' = (peer_at n)(k \<mapsto> p')"
     "active_cnt (activity p') = active_cnt (activity p) + 1" for p' n'
    using that assms p finite_worlds_of [of A k]
    by (auto simp: net_goes_def net_tracks_def worlds_of_iff)
  then show ?thesis
    by (intro wp_at_peer [OF p, where R = "\<lambda>p'. active_cnt (activity p') = active_cnt (activity p) + 1"])
       (simp_all add: Activate_def wp_rules)
qed

lemma Deactivate_goes:
  assumes "net_tracks A n" and "(L, k) \<in> A"
  shows "wp (at_peer k (no_action (Deactivate now))) (\<lambda>_. net_goes (A - {(L, k)}) n) n"
proof -
  obtain p where p: "peer_at n k = Some p" using assms by (force simp: net_tracks_def)
  have fin: "finite (worlds_of A k)" using assms(1) by (simp add: net_tracks_def finite_worlds_of)
  have cnt: "active_cnt (activity p) = int (card (worlds_of A k))" using assms(1) p by (simp add: net_tracks_def)
  have pos: "0 < card (worlds_of A k)" using fin assms(2) by (auto simp: card_gt_0_iff worlds_of_iff [symmetric])
  have "net_goes (A - {(L, k)}) n n'" if "peer_at n' = (peer_at n)(k \<mapsto> p')"
     "active_cnt (activity p') = active_cnt (activity p) - 1" for p' n'
    using that assms p pos
    by (auto simp: net_goes_def net_tracks_def card_Diff_singleton worlds_of_iff)
  then show ?thesis
    by (intro wp_at_peer [OF p, where R = "\<lambda>p'. active_cnt (activity p') = active_cnt (activity p) - 1"])
       (use cnt pos in \<open>auto simp: Deactivate_def wp_rules Let_def\<close>)
qed

lemma Renew_goes:
  assumes "net_tracks A n" and "peer_at n k \<noteq> None"
  shows "wp (at_peer k (no_action (Renew now))) (\<lambda>_. net_goes A n) n"
proof -
  obtain p where p: "peer_at n k = Some p" using assms(2) by auto
  have "net_goes A n n'" if "peer_at n' = (peer_at n)(k \<mapsto> p')"
     "active_cnt (activity p') = active_cnt (activity p)" for p' n'
    using that assms p by (auto simp: net_goes_def net_tracks_def)
  then show ?thesis
    by (intro wp_at_peer [OF p, where R = "\<lambda>p'. active_cnt (activity p') = active_cnt (activity p)"])
       (simp_all add: Renew_def wp_rules)
qed

lemma wpx_Find:
  "wpx b (at_peers (Find now k)) Q n = (case peer_at n k of
     None \<Rightarrow> Q None n
   | Some p \<Rightarrow> (let p' = p\<lparr>activity := \<lparr>active_cnt = active_cnt (activity p), LastActivity = now\<rparr>\<rparr> in
       Q (Some p') (n\<lparr>ns_peers := (ns_peers n)\<lparr>pm_peers := (peer_at n)(k \<mapsto> p')\<rparr>\<rparr>)))"
  by (simp add: at_peers_def Find_def peer_at_def Renew_def go_modify_def wp_rules Let_def split: option.split)

lemma net_goes_refl: "net_tracks A n \<Longrightarrow> net_goes A n n"
  by (simp add: net_goes_def)

lemma Connect_goes:
  assumes "net_tracks A n" and "list_all ip_ok (Addresses u)"
  shows "wp (ConnectAbyssAsync now u) (\<lambda>_. net_goes A n) n"
proof -
  have "wp (at_peers (Find now (Hash u))) (\<lambda>_. net_goes A n) n"
    using assms(1) by (auto simp: wpx_Find Let_def net_goes_def net_tracks_def peer_at_def split: option.split)
  then show ?thesis
    using assms net_goes_refl [OF assms(1)]
    by (auto simp: ConnectAbyssAsync_def wp_rules FilterAddressCandidates_ref elim!: wpx_mono split: option.split)
qed

lemma AppendKnownPeerDer_goes:
  assumes t: "net_tracks A n"
  shows "wp (AppendKnownPeerDer cr now rc hc) (\<lambda>_. net_goes A n) n"
proof -
  obtain r where r: "NewPeerIdentity cr rc hc n = Inr (r, n)"
    using NewPeerIdentity_total [of cr rc hc n] by (elim exE) (rule that)
  have "wp (at_peers (Append ctx now i (NewAbyssPeer pid))) (\<lambda>_. net_goes A n) n" for ctx i pid
    using t unknown_worlds_of [OF t, of i]
    by (auto simp: at_peers_def Append_def wp_rules Let_def net_goes_def net_tracks_def peer_at_def AbyssPeer.defs
        split: option.split)
  then show ?thesis
    using net_goes_refl [OF t]
    by (cases r) (simp_all add: AppendKnownPeerDer_def wpx_bind wpx_def [of _ "NewPeerIdentity cr rc hc"] r
        wpx_read wpx_ret wpx_ret_fun)
qed

section \<open>The host tracks the ledger\<close>

definition phase_ok :: "'w AbyssHost \<Rightarrow> uuid \<Rightarrow> phase \<Rightarrow> bool" where
  "phase_ok h L ph = (case ph of
     Absent \<Rightarrow> host_worlds h L = None
   | Joining \<Rightarrow> host_worlds h L = None \<and> (\<exists>ch. join_queue h L = Some ch \<and> ch < length (join_chans h) \<and> join_chans h ! ch = [])
   | Up \<Rightarrow> (\<exists>w. host_worlds h L = Some (Some w))
   | Failed \<Rightarrow> host_worlds h L = Some None)"

definition refs_ok :: "'w AbyssHost \<Rightarrow> bool" where
  "refs_ok h \<longleftrightarrow> inj_on (join_queue h) (dom (join_queue h)) \<and>
     (\<forall>L w. host_worlds h L = Some (Some w) \<longrightarrow> w < length (world_store h)) \<and>
     (\<forall>L L' w. host_worlds h L = Some (Some w) \<longrightarrow> host_worlds h L' = Some (Some w) \<longrightarrow> L = L')"

definition tracks :: "ledger \<Rightarrow> 'w AbyssHost \<Rightarrow> bool" where
  "tracks st h \<longleftrightarrow> (\<forall>L. phase_ok h L (phase_of st L)) \<and> refs_ok h \<and> net_tracks (active st) (NetworkService h)"

definition host_peer :: "'w AbyssHost \<Rightarrow> hash \<Rightarrow> bool" where
  "host_peer h k \<longleftrightarrow> peer_at (NetworkService h) k \<noteq> None"

text \<open>The world \<open>w\<close> belongs to the session \<open>L\<close>, and to no other, as long as the session lasts.\<close>

definition owned :: "ledger \<Rightarrow> 'w AbyssHost \<Rightarrow> uuid \<Rightarrow> world_ref \<Rightarrow> bool" where
  "owned st h L w \<longleftrightarrow> w < length (world_store h) \<and> (\<forall>L'. host_worlds h L' = Some (Some w) \<longrightarrow> L' = L) \<and>
     (host_worlds h L = Some (Some w) \<or> phase_of st L = Absent)"

definition outputs :: "uuid \<Rightarrow> world_ref \<Rightarrow> NeighborEvent list \<Rightarrow> world_event list" where
  "outputs L w es = concat (map (world_output w) (filter (\<lambda>e. LocalSessionID e = L) es))"

definition advances :: "ledger \<Rightarrow> NeighborEvent list \<Rightarrow> ledger \<Rightarrow> 'w AbyssHost \<Rightarrow> 'w AbyssHost \<Rightarrow> bool" where
  "advances st es st' h h' \<longleftrightarrow> tracks st' h' \<and> (\<forall>k. host_peer h k \<longrightarrow> host_peer h' k) \<and>
     (\<forall>L w. owned st h L w \<longrightarrow> owned st' h' L w \<and> channel_of h' w = channel_of h w @ outputs L w es)"

lemma outputs_simps [simp]:
  "outputs L w [] = []"
  "outputs L w (e # es) = (if LocalSessionID e = L then world_output w e else []) @ outputs L w es"
  by (simp_all add: outputs_def)

lemma advances_refl: "tracks st h \<Longrightarrow> advances st [] st h h"
  by (simp add: advances_def)

lemma advances_step:
  assumes "advances st [e] st1 h h1" and "advances st1 es st2 h1 h2"
  shows "advances st (e # es) st2 h h2"
  unfolding advances_def
proof (intro conjI allI impI)
  fix L w assume o: "owned st h L w"
  then have o1: "owned st1 h1 L w" "channel_of h1 w = channel_of h w @ outputs L w [e]"
    using assms(1) by (auto simp: advances_def)
  then show "owned st2 h2 L w" "channel_of h2 w = channel_of h w @ outputs L w (e # es)"
    using assms(2) by (auto simp: advances_def)
qed (use assms in \<open>auto simp: advances_def\<close>)

lemma tracks_up:
  assumes "tracks st h" and "phase_of st L = Up"
  obtains w where "host_worlds h L = Some (Some w)" "w < length (world_store h)"
proof -
  have "phase_ok h L Up" "refs_ok h" using assms by (auto simp: tracks_def dest: spec [where x = L])
  then show ?thesis using that by (auto simp: phase_ok_def refs_ok_def)
qed

lemma phase_ok_frame:
  "host_worlds h' = host_worlds h \<Longrightarrow> join_queue h' = join_queue h \<Longrightarrow> join_chans h' = join_chans h \<Longrightarrow>
   phase_ok h' L ph = phase_ok h L ph"
  by (simp add: phase_ok_def cong: phase.case_cong)

lemma refs_ok_frame:
  "host_worlds h' = host_worlds h \<Longrightarrow> join_queue h' = join_queue h \<Longrightarrow>
   length (world_store h') = length (world_store h) \<Longrightarrow> refs_ok h' = refs_ok h"
  by (simp add: refs_ok_def)

lemma tracks_net:
  "tracks st h \<Longrightarrow> net_goes A (NetworkService h) n \<Longrightarrow> tracks (st\<lparr>active := A\<rparr>) (h\<lparr>NetworkService := n\<rparr>)"
  by (simp add: tracks_def net_goes_def phase_ok_frame [of "h\<lparr>NetworkService := n\<rparr>" h] refs_ok_frame [of "h\<lparr>NetworkService := n\<rparr>" h])

lemma host_peer_net:
  "net_goes A (NetworkService h) n \<Longrightarrow> host_peer h k \<Longrightarrow> host_peer (h\<lparr>NetworkService := n\<rparr>) k"
  by (auto simp: net_goes_def host_peer_def)

lemma advances_net:
  assumes "tracks st h" and "net_goes A (NetworkService h) n" and "\<And>w. world_output w e = []"
  shows "advances st [e] (st\<lparr>active := A\<rparr>) h (h\<lparr>NetworkService := n\<rparr>)"
  using assms
  by (auto simp: advances_def tracks_net owned_def channel_of_def intro: host_peer_net)

lemma ledger_same: "st\<lparr>active := active st\<rparr> = st"
  by simp

definition put_event :: "world_ref \<Rightarrow> world_event \<Rightarrow> 'w AbyssHost \<Rightarrow> 'w AbyssHost" where
  "put_event w x h = h\<lparr>world_store := (world_store h)[w := (world_store h ! w)\<lparr>
     eventChannel := eventChannel (world_store h ! w) @ [x]\<rparr>]\<rparr>"

lemma put_event_sel [simp]:
  "host_worlds (put_event w x h) = host_worlds h" "join_queue (put_event w x h) = join_queue h"
  "join_chans (put_event w x h) = join_chans h" "NetworkService (put_event w x h) = NetworkService h"
  "length (world_store (put_event w x h)) = length (world_store h)"
  by (simp_all add: put_event_def)

lemma channel_put_event:
  "w0 < length (world_store h) \<Longrightarrow>
   channel_of (put_event w0 x h) w = (if w = w0 then channel_of h w @ [x] else channel_of h w)"
  by (simp add: channel_of_def put_event_def)

lemma wpx_raise_event [wp_rules]:
  "wpx b (raise_event world e) Q h = (case world of None \<Rightarrow> b
   | Some w \<Rightarrow> if channel_full (world_store h ! w) then b else Q () (put_event w (e w) h))"
  by (simp add: raise_event_def wp_rules put_event_def split: option.split)

lemma wpx_peer_of [wp_rules]: "wpx b (peer_of ps) Q h = (case Peer ps of None \<Rightarrow> b | Some p \<Rightarrow> Q p h)"
  by (simp add: peer_of_def wp_rules)

lemma wpx_lookup_world [wp_rules]:
  "wpx b (lookup_world L) Q h = (case host_worlds h L of None \<Rightarrow> b | Some w \<Rightarrow> Q w h)"
  by (simp add: lookup_world_def wp_rules split: option.split)

lemma wpx_net_do [wp_rules]:
  "wpx b (net_do f) Q h = wpx b f (\<lambda>a n. Q a (h\<lparr>NetworkService := n\<rparr>)) (NetworkService h)"
  by (simp add: net_do_def wp_rules)

lemma wpx_peer_do [wp_rules]:
  "wpx b (peer_do p f) Q h =
     wpx b (at_peer (IDHash p) (no_action f)) (\<lambda>_ n. Q () (h\<lparr>NetworkService := n\<rparr>)) (NetworkService h)"
  by (simp add: peer_do_def wpx_net_do)

lemma owned_up:
  assumes "owned st h L' w" and "host_worlds h L = Some (Some w0)" and "phase_of st L \<noteq> Absent"
  shows "L' = L \<longleftrightarrow> w = w0"
proof
  assume "L' = L"
  then have "host_worlds h L = Some (Some w)" using assms(1,3) by (simp add: owned_def)
  then show "w = w0" using assms(2) by simp
next
  assume "w = w0"
  then show "L' = L" using assms(1,2) unfolding owned_def by blast
qed

lemma ownedD:
  "owned st h L w \<Longrightarrow> w < length (world_store h) \<and> (host_worlds h L = Some (Some w) \<or> phase_of st L = Absent)"
  by (simp add: owned_def)

lemma owned_frame:
  assumes "owned st h L w" and "w < length (world_store h')"
    and "\<And>L'. host_worlds h' L' = Some (Some w) \<Longrightarrow> host_worlds h L' = Some (Some w)"
    and "host_worlds h' L = Some (Some w) \<or> phase_of st' L = Absent"
  shows "owned st' h' L w"
  using assms unfolding owned_def by blast

lemma advances_raise:
  assumes t: "tracks st h" and g: "net_goes A (NetworkService h) n"
    and w: "host_worlds h (LocalSessionID e) = Some (Some w0)" "phase_of st (LocalSessionID e) = Up"
    and x: "world_output w0 e = [x]"
  shows "advances st [e] (st\<lparr>active := A\<rparr>) h (put_event w0 x (h\<lparr>NetworkService := n\<rparr>))"
proof -
  have l: "w0 < length (world_store h)" using t w by (auto simp: tracks_def refs_ok_def)
  have "tracks (st\<lparr>active := A\<rparr>) (put_event w0 x (h\<lparr>NetworkService := n\<rparr>))"
    using tracks_net [OF t g] phase_ok_frame [of "put_event w0 x (h\<lparr>NetworkService := n\<rparr>)" "h\<lparr>NetworkService := n\<rparr>"]
      refs_ok_frame [of "put_event w0 x (h\<lparr>NetworkService := n\<rparr>)" "h\<lparr>NetworkService := n\<rparr>"]
    by (simp add: tracks_def)
  moreover have "host_peer h k \<Longrightarrow> host_peer (put_event w0 x (h\<lparr>NetworkService := n\<rparr>)) k" for k
    using host_peer_net [OF g] by (simp add: host_peer_def)
  moreover have "owned (st\<lparr>active := A\<rparr>) (put_event w0 x (h\<lparr>NetworkService := n\<rparr>)) L' w \<and>
      channel_of (put_event w0 x (h\<lparr>NetworkService := n\<rparr>)) w = channel_of h w @ outputs L' w [e]"
    if o: "owned st h L' w" for L' w
  proof -
    have "L' = LocalSessionID e \<longleftrightarrow> w = w0" using owned_up [OF o w(1)] w(2) by simp
    moreover have "channel_of (h\<lparr>NetworkService := n\<rparr>) = channel_of h" by (simp add: channel_of_def fun_eq_iff)
    ultimately show ?thesis using o l x by (auto simp: channel_put_event owned_def)
  qed
  ultimately show ?thesis unfolding advances_def by blast
qed

text \<open>The events of members.\<close>

lemma room_not_full:
  assumes "backlog h L + n \<le> 4096" and "0 < n" and "host_worlds h L = Some (Some w)"
  shows "\<not> channel_full (world_store h ! w)"
  using assms by (auto simp: backlog_def channel_full_def channel_of_def)

lemma member_event_advances:
  assumes t: "tracks st h" and st: "ledger_step st e = Some st'" and k: "\<And>p. Peer e = Some p \<Longrightarrow> host_peer h (IDHash p)"
    and ty: "Type e \<in> {ANDSessionRequest, ANDSessionReady, ANDSessionClose, ANDObjectAppend, ANDObjectDelete}"
    and room: "b \<or> backlog h (LocalSessionID e) + length (world_output 0 e) \<le> 4096"
  shows "wpx b (handle_event cr now e) (\<lambda>_. advances st [e] st' h) h"
proof -
  have up: "phase_of st (LocalSessionID e) = Up"
    using st ty by (auto simp: ledger_step_def with_member_def Let_def split: option.splits any.splits if_splits)
  obtain p where p: "Peer e = Some p"
    using st ty by (auto simp: ledger_step_def with_member_def Let_def split: option.splits any.splits if_splits)
  obtain w where w: "host_worlds h (LocalSessionID e) = Some (Some w)" using tracks_up [OF t up] by blast
  have n: "net_tracks (active st) (NetworkService h)" using t by (simp add: tracks_def)
  have hp: "peer_at (NetworkService h) (IDHash p) \<noteq> None" using k [OF p] by (simp add: host_peer_def)
  have "0 < length (world_output 0 e)"
    using st ty p by (auto simp: world_output_def peer_list_def ledger_step_def split: any.splits)
  then have full: "channel_full (world_store h ! w) \<longrightarrow> b" using room room_not_full [OF _ _ w] by blast
  note raise = advances_raise [OF t _ w up]
  have raise0: "advances st [e] st h (put_event w x (h\<lparr>NetworkService := n'\<rparr>))"
    if "net_goes (active st) (NetworkService h) n'" "world_output w e = [x]" for n' x
    using raise [OF that] by simp
  note simps = handle_event_def RaisePeerRequest_def RaisePeerReady_def RaisePeerLeave_def RaiseObjectAppend_def
    RaiseObjectDelete_def event_session_def w p world_output_def peer_list_def Let_def
  consider "Type e = ANDSessionRequest" | "Type e = ANDSessionReady" | "Type e = ANDSessionClose"
    | obs where "Type e = ANDObjectAppend" "Object e = AnyObjects obs"
    | ids where "Type e = ANDObjectDelete" "Object e = AnyObjectIDs ids"
    using ty st by (auto simp: ledger_step_def split: any.splits)
  then show ?thesis
  proof cases
    case 1
    then have "st' = st" using st p up by (simp add: ledger_step_def with_member_def Let_def)
    then show ?thesis using full raise [OF net_goes_refl [OF n]] 1 by (simp add: simps wp_rules)
  next
    case 2
    then have A: "(LocalSessionID e, IDHash p) \<notin> active st"
        "st' = st\<lparr>active := insert (LocalSessionID e, IDHash p) (active st)\<rparr>"
      using st p up by (auto simp: ledger_step_def with_member_def Let_def split: if_splits)
    show ?thesis using full raise wpx_mono [OF wpx_weaken [OF Activate_goes [OF n hp A(1)]]] 2 A(2) by (simp add: simps wp_rules)
  next
    case 3
    then have A: "(LocalSessionID e, IDHash p) \<in> active st"
        "st' = st\<lparr>active := active st - {(LocalSessionID e, IDHash p)}\<rparr>"
      using st p up by (auto simp: ledger_step_def with_member_def Let_def split: if_splits)
    show ?thesis using full raise wpx_mono [OF wpx_weaken [OF Deactivate_goes [OF n A(1)]]] 3 A(2) by (simp add: simps wp_rules)
  next
    case 4
    then have "st' = st" using st p up by (simp add: ledger_step_def with_member_def Let_def)
    then show ?thesis using full raise0 wpx_mono [OF wpx_weaken [OF Renew_goes [OF n hp]]] 4 by (simp add: simps wp_rules)
  next
    case 5
    then have "st' = st" using st p up by (simp add: ledger_step_def with_member_def Let_def)
    then show ?thesis using full raise0 wpx_mono [OF wpx_weaken [OF Renew_goes [OF n hp]]] 5 by (simp add: simps wp_rules)
  qed
qed

text \<open>The events that concern the network only.\<close>

lemma network_event_advances:
  assumes t: "tracks st h" and st: "ledger_step st e = Some st'"
    and ty: "Type e \<in> {ANDConnectRequest, ANDPeerRegister, ANDTimerRequest, ANDNeighborEventDebug}"
  shows "wp (handle_event cr now e) (\<lambda>_. advances st [e] st' h) h"
proof -
  have n: "net_tracks (active st) (NetworkService h)" using t by (simp add: tracks_def)
  have out: "world_output w e = []" for w using ty by (auto simp: world_output_def)
  have same: "st' = st" using st ty by (auto simp: ledger_step_def split: any.splits if_splits)
  have net: "advances st [e] st h (h\<lparr>NetworkService := n'\<rparr>)" if "net_goes (active st) (NetworkService h) n'" for n'
    using advances_net [OF t that out] by simp
  have idle: "advances st [e] st h h" using net [OF net_goes_refl [OF n]] by simp
  then have timer: "advances st [e] st h (h\<lparr>timers := ts\<rparr>)" for ts
    by (simp add: advances_def tracks_def phase_ok_frame [of "h\<lparr>timers := ts\<rparr>" h] refs_ok_frame [of "h\<lparr>timers := ts\<rparr>" h]
        host_peer_def owned_def channel_of_def)
  consider u where "Type e = ANDConnectRequest" "Object e = AnyAURL u" "list_all ip_ok (Addresses u)"
    | c where "Type e = ANDPeerRegister" "Object e = AnyPeerCertificates c"
    | "Type e = ANDTimerRequest" | "Type e = ANDNeighborEventDebug"
    using ty st by (auto simp: ledger_step_def split: any.splits if_splits)
  then show ?thesis
  proof cases
    case 1
    then show ?thesis using net wpx_mono [OF Connect_goes [OF n 1(3)]] same by (simp add: handle_event_def wp_rules)
  next
    case 2
    then show ?thesis using net wpx_mono [OF AppendKnownPeerDer_goes [OF n]] same by (simp add: handle_event_def wp_rules)
  qed (use timer idle same in \<open>simp_all add: handle_event_def wp_rules\<close>)
qed

text \<open>The life cycle of a world.\<close>

lemma inj_on_map_upd_None: "inj_on m (dom m) \<Longrightarrow> inj_on (m(x := None)) (dom m - {x})"
  by (auto simp: inj_on_def)

text \<open>The state after a join result was answered: the queue entry is gone and its channel is filled.\<close>

definition joined :: "uuid \<Rightarrow> world_ref option \<Rightarrow> World list \<Rightarrow> nat \<Rightarrow> WorldCreationEvent \<Rightarrow> 'w AbyssHost \<Rightarrow> 'w AbyssHost" where
  "joined L w ws ch r h = h\<lparr>world_store := world_store h @ ws, host_worlds := (host_worlds h)(L \<mapsto> w),
     join_queue := (join_queue h)(L := None), join_chans := (join_chans h)[ch := [r]]\<rparr>"

lemma joined_sel [simp]:
  "host_worlds (joined L w ws ch r h) = (host_worlds h)(L \<mapsto> w)"
  "join_queue (joined L w ws ch r h) = (join_queue h)(L := None)"
  "join_chans (joined L w ws ch r h) = (join_chans h)[ch := [r]]"
  "world_store (joined L w ws ch r h) = world_store h @ ws"
  "NetworkService (joined L w ws ch r h) = NetworkService h"
  by (simp_all add: joined_def)

lemma wp_answer_join:
  assumes "join_queue h L = Some ch" and "join_chans h ! ch = []"
  shows "wpx b (answer_join L r) Q h = Q () (h\<lparr>join_queue := (join_queue h)(L := None), join_chans := (join_chans h)[ch := [r]]\<rparr>)"
  using assms by (simp add: answer_join_def wp_rules)

lemma tracks_joining:
  assumes "tracks st h" and "phase_of st L = Joining"
  obtains ch where "host_worlds h L = None" "join_queue h L = Some ch" "join_chans h ! ch = []"
proof -
  have "phase_ok h L Joining" using assms by (metis tracks_def)
  then show ?thesis using that by (auto simp: phase_ok_def)
qed

lemma other_channel:
  assumes "refs_ok h" and "join_queue h L = Some ch" and "join_queue h L' = Some ch'" and "L' \<noteq> L"
  shows "ch' \<noteq> ch"
proof
  assume "ch' = ch"
  then have "join_queue h L' = join_queue h L" "L \<in> dom (join_queue h)" "L' \<in> dom (join_queue h)"
    using assms by auto
  then show False using assms(1,4) by (auto simp: refs_ok_def dest: inj_onD)
qed

lemma joined_advances:
  assumes t: "tracks st h" and e: "phase_of st L = Joining" "LocalSessionID e = L"
    and q: "join_queue h L = Some ch"
    and w: "(ph, w, ws) = (Up, Some (length (world_store h)), [W]) \<or> (ph, w, ws) = (Failed, None, [])"
  shows "advances st [e] (st\<lparr>phase_of := (phase_of st)(L := ph)\<rparr>) h (joined L w ws ch r h)"
proof -
  let ?h = "joined L w ws ch r h" and ?st = "st\<lparr>phase_of := (phase_of st)(L := ph)\<rparr>"
  have ro: "refs_ok h" and nt: "net_tracks (active st) (NetworkService h)" using t by (simp_all add: tracks_def)
  have "phase_ok ?h L' (phase_of ?st L')" for L'
  proof (cases "L' = L")
    case True
    then show ?thesis using w by (auto simp: phase_ok_def)
  next
    case False
    have "phase_ok h L' (phase_of st L')" using t by (simp add: tracks_def)
    then show ?thesis using False other_channel [OF ro q _ False]
      by (cases "phase_of st L'") (fastforce simp: phase_ok_def)+
  qed
  moreover have "refs_ok ?h"
    using ro w unfolding refs_ok_def
    by (auto simp: less_Suc_eq intro: inj_on_map_upd_None split: if_splits)
  ultimately have "tracks ?st ?h" using nt by (simp add: tracks_def)
  moreover have "owned ?st ?h L' v \<and> channel_of ?h v = channel_of h v @ outputs L' v [e]" if o: "owned st h L' v" for L' v
  proof -
    have "host_worlds h L = None" using t e(1) by (metis tracks_joining)
    then have n: "L' \<noteq> L" using ownedD [OF o] e(1) by auto
    have "owned ?st ?h L' v"
      by (rule owned_frame [OF o]) (use ownedD [OF o] w n in \<open>auto split: if_splits\<close>)
    then show ?thesis using ownedD [OF o] e(2) n by (simp add: channel_of_def nth_append)
  qed
  ultimately show ?thesis by (simp add: advances_def host_peer_def)
qed

lemma join_event_advances:
  assumes t: "tracks st h" and st: "ledger_step st e = Some st'" and ty: "Type e \<in> {ANDJoinSuccess, ANDJoinFail}"
  shows "wp (handle_event cr now e) (\<lambda>_. advances st [e] st' h) h"
proof -
  let ?L = "LocalSessionID e"
  have j: "phase_of st ?L = Joining" using st ty by (auto simp: ledger_step_def enter_def Let_def split: if_splits)
  obtain ch where q: "join_queue h ?L = Some ch" "join_chans h ! ch = []" using tracks_joining [OF t j] by metis
  note adv = joined_advances [OF t j refl q(1)]
  from ty consider "Type e = ANDJoinSuccess" | "Type e = ANDJoinFail" by blast
  then show ?thesis
  proof cases
    case 1
    then have "st' = st\<lparr>phase_of := (phase_of st)(?L := Up)\<rparr>" using st j by (simp add: ledger_step_def enter_def)
    then show ?thesis
      using 1 q adv [where ph = Up and w = "Some (length (world_store h))" and ws = "[NewWorld ?L (Text e)]"]
      by (simp add: handle_event_def create_world_def wp_rules wp_answer_join joined_def Let_def)
  next
    case 2
    then have "st' = st\<lparr>phase_of := (phase_of st)(?L := Failed)\<rparr>" using st j by (simp add: ledger_step_def enter_def)
    then show ?thesis using 2 q adv [where ph = Failed and w = None and ws = "[]"]
      by (simp add: handle_event_def wp_rules wp_answer_join joined_def Let_def)
  qed
qed

lemma left_tracks:
  assumes t: "tracks st h" and h: "host_worlds h' = (host_worlds h)(L := None)" "join_queue h' = join_queue h"
    "join_chans h' = join_chans h" "length (world_store h') = length (world_store h)" "NetworkService h' = NetworkService h"
  shows "tracks (st\<lparr>phase_of := (phase_of st)(L := Absent)\<rparr>) h'"
proof -
  have "phase_ok h' L' (((phase_of st)(L := Absent)) L')" for L'
    using t h by (cases "L' = L") (auto simp: phase_ok_def tracks_def cong: phase.case_cong dest: spec [where x = L'])
  then show ?thesis using t h by (auto simp: tracks_def refs_ok_def)
qed

lemma leave_event_advances:
  assumes t: "tracks st h" and st: "ledger_step st e = Some st'" and ty: "Type e = ANDWorldLeave"
    and room: "b \<or> backlog h (LocalSessionID e) + length (world_output 0 e) \<le> 4096"
  shows "wpx b (handle_event cr now e) (\<lambda>_. advances st [e] st' h) h"
proof -
  let ?L = "LocalSessionID e" and ?h = "h\<lparr>host_worlds := (host_worlds h)(LocalSessionID e := None)\<rparr>"
  have st': "st' = st\<lparr>phase_of := (phase_of st)(?L := Absent)\<rparr>" and ph: "phase_of st ?L = Up \<or> phase_of st ?L = Failed"
    using st ty by (auto simp: ledger_step_def enter_def Let_def split: if_splits)
  have out: "world_output v e = [EWorldTerminate]" for v using ty by (simp add: world_output_def)
  from ph show ?thesis
  proof
    assume up: "phase_of st ?L = Up"
    obtain w0 where w: "host_worlds h ?L = Some (Some w0)" "w0 < length (world_store h)" using tracks_up [OF t up] .
    have "tracks st' (put_event w0 EWorldTerminate ?h)" unfolding st' by (rule left_tracks [OF t]) simp_all
    moreover have "owned st' (put_event w0 EWorldTerminate ?h) L' v \<and>
        channel_of (put_event w0 EWorldTerminate ?h) v = channel_of h v @ outputs L' v [e]" if o: "owned st h L' v" for L' v
    proof -
      have "L' = ?L \<longleftrightarrow> v = w0" using owned_up [OF o w(1)] up by simp
      moreover have "channel_of ?h = channel_of h" by (simp add: channel_of_def fun_eq_iff)
      ultimately show ?thesis using o w(2) st' by (auto simp: channel_put_event owned_def out)
    qed
    ultimately have "advances st [e] st' h (put_event w0 EWorldTerminate ?h)"
      by (simp add: advances_def host_peer_def)
    moreover have "0 < length (world_output 0 e)" by (simp add: out)
    then have "channel_full (world_store h ! w0) \<longrightarrow> b" using room room_not_full [OF _ _ w(1)] by blast
    ultimately show ?thesis using ty w(1) by (simp add: handle_event_def RaiseWorldTerminate_def wp_rules Let_def)
  next
    assume f: "phase_of st ?L = Failed"
    then have w: "host_worlds h ?L = Some None" using t by (auto simp: tracks_def phase_ok_def dest: spec [where x = ?L])
    have "tracks st' ?h" unfolding st' by (rule left_tracks [OF t]) simp_all
    moreover have "owned st' ?h L' v \<and> channel_of ?h v = channel_of h v @ outputs L' v [e]" if o: "owned st h L' v" for L' v
    proof -
      have n: "L' \<noteq> ?L" using ownedD [OF o] w f by auto
      have "owned st' ?h L' v"
        by (rule owned_frame [OF o]) (use ownedD [OF o] n st' in \<open>auto split: if_splits\<close>)
      then show ?thesis using n by (simp add: channel_of_def)
    qed
    ultimately have "advances st [e] st' h ?h" by (simp add: advances_def host_peer_def)
    then show ?thesis using ty w by (simp add: handle_event_def wp_rules Let_def)
  qed
qed

lemma handle_event_advances:
  assumes "tracks st h" and "ledger_step st e = Some st'" and "\<And>p. Peer e = Some p \<Longrightarrow> host_peer h (IDHash p)"
    and "b \<or> backlog h (LocalSessionID e) + length (world_output 0 e) \<le> 4096"
  shows "wpx b (handle_event cr now e) (\<lambda>_. advances st [e] st' h) h"
  using member_event_advances [OF assms(1-3) _ assms(4)] wpx_weaken [OF network_event_advances [OF assms(1,2)]]
    wpx_weaken [OF join_event_advances [OF assms(1,2)]] leave_event_advances [OF assms(1,2) _ assms(4)]
  by (cases "Type e") simp_all

text \<open>Only a successful join registers a world, and its channel is empty; the event loop receives nothing.\<close>

definition only_old :: "'w AbyssHost \<Rightarrow> 'w AbyssHost \<Rightarrow> bool" where
  "only_old h h' \<longleftrightarrow> (\<forall>L w. host_worlds h' L = Some (Some w) \<longrightarrow> host_worlds h L = Some (Some w))"

interpretation oo: step_rel only_old
  by unfold_locales (auto simp: only_old_def)

lemma only_old_modify: "(\<And>h. only_old h (f h)) \<Longrightarrow> transits only_old (go_modify f)"
  by (rule transits_modify)

lemma only_old_net_do: "transits only_old (net_do f)"
  by (auto simp: net_do_def only_old_def intro!: transits_zoom)

lemmas only_old_basics = oo.R_bind oo.R_read oo.R_ret oo.R_panic oo.R_nonnil oo.R_block

lemma only_old_parts:
  "transits only_old (lookup_world L)" "transits only_old (raise_event w x)" "transits only_old (peer_of ps)"
  "transits only_old bad_object" "transits only_old (answer_join L r)"
  by (auto simp: lookup_world_def raise_event_def peer_of_def bad_object_def answer_join_def only_old_def
      split: option.split intro!: only_old_basics only_old_modify)

lemma only_old_raises:
  "transits only_old (RaisePeerRequest w ps)" "transits only_old (RaisePeerReady w ps)" "transits only_old (RaisePeerLeave w k)"
  "transits only_old (RaiseObjectAppend w k obs)" "transits only_old (RaiseObjectDelete w k ids)"
  "transits only_old (RaiseWorldTerminate w)"
  by (auto simp: RaisePeerRequest_def RaisePeerReady_def RaisePeerLeave_def RaiseObjectAppend_def RaiseObjectDelete_def
      RaiseWorldTerminate_def intro!: only_old_basics only_old_parts)

lemma only_old_handle: "Type e \<noteq> ANDJoinSuccess \<Longrightarrow> transits only_old (handle_event cr now e)"
  by (cases "Type e")
     (auto simp: handle_event_def peer_do_def Let_def only_old_def split: option.split any.split if_splits
       intro!: only_old_basics only_old_parts only_old_raises only_old_modify only_old_net_do)

lemma new_channel:
  assumes "Type e = ANDJoinSuccess"
  shows "wlp (handle_event cr now e) (\<lambda>_ h'. \<forall>L w. host_worlds h' L = Some (Some w) \<longrightarrow>
    host_worlds h L = Some (Some w) \<or> L = LocalSessionID e \<and> channel_of h' w = []) h"
  using assms
  by (auto simp: handle_event_def create_world_def answer_join_def wp_rules Let_def channel_of_def NewWorld_def
      split: option.split)

definition none_received :: "'w AbyssHost \<Rightarrow> 'w AbyssHost \<Rightarrow> bool" where
  "none_received h h' \<longleftrightarrow> length (world_store h) \<le> length (world_store h') \<and>
     (\<forall>w < length (world_store h). w_received (world_store h' ! w) = w_received (world_store h ! w))"

interpretation nr: step_rel none_received
  by unfold_locales (auto simp: none_received_def)

lemmas none_received_basics = nr.R_bind nr.R_read nr.R_ret nr.R_panic nr.R_nonnil nr.R_block

lemma none_received_modify: "(\<And>h. none_received h (f h)) \<Longrightarrow> transits none_received (go_modify f)"
  by (rule transits_modify)

lemma none_received_net_do: "transits none_received (net_do f)"
  by (auto simp: net_do_def none_received_def intro!: transits_zoom)

lemma none_received_raise: "transits none_received (raise_event w x)"
proof -
  have "transits none_received (go_modify (\<lambda>h. h\<lparr>world_store := (world_store h)[v := (world_store h ! v)\<lparr>eventChannel := es h\<rparr>]\<rparr>))"
    for v and es :: "'w AbyssHost \<Rightarrow> world_event list"
  proof (rule none_received_modify)
    fix h :: "'w AbyssHost"
    show "none_received h (h\<lparr>world_store := (world_store h)[v := (world_store h ! v)\<lparr>eventChannel := es h\<rparr>]\<rparr>)"
      by (cases "v < length (world_store h)") (auto simp: none_received_def nth_list_update)
  qed
  then show ?thesis by (auto simp: raise_event_def intro!: none_received_basics)
qed

lemma none_received_parts:
  "transits none_received (lookup_world L)" "transits none_received (peer_of ps)" "transits none_received bad_object"
  "transits none_received (answer_join L r)" "transits none_received (create_world L u)"
  by (auto simp: lookup_world_def peer_of_def bad_object_def answer_join_def create_world_def none_received_def nth_append
      split: option.split intro!: none_received_basics none_received_modify)

lemma none_received_raises:
  "transits none_received (RaisePeerRequest w ps)" "transits none_received (RaisePeerReady w ps)"
  "transits none_received (RaisePeerLeave w k)" "transits none_received (RaiseObjectAppend w k obs)"
  "transits none_received (RaiseObjectDelete w k ids)" "transits none_received (RaiseWorldTerminate w)"
  by (auto simp: RaisePeerRequest_def RaisePeerReady_def RaisePeerLeave_def RaiseObjectAppend_def RaiseObjectDelete_def
      RaiseWorldTerminate_def intro!: none_received_basics none_received_parts none_received_raise)

lemma none_received_handle: "transits none_received (handle_event cr now e)"
  by (cases "Type e")
     (auto simp: handle_event_def peer_do_def Let_def none_received_def split: option.split any.split if_splits
       intro!: none_received_basics none_received_parts none_received_raises none_received_modify none_received_net_do)

text \<open>The room that the outputs of a sequence of events need.\<close>

definition has_room :: "'w AbyssHost \<Rightarrow> NeighborEvent list \<Rightarrow> bool" where
  "has_room h es \<longleftrightarrow> (\<forall>L. backlog h L + length (outputs L 0 es) \<le> 4096)"

lemma has_room_step:
  assumes r: "has_room h (e # es)" and t: "tracks st h" and a: "advances st [e] st' h h'"
    and h': "handle_event cr now e h = Inr (u, h')"
  shows "has_room h' es"
  unfolding has_room_def
proof
  fix L
  have room: "backlog h L + length (outputs L 0 [e]) + length (outputs L 0 es) \<le> 4096"
    using r unfolding has_room_def outputs_simps by (auto dest: spec [where x = L])
  show "backlog h' L + length (outputs L 0 es) \<le> 4096"
  proof (cases "\<exists>w. host_worlds h' L = Some (Some w)")
    case False
    then show ?thesis using room by (auto simp: backlog_def split: option.split)
  next
    case True
    then obtain w where w: "host_worlds h' L = Some (Some w)" by blast
    have len: "length (outputs L w [e]) = length (outputs L 0 [e])" using length_world_output [of w e] by simp
    show ?thesis
    proof (cases "host_worlds h L = Some (Some w)")
      case True
      then have o: "owned st h L w" and lt: "w < length (world_store h)" using t by (auto simp: owned_def tracks_def refs_ok_def)
      then have "length (channel_of h' w) = length (channel_of h w) + length (outputs L 0 [e])"
        using a len by (simp add: advances_def)
      moreover have "w_received (world_store h' ! w) = w_received (world_store h ! w)"
        using transitsD [OF none_received_handle h'] lt by (simp add: none_received_def)
      ultimately show ?thesis using room w True by (simp add: backlog_def)
    next
      case False
      then have s: "Type e = ANDJoinSuccess" using transitsD [OF only_old_handle h'] w by (auto simp: only_old_def)
      then have "channel_of h' w = []" using wpx_result [OF new_channel [OF s] h'] w False by auto
      then show ?thesis using room w by (simp add: backlog_def)
    qed
  qed
qed

lemma eventLoop_advances:
  assumes "tracks st h" and "ledger_run st (map snd tes) = Some st'"
    and "\<And>e p. e \<in> set (map snd tes) \<Longrightarrow> Peer e = Some p \<Longrightarrow> host_peer h (IDHash p)"
    and "has_room h (map snd tes)"
  shows "wp (eventLoop cr tes) (\<lambda>_. advances st (map snd tes) st' h) h"
  using assms
proof (induction tes arbitrary: st h)
  case Nil
  then show ?case by (simp add: eventLoop_def wp_rules advances_refl)
next
  case (Cons te tes)
  obtain now e where te: "te = (now, e)" by force
  then obtain st1 where st1: "ledger_step st e = Some st1" "ledger_run st1 (map snd tes) = Some st'"
    using Cons.prems(2) by (auto split: option.splits)
  have room: "has_room h (e # map snd tes)" using Cons.prems(4) te by simp
  then have "backlog h (LocalSessionID e) + length (world_output 0 e) \<le> 4096"
    unfolding has_room_def by (auto dest: spec [where x = "LocalSessionID e"])
  then have "wp (handle_event cr now e) (\<lambda>_. advances st [e] st1 h) h"
    by (intro handle_event_advances [OF Cons.prems(1) st1(1)]) (use Cons.prems(3) te in auto)
  then obtain h1 where h1: "handle_event cr now e h = Inr ((), h1)" "advances st [e] st1 h h1"
    using wp_returns by fastforce
  have "wp (eventLoop cr tes) (\<lambda>_. advances st1 (map snd tes) st' h1) h1"
    using h1(2) Cons.prems(3) has_room_step [OF room Cons.prems(1) h1(2,1)]
    by (intro Cons.IH [OF _ st1(2)]) (auto simp: advances_def)
  then have "wp (eventLoop cr tes) (\<lambda>_. advances st (e # map snd tes) st' h) h1"
    by (rule wpx_mono) (rule advances_step [OF h1(2)])
  then show ?case using h1(1) by (simp add: eventLoop_def te wpx_bind) (simp add: wpx_def)
qed

end
