(* ===== verification/Host_Props.thy ===== *)
theory Host_Props
  imports Host_Loop And_Props Net_Props
begin

text \<open>
  The properties of the host: messages reach the neighbor discovery object of the other host, worlds
  that are opened are handed to the application, and the event loop carries out every sequence of
  events that follows the ledger of joins and memberships.
\<close>

section \<open>From one host to the other\<close>

text \<open>What a \<open>TrySend...\<close> of one host asks of the neighbor discovery object of the other, which knows
  the sender as \<open>peer\<close>.\<close>

fun call_of :: "'w wire_env \<Rightarrow> uuid list \<Rightarrow> SimplePathResolver \<Rightarrow> IANDPeer \<Rightarrow> ahmp_send \<Rightarrow> and_call option" where
  "call_of env ord r peer (TrySendJN l path ts) =
     map_option (\<lambda>L. JN L (session_of peer l) (trunc_ms ts)) (pathMap r path)"
| "call_of env ord r peer (TrySendJOK l p ts url ms) =
     Some (JOK p (session_of peer l) (trunc_ms ts) url (map (recv_session env) ms))"
| "call_of env ord r peer (TrySendJDN p code msg) = Some (JDN p peer code msg)"
| "call_of env ord r peer (TrySendJNI l p m) = Some (JNI p (session_of peer l) (recv_session env m))"
| "call_of env ord r peer (TrySendMEM l p ts) = Some (MEM p (session_of peer l) (trunc_ms ts))"
| "call_of env ord r peer (TrySendSJN l p ms) = Some (SJN p (session_of peer l) ms)"
| "call_of env ord r peer (TrySendCRR l p ms) = Some (CRR p (session_of peer l) ms)"
| "call_of env ord r peer (TrySendRST l p msg) = Some (RST ord p (session_of peer l))"
| "call_of env ord r peer (TrySendSOA l p obs) = Some (SOA p (session_of peer l) obs)"
| "call_of env ord r peer (TrySendSOD l p ids) = Some (SOD p (session_of peer l) ids)"

lemma message_call_received: "message_call ord r peer (received env m) = call_of env ord r peer m"
  by (cases m) (simp_all add: message_call_def PathToSessionID_def split: option.split)

text \<open>C37. What the neighbor discovery object of one host sends becomes the corresponding calls of the
  neighbor discovery object of the other: the messages written to the connection, if they can be read
  (\<open>sendable\<close>), are received in order, and for each the serving loop makes the call with the values that
  were sent, the time stamps cut to milliseconds and the addresses of neighbors in 16-byte form; a
  join request for a path that the other host does not know makes no call.\<close>

theorem sends_become_calls:
  assumes "parses parse env" and "\<forall>n. we_werr env n = None" and "list_all (sendable env) ms"
    and "writable p" and "ahmp_encoder p = Some []"
  shows "\<exists>p' items msgs. send_all env ms p = Inr (True, p') \<and> ahmp_encoder p' = Some items
    \<and> listen_loop parse (we_cbor env) items = go_ret msgs
    \<and> map (message_call ord r peer) msgs = map (call_of env ord r peer) ms"
  using send_all_writes [OF assms(4,5,2,3)] listen_wires [OF assms(1,3)]
  by (auto simp: message_call_received)

theorem sends_become_calls_witness:
  "\<exists>p' items msgs. send_all sample_env sample_messages sample_connected = Inr (True, p') \<and> ahmp_encoder p' = Some items
    \<and> listen_loop uuid_parse item_cbor items = (go_ret msgs :: (unit, ahmp_message list) go)
    \<and> map (message_call [] NewSimplePathResolver ex_peer) msgs
      = map (call_of sample_env [] NewSimplePathResolver ex_peer) sample_messages"
proof -
  have "writable sample_connected" "ahmp_encoder sample_connected = Some []"
    by (simp_all add: writable_def sample_connected_def)
  moreover have "\<forall>n. we_werr sample_env n = None" "we_cbor sample_env = item_cbor"
    by (simp_all add: sample_env_def)
  ultimately show ?thesis using sends_become_calls [OF sample_parses _ sample_sendable] by metis
qed

section \<open>Calls of the neighbor discovery object\<close>

lemma wpx_and_do:
  "wpx b (and_do env c) Q h = wpx b (and_exec c)
     (\<lambda>r a. wpx b (deliver env (drop (length (and_sent (neighborDiscoveryAlgorithm h))) (and_sent a))) (\<lambda>_. Q r)
        (h\<lparr>neighborDiscoveryAlgorithm := a\<rparr>)) (neighborDiscoveryAlgorithm h)"
  by (simp add: and_do_def wp_rules)

lemma wpx_deliver_nil [simp]: "wpx b (deliver env []) Q h = Q () h"
  by (simp add: deliver_def wp_rules)

text \<open>Delivering messages changes only the network service.\<close>

lemma peer_do_only_net: "wlp (peer_do p f) (\<lambda>_ h'. \<exists>n. h' = h\<lparr>NetworkService := n\<rparr>) h"
  by (auto simp: peer_do_def net_do_def wpx_zoom intro: wlpI)

lemma deliver_only_net: "wlp (deliver env ms) (\<lambda>_ h'. \<exists>n. h' = h\<lparr>NetworkService := n\<rparr>) h"
  unfolding deliver_def
proof (rule wpx_for_inv [where I = "\<lambda>h'. \<exists>n. h' = h\<lparr>NetworkService := n\<rparr>"])
  show "\<exists>n. h = h\<lparr>NetworkService := n\<rparr>" by (rule exI [where x = "NetworkService h"]) simp
next
  fix x :: "IANDPeer \<times> ahmp_send" and h'
  assume "\<exists>n. h' = h\<lparr>NetworkService := n\<rparr>"
  then show "wlp (case x of (p, m) \<Rightarrow> peer_do p (Peer_send env m)) (\<lambda>_ h'. \<exists>n. h' = h\<lparr>NetworkService := n\<rparr>) h'"
    by (auto split: prod.split intro!: wpx_mono [OF peer_do_only_net])
qed auto

lemma OpenWorld_effect:
  assumes a: "and_inv cs a" and ord: "range_order ord (and_peers a)"
  shows "wp (AND_OpenWorld ord now L url) (\<lambda>r a'. r = 0 \<and> and_sent a' = and_sent a \<and>
     eventCh a' = eventCh a @ [join_success_event L url, timer_event L 500]) a"
proof -
  have h: "hashes_ok (and_peers a)" using a by (simp add: and_inv_def)
  have "wp (new_world (NewWorldOpen ord now (local_hash a) L url (and_peers a)))
     (\<lambda>_ a'. and_sent a' = and_sent a \<and> eventCh a' = eventCh a @ [join_success_event L url, timer_event L 500]) (a\<lparr>stat := st\<rparr>)"
    if a1: "and_inv cs (a\<lparr>stat := st\<rparr>)" for st
  proof -
    have "stat_wf st" using a1 by (simp add: and_inv_def and_good_def)
    then show ?thesis
      unfolding wpx_new_world by (intro wpx_mono [OF NewWorldOpen_spec [OF _ ord h]]) auto
  qed
  then show ?thesis
    by (simp only: AND_OpenWorld_def wpx_bind wpx_block wpx_ret_fun)
       (rule wp_stat_B [OF a], simp_all add: wpx_bind wpx_read)
qed

section \<open>Opening a world\<close>

lemma wp_expect_join:
  "wpx b (expect_join L) Q h = Q (length (join_chans h))
     (h\<lparr>join_chans := join_chans h @ [[]], join_queue := (join_queue h)(L \<mapsto> length (join_chans h))\<rparr>)"
  by (simp add: expect_join_def wp_rules)

lemma OpenWorld_begin_effect:
  assumes r: "and_runs me cs (neighborDiscoveryAlgorithm h)"
    and ord: "range_order ord (and_peers (neighborDiscoveryAlgorithm h))"
  shows "wp (OpenWorld_begin env ord now L u) (\<lambda>r h1. r = Inr (length (join_chans h)) \<and>
     (\<exists>a. h1 = h\<lparr>join_chans := join_chans h @ [[]], join_queue := (join_queue h)(L \<mapsto> length (join_chans h)),
        neighborDiscoveryAlgorithm := a\<rparr> \<and>
       eventCh a = eventCh (neighborDiscoveryAlgorithm h) @ [join_success_event L u, timer_event L 500])) h"
  by (simp add: OpenWorld_begin_def wpx_bind wp_expect_join wpx_and_do wpx_if wpx_ret)
     (rule wpx_mono [OF OpenWorld_effect [OF and_sys.run_inv [OF r] ord]], auto simp: EINVAL_def EPANIC_def wpx_ret)

lemma handle_join_success:
  assumes "join_queue h L = Some ch" and "join_chans h ! ch = []"
  shows "handle_event cr now (join_success_event L u) h = Inr ((),
     h\<lparr>world_store := world_store h @ [NewWorld L u], host_worlds := (host_worlds h)(L \<mapsto> Some (length (world_store h))),
       join_queue := (join_queue h)(L := None),
       join_chans := (join_chans h)[ch := [\<lparr>wce_ok = True, wce_code = 0, wce_message = u,
         wce_world = Some (length (world_store h))\<rparr>]]\<rparr>)"
  using assms
  by (simp add: handle_event_def create_world_def answer_join_def go_bind_def go_read_def go_modify_def go_ret_def
      join_success_event_def Let_def)

text \<open>C39. Opening a world succeeds: \<open>OpenWorld\<close> registers for the join result, the neighbor discovery
  object reports it with a timer request, and once the event loop has handled these two events the
  waiting call returns a new world with the session id and the URL, registered with the host, and
  its first timer is running.\<close>

theorem opened_world_returned:
  assumes "and_runs me cs (neighborDiscoveryAlgorithm h)"
    and "range_order ord (and_peers (neighborDiscoveryAlgorithm h))"
  shows "\<exists>ch h1 h2 w h3. OpenWorld_begin env ord now L u h = Inr (Inr ch, h1)
    \<and> eventCh (neighborDiscoveryAlgorithm h1) = eventCh (neighborDiscoveryAlgorithm h)
        @ [join_success_event L u, timer_event L 500]
    \<and> eventLoop cr [(t1, join_success_event L u), (t2, timer_event L 500)] h1 = Inr ((), h2)
    \<and> OpenWorld_end ch h2 = Inr (Some w, h3) \<and> host_worlds h3 L = Some (Some w)
    \<and> world_store h3 ! w = NewWorld L u \<and> (L, 500) \<in> set (timers h3)"
proof -
  obtain a h1 where b: "OpenWorld_begin env ord now L u h = Inr (Inr (length (join_chans h)), h1)"
      "h1 = h\<lparr>join_chans := join_chans h @ [[]], join_queue := (join_queue h)(L \<mapsto> length (join_chans h)),
        neighborDiscoveryAlgorithm := a\<rparr>"
      "eventCh a = eventCh (neighborDiscoveryAlgorithm h) @ [join_success_event L u, timer_event L 500]"
    using wp_returns [OF OpenWorld_begin_effect [OF assms]] by blast
  have q: "join_queue h1 L = Some (length (join_chans h))" "join_chans h1 ! length (join_chans h) = []"
    using b(2) by simp_all
  let ?w = "length (world_store h)"
  let ?r = "\<lparr>wce_ok = True, wce_code = 0, wce_message = u, wce_world = Some ?w\<rparr>"
  have "\<exists>h2. eventLoop cr [(t1, join_success_event L u), (t2, timer_event L 500)] h1 = Inr ((), h2)
      \<and> join_chans h2 ! length (join_chans h) = [?r] \<and> host_worlds h2 L = Some (Some ?w)
      \<and> world_store h2 ! ?w = NewWorld L u \<and> (L, 500) \<in> set (timers h2)"
    unfolding eventLoop_def go_for.simps go_bind_def prod.case handle_join_success [OF q]
    using b(2) by (simp add: handle_event_def go_bind_def go_modify_def go_ret_def timer_event_def)
  then obtain h2 where h2: "eventLoop cr [(t1, join_success_event L u), (t2, timer_event L 500)] h1 = Inr ((), h2)"
      "join_chans h2 ! length (join_chans h) = [?r]" "host_worlds h2 L = Some (Some ?w)"
      "world_store h2 ! ?w = NewWorld L u" "(L, 500) \<in> set (timers h2)" by blast
  have "OpenWorld_end (length (join_chans h)) h2
      = Inr (Some ?w, h2\<lparr>join_chans := (join_chans h2)[length (join_chans h) := []]\<rparr>)"
    using h2(2) by (simp add: OpenWorld_end_def receive_join_def go_bind_def go_read_def go_modify_def go_ret_def)
  then show ?thesis using b h2 by fastforce
qed

definition sample_host :: "item AbyssHost" where
  "sample_host = NewAbyssHost sample_service (NewAND sample_hash) NewSimplePathResolver"

lemma sample_host_sel:
  "neighborDiscoveryAlgorithm sample_host = NewAND sample_hash" "host_worlds sample_host = Map.empty"
  "NetworkService sample_host = sample_service"
  by (simp_all add: sample_host_def NewAbyssHost_def)

theorem opened_world_returned_witness:
  "\<exists>ch h1 h2 w h3. OpenWorld_begin sample_env [] 0 7 ''url'' sample_host = Inr (Inr ch, h1)
    \<and> eventLoop mock_crypto [(0, join_success_event 7 ''url''), (0, timer_event 7 500)] h1 = Inr ((), h2)
    \<and> OpenWorld_end ch h2 = Inr (Some w, h3) \<and> world_store h3 ! w = NewWorld 7 ''url''"
proof -
  have "and_runs sample_hash [] (neighborDiscoveryAlgorithm sample_host)"
    unfolding sample_host_sel by (rule runs.runs_nil)
  moreover have "range_order [] (and_peers (neighborDiscoveryAlgorithm sample_host))"
    by (simp add: sample_host_sel NewAND_def range_order_def)
  ultimately show ?thesis
    using opened_world_returned [of sample_hash "[]" sample_host "[]" sample_env 0 7 "''url''" mock_crypto 0 0] by blast
qed

section \<open>Cancelling a join\<close>


lemma CloseWorld_unreachable:
  assumes a: "and_inv cs a" and w: "worlds a L = Some w" and i: "peers w k = Some i" "state i = WS_DC_JT"
  shows "wp (AND_CloseWorld ord L) (\<lambda>_ a'. eventCh a' = eventCh a @ [world_leave_event L]) a"
proof -
  have L: "lsid w = L" by (rule and_inv_world(2) [OF a w])
  have close: "wp (in_world L (ANDWorld_Close ord)) (\<lambda>_ a'. eventCh a' = eventCh a @ [world_leave_event L]) (a\<lparr>stat := st\<rparr>)"
    if a1: "and_inv cs (a\<lparr>stat := st\<rparr>)" for st
    using Close_silent [OF and_inv_world_tick [OF a1 w], of k i ord] w i L by (simp add: wpx_in_world)
  show ?thesis
    by (simp only: AND_CloseWorld_def at_world_def wpx_bind wpx_read w option.case wpx_ret_fun wpx_block wpx_modify_fun)
       (rule wp_stat_B [OF a], simp, use close in simp)
qed

text \<open>C38. Cancelling a join whose target cannot be reached crashes the host: the world is closed without a
  join result, the only event is the end of a world that the host has not registered, and the event
  loop panics on it.\<close>

theorem cancelled_join_crashes_host:
  assumes "and_runs me cs (neighborDiscoveryAlgorithm h)"
    and "worlds (neighborDiscoveryAlgorithm h) L = Some w" and "peers w k = Some i" and "state i = WS_DC_JT"
    and "host_worlds h L = None" and "JoinWorld_cancel env ord L h = Inr ((), h')"
  shows "eventCh (neighborDiscoveryAlgorithm h') = eventCh (neighborDiscoveryAlgorithm h) @ [world_leave_event L]
    \<and> handle_event cr now (world_leave_event L) h' = Inl (Panic ''world not found: '')"
proof -
  have "wlp (JoinWorld_cancel env ord L) (\<lambda>_ h'. host_worlds h' = host_worlds h \<and>
      eventCh (neighborDiscoveryAlgorithm h') = eventCh (neighborDiscoveryAlgorithm h) @ [world_leave_event L]) h"
    unfolding JoinWorld_cancel_def wpx_bind wpx_and_do and_exec.simps wpx_ret_fun
    by (rule wpx_mono [OF wpx_weaken [OF CloseWorld_unreachable [OF and_sys.run_inv [OF assms(1)] assms(2-4)]]])
       (auto intro!: wpx_mono [OF deliver_only_net])
  from wpx_result [OF this assms(6)] assms(5) show ?thesis
    by (simp add: handle_event_def go_bind_def go_read_def go_modify_def go_panic_def)
qed

text \<open>A join of an unreachable target on the sample host.\<close>

definition sample_target :: AURL where
  "sample_target = \<lparr>Scheme = ''abyss'', Hash = ''t'', Addresses = [], Path = ''/home''\<rparr>"

lemma sample_join_pending:
  "wp (JoinWorld_begin sample_env [] 0 8 sample_target) (\<lambda>r h. r = Inr 0 \<and> host_worlds h 8 = None \<and>
     (\<exists>w i. and_runs sample_hash [JoinWorld [] 0 8 sample_target] (neighborDiscoveryAlgorithm h) \<and>
       worlds (neighborDiscoveryAlgorithm h) 8 = Some w \<and> peers w ''t'' = Some i \<and> state i = WS_DC_JT \<and>
       dom (peers w) = {''t''})) sample_host"
proof -
  let ?c = "JoinWorld [] 0 8 sample_target"
  have step: "and_runs sample_hash [?c] a" if "and_exec ?c (NewAND sample_hash) = Inr (r, a)" for r a
  proof -
    have "call_ok ?c (NewAND sample_hash)" by (simp add: NewAND_def fresh_session_def range_order_def)
    then have "and_runs sample_hash ([] @ [?c]) a" using that by (rule runs.runs_snoc [OF runs.runs_nil])
    then show ?thesis by simp
  qed
  have "wp (and_exec ?c) (\<lambda>r a. r = 0 \<and> and_sent a = [] \<and> (\<exists>w i. worlds a 8 = Some w \<and>
      peers w ''t'' = Some i \<and> state i = WS_DC_JT \<and> dom (peers w) = {''t''})) (NewAND sample_hash)"
    by (simp add: AND_JoinWorld_def NewWorldJoin_def NewAND_def ANDStatistics_zero_def zero_world_def
      sample_target_def sample_simps)
  moreover have "wlp (and_exec ?c) (\<lambda>_. and_runs sample_hash [?c]) (NewAND sample_hash)"
    by (rule wlpI) (rule step)
  ultimately have w: "wp (and_exec ?c) (\<lambda>r a. (r = 0 \<and> and_sent a = [] \<and> (\<exists>w i. worlds a 8 = Some w \<and>
      peers w ''t'' = Some i \<and> state i = WS_DC_JT \<and> dom (peers w) = {''t''})) \<and> and_runs sample_hash [?c] a) (NewAND sample_hash)"
    by (rule wp_wlp)
  show ?thesis
    unfolding JoinWorld_begin_def wpx_bind wp_expect_join wpx_and_do
    by (simp add: sample_host_sel del: and_exec.simps)
       (rule wpx_mono [OF w], auto simp: wpx_ret EINVAL_def EPANIC_def sample_host_def NewAbyssHost_def)
qed

theorem cancelled_join_crashes_host_witness:
  "\<exists>h h'. JoinWorld_begin sample_env [] 0 8 sample_target sample_host = Inr (Inr 0, h)
    \<and> JoinWorld_cancel sample_env [''t''] 8 h = Inr ((), h')
    \<and> handle_event mock_crypto 0 (world_leave_event 8) h' = Inl (Panic ''world not found: '')"
proof -
  obtain h w i where h: "JoinWorld_begin sample_env [] 0 8 sample_target sample_host = Inr (Inr 0, h)"
      "host_worlds h 8 = None" "and_runs sample_hash [JoinWorld [] 0 8 sample_target] (neighborDiscoveryAlgorithm h)"
      "worlds (neighborDiscoveryAlgorithm h) 8 = Some w" "peers w ''t'' = Some i" "state i = WS_DC_JT"
      "dom (peers w) = {''t''}"
    using wp_returns [OF sample_join_pending] by (elim exE conjE) (rule that, simp_all)
  have "wp (and_exec (CloseWorld [''t''] 8)) (\<lambda>_ a'. and_sent a' = and_sent (neighborDiscoveryAlgorithm h)) (neighborDiscoveryAlgorithm h)"
    using h(4-6) run_stat [OF h(3)]
    by (simp add: AND_CloseWorld_def ANDWorld_Close_def range_peers_def close_cell_def sample_simps Let_def)
  have "wp (JoinWorld_cancel sample_env [''t''] 8) (\<lambda>_ _. True) h"
    unfolding JoinWorld_cancel_def wpx_bind wpx_and_do wpx_ret_fun
    by (rule wpx_mono [OF \<open>wp (and_exec _) _ _\<close>]) simp
  then obtain h' where h': "JoinWorld_cancel sample_env [''t''] 8 h = Inr ((), h')"
    using wp_returns by fastforce
  show ?thesis using cancelled_join_crashes_host [OF h(3-6) h(2) h'] h(1) h' by blast
qed

section \<open>The event loop\<close>

text \<open>C40. The event loop implements its specification, the ledger of joins and memberships: for every
  sequence of events that the ledger accepts, concerning known peers, whose world events fit into the
  channels of the worlds with what is not received yet (4096 in each, \<open>has_room\<close>), the loop neither panics nor
  blocks, the host is in the state the ledger predicts (registered worlds, pending joins, activity
  counts of the peers), and the application finds on the channel of each registered world exactly the
  world events of its session, in order.\<close>

theorem event_loop_follows_ledger:
  assumes "tracks st h" and "ledger_run st (map snd tes) = Some st'"
    and "\<forall>e \<in> set (map snd tes). \<forall>p. Peer e = Some p \<longrightarrow> host_peer h (IDHash p)"
    and "has_room h (map snd tes)"
  shows "\<exists>h'. eventLoop cr tes h = Inr ((), h') \<and> tracks st' h'
    \<and> (\<forall>L w. host_worlds h L = Some (Some w) \<longrightarrow> channel_of h' w = channel_of h w @ outputs L w (map snd tes))"
proof -
  have "wp (eventLoop cr tes) (\<lambda>_. advances st (map snd tes) st' h) h"
    by (rule eventLoop_advances [OF assms(1,2) _ assms(4)]) (use assms(3) in blast)
  then obtain h' where h': "eventLoop cr tes h = Inr ((), h')" "advances st (map snd tes) st' h h'"
    using wp_returns by fastforce
  have "owned st h L w" if "host_worlds h L = Some (Some w)" for L w
    using assms(1) that unfolding tracks_def refs_ok_def owned_def by metis
  with h' show ?thesis unfolding advances_def by blast
qed

definition sample_pending :: "item AbyssHost" where
  "sample_pending = sample_host\<lparr>join_chans := [[]], join_queue := [7 \<mapsto> 0]\<rparr>"

definition sample_ledger :: ledger where
  "sample_ledger = \<lparr>phase_of = (\<lambda>_. Absent)(7 := Joining), active = {}\<rparr>"

definition sample_events :: "(time \<times> NeighborEvent) list" where
  "sample_events = [(0, join_success_event 7 ''url''), (0, timer_event 7 500), (0, world_leave_event 7)]"

lemma sample_tracks: "tracks sample_ledger sample_pending"
  by (simp add: tracks_def sample_ledger_def sample_pending_def sample_host_def NewAbyssHost_def phase_ok_def refs_ok_def
      net_tracks_def peer_at_def sample_service_def new_service_def NewContextedPeerMap_def)

theorem event_loop_follows_ledger_witness:
  "\<exists>st' h'. eventLoop mock_crypto sample_events sample_pending = Inr ((), h') \<and> tracks st' h' \<and> phase_of st' 7 = Absent"
proof -
  have "ledger_run sample_ledger (map snd sample_events) = Some \<lparr>phase_of = (\<lambda>_. Absent)(7 := Absent), active = {}\<rparr>"
    by (simp add: sample_ledger_def sample_events_def ledger_step_def enter_def Let_def)
  moreover have "\<forall>e \<in> set (map snd sample_events). \<forall>p. Peer e = Some p \<longrightarrow> host_peer sample_pending (IDHash p)"
    by (simp add: sample_events_def)
  moreover have "has_room sample_pending (map snd sample_events)"
    by (simp add: has_room_def sample_events_def sample_pending_def backlog_def sample_host_sel world_output_def
        join_success_event_def timer_event_def world_leave_event_def)
  ultimately show ?thesis using event_loop_follows_ledger [OF sample_tracks] by fastforce
qed

end
