(* ===== verification/And_Emit.thy ===== *)
theory And_Emit
  imports And_World_Log And Net_Service Step_Rel
begin

text \<open>
  What the events of the neighbor discovery object carry: objects with object events, certificates and
  addresses with the requests for the network service. The events that a statement appends are followed
  by a relation between states, so this needs no invariant.
\<close>

section \<open>Payloads\<close>

definition payload_ok :: "NeighborEvent \<Rightarrow> bool" where
  "payload_ok e \<longleftrightarrow> (case Type e of
     ANDObjectAppend \<Rightarrow> (\<exists>obs. Object e = AnyObjects obs)
   | ANDObjectDelete \<Rightarrow> (\<exists>ids. Object e = AnyObjectIDs ids)
   | ANDConnectRequest \<Rightarrow> Peer e = None \<and> (\<exists>u. Object e = AnyAURL u \<and> list_all ip_ok (Addresses u))
   | ANDPeerRegister \<Rightarrow> Peer e = None \<and> (\<exists>c. Object e = AnyPeerCertificates c)
   | ANDSessionRequest \<Rightarrow> True
   | ANDSessionReady \<Rightarrow> True
   | ANDSessionClose \<Rightarrow> True
   | _ \<Rightarrow> Peer e = None)"

lemma session_types_in [simp]: "ANDSessionRequest \<in> session_types" "ANDSessionReady \<in> session_types" "ANDSessionClose \<in> session_types"
  by (simp_all add: session_types_def)

text \<open>The addresses in the arguments of a call are those of parsed URLs.\<close>

definition member_addrs_ok :: "ANDFullPeerSessionIdentity \<Rightarrow> bool" where
  "member_addrs_ok m \<longleftrightarrow> list_all ip_ok (Addresses (full_AURL m))"

fun call_addrs_ok :: "and_call \<Rightarrow> bool" where
  "call_addrs_ok (JoinWorld ord now L target) = list_all ip_ok (Addresses target)"
| "call_addrs_ok (JOK L ps ts url ms) = list_all member_addrs_ok ms"
| "call_addrs_ok (JNI L ps m) = member_addrs_ok m"
| "call_addrs_ok _ = True"

section \<open>Statements of a world\<close>

definition emits :: "wctx \<Rightarrow> wctx \<Rightarrow> bool" where
  "emits s s' \<longleftrightarrow> (\<exists>evs. ech s' = ech s @ evs \<and> list_all payload_ok evs)"

interpretation em: step_rel emits
proof
  show "emits s s" for s by (simp add: emits_def)
  show "emits s t \<Longrightarrow> emits t u \<Longrightarrow> emits s u" for s t u by (auto simp: emits_def)
qed

lemma emits_emit: "payload_ok e \<Longrightarrow> transits emits (emit e)"
  by (auto simp: emit_def emits_def intro!: transits_modify)

lemma emits_modify: "(\<And>s. ech (f s) = ech s) \<Longrightarrow> transits emits (go_modify f)"
  by (auto simp: emits_def intro!: transits_modify)

lemma emits_stat_W: "transits emits (stat_W i)"
  by (auto simp: stat_W_def emits_def intro!: transits_zoom)

lemma emits_pure:
  "transits emits (stat_inc fld)" "transits emits (put_info k i)" "transits emits (delete_info k)"
  "transits emits (lookup_info k)" "transits emits the_world"
  by (auto simp: stat_inc_def put_info_def delete_info_def lookup_info_def the_world_def
      intro!: emits_modify em.R_read)

lemma emits_refs: "transits emits (send_to p m)" "transits emits (IDHash_of p)" "transits emits (info_at k)"
  by (auto simp: send_to_def IDHash_of_def info_at_def intro!: em.R_bind em.R_nonnil em.R_ret emits_modify emits_pure)

lemma emits_set_info: "transits emits (set_info k f)"
  by (auto simp: set_info_def intro!: em.R_bind emits_refs emits_pure)

lemma emits_clear_info: "transits emits (clear_info k)"
  by (auto simp: clear_info_def intro!: em.R_bind em.R_panic emits_refs emits_pure split: sum.split)

lemmas emits_rules = em.R_ret em.R_panic em.R_read em.R_nonnil em.R_bind em.R_block em.R_fold em.R_for
  emits_emit emits_stat_W emits_pure emits_refs emits_set_info emits_clear_info

lemma payload_events [simp]:
  "t \<in> session_types \<Longrightarrow> payload_ok (session_event t L ps)"
  "payload_ok (join_fail_event L m c)" "payload_ok (join_success_event L u)" "payload_ok (timer_event L ms)"
  "payload_ok ((session_event ANDObjectAppend L ps)\<lparr>Object := AnyObjects obs\<rparr>)"
  "payload_ok ((session_event ANDObjectDelete L ps)\<lparr>Object := AnyObjectIDs ids\<rparr>)"
  by (auto simp: payload_ok_def session_types_def session_event_def with_session_def join_fail_event_def join_success_event_def
      timer_event_def NeighborEvent_of_def split: NeighborEventType.split)

lemma payload_requests [simp]:
  "payload_ok ((NeighborEvent_of ANDConnectRequest)\<lparr>Object := AnyAURL u\<rparr>) \<longleftrightarrow> list_all ip_ok (Addresses u)"
  "payload_ok ((NeighborEvent_of ANDPeerRegister)\<lparr>Object := AnyPeerCertificates c\<rparr>)"
  "payload_ok ((NeighborEvent_of ANDWorldLeave)\<lparr>LocalSessionID := L\<rparr>)"
  by (auto simp: payload_ok_def NeighborEvent_of_def)

lemma emits_ClearStates: "transits emits (ClearStates k ip m)"
  by (auto simp: ClearStates_def Let_def split: ws.split intro!: emits_rules)

lemma emits_guards: "transits emits (TryUpdateSessionID ip sid ts)" "transits emits (IsProperMemberOrReset ip ps)"
  by (auto simp: TryUpdateSessionID_def IsProperMemberOrReset_def Let_def split: ws.split
      intro!: emits_rules emits_ClearStates)

lemma emits_JNI_MEMS: "member_addrs_ok m \<Longrightarrow> transits emits (ANDWorld_JNI_MEMS k m)"
  by (auto simp: ANDWorld_JNI_MEMS_def Let_def member_addrs_ok_def split: ws.split option.split
      intro!: emits_rules emits_guards)

lemma emits_SJN_MEMS: "transits emits (ANDWorld_SJN_MEMS ps m)" "transits emits (ANDWorld_CRR_MEMS ip m)"
  by (auto simp: ANDWorld_SJN_MEMS_def ANDWorld_CRR_MEMS_def Let_def split: option.split intro!: emits_rules)

lemma emits_JN: "transits emits (ANDWorld_JN ps ts)" "transits emits (ANDWorld_MEM ps ts)"
  unfolding ANDWorld_JN_def ANDWorld_MEM_def Let_def
  by (auto split: ws.split intro!: emits_rules emits_guards emits_ClearStates)

lemma emits_messages:
  "transits emits (ANDWorld_JDN p c m)" "transits emits (ANDWorld_SJN ps mis)" "transits emits (ANDWorld_CRR ps mis)"
  "transits emits (ANDWorld_SOA ps obs)" "transits emits (ANDWorld_SOD ps ids)" "transits emits (ANDWorld_RST ps)"
  unfolding ANDWorld_JDN_def ANDWorld_SJN_def ANDWorld_CRR_def ANDWorld_SOA_def ANDWorld_SOD_def ANDWorld_RST_def
  by (auto intro!: emits_rules emits_guards emits_ClearStates emits_SJN_MEMS)

lemma emits_connections: "transits emits (ANDWorld_PeerConnected p)" "transits emits (ANDWorld_RemovePeer p)"
  unfolding ANDWorld_PeerConnected_def ANDWorld_RemovePeer_def
  by (auto split: ws.split option.split intro!: emits_rules emits_ClearStates)

lemma emits_introductions:
  "member_addrs_ok m \<Longrightarrow> transits emits (ANDWorld_JNI ps m)"
  "list_all member_addrs_ok ms \<Longrightarrow> transits emits (ANDWorld_JOK ps ts url ms)"
  unfolding ANDWorld_JNI_def ANDWorld_JOK_def Let_def
  by (auto simp: list_all_iff intro!: emits_rules emits_guards emits_JNI_MEMS)

lemma emits_decisions:
  "transits emits (ANDWorld_AcceptSession ord ps)" "transits emits (ANDWorld_DeclineSession ps c m)"
  "transits emits (ANDWorld_TimerExpire o1 o2 now r)" "transits emits (ANDWorld_Close ord)"
  unfolding ANDWorld_AcceptSession_def ANDWorld_DeclineSession_def ANDWorld_TimerExpire_def ANDWorld_Close_def
    introduce_joiner_def sjn_collect_def sjn_announce_def close_cell_def range_peers_acc_def range_peers_def
    rand_Intn_def Let_def
  by (auto split: ws.split option.split intro!: emits_rules emits_ClearStates)

lemma emits_creation:
  "transits emits (NewWorldOpen ord now l L url C)"
  "list_all ip_ok (Addresses u) \<Longrightarrow> transits emits (NewWorldJoin ord now l L u C)"
  unfolding NewWorldOpen_def NewWorldJoin_def
  by (auto split: option.split intro!: emits_rules emits_modify)

section \<open>Calls\<close>

definition payloads_ok :: "AND \<Rightarrow> AND \<Rightarrow> bool" where
  "payloads_ok a a' \<longleftrightarrow> (\<exists>evs. eventCh a' = eventCh a @ evs \<and> list_all payload_ok evs)"

interpretation pl: step_rel payloads_ok
proof
  show "payloads_ok a a" for a by (simp add: payloads_ok_def)
  show "payloads_ok a b \<Longrightarrow> payloads_ok b c \<Longrightarrow> payloads_ok a c" for a b c by (auto simp: payloads_ok_def)
qed

lemma emits_at: "transits emits f \<Longrightarrow> f (ctx_of a w) = Inr (r, s) \<Longrightarrow> \<exists>evs. ech s = eventCh a @ evs \<and> list_all payload_ok evs"
  using transitsD [of emits f "ctx_of a w" r s] by (simp add: emits_def ctx_of_def)

lemma payloads_in_world: "transits emits f \<Longrightarrow> transits payloads_ok (in_world L f)"
  by (rule transitsI, rule wlpI)
     (auto simp: in_world_def payloads_ok_def put_ctx_def split: option.splits sum.splits, drule (1) emits_at, simp)

lemma payloads_new_world: "transits emits f \<Longrightarrow> transits payloads_ok (new_world f)"
  by (rule transitsI, rule wlpI)
     (auto simp: new_world_def payloads_ok_def put_ctx_def split: sum.splits, drule (1) emits_at, simp)

lemma payloads_stat_B: "transits payloads_ok (stat_B i)"
  by (auto simp: stat_B_def payloads_ok_def intro!: transits_zoom)

lemma payloads_modify: "(\<And>a. eventCh (f a) = eventCh a) \<Longrightarrow> transits payloads_ok (go_modify f)"
  by (auto simp: payloads_ok_def intro!: transits_modify)

lemma payloads_at_world: "transits payloads_ok f \<Longrightarrow> transits payloads_ok (at_world L m n f)"
  by (auto simp: at_world_def split: option.split
      intro!: pl.R_bind pl.R_read pl.R_ret pl.R_block payloads_stat_B)

text \<open>Every call appends events whose payloads are as their types say.\<close>

lemma call_payloads: "call_addrs_ok c \<Longrightarrow> transits payloads_ok (and_exec c)"
  by (cases c)
     (auto simp: AND_PeerConnected_def AND_PeerClose_def AND_OpenWorld_def AND_JoinWorld_def AND_AcceptSession_def
        AND_DeclineSession_def AND_CloseWorld_def AND_TimerExpire_def AND_JN_def AND_JOK_def AND_JDN_def AND_JNI_def
        AND_MEM_def AND_SJN_def AND_CRR_def AND_RST_def AND_SOA_def AND_SOD_def
        intro!: pl.R_bind pl.R_read pl.R_ret pl.R_block pl.R_for payloads_at_world payloads_stat_B payloads_in_world
          payloads_new_world payloads_modify emits_JN emits_connections emits_messages emits_introductions emits_decisions emits_creation)

end
