(* ===== verification/And_Follow.thy ===== *)
theory And_Follow
  imports And_Emit And_Inv Host_Loop
begin

text \<open>
  The event sequence of the neighbor discovery object follows the ledger of the event loop. The phase of a
  session is read off the events and agrees with the cells of its world: a world whose join is pending
  has a cell in a joining state, a world that is up has none, and in a world whose join has failed no
  peer gets further than an unsolicited membership claim.
\<close>

section \<open>The phase of a session\<close>

definition member_types :: "NeighborEventType set" where
  "member_types = {ANDSessionRequest, ANDSessionReady, ANDSessionClose, ANDObjectAppend, ANDObjectDelete}"

definition phase_step :: "uuid \<Rightarrow> phase \<Rightarrow> NeighborEvent \<Rightarrow> phase option" where
  "phase_step L ph e =
     (if LocalSessionID e \<noteq> L then Some ph
      else if Type e = ANDJoinSuccess then (if ph = Joining then Some Up else None)
      else if Type e = ANDJoinFail then (if ph = Joining then Some Failed else None)
      else if Type e = ANDWorldLeave then (if ph = Up \<or> ph = Failed then Some Absent else None)
      else if Type e \<in> member_types then (if ph = Up then Some Up else None)
      else Some ph)"

primrec phase_run :: "uuid \<Rightarrow> phase \<Rightarrow> NeighborEvent list \<Rightarrow> phase option" where
  "phase_run L ph [] = Some ph"
| "phase_run L ph (e # es) = (case phase_step L ph e of None \<Rightarrow> None | Some ph' \<Rightarrow> phase_run L ph' es)"

lemma phase_run_append:
  "phase_run L ph (es @ es') = (case phase_run L ph es of None \<Rightarrow> None | Some ph' \<Rightarrow> phase_run L ph' es')"
  by (induction es arbitrary: ph) (auto split: option.split)

definition life_types :: "NeighborEventType set" where
  "life_types = {ANDJoinSuccess, ANDJoinFail, ANDWorldLeave}"

lemma phase_run_skip:
  "(\<And>e. e \<in> set es \<Longrightarrow> Type e \<in> life_types \<union> member_types \<Longrightarrow> LocalSessionID e \<noteq> L) \<Longrightarrow> phase_run L ph es = Some ph"
  by (induction es) (auto simp: phase_step_def life_types_def)

lemma phase_run_up:
  "(\<And>e. e \<in> set es \<Longrightarrow> Type e \<in> life_types \<Longrightarrow> LocalSessionID e \<noteq> L) \<Longrightarrow> phase_run L Up es = Some Up"
  by (induction es) (auto simp: phase_step_def life_types_def)

section \<open>Cells and phases\<close>

text \<open>A cell without a session of its own.\<close>

definition quiet_cell :: "cell \<Rightarrow> bool" where
  "quiet_cell c \<longleftrightarrow> (\<forall>i. c = Some i \<longrightarrow> state i \<in> {WS_CC, WS_RMEM_NJNI})"

definition quiet :: "ANDWorld \<Rightarrow> bool" where
  "quiet w \<longleftrightarrow> (\<forall>k. quiet_cell (peers w k))"

definition fits :: "phase \<Rightarrow> ANDWorld \<Rightarrow> bool" where
  "fits ph w \<longleftrightarrow> (case ph of Absent \<Rightarrow> False | Joining \<Rightarrow> \<not> no_join w | Up \<Rightarrow> no_join w | Failed \<Rightarrow> quiet w)"

lemma fits_simps [simp]:
  "\<not> fits Absent w" "fits Joining w \<longleftrightarrow> \<not> no_join w" "fits Up w \<longleftrightarrow> no_join w" "fits Failed w \<longleftrightarrow> quiet w"
  by (simp_all add: fits_def)

lemma quiet_cell_simps [simp]:
  "quiet_cell None" "quiet_cell (Some i) \<longleftrightarrow> state i \<in> {WS_CC, WS_RMEM_NJNI}"
  by (auto simp: quiet_cell_def)

lemma quiet_no_join: "quiet w \<Longrightarrow> no_join w"
  unfolding quiet_def no_join_def is_joining_def quiet_cell_def by (metis insert_iff joining_ws.simps singletonD)

lemma quiet_put: "quiet w \<Longrightarrow> quiet_cell c \<Longrightarrow> quiet (w\<lparr>peers := (peers w)(k := c)\<rparr>)"
  by (simp add: quiet_def)

lemma quietD: "quiet w \<Longrightarrow> peers w k = Some i \<Longrightarrow> state i = WS_CC \<or> state i = WS_RMEM_NJNI"
  unfolding quiet_def quiet_cell_def by blast

section \<open>Edges and phases\<close>

lemma edge_life:
  assumes "peer_edge L A c evs c'" and "e \<in> set evs" and "Type e \<in> life_types"
  shows "is_joining c"
  using assms edge_no_leave [OF assms(1,2)]
  by (induction rule: peer_edge.induct)
     (auto simp: life_types_def side_event_def clear_events_def begin_events_def dest: map_Type_mem split: ws.splits if_splits)

lemma edge_up: "peer_edge L A c evs c' \<Longrightarrow> \<not> is_joining c \<Longrightarrow> phase_run L Up evs = Some Up"
  using edge_life by (metis phase_run_up)

text \<open>Between quiet cells nothing of the session is reported.\<close>

lemma edge_quiet:
  assumes "peer_edge L A c evs c'" and "quiet_cell c" and "quiet_cell c'"
  shows "phase_run L ph evs = Some ph"
  using assms
proof (induction rule: peer_edge.induct)
  case (stay evs c)
  show ?case by (rule phase_run_skip) (use stay in \<open>auto simp: side_event_def life_types_def member_types_def quiet_cell_def\<close>)
qed (auto simp: clear_events_def begin_events_def elim: begins.elims split: ws.splits if_splits)

text \<open>The target of a pending join decides the phase.\<close>

lemma edge_target:
  assumes "peer_edge L A c evs c'" and "is_joining c"
  shows "(phase_run L Joining evs = Some Joining \<and> is_joining c') \<or> (phase_run L Joining evs = Some Failed \<and> quiet_cell c')
    \<or> (phase_run L Joining evs = Some Up \<and> \<not> is_joining c')"
  using assms
proof (induction rule: peer_edge.induct)
  case (stay evs c)
  have "phase_run L Joining evs = Some Joining"
    by (rule phase_run_skip) (use stay in \<open>auto simp: side_event_def life_types_def member_types_def is_joining_def\<close>)
  then show ?case using stay by simp
qed (auto simp: clear_events_def phase_step_def member_types_def split: ws.splits)

text \<open>The peer of an event about a member is the one of the cell.\<close>

lemma edge_member_peer:
  assumes "peer_edge L A c evs c'" and "e \<in> set evs" and "Type e \<in> member_types"
  shows "\<exists>i. (c = Some i \<or> c' = Some i) \<and> \<not> dc (state i) \<and> Peer e = Peer i"
  using assms
  by (induction rule: peer_edge.induct)
     (auto simp: member_types_def side_event_def clear_events_def begin_events_def elim: begins.elims
       dest: map_Type_mem split: ws.splits if_splits)

section \<open>What a statement of a world adds\<close>

text \<open>\<open>K\<close> are the peers that were ever connected. From each of the phases in \<open>P\<close> that fits the world, the
  events lead to a phase that fits the world afterwards.\<close>

definition known :: "hash set \<Rightarrow> NeighborEvent \<Rightarrow> bool" where
  "known K e \<longleftrightarrow> (Type e \<in> member_types \<longrightarrow> (\<exists>p. Peer e = Some p \<and> IDHash p \<in> K))"

definition adds :: "hash set \<Rightarrow> uuid \<Rightarrow> wctx \<Rightarrow> wctx \<Rightarrow> NeighborEvent list \<Rightarrow> bool" where
  "adds K L s s' evs \<longleftrightarrow> ech s' = ech s @ evs \<and> only_about L evs \<and> list_all (known K) evs"

definition goes :: "phase set \<Rightarrow> hash set \<Rightarrow> wctx \<Rightarrow> wctx \<Rightarrow> bool" where
  "goes P K s s' \<longleftrightarrow> lsid (cw s') = lsid (cw s) \<and> (\<exists>evs. adds K (lsid (cw s)) s s' evs \<and>
     (\<forall>ph \<in> P. fits ph (cw s) \<longrightarrow> (\<exists>ph'. phase_run (lsid (cw s)) ph evs = Some ph' \<and> fits ph' (cw s'))))"

lemma adds_nil [simp]: "adds K L s s []"
  by (simp add: adds_def only_about_def)

lemma adds_trans: "adds K L s t evs \<Longrightarrow> adds K L t u evs' \<Longrightarrow> adds K L s u (evs @ evs')"
  by (auto simp: adds_def only_about_def)

lemma goes_same: "cw s' = cw s \<Longrightarrow> ech s' = ech s \<Longrightarrow> goes P K s s'"
  by (auto simp: goes_def adds_def only_about_def intro!: exI [where x = "[]"])

lemma goes_trans:
  assumes "goes P K s t" and "goes UNIV K t u"
  shows "goes P K s u"
proof -
  let ?L = "lsid (cw s)"
  from assms obtain e1 e2 where e: "adds K ?L s t e1" "adds K ?L t u e2" "lsid (cw t) = ?L" "lsid (cw u) = ?L"
      and p: "\<forall>ph \<in> P. fits ph (cw s) \<longrightarrow> (\<exists>ph'. phase_run ?L ph e1 = Some ph' \<and> fits ph' (cw t))"
        "\<forall>ph. fits ph (cw t) \<longrightarrow> (\<exists>ph'. phase_run ?L ph e2 = Some ph' \<and> fits ph' (cw u))"
    by (auto simp: goes_def)
  have "\<forall>ph \<in> P. fits ph (cw s) \<longrightarrow> (\<exists>ph'. phase_run ?L ph (e1 @ e2) = Some ph' \<and> fits ph' (cw u))"
    using p by (fastforce simp: phase_run_append)
  then show ?thesis unfolding goes_def using e adds_trans [OF e(1,2)] by auto
qed

lemma goes_weaken: "goes P K s s' \<Longrightarrow> (\<And>ph. ph \<in> Q \<Longrightarrow> fits ph (cw s) \<Longrightarrow> ph \<in> P) \<Longrightarrow> goes Q K s s'"
  unfolding goes_def by blast

lemma wtrans_cells:
  assumes "wtrans A k s s'"
  obtains evs where "peer_edge (lsid (cw s)) (A k) (peers (cw s) k) evs (peers (cw s') k)" "ech s' = ech s @ evs"
    "\<forall>k'. k' \<noteq> k \<longrightarrow> peers (cw s') k' = peers (cw s) k'" "lsid (cw s') = lsid (cw s)"
proof -
  from assms obtain evs where e: "peer_edge (lsid (cw s)) (A k) (peers (cw s) k) evs (peers (cw s') k)" "ech s' = ech s @ evs"
      and c: "cw s' = (cw s)\<lparr>peers := (peers (cw s))(k := peers (cw s') k)\<rparr>"
    by (auto simp: wtrans_def)
  have "peers (cw s') k' = peers (cw s) k'" if "k' \<noteq> k" for k' using that by (subst c) simp
  moreover have "lsid (cw s') = lsid (cw s)" by (subst c) simp
  ultimately show ?thesis using that e by blast
qed

lemma join_others_quiet:
  assumes "world_join w" and "is_joining (peers w k)" and "k' \<noteq> k"
  shows "quiet_cell (peers w k')"
  using assms unfolding world_join_def quiet_cell_def by blast

lemma quiet_cell_joining: "quiet_cell c \<Longrightarrow> \<not> is_joining c"
  by (auto simp: quiet_cell_def is_joining_def)

lemma wtrans_adds:
  assumes t: "wtrans A k s s'" and g: "wgood C s" "wgood C' s'" and K: "dom C \<subseteq> K" "dom C' \<subseteq> K"
    and e: "peer_edge (lsid (cw s)) (A k) (peers (cw s) k) evs (peers (cw s') k)" "ech s' = ech s @ evs"
  shows "adds K (lsid (cw s)) s s' evs"
proof -
  have "known K ev" if ev: "ev \<in> set evs" for ev
    unfolding known_def
  proof
    assume "Type ev \<in> member_types"
    then obtain i where i: "peers (cw s) k = Some i \<or> peers (cw s') k = Some i" "\<not> dc (state i)" "Peer ev = Peer i"
      using edge_member_peer [OF e(1) ev] by blast
    from i(1) obtain p where "Peer i = Some p" "IDHash p = k" "C k = Some p \<or> C' k = Some p"
      using wgood_some_cell [OF g(1) _ i(2)] wgood_some_cell [OF g(2) _ i(2)] by metis
    then show "\<exists>p. Peer ev = Some p \<and> IDHash p \<in> K" using i(3) K by auto
  qed
  then show ?thesis using e(2) edge_events [OF e(1)] by (auto simp: adds_def only_about_def list_all_iff)
qed

lemma wtrans_goes:
  assumes t: "wtrans A k s s'" and g: "wgood C s" "wgood C' s'" and K: "dom C \<subseteq> K" "dom C' \<subseteq> K"
    and q: "Failed \<in> P \<Longrightarrow> quiet (cw s) \<Longrightarrow> quiet (cw s')"
  shows "goes P K s s'"
proof -
  let ?L = "lsid (cw s)" and ?c = "peers (cw s) k" and ?c' = "peers (cw s') k"
  obtain evs where e: "peer_edge ?L (A k) ?c evs ?c'" "ech s' = ech s @ evs"
      and o: "\<forall>k'. k' \<noteq> k \<longrightarrow> peers (cw s') k' = peers (cw s) k'" and L: "lsid (cw s') = ?L"
    by (rule wtrans_cells [OF t])
  have wj: "world_join (cw s)" "world_join (cw s')" using g by (simp_all add: wgood_def)
  have "\<exists>ph'. phase_run ?L ph evs = Some ph' \<and> fits ph' (cw s')" if ph: "ph \<in> P" "fits ph (cw s)" for ph
  proof (cases ph)
    case Up
    then have "\<not> is_joining ?c" "no_join (cw s)" using ph by (auto simp: no_join_def)
    then show ?thesis using edge_up [OF e(1)] wtrans_no_join [OF t] Up by auto
  next
    case Failed
    then have "quiet (cw s)" "quiet (cw s')" using ph q by auto
    then have "quiet_cell ?c" "quiet_cell ?c'" by (auto simp: quiet_def)
    then show ?thesis using edge_quiet [OF e(1)] \<open>quiet (cw s')\<close> Failed by auto
  next
    case Joining
    then obtain k0 where k0: "is_joining (peers (cw s) k0)" using ph by (auto simp: no_join_def)
    show ?thesis
    proof (cases "k0 = k")
      case True
      have others: "quiet_cell (peers (cw s') k')" if "k' \<noteq> k" for k'
        using join_others_quiet [OF wj(1) k0] o that True by simp
      from edge_target [OF e(1)] k0 True
      consider "phase_run ?L Joining evs = Some Joining" "is_joining ?c'"
        | "phase_run ?L Joining evs = Some Failed" "quiet_cell ?c'"
        | "phase_run ?L Joining evs = Some Up" "\<not> is_joining ?c'" by blast
      then show ?thesis
      proof cases
        case 1
        then show ?thesis using Joining by (auto simp: no_join_def)
      next
        case 2
        then have "quiet (cw s')" using others unfolding quiet_def by metis
        then show ?thesis using 2 Joining by auto
      next
        case 3
        then have "no_join (cw s')" using others quiet_cell_joining unfolding no_join_def by metis
        then show ?thesis using 3 Joining by auto
      qed
    next
      case False
      then have k0': "is_joining (peers (cw s') k0)" using k0 o by simp
      have "quiet_cell ?c" "quiet_cell ?c'"
        using join_others_quiet [OF wj(1) k0] join_others_quiet [OF wj(2) k0'] False by auto
      then show ?thesis using edge_quiet [OF e(1)] k0' Joining by (auto simp: no_join_def)
    qed
  qed (use ph in simp)
  then show ?thesis unfolding goes_def using wtrans_adds [OF t g K e] L by blast
qed

text \<open>A chain of moves in a world that is up.\<close>

lemma wkeeps_goes_up:
  assumes k: "wkeeps C A s s'" and g: "wgood C s" and K: "dom C \<subseteq> K" and nj: "no_join (cw s)"
  shows "goes {Up} K s s'"
proof -
  let ?L = "lsid (cw s)"
  let ?P = "\<lambda>s'. no_join (cw s') \<and> lsid (cw s') = ?L \<and> (\<exists>evs. adds K ?L s s' evs \<and> phase_run ?L Up evs = Some Up)"
  have "?P s'"
  proof (rule wkeeps_induct [OF k g])
    show "?P s" using nj by (intro conjI exI [where x = "[]"]) simp_all
    fix s1 k s2
    assume P: "?P s1" and g: "wgood C s1" "wgood C s2" and t: "wtrans A k s1 s2"
    then obtain evs where evs: "adds K ?L s s1 evs" "phase_run ?L Up evs = Some Up" by blast
    have nj1: "no_join (cw s1)" and L1: "lsid (cw s1) = ?L" using P by auto
    obtain evs' where e: "peer_edge (lsid (cw s1)) (A k) (peers (cw s1) k) evs' (peers (cw s2) k)" "ech s2 = ech s1 @ evs'"
        and L2: "lsid (cw s2) = lsid (cw s1)" by (rule wtrans_cells [OF t])
    have "adds K ?L s s2 (evs @ evs')" using adds_trans [OF evs(1)] wtrans_adds [OF t g K K e] L1 by simp
    moreover have "phase_run ?L Up evs' = Some Up"
      using edge_up [OF e(1)] nj1 L1 by (simp add: no_join_def)
    ultimately show "?P s2"
      using wtrans_no_join [OF t nj1] evs(2) L1 L2 by (auto simp: phase_run_append)
  qed
  then show ?thesis by (auto simp: goes_def)
qed

lemma wkeeps_goes:
  assumes "wkeeps C A s s'" and "wgood C s" and "dom C \<subseteq> K" and nj: "no_join (cw s)" and "\<not> quiet (cw s)"
  shows "goes P K s s'"
  by (rule goes_weaken [OF wkeeps_goes_up [OF assms(1-4)]]) (use assms(5) nj in \<open>auto simp: fits_def split: phase.splits\<close>)

section \<open>Quiet worlds stay quiet\<close>

text \<open>Only a join request or an introduction by a member starts a session in a quiet world.\<close>

definition keeps_quiet :: "(wctx, 'a) go \<Rightarrow> bool" where
  "keeps_quiet f \<longleftrightarrow> (\<forall>s. quiet (cw s) \<longrightarrow> wlp f (\<lambda>_ s'. quiet (cw s')) s)"

lemma keeps_quietI: "(\<And>s. quiet (cw s) \<Longrightarrow> wlp f (\<lambda>_ s'. quiet (cw s')) s) \<Longrightarrow> keeps_quiet f"
  by (simp add: keeps_quiet_def)

lemmas quiet_simps = handler_simps quiet_put

lemma quiet_cases:
  assumes "quiet w"
  obtains "peers w k = None" | i where "peers w k = Some i" "state i = WS_CC" | i where "peers w k = Some i" "state i = WS_RMEM_NJNI"
  using assms quietD by (cases "peers w k") blast+

lemma quiet_ClearStates: "keeps_quiet (ClearStates k ip m)"
proof (rule keeps_quietI)
  fix s :: wctx assume q: "quiet (cw s)"
  show "wlp (ClearStates k ip m) (\<lambda>_ s'. quiet (cw s')) s"
    by (rule quiet_cases [OF q, of ip]) (use q in \<open>auto simp: quiet_simps split: option.splits\<close>)
qed

lemma quiet_connections: "keeps_quiet (ANDWorld_PeerConnected p)" "keeps_quiet (ANDWorld_RemovePeer p)"
proof -
  show "keeps_quiet (ANDWorld_PeerConnected p)"
  proof (rule keeps_quietI)
    fix s :: wctx assume q: "quiet (cw s)"
    show "wlp (ANDWorld_PeerConnected p) (\<lambda>_ s'. quiet (cw s')) s"
      by (rule quiet_cases [OF q, of "IDHash p"]) (use q in \<open>auto simp: ANDWorld_PeerConnected_def quiet_simps\<close>)
  qed
  show "keeps_quiet (ANDWorld_RemovePeer p)"
  proof (rule keeps_quietI)
    fix s :: wctx assume q: "quiet (cw s)"
    have "wlp (ClearStates (IDHash p) (IDHash p) '''') (\<lambda>_ s'. quiet (cw s')) s"
      using quiet_ClearStates q by (simp add: keeps_quiet_def)
    then show "wlp (ANDWorld_RemovePeer p) (\<lambda>_ s'. quiet (cw s')) s"
      unfolding ANDWorld_RemovePeer_def wpx_block by (rule wpx_mono) (simp add: wpx_delete_info quiet_put)
  qed
qed

lemma quiet_messages:
  "keeps_quiet (ANDWorld_JDN p c m)" "keeps_quiet (ANDWorld_MEM ps ts)" "keeps_quiet (ANDWorld_SOA ps obs)"
  "keeps_quiet (ANDWorld_SOD ps ids)"
proof -
  show "keeps_quiet (ANDWorld_JDN p c m)"
  proof (rule keeps_quietI)
    fix s :: wctx assume q: "quiet (cw s)"
    show "wlp (ANDWorld_JDN p c m) (\<lambda>_ s'. quiet (cw s')) s"
      by (rule quiet_cases [OF q, of "IDHash p"]) (use q in \<open>auto simp: ANDWorld_JDN_def quiet_simps\<close>)
  qed
  show "keeps_quiet (ANDWorld_MEM ps ts)"
  proof (rule keeps_quietI)
    fix s :: wctx assume q: "quiet (cw s)"
    show "wlp (ANDWorld_MEM ps ts) (\<lambda>_ s'. quiet (cw s')) s"
    proof (cases "Peer ps")
      case (Some p)
      then show ?thesis
        by (rule_tac quiet_cases [OF q, of "IDHash p"]) (use q in \<open>auto simp: ANDWorld_MEM_def quiet_simps split: option.splits\<close>)
    qed (simp add: ANDWorld_MEM_def quiet_simps)
  qed
  show "keeps_quiet (ANDWorld_SOA ps obs)" "keeps_quiet (ANDWorld_SOD ps ids)"
    by (auto intro!: keeps_quietI simp: ANDWorld_SOA_def ANDWorld_SOD_def quiet_simps split: option.splits)
qed

lemma quiet_RST: "keeps_quiet (ANDWorld_RST ps)"
  using quiet_ClearStates
  by (auto intro!: keeps_quietI simp: ANDWorld_RST_def wpx_block wpx_bind wpx_stat_inc wpx_IDHash_of wpx_info_at
      keeps_quiet_def split: option.split)

lemma quiet_Decline: "keeps_quiet (ANDWorld_DeclineSession ps c m)"
proof (rule keeps_quietI)
  fix s :: wctx assume q: "quiet (cw s)"
  show "wlp (ANDWorld_DeclineSession ps c m) (\<lambda>_ s'. quiet (cw s')) s"
  proof (cases "Peer ps")
    case (Some p)
    then show ?thesis
      by (rule_tac quiet_cases [OF q, of "IDHash p"]) (use q in \<open>auto simp: ANDWorld_DeclineSession_def quiet_simps split: option.splits\<close>)
  qed (simp add: ANDWorld_DeclineSession_def quiet_simps)
qed

section \<open>Operations and phases\<close>

lemma moves_goes:
  assumes m: "wp f (\<lambda>_ s'. wgood C' s' \<and> wtrans A k s s') s" and g: "wgood C s" and K: "dom C \<subseteq> K" "dom C' \<subseteq> K"
    and q: "keeps_quiet f"
  shows "wlp f (\<lambda>_. goes P K s) s"
proof (cases "quiet (cw s)")
  case True
  then have "wlp f (\<lambda>_ s'. quiet (cw s')) s" using q by (simp add: keeps_quiet_def)
  with wpx_weaken [OF m] have "wlp f (\<lambda>_ s'. (wgood C' s' \<and> wtrans A k s s') \<and> quiet (cw s')) s"
    by (simp only: wpx_conj)
  then show ?thesis by (rule wpx_mono) (auto intro: wtrans_goes [OF _ g _ K])
next
  case False
  show ?thesis by (rule wpx_mono [OF wpx_weaken [OF m]]) (use False in \<open>auto intro: wtrans_goes [OF _ g _ K]\<close>)
qed

lemma JN_goes:
  assumes g: "wgood C s" and c: "C k = Some p" and ps: "Peer ps = Some p" and nj: "no_join (cw s)" and K: "dom C \<subseteq> K"
  shows "wlp (ANDWorld_JN ps ts) (\<lambda>_. goes {Up} K s) s"
  by (rule wpx_mono [OF wpx_weaken [OF JN_moves [OF g c ps nj]]]) (auto intro: wtrans_goes [OF _ g _ K K])

lemma quiet_guard: "keeps_quiet (IsProperMemberOrReset k ps)"
proof (rule keeps_quietI)
  fix s :: wctx assume q: "quiet (cw s)"
  show "wlp (IsProperMemberOrReset k ps) (\<lambda>_ s'. quiet (cw s')) s"
    by (rule quiet_cases [OF q, of k]) (use q in \<open>auto simp: quiet_simps split: option.splits\<close>)
qed

lemma member_active: "is_member (peers (cw s) k) \<Longrightarrow> wgood C s \<Longrightarrow> no_join (cw s) \<and> \<not> quiet (cw s)"
  using wgood_no_join [of C s k] quietD [of "cw s" k] by (auto simp: is_member_def)

text \<open>The messages of members.\<close>

lemma guard_goes:
  assumes g: "wgood C s" and c: "C k = Some p" and ps: "Peer ps = Some p" and K: "dom C \<subseteq> K"
    and t: "\<And>st. counted st [] (fld (\<lambda>n. n + (1 :: go_int)) st)"
    and moves: "wp (go_block [stat_inc fld, go_bind (IDHash_of (Peer ps)) (\<lambda>k.
      go_bind (IsProperMemberOrReset k ps) (\<lambda>proper. if \<not> proper then stat_W n else h k))]) (\<lambda>_. wkeeps C A s) s"
  shows "wlp (go_block [stat_inc fld, go_bind (IDHash_of (Peer ps)) (\<lambda>k.
      go_bind (IsProperMemberOrReset k ps) (\<lambda>proper. if \<not> proper then stat_W n else h k))]) (\<lambda>_. goes P K s) s"
proof (cases "is_member (peers (cw s) k)")
  case True
  from member_active [OF this g] show ?thesis
    by (intro wpx_mono [OF wpx_weaken [OF moves]]) (auto intro: wkeeps_goes [OF _ g K])
next
  case False
  let ?s = "s\<lparr>o_stat := fld (\<lambda>n. n + 1) (o_stat s)\<rparr>"
  have k: "IDHash p = k" using g c by (auto simp: wgood_def hashes_ok_def)
  have "wkeeps C A s ?s" by (rule wkeeps_counts [OF wkeeps_refl [OF g]]) (simp_all, rule t)
  then have g1: "wgood C ?s" by (simp add: wkeeps_def)
  have "wlp (IsProperMemberOrReset k ps) (\<lambda>proper s'. \<not> proper \<and> wgood C s' \<and> wtrans A k ?s s') ?s"
    by (rule wpx_mono [OF wpx_weaken [OF IsProperMember_spec [OF g1 c]]]) (use False in \<open>auto simp: is_member_def\<close>)
  moreover have "quiet (cw ?s) \<Longrightarrow> wlp (IsProperMemberOrReset k ps) (\<lambda>proper s'. quiet (cw s')) ?s"
    using quiet_guard by (simp add: keeps_quiet_def)
  ultimately have "wlp (IsProperMemberOrReset k ps) (\<lambda>proper s'. (\<not> proper \<and> wgood C s' \<and> wtrans A k ?s s') \<and>
      (quiet (cw ?s) \<longrightarrow> quiet (cw s'))) ?s"
    by (cases "quiet (cw ?s)") (simp_all add: wpx_conj)
  then have "wlp (IsProperMemberOrReset k ps) (\<lambda>proper. wlp (if \<not> proper then stat_W n else h k) (\<lambda>_. goes P K s)) ?s"
  proof (rule wpx_mono)
    fix proper s1 assume a: "(\<not> proper \<and> wgood C s1 \<and> wtrans A k ?s s1) \<and> (quiet (cw ?s) \<longrightarrow> quiet (cw s1))"
    then have "goes UNIV K ?s s1" by (auto intro: wtrans_goes [OF _ g1 _ K K])
    then have "goes P K s s1" by (rule goes_trans [OF goes_same, rotated 2]) simp_all
    then have "goes P K s s2" if "cw s2 = cw s1" "ech s2 = ech s1" for s2
      by (rule goes_trans) (rule goes_same [OF that])
    then show "wlp (if \<not> proper then stat_W n else h k) (\<lambda>_. goes P K s) s1" using a by (auto simp: wp_rules)
  qed
  then show ?thesis using ps k by (simp add: wpx_block wpx_block(1) wpx_bind wpx_stat_inc wpx_IDHash_of cong del: if_weak_cong)
qed

lemma member_messages_goes:
  assumes g: "wgood C s" and c: "C k = Some p" and ps: "Peer ps = Some p" and K: "dom C \<subseteq> K"
  shows "wlp (ANDWorld_JNI ps m) (\<lambda>_. goes P K s) s"
    and "wlp (ANDWorld_SJN ps mis) (\<lambda>_. goes P K s) s"
    and "crr_ok (cw s) mis \<Longrightarrow> wlp (ANDWorld_CRR ps mis) (\<lambda>_. goes P K s) s"
proof -
  show "wlp (ANDWorld_JNI ps m) (\<lambda>_. goes P K s) s"
    using JNI_moves [OF g c ps, of m] unfolding ANDWorld_JNI_def
    by (rule guard_goes [OF g c ps K, rotated]) simp
  show "wlp (ANDWorld_SJN ps mis) (\<lambda>_. goes P K s) s"
    using SJN_moves [OF g c ps, of mis] unfolding ANDWorld_SJN_def
    by (rule guard_goes [OF g c ps K, rotated]) simp
  show "wlp (ANDWorld_CRR ps mis) (\<lambda>_. goes P K s) s" if "crr_ok (cw s) mis"
    using CRR_moves [OF g c ps that] unfolding ANDWorld_CRR_def
    by (rule guard_goes [OF g c ps K, rotated]) simp
qed

lemma JOK_goes:
  assumes g: "wgood C s" and c: "C k = Some p" and ps: "Peer ps = Some p" and K: "dom C \<subseteq> K"
  shows "wlp (ANDWorld_JOK ps ts url ms) (\<lambda>_. goes P K s) s"
proof -
  obtain i where i: "peers (cw s) k = Some i" by (rule wgood_cell [OF g c])
  show ?thesis
  proof (cases "join_hash (cw s) = k \<and> state i = WS_JT")
    case False
    show ?thesis
      by (rule wpx_mono [OF wpx_weaken [OF JOK_rejected [OF g c ps i False]]]) (simp add: goes_same)
  next
    case True
    then obtain s1 i' where s1: "wtrans (\<lambda>_. {}) k s s1" "wgood C s1" "no_join (cw s1)" "peers (cw s1) k = Some i'"
        "state i' = WS_RMEM" and w: "wp (ANDWorld_JOK ps ts url ms) (\<lambda>_. wkeeps C (\<lambda>_. {}) s1) s"
      using JOK_accepted [OF g c ps i] by blast
    have nq: "\<not> quiet (cw s)" "\<not> quiet (cw s1)" using quietD i True s1(4,5) by fastforce+
    then have "goes P K s s1" by (intro wtrans_goes [OF s1(1) g s1(2) K K]) simp
    then have "goes P K s s'" if "wkeeps C (\<lambda>_. {}) s1 s'" for s'
      by (rule goes_trans) (rule wkeeps_goes [OF that s1(2) K s1(3) nq(2)])
    then show ?thesis by (rule wpx_mono [OF wpx_weaken [OF w]])
  qed
qed

text \<open>Decisions of the application and the timer.\<close>

lemma quiet_Accept: "quiet (cw s) \<Longrightarrow> wlp (ANDWorld_AcceptSession ord ps) (\<lambda>_ s'. cw s' = cw s \<and> ech s' = ech s) s"
proof (cases "Peer ps")
  case (Some p)
  assume q: "quiet (cw s)"
  from Some show ?thesis
    by (rule_tac quiet_cases [OF q, of "IDHash p"]) (auto simp: ANDWorld_AcceptSession_def wp_rules)
qed (simp add: ANDWorld_AcceptSession_def wp_rules)

lemma Accept_goes:
  assumes g: "wgood C s" and ps: "Peer ps = Some p" and nj: "no_join (cw s)" and K: "dom C \<subseteq> K"
  shows "wlp (ANDWorld_AcceptSession ord ps) (\<lambda>_. goes P K s) s"
proof (cases "quiet (cw s)")
  case True
  show ?thesis by (rule wpx_mono [OF quiet_Accept [OF True]]) (simp add: goes_same)
next
  case False
  have nt: "\<not> is_joining (peers (cw s) (IDHash p))" using nj by (simp add: no_join_def)
  have "wlp (ANDWorld_AcceptSession ord ps) (\<lambda>_. wkeeps C (\<lambda>_. UNIV) s) s"
    by (rule wpx_weaken, rule Accept_moves [OF g ps nt], rule UNIV_I)
  then show ?thesis by (rule wpx_mono) (rule wkeeps_goes [OF _ g K nj False])
qed

definition memberless :: "ANDWorld \<Rightarrow> bool" where
  "memberless w \<longleftrightarrow> (\<forall>k. \<not> is_member (peers w k))"

lemma memberless_cases:
  assumes "wgood C s" and "quiet (cw s) \<or> \<not> no_join (cw s)"
  shows "memberless (cw s)"
  using member_active [OF _ assms(1)] assms(2) by (auto simp: memberless_def)

lemma Timer_idle:
  assumes m: "memberless (cw s)"
  shows "wlp (ANDWorld_TimerExpire ord1 ord2 now r)
    (\<lambda>_ s'. cw s' = cw s \<and> (\<exists>ms. ech s' = ech s @ [timer_event (lsid (cw s)) ms])) s"
proof -
  have nm: "state i \<noteq> WS_MEM" if "peers (cw s) k = Some i" for k i
    using m that unfolding memberless_def by (metis is_member_simps(2))
  have second: "wlp (go_bind (range_peers_acc ord2 (sjn_announce (lsid (cw s)) ms) 0) (\<lambda>n.
      go_bind (rand_Intn r (300 * (n + 1))) (\<lambda>v. emit (timer_event (lsid (cw s)) (300 + v)))))
      (\<lambda>_ s'. cw s' = cw s \<and> (\<exists>ms. ech s' = ech s @ [timer_event (lsid (cw s)) ms])) s1"
    if "cw s1 = cw s \<and> ech s1 = ech s" for ms s1
    unfolding wpx_bind [of _ "range_peers_acc _ _ _"]
    by (rule wpx_range_acc [where I = "\<lambda>_ s'. cw s' = cw s \<and> ech s' = ech s"])
       (use that nm in \<open>auto simp: sjn_announce_def wp_rules simp del: distrib_left_numeral\<close>)
  show ?thesis
    unfolding ANDWorld_TimerExpire_def wpx_bind [of _ the_world] wpx_the_world
      wpx_bind [of _ "range_peers_acc ord1 _ _"]
  proof (rule wpx_range_acc [where I = "\<lambda>_ s'. cw s' = cw s \<and> ech s' = ech s"], goal_cases)
    case (2 k info a s1)
    then show ?case using nm by (auto simp: sjn_collect_def sjn_due_def wp_rules)
  next
    case (3 ms s1)
    then show ?case by (rule second)
  qed simp
qed

lemma Timer_goes:
  assumes g: "wgood C s" and K: "dom C \<subseteq> K"
  shows "wlp (ANDWorld_TimerExpire ord1 ord2 now r) (\<lambda>_. goes P K s) s"
proof (cases "no_join (cw s) \<and> \<not> quiet (cw s)")
  case True
  show ?thesis
    by (rule wpx_mono [OF wpx_weaken [OF Timer_moves [OF g]]]) (use True in \<open>auto intro: wkeeps_goes [OF _ g K]\<close>)
next
  case False
  have "goes P K s s'" if "cw s' = cw s" "ech s' = ech s @ [timer_event (lsid (cw s)) ms]" for s' ms
    using that unfolding goes_def
    by (intro conjI exI [where x = "[timer_event (lsid (cw s)) ms]"])
       (auto simp: adds_def only_about_def known_def member_types_def phase_step_def)
  then show ?thesis
    by (intro wpx_mono [OF Timer_idle [OF memberless_cases [OF g]]]) (use False in auto)
qed

end
