(* ===== verification/And_Ledger.thy ===== *)
theory And_Ledger
  imports And_Follow And_Props
begin

text \<open>
  Every history of calls produces events that the ledger accepts. Beyond what the object itself needs
  (\<open>call_ok\<close>), the caller is polite: join requests reach only worlds whose join has succeeded, a world is
  not closed while its join waits for a target that is not connected, and addresses are those of
  parsed URLs.
\<close>

section \<open>Polite calls\<close>

definition joined_ok :: "uuid \<Rightarrow> AND \<Rightarrow> bool" where
  "joined_ok L a \<longleftrightarrow> (\<exists>e \<in> set (eventCh a). Type e = ANDJoinSuccess \<and> LocalSessionID e = L)"

fun polite :: "and_call \<Rightarrow> AND \<Rightarrow> bool" where
  "polite (JN L ps ts) a \<longleftrightarrow> of_world L a (\<lambda>_. joined_ok L a)"
| "polite (CloseWorld ord L) a \<longleftrightarrow> of_world L a (\<lambda>w. \<forall>k i. peers w k = Some i \<longrightarrow> state i \<noteq> WS_DC_JT)"
| "polite _ a \<longleftrightarrow> True"

definition follow_ok :: "and_call \<Rightarrow> AND \<Rightarrow> bool" where
  "follow_ok c a \<longleftrightarrow> call_ok c a \<and> polite c a \<and> call_addrs_ok c"

text \<open>The sessions created and the peers connected by a history.\<close>

fun creates :: "and_call \<Rightarrow> uuid option" where
  "creates (OpenWorld ord now L url) = Some L"
| "creates (JoinWorld ord now L target) = Some L"
| "creates _ = None"

definition start_phase :: "and_call list \<Rightarrow> uuid \<Rightarrow> phase" where
  "start_phase cs L = (if Some L \<in> creates ` set cs then Joining else Absent)"

definition peers_of :: "and_call list \<Rightarrow> hash set" where
  "peers_of cs = {IDHash p |ord p. PeerConnected ord p \<in> set cs}"

lemma start_phase_other: "creates c \<noteq> Some L \<Longrightarrow> start_phase (cs @ [c]) L = start_phase cs L"
  by (auto simp: start_phase_def)

lemma start_phase_new: "creates c = Some L \<Longrightarrow> start_phase (cs @ [c]) L = Joining"
  by (force simp: start_phase_def)

lemma peers_of_mono: "peers_of cs \<subseteq> peers_of (cs @ [c])"
  by (auto simp: peers_of_def)

lemma peers_of_new: "c = PeerConnected ord p \<Longrightarrow> IDHash p \<in> peers_of (cs @ [c])"
  by (auto simp: peers_of_def)

section \<open>Phases of all sessions\<close>

definition fits_at :: "phase \<Rightarrow> ANDWorld option \<Rightarrow> bool" where
  "fits_at ph x \<longleftrightarrow> (case x of None \<Rightarrow> ph = Absent | Some w \<Rightarrow> fits ph w)"

definition phases :: "(uuid \<Rightarrow> phase) \<Rightarrow> hash set \<Rightarrow> AND \<Rightarrow> bool" where
  "phases start K a \<longleftrightarrow> list_all (known K) (eventCh a) \<and>
     (\<forall>L. \<exists>ph. phase_run L (start L) (eventCh a) = Some ph \<and> fits_at ph (worlds a L))"

lemma fits_at_simps [simp]: "fits_at ph None \<longleftrightarrow> ph = Absent" "fits_at ph (Some w) \<longleftrightarrow> fits ph w"
  by (simp_all add: fits_at_def)

lemma phases_stat [simp]: "phases start K (a\<lparr>stat := st\<rparr>) = phases start K a"
  by (simp add: phases_def)

lemma phases_and_peers [simp]: "phases start K (a\<lparr>and_peers := C\<rparr>) = phases start K a"
  by (simp add: phases_def)

lemma known_mono: "known K e \<Longrightarrow> K \<subseteq> K' \<Longrightarrow> known K' e"
  by (auto simp: known_def)

lemma phases_mono: "phases start K a \<Longrightarrow> K \<subseteq> K' \<Longrightarrow> phases start K' a"
  by (auto simp: phases_def list_all_iff intro: known_mono)

lemma phase_other: "only_about L evs \<Longrightarrow> L' \<noteq> L \<Longrightarrow> phase_run L' ph evs = Some ph"
  by (rule phase_run_skip) (auto simp: only_about_def life_types_def member_types_def)

text \<open>One world runs a statement, and the other sessions see nothing of it.\<close>

lemma phases_put:
  assumes a: "phases start K a" and w: "worlds a L = Some w" "lsid w = L" and g: "goes P K (ctx_of a w) s"
    and P: "\<And>ph. phase_run L (start L) (eventCh a) = Some ph \<Longrightarrow> fits ph w \<Longrightarrow> ph \<in> P"
  shows "phases start K (put_ctx L s a)"
proof -
  from g obtain evs where e: "ech s = eventCh a @ evs" "only_about L evs" "list_all (known K) evs"
      and p: "\<forall>ph \<in> P. fits ph w \<longrightarrow> (\<exists>ph'. phase_run L ph evs = Some ph' \<and> fits ph' (cw s))"
    using w(2) by (auto simp: goes_def adds_def)
  have "\<exists>ph. phase_run L' (start L') (ech s) = Some ph \<and> fits_at ph (((worlds a)(L \<mapsto> cw s)) L')" for L'
  proof -
    obtain ph where ph: "phase_run L' (start L') (eventCh a) = Some ph" "fits_at ph (worlds a L')"
      using a by (auto simp: phases_def)
    show ?thesis
    proof (cases "L' = L")
      case True
      then have "ph \<in> P" "fits ph w" using ph P w by auto
      then show ?thesis using True ph p e(1) by (auto simp: phase_run_append)
    next
      case False
      then show ?thesis using ph e(1) phase_other [OF e(2) False] by (simp add: phase_run_append)
    qed
  qed
  then show ?thesis using a e by (simp add: phases_def)
qed

lemma phases_in_world:
  assumes "phases start K a" and "worlds a L = Some w" and "lsid w = L" and "wlp f (\<lambda>_. goes P K (ctx_of a w)) (ctx_of a w)"
    and "\<And>ph. phase_run L (start L) (eventCh a) = Some ph \<Longrightarrow> fits ph w \<Longrightarrow> ph \<in> P"
  shows "wlp (in_world L f) (\<lambda>_. phases start K) a"
  by (rule wp_in_world [OF assms(2,4)]) (rule phases_put [OF assms(1-3) _ assms(5)])

lemma wlp_at_world:
  assumes a: "and_inv cs a" and n: "m < 36" "n < 36" and p: "phases start K a"
    and f: "\<And>st w. and_inv cs (a\<lparr>stat := st\<rparr>) \<Longrightarrow> worlds a L = Some w \<Longrightarrow> wlp f (\<lambda>_. phases start K) (a\<lparr>stat := st\<rparr>)"
  shows "wlp (at_world L m n f) (\<lambda>_. phases start K) a"
proof (cases "worlds a L")
  case None
  have "wp (stat_B m) (\<lambda>_. phases start K) a" by (rule wp_stat_B [OF a n(1)]) (simp add: p)
  then show ?thesis using None by (auto simp: at_world_def wpx_bind wpx_read wpx_ret_fun dest: wpx_weaken)
next
  case (Some w)
  have "wp (stat_B n) (\<lambda>_ a'. wlp f (\<lambda>_. phases start K) a') a"
    by (rule wp_stat_B [OF a n(2)]) (rule f [OF _ Some])
  then have "wlp (go_block [stat_B n, f]) (\<lambda>_. phases start K) a"
    unfolding wpx_block by (rule wpx_weaken)
  then show ?thesis using Some by (simp only: at_world_def wpx_bind wpx_read wpx_ret_fun option.case)
qed

text \<open>The common shape of a call that runs one operation in one world.\<close>

lemma call_phases:
  assumes a: "and_inv cs a" and n: "m < 36" "n < 36" and p: "phases start K a"
    and f: "\<And>st w. wgood (and_peers a) (ctx_of (a\<lparr>stat := st\<rparr>) w) \<Longrightarrow> worlds a L = Some w \<Longrightarrow>
      wlp f (\<lambda>_. goes P K (ctx_of (a\<lparr>stat := st\<rparr>) w)) (ctx_of (a\<lparr>stat := st\<rparr>) w)"
    and P: "\<And>w ph. worlds a L = Some w \<Longrightarrow> phase_run L (start L) (eventCh a) = Some ph \<Longrightarrow> fits ph w \<Longrightarrow> ph \<in> P"
  shows "wlp (at_world L m n (in_world L f)) (\<lambda>_. phases start K) a"
proof (rule wlp_at_world [OF a n p])
  fix st w assume a1: "and_inv cs (a\<lparr>stat := st\<rparr>)" and w: "worlds a L = Some w"
  have "worlds (a\<lparr>stat := st\<rparr>) L = Some w" "phases start K (a\<lparr>stat := st\<rparr>)" using w p by simp_all
  then show "wlp (in_world L f) (\<lambda>_. phases start K) (a\<lparr>stat := st\<rparr>)"
    using and_inv_world(2) [OF a w]
    by (rule_tac phases_in_world [where P = P]) (use P [OF w] f [OF and_inv_world_tick [OF a1 w] w] in auto)
qed

lemmas call_phases_all = call_phases [where P = UNIV, simplified]

section \<open>Calls keep the phases\<close>

text \<open>After a join has succeeded the session is up until the world is left.\<close>

lemma up_not_failed: "phase_run L ph es = Some Failed \<Longrightarrow> ph = Joining \<or> ph = Failed"
  by (induction es arbitrary: ph) (fastforce simp: phase_step_def split: option.splits if_splits)+

lemma success_not_failed:
  "phase_run L ph es = Some Failed \<Longrightarrow> e \<in> set es \<Longrightarrow> Type e = ANDJoinSuccess \<Longrightarrow> LocalSessionID e \<noteq> L"
proof (induction es arbitrary: ph)
  case (Cons e' es)
  then obtain ph' where "phase_step L ph e' = Some ph'" "phase_run L ph' es = Some Failed" by (auto split: option.splits)
  then show ?case using Cons up_not_failed [of L ph' es] by (auto simp: phase_step_def split: if_splits)
qed simp

lemma joined_up:
  assumes "phase_run L ph0 (eventCh a) = Some ph" and "fits ph w" and "no_join w" and "joined_ok L a"
  shows "ph = Up"
  using assms success_not_failed [of L ph0 "eventCh a"] by (cases ph) (auto simp: joined_ok_def)

lemma message_phases:
  assumes a: "and_inv cs a" and p: "phases start K a" and ps: "sender_ok ps a" and K: "dom (and_peers a) \<subseteq> K"
  shows "of_world L a no_join \<Longrightarrow> of_world L a (\<lambda>_. joined_ok L a) \<Longrightarrow> wlp (AND_JN L ps ts) (\<lambda>_. phases start K) a"
    and "wlp (AND_JOK L ps ts url ms) (\<lambda>_. phases start K) a"
    and "wlp (AND_JNI L ps m) (\<lambda>_. phases start K) a"
    and "wlp (AND_MEM L ps ts) (\<lambda>_. phases start K) a"
    and "wlp (AND_SJN L ps mis) (\<lambda>_. phases start K) a"
    and "of_world L a (\<lambda>w. crr_ok w mis) \<Longrightarrow> wlp (AND_CRR L ps mis) (\<lambda>_. phases start K) a"
    and "wlp (AND_SOA L ps obs) (\<lambda>_. phases start K) a"
    and "wlp (AND_SOD L ps ids) (\<lambda>_. phases start K) a"
proof -
  obtain q where q: "Peer ps = Some q" "and_peers a (IDHash q) = Some q" using ps by (rule sender_okE)
  note single = moves_goes [OF _ _ K K]
  show "wlp (AND_JN L ps ts) (\<lambda>_. phases start K) a" if "of_world L a no_join" "of_world L a (\<lambda>_. joined_ok L a)"
    unfolding AND_JN_def
    by (rule call_phases [where P = "{Up}", OF a _ _ p])
       (use that q in \<open>auto simp: of_world_def intro: joined_up JN_goes [OF _ q(2,1) _ K]\<close>)
  show "wlp (AND_JOK L ps ts url ms) (\<lambda>_. phases start K) a"
    unfolding AND_JOK_def by (rule call_phases_all [OF a _ _ p]) (auto intro: JOK_goes [OF _ q(2,1) K])
  show "wlp (AND_JNI L ps m) (\<lambda>_. phases start K) a"
    unfolding AND_JNI_def by (rule call_phases_all [OF a _ _ p]) (auto intro: member_messages_goes [OF _ q(2,1) K])
  show "wlp (AND_MEM L ps ts) (\<lambda>_. phases start K) a"
    unfolding AND_MEM_def
    by (rule call_phases_all [OF a _ _ p]) (auto intro!: single MEM_moves quiet_messages q)
  show "wlp (AND_SJN L ps mis) (\<lambda>_. phases start K) a"
    unfolding AND_SJN_def by (rule call_phases_all [OF a _ _ p]) (auto intro: member_messages_goes [OF _ q(2,1) K])
  show "wlp (AND_CRR L ps mis) (\<lambda>_. phases start K) a" if "of_world L a (\<lambda>w. crr_ok w mis)"
    unfolding AND_CRR_def
    by (rule call_phases_all [OF a _ _ p]) (use that in \<open>auto simp: of_world_def intro: member_messages_goes [OF _ q(2,1) K]\<close>)
  show "wlp (AND_SOA L ps obs) (\<lambda>_. phases start K) a"
    unfolding AND_SOA_def
    by (rule call_phases_all [OF a _ _ p]) (auto intro!: single SOA_moves quiet_messages q)
  show "wlp (AND_SOD L ps ids) (\<lambda>_. phases start K) a"
    unfolding AND_SOD_def
    by (rule call_phases_all [OF a _ _ p]) (auto intro!: single SOD_moves quiet_messages q)
qed

lemma other_phases:
  assumes a: "and_inv cs a" and p: "phases start K a" and K: "dom (and_peers a) \<subseteq> K"
  shows "and_peers a (IDHash q) = Some q \<Longrightarrow> wlp (AND_JDN L q code msg) (\<lambda>_. phases start K) a"
    and "wlp (AND_TimerExpire ord1 ord2 now r L) (\<lambda>_. phases start K) a"
    and "offered L ps a \<Longrightarrow> wlp (AND_AcceptSession ord L ps) (\<lambda>_. phases start K) a"
    and "offered L ps a \<Longrightarrow> wlp (AND_DeclineSession L ps code msg) (\<lambda>_. phases start K) a"
proof -
  note single = moves_goes [OF _ _ K K]
  show "wlp (AND_JDN L q code msg) (\<lambda>_. phases start K) a" if "and_peers a (IDHash q) = Some q"
    unfolding AND_JDN_def
    by (rule call_phases_all [OF a _ _ p]) (auto intro!: single JDN_moves quiet_messages that)
  show "wlp (AND_TimerExpire ord1 ord2 now r L) (\<lambda>_. phases start K) a"
    unfolding AND_TimerExpire_def by (rule call_phases_all [OF a _ _ p]) (auto intro: Timer_goes [OF _ K])
  assume o: "offered L ps a"
  then obtain q where q: "Peer ps = Some q" by (auto simp: offered_def)
  show "wlp (AND_AcceptSession ord L ps) (\<lambda>_. phases start K) a"
    unfolding AND_AcceptSession_def
    by (rule call_phases_all [OF a _ _ p]) (auto intro!: Accept_goes [OF _ q _ K] offered_no_join [OF a o])
  show "wlp (AND_DeclineSession L ps code msg) (\<lambda>_. phases start K) a"
    unfolding AND_DeclineSession_def
    by (rule call_phases_all [OF a _ _ p])
       (auto intro!: single Decline_moves [OF _ q] quiet_Decline no_joinD offered_no_join [OF a o])
qed

text \<open>Calls that visit every world.\<close>

lemma loop_phases:
  assumes ord: "range_order ord (worlds a)" and g: "and_good Acc (\<lambda>_. C) a" and n: "n < 36" and p: "phases start K a"
    and K: "dom C \<subseteq> K" "dom C' \<subseteq> K" and q: "keeps_quiet op"
    and op: "\<And>s. wgood C s \<Longrightarrow> wp op (\<lambda>_ s'. wgood C' s' \<and> wtrans (\<lambda>_. {}) k s s') s"
  shows "wp (go_for ord (\<lambda>L. go_block [stat_B n, in_world L op])) (\<lambda>_. phases start K) a"
proof (rule wpx_mono [OF worlds_loop_gen [OF ord g n, where J = "phases start K" and P = "\<lambda>_. True" and k = k and C' = C']])
  show "phases start K (put_ctx L s a)" if "phases start K a" "worlds a L = Some w" "wgood C (ctx_of a w)" "lsid w = L"
      "op (ctx_of a w) = Inr ((), s)" for a L w s
    using wpx_result [OF moves_goes [OF op [OF that(3)] that(3) K q, of UNIV] that(5)]
    by (rule phases_put [OF that(1,2,4)]) simp
qed (use p op in auto)

lemma connection_phases:
  assumes a: "and_inv cs a" and p: "phases start K a" and K: "dom (and_peers a) \<subseteq> K" and ord: "range_order ord (worlds a)"
  shows "and_peers a (IDHash q) = None \<Longrightarrow> IDHash q \<in> K \<Longrightarrow> wlp (AND_PeerConnected ord q) (\<lambda>_. phases start K) a"
    and "and_peers a (IDHash q) = Some q \<Longrightarrow> wlp (AND_PeerClose ord q) (\<lambda>_. phases start K) a"
    and "sender_ok ps a \<Longrightarrow> wlp (AND_RST ord L ps) (\<lambda>_. phases start K) a"
proof -
  have good: "and_good (accepted cs) (\<lambda>_. and_peers a) (a\<lparr>stat := st\<rparr>)" if "and_inv cs (a\<lparr>stat := st\<rparr>)" for st
    using that by (simp add: and_inv_def)
  have ord': "range_order ord (worlds (a\<lparr>stat := st, and_peers := X\<rparr>))" "range_order ord (worlds (a\<lparr>stat := st\<rparr>))" for st X
    using ord by simp_all
  show "wlp (AND_PeerConnected ord q) (\<lambda>_. phases start K) a" if q: "and_peers a (IDHash q) = None" "IDHash q \<in> K"
  proof -
    let ?C' = "(and_peers a)(IDHash q \<mapsto> q)"
    have "wp (go_for ord (\<lambda>L. go_block [stat_B 1, in_world L (ANDWorld_PeerConnected q)])) (\<lambda>_. phases start K)
        (a\<lparr>stat := st, and_peers := ?C'\<rparr>)" if a1: "and_inv cs (a\<lparr>stat := st\<rparr>)" for st
      by (rule loop_phases [where C = "and_peers a" and C' = ?C' and Acc = "accepted cs", OF ord'(1)])
         (use good [OF a1] p K q in \<open>auto intro: PeerConnected_moves quiet_connections\<close>)
    then have "wp (AND_PeerConnected ord q) (\<lambda>_. phases start K) a"
      by (simp only: AND_PeerConnected_def wpx_bind wpx_block wpx_ret_fun)
         (rule wp_stat_B [OF a], simp_all add: wpx_modify wpx_modify_fun del: go_block.simps One_nat_def)
    then show ?thesis by (rule wpx_weaken)
  qed
  show "wlp (AND_PeerClose ord q) (\<lambda>_. phases start K) a" if q: "and_peers a (IDHash q) = Some q"
  proof -
    let ?C' = "(and_peers a)(IDHash q := None)"
    have "wp (go_for ord (\<lambda>L. go_block [stat_B 3, in_world L (ANDWorld_RemovePeer q)])) (\<lambda>_. phases start K)
        (a\<lparr>stat := st\<rparr>)" if a1: "and_inv cs (a\<lparr>stat := st\<rparr>)" for st
      by (rule loop_phases [where C = "and_peers a" and C' = ?C' and Acc = "accepted cs", OF ord'(2)])
         (use good [OF a1] p K q in \<open>auto intro: RemovePeer_moves quiet_connections\<close>)
    then have "wp (AND_PeerClose ord q) (\<lambda>_. phases start K) a"
      by (simp only: AND_PeerClose_def wpx_bind wpx_block wpx_ret_fun)
         (rule wp_stat_B [OF a], simp_all add: wpx_modify wpx_modify_fun del: go_block.simps One_nat_def)
    then show ?thesis by (rule wpx_weaken)
  qed
  show "wlp (AND_RST ord L ps) (\<lambda>_. phases start K) a" if ps: "sender_ok ps a"
  proof -
    obtain q where q: "Peer ps = Some q" "and_peers a (IDHash q) = Some q" using ps by (rule sender_okE)
    show ?thesis
    proof (cases "L = uuid_Nil")
      case False
      have "wlp (at_world L 28 29 (in_world L (ANDWorld_RST ps))) (\<lambda>_. phases start K) a"
        by (rule call_phases_all [OF a _ _ p]) (auto intro!: moves_goes [OF _ _ K K] RST_moves quiet_RST q)
      then show ?thesis using False by (simp add: AND_RST_def)
    next
      case True
      have "wp (go_for ord (\<lambda>L'. go_block [stat_B 31, in_world L' (ANDWorld_RST ps)])) (\<lambda>_. phases start K) (a\<lparr>stat := st\<rparr>)"
        if a1: "and_inv cs (a\<lparr>stat := st\<rparr>)" for st
        by (rule loop_phases [where C = "and_peers a" and C' = "and_peers a" and Acc = "accepted cs", OF ord'(2)])
           (use good [OF a1] p K q in \<open>auto intro: RST_moves quiet_RST\<close>)
      then have "wp (AND_RST ord L ps) (\<lambda>_. phases start K) a" using True
        by (simp only: AND_RST_def wpx_bind wpx_block wpx_ret_fun if_False simp_thms)
           (rule wp_stat_B [OF a], simp_all)
      then show ?thesis by (rule wpx_weaken)
    qed
  qed
qed

section \<open>Creating and closing worlds\<close>

lemma close_events_quiet: "quiet_cell c \<Longrightarrow> close_events L c = []"
  by (auto simp: close_events_def quiet_cell_def split: option.split ws.split)

lemma close_all_up:
  assumes "no_join w"
  shows "phase_run L Up (concat (map (\<lambda>k. close_events L (peers w k)) ks)) = Some Up"
proof (rule phase_run_up)
  fix e assume "e \<in> set (concat (map (\<lambda>k. close_events L (peers w k)) ks))" and t: "Type e \<in> life_types"
  then obtain k where k: "e \<in> set (close_events L (peers w k))" by auto
  then obtain i where i: "peers w k = Some i" "e \<in> set (close_events L (Some i))"
    by (cases "peers w k") (auto simp: close_events_def)
  have "\<not> joining_ws (state i)" using assms i(1) by (auto simp: no_join_def is_joining_def)
  then show "LocalSessionID e \<noteq> L" using i(2) t
    by (cases "state i") (auto simp: close_events_def life_types_def)
qed

text \<open>Closing a world whose join waits for a connected target reports the failure of the join, once.\<close>

lemma close_all_joining:
  assumes j: "world_join w" "is_joining (peers w k)" and dc: "\<And>i. peers w k = Some i \<Longrightarrow> state i \<noteq> WS_DC_JT"
    and ks: "distinct ks" "k \<in> set ks"
  shows "concat (map (\<lambda>k. close_events L (peers w k)) ks) = [join_fail_event L JNM_CANCELED JNC_CANCELED]"
proof -
  have quiet: "close_events L (peers w k') = []" if "k' \<noteq> k" for k'
    using join_others_quiet [OF j that] by (rule close_events_quiet)
  then have none: "concat (map (\<lambda>k. close_events L (peers w k)) ks') = []" if "k \<notin> set ks'" for ks'
    using that by (induction ks') auto
  obtain i where i: "peers w k = Some i" "joining_ws (state i)" using j(2) by (auto simp: is_joining_def)
  have "state i = WS_JT" using i(2) dc [OF i(1)] by (cases "state i") simp_all
  with i(1) have target: "close_events L (peers w k) = [join_fail_event L JNM_CANCELED JNC_CANCELED]"
    by (simp add: close_events_def)
  obtain as bs where ab: "ks = as @ k # bs" using ks(2) by (auto dest: split_list)
  then have k: "k \<notin> set as" "k \<notin> set bs" using ks(1) by auto
  show ?thesis using target
    by (simp only: ab map_append concat_append list.map concat.simps none [OF k(1)] none [OF k(2)] append_Nil append_Nil2)
qed

lemma close_phase:
  assumes g: "wgood C (ctx_of a w)" and ph: "fits ph w" and dc: "\<forall>k i. peers w k = Some i \<longrightarrow> state i \<noteq> WS_DC_JT"
    and ord: "distinct ord" "set ord = dom (peers w)"
  shows "phase_run L ph (concat (map (\<lambda>k. close_events L (peers w k)) ord) @ [world_leave_event L]) = Some Absent"
proof (cases ph)
  case Joining
  then obtain k where k: "is_joining (peers w k)" using ph by (auto simp: no_join_def)
  then have "k \<in> set ord" using ord by (auto simp: is_joining_def)
  moreover have "world_join w" using g by (simp add: wgood_def)
  ultimately show ?thesis using close_all_joining [OF _ k _ ord(1)] dc Joining
    by (simp add: phase_step_def)
next
  case Up
  then show ?thesis using close_all_up [of w L ord] ph by (simp add: phase_run_append phase_step_def)
next
  case Failed
  then have "concat (map (\<lambda>k. close_events L (peers w k)) ord) = []"
    using ph by (auto simp: quiet_def close_events_quiet)
  then show ?thesis using Failed by (simp only: append_Nil) (simp add: phase_step_def)
qed (use ph in simp)

lemma close_known:
  assumes g: "wgood C (ctx_of a w)" and K: "dom C \<subseteq> K" and e: "e \<in> set (close_events L (peers w k))"
  shows "known K e"
proof -
  obtain i where i: "peers w k = Some i" "e \<in> set (close_events L (Some i))"
    using e by (cases "peers w k") (auto simp: close_events_def)
  show ?thesis
  proof (cases "state i = WS_MEM")
    case True
    then obtain p where "C k = Some p" "Peer i = Some p" "IDHash p = k"
      using wgood_some_cell [OF g, of k i] i(1) by auto
    then show ?thesis using True K i(2) by (auto simp: close_events_def known_def)
  next
    case False
    then show ?thesis using i(2)
      by (auto simp: close_events_def known_def member_types_def split: ws.splits)
  qed
qed

lemma phases_drop:
  assumes p: "phases start K a" and e: "ech s = eventCh a @ evs" "only_about L evs" "list_all (known K) evs"
    and L: "\<And>ph. phase_run L (start L) (eventCh a) = Some ph \<Longrightarrow> fits_at ph (worlds a L) \<Longrightarrow> phase_run L ph evs = Some Absent"
  shows "phases start K (put_ctx L s a\<lparr>worlds := (worlds (put_ctx L s a))(L := None)\<rparr>)"
proof -
  have "\<exists>ph. phase_run L' (start L') (ech s) = Some ph \<and> fits_at ph (((worlds a)(L := None)) L')" for L'
  proof -
    obtain ph where ph: "phase_run L' (start L') (eventCh a) = Some ph" "fits_at ph (worlds a L')"
      using p by (auto simp: phases_def)
    then show ?thesis using L e(1) phase_other [OF e(2)] by (cases "L' = L") (auto simp: phase_run_append)
  qed
  then show ?thesis using p e by (simp add: phases_def)
qed

lemma Close_phases:
  assumes a: "and_inv cs a" and p: "phases start K a" and K: "dom (and_peers a) \<subseteq> K"
    and ord: "of_world L a (\<lambda>w. range_order ord (peers w))" and dc: "polite (CloseWorld ord L) a"
  shows "wlp (AND_CloseWorld ord L) (\<lambda>_. phases start K) a"
  unfolding AND_CloseWorld_def
proof (rule wlp_at_world [OF a _ _ p])
  fix st w assume a1: "and_inv cs (a\<lparr>stat := st\<rparr>)" and w: "worlds a L = Some w"
  let ?a = "a\<lparr>stat := st\<rparr>" and ?es = "concat (map (\<lambda>k. close_events L (peers w k)) ord)"
  have w1: "worlds ?a L = Some w" using w by simp
  note g = and_inv_world [OF a1 w1]
  have o: "distinct ord" "set ord = dom (peers w)" using ord w by (auto simp: of_world_def range_order_def)
  have d: "\<forall>k i. peers w k = Some i \<longrightarrow> state i \<noteq> WS_DC_JT" using dc w by (simp add: of_world_def)
  have "phases start K (put_ctx L s ?a\<lparr>worlds := (worlds (put_ctx L s ?a))(L := None)\<rparr>)"
    if r: "reports (?es @ [world_leave_event L]) (ctx_of ?a w) s" for s
  proof (rule phases_drop)
    show "ech s = eventCh ?a @ (?es @ [world_leave_event L])" using r by (auto simp: reports_def)
    show "only_about L (?es @ [world_leave_event L])" by (auto simp: only_about_def dest: close_events_types)
    show "list_all (known K) (?es @ [world_leave_event L])"
      using close_known [OF g(1)] K by (auto simp: list_all_iff) (simp add: known_def member_types_def)
  qed (use p close_phase [OF g(1) _ d o] w in auto)
  then show "wlp (go_block [in_world L (ANDWorld_Close ord), go_modify (\<lambda>a. a\<lparr>worlds := (worlds a)(L := None)\<rparr>)])
    (\<lambda>_. phases start K) ?a"
    unfolding wpx_block wpx_modify_fun
    using wpx_weaken [OF Close_spec [OF g(1), of ord], where b = True] g(2)
    by (intro wp_in_world [OF w1]) (simp, simp)
qed simp_all

text \<open>A new session starts joining.\<close>

lemma phases_new:
  assumes p: "phases start K a" and f: "fresh_session L a" and start: "\<And>L'. L' \<noteq> L \<Longrightarrow> start' L' = start L'" "start' L = Joining"
    and e: "lsid (cw s) = L" "ech s = eventCh a @ evs" "only_about L evs" "list_all (known K) evs"
    and ph: "phase_run L Joining evs = Some ph" "fits ph (cw s)"
  shows "phases start' K (put_ctx (lsid (cw s)) s a)"
proof -
  have "phase_run L Joining (eventCh a) = Some Joining"
    by (rule phase_run_skip) (use f in \<open>auto simp: fresh_session_def\<close>)
  then have "phase_run L Joining (ech s) = Some ph" using e ph by (simp add: phase_run_append)
  moreover have "\<exists>ph. phase_run L' (start L') (ech s) = Some ph \<and> fits_at ph (worlds a L')" if "L' \<noteq> L" for L'
  proof -
    obtain ph where "phase_run L' (start L') (eventCh a) = Some ph" "fits_at ph (worlds a L')"
      using p by (auto simp: phases_def)
    then show ?thesis using phase_other [OF e(3) that] e(2) by (simp add: phase_run_append)
  qed
  ultimately show ?thesis using p e start ph(2) by (auto simp: phases_def)
qed

lemma fits_joined_world: "\<not> no_join (joined_world now h L target C)"
  by (auto simp: no_join_def joined_world_def split: option.split intro!: exI [where x = "Hash target"])

lemma lsid_joined_world: "lsid (joined_world now h L target C) = L"
  by (simp add: joined_world_def)

lemma creation_phases:
  assumes a: "and_inv cs a" and p: "phases (start_phase cs) K a" and f: "fresh_session L a" and ord: "range_order ord (and_peers a)"
  shows "creates c = Some L \<Longrightarrow> wlp (AND_OpenWorld ord now L url) (\<lambda>_. phases (start_phase (cs @ [c])) K) a"
    and "creates c = Some L \<Longrightarrow> wlp (AND_JoinWorld ord now L target) (\<lambda>_. phases (start_phase (cs @ [c])) K) a"
proof -
  assume c: "creates c = Some L"
  have h: "hashes_ok (and_peers a)" using a by (simp add: and_inv_def)
  have start: "start_phase (cs @ [c]) L' = start_phase cs L'" if "L' \<noteq> L" for L'
    using that c by (intro start_phase_other) simp
  have new: "phases (start_phase (cs @ [c])) K (put_ctx (lsid (cw s)) s (a\<lparr>stat := st\<rparr>))"
    if "lsid (cw s) = L" "ech s = eventCh a @ evs" "only_about L evs" "list_all (known K) evs"
      "phase_run L Joining evs = Some ph" "fits ph (cw s)" for s st evs ph
    by (rule phases_new [where start = "start_phase cs" and L = L and evs = evs and ph = ph])
       (use that p f start start_phase_new [OF c] in \<open>auto simp: fresh_session_def\<close>)
  have st: "stat_wf st" if "and_inv cs (a\<lparr>stat := st\<rparr>)" for st using that by (simp add: and_inv_def and_good_def)
  have opened: "phases (start_phase (cs @ [c])) K (put_ctx (lsid (cw s)) s (a\<lparr>stat := st\<rparr>))"
    if "cw s = opened_world now (local_hash a) L url (and_peers a)" "no_join (cw s)"
      and "ech s = ech (ctx_of (a\<lparr>stat := st\<rparr>) zero_world) @ [join_success_event L url, timer_event L 500]" for s st
    by (rule new [where evs = "[join_success_event L url, timer_event L 500]" and ph = Up])
       (use that in \<open>auto simp: opened_world_def only_about_def known_def member_types_def phase_step_def\<close>)
  have "wp (new_world (NewWorldOpen ord now (local_hash a) L url (and_peers a))) (\<lambda>_. phases (start_phase (cs @ [c])) K) (a\<lparr>stat := st\<rparr>)"
    if "and_inv cs (a\<lparr>stat := st\<rparr>)" for st
    unfolding wpx_new_world
    by (rule wpx_mono [OF NewWorldOpen_spec [OF _ ord h]])
       (simp add: st [OF that], blast intro: opened)
  then have "wp (AND_OpenWorld ord now L url) (\<lambda>_. phases (start_phase (cs @ [c])) K) a"
    by (simp only: AND_OpenWorld_def wpx_bind wpx_block wpx_ret_fun)
       (rule wp_stat_B [OF a], simp_all add: wpx_bind wpx_read)
  then show "wlp (AND_OpenWorld ord now L url) (\<lambda>_. phases (start_phase (cs @ [c])) K) a" by (rule wpx_weaken)
  have joined: "phases (start_phase (cs @ [c])) K (put_ctx L s (a\<lparr>stat := st\<rparr>))"
    if w: "cw s = joined_world now (local_hash a) L target (and_peers a)"
      and e: "ech s = eventCh a \<or> ech s = eventCh a @ [(NeighborEvent_of ANDConnectRequest)\<lparr>Object := AnyAURL target\<rparr>]" for s st
  proof -
    obtain evs where evs: "ech s = eventCh a @ evs" "evs = [] \<or> evs = [(NeighborEvent_of ANDConnectRequest)\<lparr>Object := AnyAURL target\<rparr>]"
      using e by auto
    then have "only_about L evs" "list_all (known K) evs" "phase_run L Joining evs = Some Joining"
      by (auto simp: only_about_def known_def member_types_def phase_step_def)
    moreover have "lsid (cw s) = L" and "fits Joining (cw s)" using fits_joined_world w by (simp_all add: joined_world_def)
    ultimately show ?thesis using new [OF _ evs(1), of Joining st] by simp
  qed
  have "wp (new_world (NewWorldJoin ord now (local_hash a) L target (and_peers a))) (\<lambda>_. phases (start_phase (cs @ [c])) K) (a\<lparr>stat := st\<rparr>)"
    if "and_inv cs (a\<lparr>stat := st\<rparr>)" for st
    unfolding wpx_new_world
    by (rule wpx_mono [OF NewWorldJoin_spec [OF _ ord h]])
       (use st [OF that] in \<open>auto intro!: joined simp: lsid_joined_world split: option.splits\<close>)
  then have "wp (AND_JoinWorld ord now L target) (\<lambda>_. phases (start_phase (cs @ [c])) K) a"
    by (simp only: AND_JoinWorld_def wpx_bind wpx_block wpx_ret_fun)
       (rule wp_stat_B [OF a], simp_all add: wpx_bind wpx_read)
  then show "wlp (AND_JoinWorld ord now L target) (\<lambda>_. phases (start_phase (cs @ [c])) K) a" by (rule wpx_weaken)
qed

section \<open>The connections\<close>

definition peers_in :: "hash set \<Rightarrow> AND \<Rightarrow> AND \<Rightarrow> bool" where
  "peers_in K a a' \<longleftrightarrow> dom (and_peers a') \<subseteq> dom (and_peers a) \<union> K"

interpretation pk: step_rel "peers_in K" for K
  by unfold_locales (simp add: peers_in_def, unfold peers_in_def, blast)

lemma peers_in_world: "transits (peers_in K) (in_world L f)" "transits (peers_in K) (new_world f)"
  by (rule transitsI, rule wlpI,
      auto simp: in_world_def new_world_def peers_in_def put_ctx_def split: option.splits sum.splits)+

lemma peers_in_modify:
  "(\<And>a. dom (and_peers (f a)) \<subseteq> dom (and_peers a) \<union> K) \<Longrightarrow> transits (peers_in K) (go_modify f)"
  by (auto simp: peers_in_def intro!: transits_modify)

lemma peers_in_stat_B: "transits (peers_in K) (stat_B i)"
  by (auto simp: stat_B_def peers_in_def intro!: transits_zoom)

lemma peers_in_at_world: "transits (peers_in K) f \<Longrightarrow> transits (peers_in K) (at_world L m n f)"
  by (auto simp: at_world_def split: option.split
      intro!: pk.R_bind pk.R_read pk.R_ret pk.R_block peers_in_stat_B)

lemma call_peers: "transits (peers_in {IDHash p |ord p. c = PeerConnected ord p}) (and_exec c)"
  by (cases c)
     (auto simp: AND_PeerConnected_def AND_PeerClose_def AND_OpenWorld_def AND_JoinWorld_def AND_AcceptSession_def
        AND_DeclineSession_def AND_CloseWorld_def AND_TimerExpire_def AND_JN_def AND_JOK_def AND_JDN_def AND_JNI_def
        AND_MEM_def AND_SJN_def AND_CRR_def AND_RST_def AND_SOA_def AND_SOD_def
        intro!: pk.R_bind pk.R_read pk.R_ret pk.R_block pk.R_for peers_in_at_world peers_in_stat_B peers_in_world
          peers_in_modify split: if_splits)

section \<open>Every polite history\<close>

definition follow_inv :: "and_call list \<Rightarrow> AND \<Rightarrow> bool" where
  "follow_inv cs a \<longleftrightarrow> and_inv cs a \<and> dom (and_peers a) \<subseteq> peers_of cs \<and>
     list_all payload_ok (eventCh a) \<and> phases (start_phase cs) (peers_of cs) a"

lemma follow_start: "follow_inv [] (NewAND h)"
  using and_inv_init by (simp add: follow_inv_def phases_def start_phase_def NewAND_def)

lemma exec_phases:
  assumes a: "and_inv cs a" and p: "phases (start_phase cs) K a" and K: "dom (and_peers a) \<subseteq> K"
    and c: "call_ok c a" "polite c a" and new: "\<And>ord q. c = PeerConnected ord q \<Longrightarrow> IDHash q \<in> K"
  shows "wlp (and_exec c) (\<lambda>_. phases (start_phase (cs @ [c])) K) a"
proof (cases "creates c")
  case None
  then have s: "start_phase (cs @ [c]) = start_phase cs" by (simp add: fun_eq_iff start_phase_other)
  show ?thesis unfolding s
    using message_phases [OF a p _ K] other_phases [OF a p K] connection_phases [OF a p K] Close_phases [OF a p K] c new None
    by (cases c) auto
next
  case (Some L)
  then show ?thesis using creation_phases [OF a p, where c = c] c(1) by (cases c) auto
qed

lemma follow_step:
  assumes f: "follow_inv cs a" and c: "follow_ok c a"
  shows "wlp (and_exec c) (\<lambda>_. follow_inv (cs @ [c])) a"
proof -
  let ?K = "peers_of (cs @ [c])"
  have a: "and_inv cs a" and d: "dom (and_peers a) \<subseteq> ?K" and p: "phases (start_phase cs) ?K a"
    using f peers_of_mono [of cs c] by (auto simp: follow_inv_def intro: phases_mono)
  have ok: "call_ok c a" "polite c a" "call_addrs_ok c" using c by (simp_all add: follow_ok_def)
  have "follow_inv (cs @ [c]) a'" if r: "and_exec c a = Inr (e, a')" for e a'
  proof -
    have "and_inv (cs @ [c]) a'" by (rule wpx_result [OF wpx_weaken [OF and_inv_call [OF a ok(1)]] r])
    moreover have "phases (start_phase (cs @ [c])) ?K a'"
      by (rule wpx_result [OF exec_phases [OF a p d ok(1,2)] r]) (auto intro: peers_of_new)
    moreover have "dom (and_peers a') \<subseteq> ?K"
      using transitsD [OF call_peers r] d by (auto simp: peers_in_def intro: peers_of_new)
    moreover have "list_all payload_ok (eventCh a')"
      using transitsD [OF call_payloads [OF ok(3)] r] f by (auto simp: payloads_ok_def follow_inv_def)
    ultimately show ?thesis by (simp add: follow_inv_def)
  qed
  then show ?thesis by (blast intro: wlpI)
qed

interpretation polite_sys: safe_system and_exec follow_ok "NewAND h" follow_inv for h
  by unfold_locales (rule follow_start, rule follow_step)

section \<open>The ledger of a polite history\<close>

text \<open>The ledger after some events, read off the phase of each session and the membership of each peer.\<close>

definition ledger_of :: "(uuid \<Rightarrow> phase) \<Rightarrow> NeighborEvent list \<Rightarrow> ledger" where
  "ledger_of start es = \<lparr>phase_of = \<lambda>L. the (phase_run L (start L) es),
     active = {(L, k). \<exists>sid. member_run L k None es = Some (Some sid)}\<rparr>"

lemma phase_run_snoc: "phase_run L ph (es @ [e]) = Option.bind (phase_run L ph es) (\<lambda>ph'. phase_step L ph' e)"
  by (simp add: phase_run_append split: option.split)

lemma member_run_snoc: "member_run L k m (es @ [e]) = Option.bind (member_run L k m es) (\<lambda>m'. member_step L k m' e)"
  by (simp add: member_run_append split: option.split)

text \<open>The histories of events that the ledger can follow, and what each event does to it.\<close>

definition followed :: "(uuid \<Rightarrow> phase) \<Rightarrow> hash set \<Rightarrow> NeighborEvent list \<Rightarrow> bool" where
  "followed start K es \<longleftrightarrow> (\<forall>L. phase_run L (start L) es \<noteq> None) \<and> (\<forall>L k. member_run L k None es \<noteq> None) \<and>
     list_all payload_ok es \<and> list_all (known K) es"

lemma followed_prefix: "followed start K (es @ es') \<Longrightarrow> followed start K es"
  by (auto simp: followed_def phase_run_append member_run_append split: option.splits)

lemma follow_followed: "follow_inv cs a \<Longrightarrow> followed (start_phase cs) (peers_of cs) (eventCh a)"
proof -
  assume f: "follow_inv cs a"
  have "phase_run L (start_phase cs L) (eventCh a) \<noteq> None" for L
    using f by (auto simp: follow_inv_def phases_def dest: spec [where x = L])
  moreover have "member_run L k None (eventCh a) \<noteq> None" for L k
  proof (cases "worlds a L")
    case None
    then show ?thesis using f by (simp add: follow_inv_def and_inv_def and_good_def)
  next
    case (Some w)
    then have "lsid w = L" "world_ledger (accepted cs L) w (eventCh a)"
      using f by (auto simp: follow_inv_def and_inv_def and_good_def)
    then show ?thesis by (auto simp: world_ledger_def)
  qed
  ultimately show ?thesis using f by (simp add: followed_def follow_inv_def phases_def)
qed

lemma ledger_step_pointwise:
  assumes f: "\<And>L. phase_step L (f L) e = Some (f' L)" and m: "\<And>L k. member_step L k (M L k) e = Some (M' L k)"
    and e: "payload_ok e" "known K e"
  shows "ledger_step \<lparr>phase_of = f, active = {(L, k). M L k \<noteq> None}\<rparr> e
    = Some \<lparr>phase_of = f', active = {(L, k). M' L k \<noteq> None}\<rparr>"
proof -
  let ?L = "LocalSessionID e"
  have other: "f' L = f L" if "L \<noteq> ?L" for L using f [of L] that by (simp add: phase_step_def)
  then have f': "f' = f(?L := f' ?L)" by auto
  have same: "M' L k = M L k" if "\<not> about L k e \<or> Type e \<notin> {ANDSessionReady, ANDSessionClose}" for L k
    using m [of L k] that by (auto simp: member_step_def split: if_splits)
  show ?thesis
  proof (cases "Type e \<in> member_types")
    case True
    then obtain p where p: "Peer e = Some p" using e(2) by (auto simp: known_def)
    have up: "f ?L = Up" "f' ?L = Up" using True f [of ?L] by (auto simp: phase_step_def member_types_def split: if_splits)
    then have "f' = f" using f' by auto
    have ab: "about L k e \<longleftrightarrow> L = ?L \<and> k = IDHash p" for L k using p by (auto simp: about_def)
    show ?thesis
    proof (cases "Type e \<in> {ANDSessionReady, ANDSessionClose}")
      case True
      have M: "M' L k = (if L = ?L \<and> k = IDHash p then M' L k else M L k)" for L k using same ab by auto
      show ?thesis using True m [of ?L "IDHash p"] p up \<open>f' = f\<close> ab
        by (subst M) (auto simp: ledger_step_def with_member_def Let_def member_step_def
            dest: sym [of "Some (PeerSessionID e)"] split: if_splits)
    next
      case False
      then have "M' = M" using same by (auto simp: fun_eq_iff)
      then show ?thesis using False True p up \<open>f' = f\<close> e(1)
        by (auto simp: ledger_step_def with_member_def Let_def member_types_def payload_ok_def)
    qed
  next
    case False
    then have "M' = M" using same by (auto simp: fun_eq_iff member_types_def)
    moreover have "f = f'" if "f ?L = f' ?L" using f' that by (metis fun_upd_triv)
    ultimately show ?thesis using False f [of ?L] f' e(1)
      by (cases "Type e") (auto simp: ledger_step_def enter_def Let_def phase_step_def member_types_def payload_ok_def split: if_splits)
  qed
qed

lemma followed_snoc:
  assumes f: "followed start K (es @ [e])"
  shows "ledger_step (ledger_of start es) e = Some (ledger_of start (es @ [e]))"
proof -
  have ph: "phase_step L (the (phase_run L (start L) es)) e = Some (the (phase_run L (start L) (es @ [e])))" for L
  proof -
    have "phase_run L (start L) (es @ [e]) \<noteq> None" using f by (simp add: followed_def)
    then show ?thesis by (cases "phase_run L (start L) es") (auto simp: phase_run_snoc)
  qed
  have me: "member_step L k (the (member_run L k None es)) e = Some (the (member_run L k None (es @ [e])))" for L k
  proof -
    have "member_run L k None (es @ [e]) \<noteq> None" using f by (simp add: followed_def)
    then show ?thesis by (cases "member_run L k None es") (auto simp: member_run_snoc)
  qed
  have led: "ledger_of start es' = \<lparr>phase_of = \<lambda>L. the (phase_run L (start L) es'),
      active = {(L, k). the (member_run L k None es') \<noteq> None}\<rparr>" if g: "followed start K es'" for es'
  proof -
    have "(\<exists>sid. member_run L k None es' = Some (Some sid)) \<longleftrightarrow> the (member_run L k None es') \<noteq> None" for L k
    proof -
      have "member_run L k None es' \<noteq> None" using g by (simp add: followed_def)
      then show ?thesis by (cases "member_run L k None es'") auto
    qed
    then show ?thesis by (simp add: ledger_of_def)
  qed
  have "payload_ok e" "known K e" using f by (simp_all add: followed_def)
  then show ?thesis unfolding led [OF f] led [OF followed_prefix [OF f]] by (rule ledger_step_pointwise [OF ph me])
qed

lemma ledger_run_snoc: "ledger_run st (es @ [e]) = Option.bind (ledger_run st es) (\<lambda>st'. ledger_step st' e)"
  by (induction es arbitrary: st) (auto split: option.split)

lemma followed_run: "followed start K es \<Longrightarrow> ledger_run (ledger_of start []) es = Some (ledger_of start es)"
proof (induction es rule: rev_induct)
  case (snoc e es)
  then show ?case using followed_prefix [OF snoc.prems] followed_snoc [OF snoc.prems] by (simp add: ledger_run_snoc)
qed simp

text \<open>A session that is created after some of the events starts to join in the ledger of these events.\<close>

lemma ledger_of_new:
  assumes "\<And>L'. L' \<noteq> L \<Longrightarrow> start' L' = start L'" and "L \<notin> LocalSessionID ` set es"
  shows "ledger_of start' es = (ledger_of start es)\<lparr>phase_of := (phase_of (ledger_of start es))(L := start' L)\<rparr>"
proof -
  have "phase_run L (start' L) es = Some (start' L)" by (rule phase_run_skip) (use assms(2) in auto)
  then show ?thesis using assms(1) by (auto simp: ledger_of_def fun_eq_iff)
qed

lemma ledger_of_absent: "L \<notin> LocalSessionID ` set es \<Longrightarrow> phase_of (ledger_of start es) L = start L"
proof -
  assume "L \<notin> LocalSessionID ` set es"
  then have "phase_run L (start L) es = Some (start L)" by (intro phase_run_skip) auto
  then show ?thesis by (simp add: ledger_of_def)
qed

end
