(* ===== verification/Net_Steady.thy ===== *)
theory Net_Steady
  imports Host_Loop Step_Rel
begin

text \<open>
  What the network service does between the events of the host: peers are added and connected, messages
  are sent and received, and the number of worlds that each peer is a member of stays as it is.
\<close>

section \<open>Peers\<close>

definition same_count :: "'w ContextedPeer \<Rightarrow> 'w ContextedPeer \<Rightarrow> bool" where
  "same_count p p' \<longleftrightarrow> active_cnt (activity p') = active_cnt (activity p)"

interpretation sc: step_rel same_count
  by unfold_locales (simp_all add: same_count_def)

lemma count_modify: "(\<And>p. activity (f p) = activity p) \<Longrightarrow> transits same_count (go_modify f)"
  by (auto simp: same_count_def intro!: transits_modify)

lemma count_index: "transits same_count (go_index i xs)"
  by (auto simp: go_index_def intro!: sc.R_ret sc.R_panic)

lemma count_trySend: "transits same_count (trySend werr v)"
  by (auto simp: trySend_def cancelfunc_def split: option.split
      intro!: sc.R_bind sc.R_read sc.R_nonnil sc.R_ret count_modify)

lemma count_trySend2: "transits same_count (trySend2 c werr v w)"
  by (auto simp: trySend2_def intro!: sc.R_bind sc.R_read sc.R_nonnil sc.R_ret count_index count_trySend)

lemma count_map: "(\<And>x. transits same_count (f x)) \<Longrightarrow> transits same_count (go_map f xs)"
  by (induction xs) (auto intro!: sc.R_bind sc.R_ret)

lemma count_raw_session: "transits same_count (raw_session env m)"
  by (auto simp: raw_session_def Let_def intro!: sc.R_bind sc.R_nonnil sc.R_ret)

lemma count_send: "transits same_count (Peer_send env m)"
  by (cases m)
     (auto simp: Peer_TrySendJN_def Peer_TrySendJOK_def Peer_TrySendJDN_def Peer_TrySendJNI_def Peer_TrySendMEM_def
        Peer_TrySendSJN_def Peer_TrySendCRR_def Peer_TrySendRST_def Peer_TrySendSOA_def Peer_TrySendSOD_def Filter_go_map
        intro!: sc.R_bind sc.R_ret count_map count_raw_session count_trySend2)

lemma count_Renew: "transits same_count (Renew now)"
  by (auto simp: Renew_def same_count_def intro!: transits_modify)

lemma count_listen: "transits same_count (listenAhmp parse c :: ('a ContextedPeer, unit) go)"
proof -
  have "transits same_count (listen_loop parse c items :: ('a ContextedPeer, ahmp_message list) go)" for items
  proof -
    obtain ms where "listen_loop parse c items = (go_ret ms :: ('a ContextedPeer, ahmp_message list) go)"
      using listen_total by blast
    then show ?thesis by (simp only: sc.R_ret)
  qed
  then show ?thesis
    by (auto simp: listenAhmp_def intro!: sc.R_bind sc.R_read sc.R_nonnil count_modify)
qed

lemma count_finish: "transits same_count (finish_inbound err conn dec)" "transits same_count (finish_outbound err conn enc as)"
    "transits same_count (fail_peer e)"
  by (auto simp: finish_inbound_def finish_outbound_def fail_peer_def split: option.split PNCState.split
      intro!: sc.R_bind sc.R_read sc.R_ret count_modify)

lemma count_no_action: "transits same_count f \<Longrightarrow> transits same_count (no_action f)"
  by (auto simp: no_action_def intro!: sc.R_bind sc.R_ret)

section \<open>The service\<close>

definition steady :: "'w BetaNetService \<Rightarrow> 'w BetaNetService \<Rightarrow> bool" where
  "steady n n' \<longleftrightarrow> (\<forall>k. case peer_at n k of
     Some p \<Rightarrow> (\<exists>p'. peer_at n' k = Some p' \<and> same_count p p')
   | None \<Rightarrow> (\<forall>p'. peer_at n' k = Some p' \<longrightarrow> active_cnt (activity p') = 0))"

lemma steady_known: "steady n n' \<Longrightarrow> peer_at n k = Some p \<Longrightarrow> \<exists>p'. peer_at n' k = Some p' \<and> same_count p p'"
  unfolding steady_def by (elim allE [where x = k]) simp

lemma steady_new: "steady n n' \<Longrightarrow> peer_at n k = None \<Longrightarrow> peer_at n' k = Some p' \<Longrightarrow> active_cnt (activity p') = 0"
  unfolding steady_def by (elim allE [where x = k]) simp

interpretation sd: step_rel steady
proof
  show "steady n n" for n :: "'w BetaNetService" by (auto simp: steady_def same_count_def split: option.split)
next
  fix l m n :: "'w BetaNetService"
  assume "steady l m" "steady m n"
  then have "case peer_at l k of
     Some p \<Rightarrow> (\<exists>p'. peer_at n k = Some p' \<and> same_count p p')
   | None \<Rightarrow> (\<forall>p'. peer_at n k = Some p' \<longrightarrow> active_cnt (activity p') = 0)" for k
    unfolding steady_def by (elim allE [where x = k]) (auto simp: same_count_def split: option.splits)
  then show "steady l n" by (simp add: steady_def)
qed

lemma steady_peers: "peer_at n' = peer_at n \<Longrightarrow> steady n n'"
  by (auto simp: steady_def same_count_def split: option.split)

lemma steady_at_peer:
  fixes f :: "('w ContextedPeer, conn_action list) go"
  assumes "transits same_count f"
  shows "transits steady (at_peer i f)"
proof (rule transitsI)
  fix n :: "'w BetaNetService"
  have "steady n (n\<lparr>ns_peers := (ns_peers n)\<lparr>pm_peers := (pm_peers (ns_peers n))(i \<mapsto> p')\<rparr>, abyssPeerCH := ch, ns_actions := acts\<rparr>)"
    if "peer_at n i = Some p" "same_count p p'" for p p' ch acts
    using that by (auto simp: steady_def same_count_def peer_at_def split: option.split)
  then show "wlp (at_peer i f) (\<lambda>_. steady n) n"
    using transitsD [OF assms]
    by (auto simp: at_peer_def wpx_bind wpx_read wpx_nonnil wpx_panic wpx_modify peer_at_def split: option.split sum.split)
qed

lemma steady_stateless: "stateless f \<Longrightarrow> transits steady f"
  using sd.R_refl by (auto simp: stateless_def intro!: transitsI wlpI)

lemma steady_Find: "transits steady (at_peers (Find now i))"
  by (rule transitsI) (auto simp: wpx_Find Let_def steady_def same_count_def peer_at_def split: option.split)

lemma steady_Append: "transits steady (at_peers (Append ctx now i (NewAbyssPeer pid)))"
  by (rule transitsI)
     (auto simp: at_peers_def Append_def wp_rules Let_def steady_def same_count_def peer_at_def AbyssPeer.defs split: option.split)

lemma steady_Cleaner: "transits steady (at_peers (PeerMap_Cleaner now))"
  by (rule transitsI)
     (auto simp: at_peers_def PeerMap_Cleaner_def wp_rules steady_def same_count_def peer_at_def clean_keeps_count split: option.split)

lemmas steady_basics = sd.R_bind sd.R_read sd.R_ret sd.R_nonnil sd.R_panic steady_at_peer steady_Find steady_Append steady_Cleaner
  steady_stateless [OF stateless_index] steady_stateless [OF stateless_filter] steady_stateless [OF stateless_NewPeerIdentity]
  steady_stateless [OF stateless_outbound] steady_stateless [OF stateless_inbound(1)] steady_stateless [OF stateless_inbound(2)]
  count_finish count_send count_Renew count_listen count_no_action

lemma steady_AppendKnownPeerDer: "transits steady (AppendKnownPeerDer cr now rc hc)"
  by (auto simp: AppendKnownPeerDer_def split: sum.split intro!: steady_basics)

lemma steady_Connect: "transits steady (ConnectAbyssAsync now u)" "transits steady (ConnectAbyst now i)"
  by (auto simp: ConnectAbyssAsync_def ConnectAbyst_def split: option.split intro!: steady_basics)

lemma steady_Prepare: "transits steady (PrepareAbyssInbound cr ie stream)" "transits steady (PrepareAbyssOutbound cr oe i as stream)"
  by (auto simp: PrepareAbyssInbound_def PrepareAbyssOutbound_def split: option.split sum.split intro!: steady_basics)

text \<open>The operations of the service other than those of the event loop.\<close>

fun counting :: "'w net_op \<Rightarrow> bool" where
  "counting (Op_Activate i now) = True"
| "counting (Op_Deactivate i now) = True"
| "counting _ = False"

lemma steady_exec: "\<not> counting op \<Longrightarrow> transits steady (net_exec cr parse env op)"
  by (cases op)
     (auto simp: go_ignore_def AppendKnownPeer_def split: option.split
        intro!: steady_basics steady_AppendKnownPeerDer steady_Connect steady_Prepare)

text \<open>The activity counts still are those of the memberships.\<close>

lemma steady_tracks:
  assumes s: "steady n n'" and t: "net_tracks A n"
  shows "net_tracks A n'" and "dom (peer_at n) \<subseteq> dom (peer_at n')"
proof -
  show dom: "dom (peer_at n) \<subseteq> dom (peer_at n')" using steady_known [OF s] by blast
  have "active_cnt (activity p') = int (card (worlds_of A k))" if p': "peer_at n' k = Some p'" for k p'
  proof (cases "peer_at n k")
    case None
    then show ?thesis using steady_new [OF s None p'] unknown_worlds_of [OF t None] by simp
  next
    case (Some p)
    then show ?thesis using steady_known [OF s Some] p' t by (auto simp: same_count_def net_tracks_def)
  qed
  moreover have "peer_at n' k \<noteq> None" if "(L, k) \<in> A" for L k
  proof -
    have "peer_at n k \<noteq> None" using t that by (auto simp: net_tracks_def)
    then show ?thesis using steady_known [OF s] by auto
  qed
  ultimately show "net_tracks A n'" using t by (simp add: net_tracks_def)
qed

end
