(* ===== verification/Host_Run.thy ===== *)
theory Host_Run
  imports And_Ledger Host_Props Net_Steady
begin

text \<open>
  Histories of the whole host: the application opens, joins and leaves worlds and answers member
  requests and receives the events of its worlds, connected peers are served, the network service makes
  connections, timers fire, and the event loop takes the events of the neighbor discovery object one by
  one, in any order of these operations. An event is handled in one step, when the channel it is put on
  has room. The state is the host with the number of events that the loop has taken.
\<close>

section \<open>Operations\<close>

datatype 'w host_op =
    H_OpenWorld "hash list" time uuid string
  | H_JoinWorld "hash list" time uuid AURL
  | H_OpenWorld_end nat
  | H_JoinWorld_end nat
  | H_JoinWorld_cancel "hash list" uuid
  | H_LeaveWorld "hash list" world_ref
  | H_Accept "hash list" world_ref ANDPeerSession
  | H_Decline world_ref ANDPeerSession int string
  | H_AppendObjects WorldMember "ObjectInfo list"
  | H_DeleteObjects WorldMember "uuid list"
  | H_Connected "uuid list" IANDPeer
  | H_Message "uuid list" IANDPeer ahmp_message
  | H_Timer "hash list" "hash list" "hash \<Rightarrow> time" nat uuid
  | H_Outbound time AURL
  | H_Net "'w net_op"
  | H_SetMapping string uuid
  | H_DeleteMapping string
  | H_Event time
  | H_Receive world_ref

type_synonym 'w host_state = "'w AbyssHost \<times> nat"

definition on_host :: "('w AbyssHost, 'a) go \<Rightarrow> ('w host_state, unit) go" where
  "on_host f = go_ignore (go_zoom fst (\<lambda>h s. (h, snd s)) f)"

definition resolver_do :: "(SimplePathResolver, 'a) go \<Rightarrow> ('w AbyssHost, 'a) go" where
  "resolver_do = go_zoom pathResolver (\<lambda>r h. h\<lparr>pathResolver := r\<rparr>)"

text \<open>The loop waits while all events are taken.\<close>

definition take_event :: "crypto \<Rightarrow> time \<Rightarrow> ('w host_state, unit) go" where
  "take_event cr now = go_bind (go_read (\<lambda>s. drop (snd s) (eventCh (neighborDiscoveryAlgorithm (fst s))))) (\<lambda>rest. case rest of
     [] \<Rightarrow> go_panic Blocked
   | e # _ \<Rightarrow> go_bind (on_host (handle_event cr now e)) (\<lambda>_. go_modify (\<lambda>s. (fst s, Suc (snd s)))))"

fun host_exec :: "crypto \<Rightarrow> uuid_parser \<Rightarrow> 'w wire_env \<Rightarrow> 'w host_op \<Rightarrow> ('w host_state, unit) go" where
  "host_exec cr parse env (H_OpenWorld ord now L u) = on_host (OpenWorld_begin env ord now L u)"
| "host_exec cr parse env (H_JoinWorld ord now L u) = on_host (JoinWorld_begin env ord now L u)"
| "host_exec cr parse env (H_OpenWorld_end ch) = on_host (OpenWorld_end ch)"
| "host_exec cr parse env (H_JoinWorld_end ch) = on_host (JoinWorld_end ch)"
| "host_exec cr parse env (H_JoinWorld_cancel ord L) = on_host (JoinWorld_cancel env ord L)"
| "host_exec cr parse env (H_LeaveWorld ord w) = on_host (LeaveWorld env ord w)"
| "host_exec cr parse env (H_Accept ord w ps) = on_host (request_Accept env ord w ps)"
| "host_exec cr parse env (H_Decline w ps code msg) = on_host (request_Decline env w ps code msg)"
| "host_exec cr parse env (H_AppendObjects m obs) = on_host (AppendObjects env m obs)"
| "host_exec cr parse env (H_DeleteObjects m ids) = on_host (DeleteObjects env m ids)"
| "host_exec cr parse env (H_Connected ord peer) = on_host (serveLoop env ord peer [])"
| "host_exec cr parse env (H_Message ord peer m) = on_host (serve_message env ord peer m)"
| "host_exec cr parse env (H_Timer ord1 ord2 now r L) = on_host (timer_fire env ord1 ord2 now r L)"
| "host_exec cr parse env (H_Outbound now u) = on_host (OpenOutboundConnection now u)"
| "host_exec cr parse env (H_Net op) = on_host (net_do (net_exec cr parse env op))"
| "host_exec cr parse env (H_SetMapping path L) = on_host (resolver_do (TrySetMapping path L))"
| "host_exec cr parse env (H_DeleteMapping path) = on_host (resolver_do (DeleteMapping path))"
| "host_exec cr parse env (H_Event now) = take_event cr now"
| "host_exec cr parse env (H_Receive w) = on_host (receive_event w)"

text \<open>The call of the neighbor discovery object that an operation makes.\<close>

fun host_call :: "'w host_op \<Rightarrow> 'w AbyssHost \<Rightarrow> and_call option" where
  "host_call (H_OpenWorld ord now L u) h = Some (OpenWorld ord now L u)"
| "host_call (H_JoinWorld ord now L u) h = Some (JoinWorld ord now L u)"
| "host_call (H_JoinWorld_cancel ord L) h = Some (CloseWorld ord L)"
| "host_call (H_LeaveWorld ord w) h = Some (CloseWorld ord (w_session_id (world_store h ! w)))"
| "host_call (H_Accept ord w ps) h = Some (AcceptSession ord (w_session_id (world_store h ! w)) ps)"
| "host_call (H_Decline w ps code msg) h = Some (DeclineSession (w_session_id (world_store h ! w)) ps code msg)"
| "host_call (H_Connected ord peer) h = (case peer_at (NetworkService h) (IDHash peer) of
     Some p \<Rightarrow> if IsConnected p then Some (PeerConnected ord peer) else None | None \<Rightarrow> None)"
| "host_call (H_Message ord peer m) h = message_call ord (pathResolver h) peer m"
| "host_call (H_Timer ord1 ord2 now r L) h = Some (TimerExpire ord1 ord2 now r L)"
| "host_call _ h = None"

text \<open>The calls are polite; the event loop alone counts the worlds of a peer.\<close>

definition host_ok :: "'w host_op \<Rightarrow> 'w host_state \<Rightarrow> bool" where
  "host_ok op s \<longleftrightarrow> (case op of H_Net nop \<Rightarrow> \<not> counting nop | _ \<Rightarrow> True) \<and>
     (case host_call op (fst s) of Some c \<Rightarrow> follow_ok c (neighborDiscoveryAlgorithm (fst s)) | None \<Rightarrow> True)"

section \<open>The invariant\<close>

text \<open>\<open>cs\<close> are the calls of the neighbor discovery object so far. The host tracks the ledger of the events that the
  loop has taken, the channel of every world holds the world events of its session, every peer that was
  connected is in the table of peers, and every join that is waited for has a channel.\<close>

definition channels_ok :: "NeighborEvent list \<Rightarrow> 'w AbyssHost \<Rightarrow> bool" where
  "channels_ok es h \<longleftrightarrow> (\<forall>L w. host_worlds h L = Some (Some w) \<longrightarrow> channel_of h w = outputs L w es)"

lemma channels_frame:
  "host_worlds h' = host_worlds h \<Longrightarrow> world_store h' = world_store h \<Longrightarrow> channels_ok es h' = channels_ok es h"
  by (simp add: channels_ok_def channel_of_def)

definition run_inv :: "and_call list \<Rightarrow> nat \<Rightarrow> 'w AbyssHost \<Rightarrow> bool" where
  "run_inv cs n h \<longleftrightarrow> follow_inv cs (neighborDiscoveryAlgorithm h)
     \<and> n \<le> length (eventCh (neighborDiscoveryAlgorithm h))
     \<and> tracks (ledger_of (start_phase cs) (take n (eventCh (neighborDiscoveryAlgorithm h)))) h
     \<and> channels_ok (take n (eventCh (neighborDiscoveryAlgorithm h))) h
     \<and> (\<forall>k \<in> peers_of cs. host_peer h k)
     \<and> (\<forall>L ch. join_queue h L = Some ch \<longrightarrow> ch < length (join_chans h))"

section \<open>Operations that leave the worlds alone\<close>

definition calm :: "'w AbyssHost \<Rightarrow> 'w AbyssHost \<Rightarrow> bool" where
  "calm h h' \<longleftrightarrow> neighborDiscoveryAlgorithm h' = neighborDiscoveryAlgorithm h \<and> host_worlds h' = host_worlds h
     \<and> join_queue h' = join_queue h \<and> world_store h' = world_store h \<and> length (join_chans h') = length (join_chans h)
     \<and> (\<forall>ch < length (join_chans h). join_chans h ! ch = [] \<longrightarrow> join_chans h' ! ch = [])
     \<and> steady (NetworkService h) (NetworkService h')"

interpretation cm: step_rel calm
  by unfold_locales (auto simp: calm_def sd.R_refl intro: sd.R_trans)

lemma calm_tracks:
  assumes "calm h h'" and "tracks st h"
  shows "tracks st h'"
proof -
  have "phase_ok h' L (phase_of st L)" for L
  proof -
    have "phase_ok h L (phase_of st L)" using assms(2) by (simp add: tracks_def)
    then show ?thesis using assms(1) by (cases "phase_of st L") (auto simp: phase_ok_def calm_def)
  qed
  moreover have "refs_ok h'" using assms refs_ok_frame [of h' h] by (simp add: tracks_def calm_def)
  ultimately show ?thesis using assms steady_tracks(1) by (auto simp: tracks_def calm_def)
qed

lemma calm_peer: "calm h h' \<Longrightarrow> host_peer h k \<Longrightarrow> host_peer h' k"
  using steady_known by (fastforce simp: calm_def host_peer_def)

lemma calm_inv: "calm h h' \<Longrightarrow> run_inv cs n h \<Longrightarrow> run_inv cs n h'"
  using calm_tracks [of h h'] calm_peer [of h h'] channels_frame [of h' h] by (simp add: run_inv_def) (simp add: calm_def)

lemma calm_net_do: "transits steady f \<Longrightarrow> transits calm (net_do f)"
  by (rule transitsI, rule wlpI)
     (auto simp: net_do_def go_zoom_def calm_def split: sum.splits dest: transitsD)

lemma calm_peer_do: "transits same_count f \<Longrightarrow> transits calm (peer_do p f)"
  by (auto simp: peer_do_def intro!: calm_net_do steady_at_peer count_no_action)

lemma calm_deliver: "transits calm (deliver env ms)"
  by (auto simp: deliver_def intro!: cm.R_for calm_peer_do count_send)

text \<open>Receiving an event from a world.\<close>

lemma received_inv:
  assumes "run_inv cs n h"
  shows "run_inv cs n (h\<lparr>world_store := (world_store h)[w := (world_store h ! w)\<lparr>w_received := k\<rparr>]\<rparr>)"
    (is "run_inv cs n ?h")
proof -
  have "channel_of ?h v = channel_of h v" for v
    by (cases "w < length (world_store h)") (auto simp: channel_of_def nth_list_update list_update_beyond)
  then show ?thesis using assms
    by (simp add: run_inv_def tracks_def phase_ok_frame [of ?h h] refs_ok_frame [of ?h h] channels_ok_def host_peer_def)
qed

lemma calm_resolver: "transits calm (resolver_do f)"
  by (auto simp: resolver_do_def calm_def sd.R_refl intro!: transits_zoom)

lemma calm_receive: "transits calm (receive_join ch)"
  by (rule transitsI)
     (auto simp: receive_join_def wp_rules calm_def sd.R_refl split: list.split,
      metis list.distinct(1) nth_list_update_neq)

lemma calm_join_ends: "transits calm (OpenWorld_end ch)" "transits calm (JoinWorld_end ch)"
  by (auto simp: OpenWorld_end_def JoinWorld_end_def intro!: cm.R_bind cm.R_ret cm.R_panic calm_receive)

lemma calm_member_send: "transits calm (member_send env m f)"
  by (auto simp: member_send_def peer_of_def intro!: cm.R_bind cm.R_nonnil cm.R_read calm_peer_do count_send)

lemma calm_Outbound: "transits calm (OpenOutboundConnection now u)"
  by (auto simp: OpenOutboundConnection_def intro!: cm.R_bind cm.R_ret calm_net_do steady_Connect)

text \<open>What the host sends itself, the objects of the application and the refusal of a join request for an unknown
  path, is not counted by the neighbor discovery object.\<close>

lemma host_sends_not_counted:
  "AppendObjects env m obs h = Inr (u, h') \<Longrightarrow> stat (neighborDiscoveryAlgorithm h') = stat (neighborDiscoveryAlgorithm h)"
  "DeleteObjects env m ids h = Inr (u, h') \<Longrightarrow> stat (neighborDiscoveryAlgorithm h') = stat (neighborDiscoveryAlgorithm h)"
  "peer_do p (Peer_TrySendJDN env sid code msg) h = Inr (u, h') \<Longrightarrow>
   stat (neighborDiscoveryAlgorithm h') = stat (neighborDiscoveryAlgorithm h)"
  using transitsD [OF calm_member_send] transitsD [OF calm_peer_do [OF count_send [of env "TrySendJDN sid code msg"]]]
  by (fastforce simp: AppendObjects_def DeleteObjects_def calm_def)+

section \<open>Calls of the neighbor discovery object\<close>

lemma tracks_starting:
  assumes t: "tracks st h" and a: "phase_of st L = Absent" and q: "join_queue h L = Some ch" "ch < length (join_chans h)" "join_chans h ! ch = []"
  shows "tracks (st\<lparr>phase_of := (phase_of st)(L := Joining)\<rparr>) h"
proof -
  have "phase_ok h L' (((phase_of st)(L := Joining)) L')" for L'
  proof -
    have "phase_ok h L' (phase_of st L')" using t by (simp add: tracks_def)
    then show ?thesis using a q by (auto simp: phase_ok_def)
  qed
  then show ?thesis using t by (simp add: tracks_def)
qed

lemma absent_session:
  assumes "follow_inv cs a" and "fresh_session L a"
  shows "phase_of (ledger_of (start_phase cs) (take n (eventCh a))) L = Absent" and "start_phase cs L = Absent"
proof -
  obtain ph where "phase_run L (start_phase cs L) (eventCh a) = Some ph" "fits_at ph (worlds a L)"
    using assms(1) unfolding follow_inv_def phases_def by blast
  moreover have "phase_run L (start_phase cs L) (eventCh a) = Some (start_phase cs L)"
    by (rule phase_run_skip) (use assms(2) in \<open>auto simp: fresh_session_def\<close>)
  ultimately show s: "start_phase cs L = Absent" using assms(2) by (simp add: fresh_session_def)
  have "L \<notin> LocalSessionID ` set (take n (eventCh a))"
    using assms(2) by (auto simp: fresh_session_def dest: in_set_takeD)
  then show "phase_of (ledger_of (start_phase cs) (take n (eventCh a))) L = Absent"
    using s by (simp add: ledger_of_absent)
qed

text \<open>What a call needs from the host: a new session has its channel, a new connection its peer.\<close>

definition call_ready :: "and_call \<Rightarrow> 'w AbyssHost \<Rightarrow> bool" where
  "call_ready c h \<longleftrightarrow> (\<forall>L. creates c = Some L \<longrightarrow> (\<exists>ch. join_queue h L = Some ch \<and> ch < length (join_chans h) \<and> join_chans h ! ch = []))
     \<and> (\<forall>ord p. c = PeerConnected ord p \<longrightarrow> host_peer h (IDHash p))"

lemma creates_fresh: "call_ok c a \<Longrightarrow> creates c = Some L \<Longrightarrow> fresh_session L a"
  by (cases c) auto

lemma call_tracks:
  assumes f: "follow_inv cs a" and c: "call_ok c a" and r: "call_ready c h"
    and t: "tracks (ledger_of (start_phase cs) (take n (eventCh a))) h"
  shows "tracks (ledger_of (start_phase (cs @ [c])) (take n (eventCh a))) h"
proof (cases "creates c")
  case None
  then have "start_phase (cs @ [c]) = start_phase cs" by (simp add: fun_eq_iff start_phase_other)
  then show ?thesis using t by simp
next
  case (Some L)
  have fr: "fresh_session L a" by (rule creates_fresh [OF c Some])
  then have "L \<notin> LocalSessionID ` set (take n (eventCh a))" by (auto simp: fresh_session_def dest: in_set_takeD)
  then have "ledger_of (start_phase (cs @ [c])) (take n (eventCh a)) = (ledger_of (start_phase cs) (take n (eventCh a)))
      \<lparr>phase_of := (phase_of (ledger_of (start_phase cs) (take n (eventCh a))))(L := Joining)\<rparr>"
    using ledger_of_new [where L = L and start = "start_phase cs" and start' = "start_phase (cs @ [c])"]
      start_phase_other [of c _ cs] start_phase_new [OF Some] Some by simp
  then show ?thesis using tracks_starting [OF t absent_session(1) [OF f fr]] r Some by (auto simp: call_ready_def)
qed

lemma tracks_nda: "tracks st (h\<lparr>neighborDiscoveryAlgorithm := a\<rparr>) = tracks st h"
  by (simp add: tracks_def phase_ok_frame [of "h\<lparr>neighborDiscoveryAlgorithm := a\<rparr>" h]
      refs_ok_frame [of "h\<lparr>neighborDiscoveryAlgorithm := a\<rparr>" h])

lemma peers_of_call: "peers_of (cs @ [c]) = peers_of cs \<union> {IDHash p |ord p. c = PeerConnected ord p}"
  by (auto simp: peers_of_def)

lemma and_do_inv:
  assumes i: "run_inv cs n h" and c: "follow_ok c (neighborDiscoveryAlgorithm h)" and r: "call_ready c h"
  shows "wlp (and_do env c) (\<lambda>_. run_inv (cs @ [c]) n) h"
proof -
  let ?a = "neighborDiscoveryAlgorithm h"
  have f: "follow_inv cs ?a" using i by (simp add: run_inv_def)
  have ok: "call_ok c ?a" "call_addrs_ok c" using c by (simp_all add: follow_ok_def)
  have "run_inv (cs @ [c]) n (h\<lparr>neighborDiscoveryAlgorithm := a'\<rparr>)" if e: "and_exec c ?a = Inr (x, a')" for x a'
  proof -
    have f': "follow_inv (cs @ [c]) a'" by (rule wpx_result [OF follow_step [OF f c] e])
    obtain evs where "eventCh a' = eventCh ?a @ evs"
      using transitsD [OF call_payloads [OF ok(2)] e] by (auto simp: payloads_ok_def)
    then have "n \<le> length (eventCh a')" "take n (eventCh a') = take n (eventCh ?a)"
      using i by (simp_all add: run_inv_def)
    moreover have "tracks (ledger_of (start_phase (cs @ [c])) (take n (eventCh ?a))) h"
      using call_tracks [OF f ok(1) r] i by (simp add: run_inv_def)
    moreover have "\<forall>k \<in> peers_of (cs @ [c]). host_peer h k" using i r by (auto simp: run_inv_def call_ready_def peers_of_call)
    ultimately show ?thesis using f' i channels_frame [of "h\<lparr>neighborDiscoveryAlgorithm := a'\<rparr>" h]
      by (simp add: run_inv_def tracks_nda host_peer_def)
  qed
  then have "wlp (and_exec c) (\<lambda>_ a'. run_inv (cs @ [c]) n (h\<lparr>neighborDiscoveryAlgorithm := a'\<rparr>)) ?a"
    by (blast intro: wlpI)
  moreover have "wlp (deliver env ms) (\<lambda>_. run_inv (cs @ [c]) n) h'" if "run_inv (cs @ [c]) n h'" for ms and h' :: "'a AbyssHost"
    using transitsD [OF calm_deliver] calm_inv [OF _ that] by (blast intro: wlpI)
  ultimately show ?thesis unfolding wpx_and_do by (rule wpx_mono)
qed

section \<open>Operations of the host\<close>

definition kept :: "nat \<Rightarrow> 'w AbyssHost \<Rightarrow> bool" where
  "kept n h \<longleftrightarrow> (\<exists>cs. run_inv cs n h)"

lemma kept_calm: "transits calm f \<Longrightarrow> kept n h \<Longrightarrow> wlp f (\<lambda>_. kept n) h"
  unfolding kept_def by (blast intro: wlpI calm_inv dest: transitsD)

lemma kept_call:
  assumes i: "kept n h" and c: "follow_ok c (neighborDiscoveryAlgorithm h)" "call_ready c h"
    and g: "\<And>r. transits calm (g r)"
  shows "wlp (go_bind (and_do env c) g) (\<lambda>_. kept n) h"
proof -
  obtain cs where "run_inv cs n h" using i by (auto simp: kept_def)
  from and_do_inv [OF this c] show ?thesis
    unfolding wpx_bind by (rule wpx_mono) (rule kept_calm [OF g], auto simp: kept_def)
qed

lemma call_ready_plain: "creates c = None \<Longrightarrow> (\<And>ord p. c \<noteq> PeerConnected ord p) \<Longrightarrow> call_ready c h"
  by (simp add: call_ready_def)

lemma message_call_ready: "message_call ord r peer m = Some c \<Longrightarrow> call_ready c h"
  by (cases m) (auto simp: message_call_def intro: call_ready_plain split: option.splits)

text \<open>The channel for the result of a join that is about to begin.\<close>

lemma inj_on_map_new:
  assumes "inj_on m (dom m)" and "\<And>x y. m x = Some y \<Longrightarrow> y < (b :: nat)"
  shows "inj_on (m(a \<mapsto> b)) (dom (m(a \<mapsto> b)))"
proof (rule inj_onI)
  fix x y assume d: "x \<in> dom (m(a \<mapsto> b))" "y \<in> dom (m(a \<mapsto> b))" and e: "(m(a \<mapsto> b)) x = (m(a \<mapsto> b)) y"
  have "m z \<noteq> Some b" for z using assms(2) [of z b] by auto
  then show "x = y" using d e inj_onD [OF assms(1), of x y] by (auto simp: dom_def split: if_splits)
qed

lemma expect_tracks:
  assumes t: "tracks st h" and a: "phase_of st L = Absent" and q: "\<forall>L ch. join_queue h L = Some ch \<longrightarrow> ch < length (join_chans h)"
  shows "tracks st (h\<lparr>join_chans := join_chans h @ [[]], join_queue := (join_queue h)(L \<mapsto> length (join_chans h))\<rparr>)"
    (is "tracks st ?h")
proof -
  have "phase_ok ?h L' (phase_of st L')" for L'
  proof -
    have "phase_ok h L' (phase_of st L')" using t by (simp add: tracks_def)
    then show ?thesis using a by (cases "phase_of st L'") (auto simp: phase_ok_def nth_append)
  qed
  moreover have "inj_on (join_queue ?h) (dom (join_queue ?h))"
    using inj_on_map_new [of "join_queue h"] t q by (simp add: tracks_def refs_ok_def)
  ultimately show ?thesis using t by (simp add: tracks_def refs_ok_def)
qed

lemma expect_inv:
  assumes i: "run_inv cs n h" and fr: "fresh_session L (neighborDiscoveryAlgorithm h)"
  shows "run_inv cs n (h\<lparr>join_chans := join_chans h @ [[]], join_queue := (join_queue h)(L \<mapsto> length (join_chans h))\<rparr>)"
  using expect_tracks [OF _ absent_session(1) [OF _ fr]] i
  by (auto simp: run_inv_def host_peer_def less_Suc_eq channels_ok_def channel_of_def)

lemma kept_create:
  assumes i: "kept n h" and c: "follow_ok c (neighborDiscoveryAlgorithm h)" and L: "creates c = Some L"
    and g: "\<And>ch r. transits calm (g ch r)"
  shows "wlp (go_bind (expect_join L) (\<lambda>ch. go_bind (and_do env c) (g ch))) (\<lambda>_. kept n) h"
proof -
  let ?h = "h\<lparr>join_chans := join_chans h @ [[]], join_queue := (join_queue h)(L \<mapsto> length (join_chans h))\<rparr>"
  have "fresh_session L (neighborDiscoveryAlgorithm h)" using creates_fresh L c by (auto simp: follow_ok_def)
  then have "kept n ?h" using i expect_inv unfolding kept_def by blast
  moreover have "call_ready c ?h" using L by (cases c) (auto simp: call_ready_def)
  ultimately show ?thesis
    unfolding wpx_bind [where f = "expect_join L"] wp_expect_join using c g by (intro kept_call) simp_all
qed

lemma kept_Connected:
  assumes i: "kept n h" and c: "\<And>c. host_call (H_Connected ord peer) h = Some c \<Longrightarrow> follow_ok c (neighborDiscoveryAlgorithm h)"
  shows "wlp (serveLoop env ord peer []) (\<lambda>_. kept n) h"
proof (cases "pm_peers (ns_peers (NetworkService h)) (IDHash peer)")
  case None
  then show ?thesis by (simp add: serveLoop_def wp_rules)
next
  case (Some p)
  then have "IsConnected p \<Longrightarrow> wlp (go_bind (and_do env (PeerConnected ord peer))
      (\<lambda>retval. if retval \<noteq> 0 then go_ret () else serve_select env peer [])) (\<lambda>_. kept n) h"
    using c by (intro kept_call [OF i]) (auto simp: peer_at_def call_ready_def host_peer_def intro!: cm.R_ret)
  then show ?thesis using Some i by (simp add: serveLoop_def wpx_bind [where f = "go_read _"] wpx_read wpx_bind [where f = "go_nonnil _"] wpx_nonnil wpx_ret)
qed

lemma kept_Message:
  assumes i: "kept n h" and c: "\<And>c. message_call ord (pathResolver h) peer m = Some c \<Longrightarrow> follow_ok c (neighborDiscoveryAlgorithm h)"
  shows "wlp (serve_message env ord peer m) (\<lambda>_. kept n) h"
proof (cases "message_call ord (pathResolver h) peer m")
  case None
  have "transits calm (Peer_do)" if "Peer_do = peer_do peer (Peer_TrySendJDN env sid JNC_NOT_FOUND JNM_NOT_FOUND)" for Peer_do sid
    using calm_peer_do [OF count_send [of env "TrySendJDN sid JNC_NOT_FOUND JNM_NOT_FOUND"]] that by simp
  then have "transits calm (case m of Msg_JN m \<Rightarrow> peer_do peer (Peer_TrySendJDN env (JN_SenderSessionID m) JNC_NOT_FOUND JNM_NOT_FOUND)
       | _ \<Rightarrow> go_ret ())"
    by (auto intro!: cm.R_ret split: ahmp_message.split)
  then show ?thesis using None kept_calm [OF _ i] by (simp add: serve_message_def wpx_bind wpx_read)
next
  case (Some c)
  then have "wlp (go_bind (and_do env c) (\<lambda>and_result. if and_result = EPANIC then go_panic (Panic ''AND panic!!!'') else go_ret ()))
      (\<lambda>_. kept n) h"
    using assms by (intro kept_call) (auto intro!: cm.R_ret cm.R_panic intro: message_call_ready)
  then show ?thesis using Some by (simp add: serve_message_def wpx_bind [where f = "go_read _"] wpx_read)
qed

lemma kept_receive: "kept n h \<Longrightarrow> wlp (receive_event w) (\<lambda>_. kept n) h"
  using received_inv by (fastforce simp: receive_event_def wp_rules kept_def)

section \<open>The events\<close>

text \<open>The event loop leaves the neighbor discovery object alone and makes no join channels.\<close>

definition loops :: "'w AbyssHost \<Rightarrow> 'w AbyssHost \<Rightarrow> bool" where
  "loops h h' \<longleftrightarrow> neighborDiscoveryAlgorithm h' = neighborDiscoveryAlgorithm h
     \<and> length (join_chans h') = length (join_chans h)
     \<and> (\<forall>L ch. join_queue h' L = Some ch \<longrightarrow> join_queue h L = Some ch)"

interpretation lp: step_rel loops
  by unfold_locales (auto simp: loops_def)

lemma loops_modify:
  "(\<And>h. neighborDiscoveryAlgorithm (f h) = neighborDiscoveryAlgorithm h) \<Longrightarrow> (\<And>h. length (join_chans (f h)) = length (join_chans h)) \<Longrightarrow>
   (\<And>h L ch. join_queue (f h) L = Some ch \<Longrightarrow> join_queue h L = Some ch) \<Longrightarrow> transits loops (go_modify f)"
  unfolding loops_def by (intro transits_modify conjI allI impI)

lemma loops_net_do: "transits loops (net_do f)"
  by (auto simp: net_do_def loops_def intro!: transits_zoom)

lemmas loops_basics = lp.R_bind lp.R_read lp.R_ret lp.R_panic lp.R_nonnil lp.R_block

lemma loops_parts:
  "transits loops (lookup_world L)" "transits loops (raise_event w x)" "transits loops (peer_of ps)"
  "transits loops (create_world L u)" "transits loops bad_object"
  by (auto simp: lookup_world_def raise_event_def peer_of_def create_world_def bad_object_def split: option.split
      intro!: loops_basics loops_modify)

lemma loops_answer: "transits loops (answer_join L r)"
  by (auto simp: answer_join_def split: option.split if_splits intro!: loops_basics loops_modify)

lemma loops_raises:
  "transits loops (RaisePeerRequest w ps)" "transits loops (RaisePeerReady w ps)" "transits loops (RaisePeerLeave w k)"
  "transits loops (RaiseObjectAppend w k obs)" "transits loops (RaiseObjectDelete w k ids)" "transits loops (RaiseWorldTerminate w)"
  by (auto simp: RaisePeerRequest_def RaisePeerReady_def RaisePeerLeave_def RaiseObjectAppend_def RaiseObjectDelete_def
      RaiseWorldTerminate_def intro!: loops_basics loops_parts)

lemma loops_handle: "transits loops (handle_event cr now e)"
  by (cases "Type e")
     (auto simp: handle_event_def peer_do_def Let_def split: option.split any.split if_splits
       intro!: loops_basics loops_parts loops_raises loops_answer loops_modify loops_net_do)

lemma event_known:
  assumes "follow_inv cs a" and "e \<in> set (eventCh a)" and "Peer e = Some p"
  shows "IDHash p \<in> peers_of cs"
proof -
  have "payload_ok e" "known (peers_of cs) e"
    using assms by (auto simp: follow_inv_def phases_def list_all_iff)
  then show ?thesis using assms(3)
    by (cases "Type e") (auto simp: payload_ok_def known_def member_types_def)
qed

text \<open>While a join is pending its session has no output.\<close>

lemma joining_outputs:
  "phase_run L ph es = Some Joining \<Longrightarrow> ph = Joining \<and> outputs L w es = []"
proof (induction es arbitrary: ph)
  case (Cons e es)
  then obtain ph1 where p: "phase_step L ph e = Some ph1" "phase_run L ph1 es = Some Joining" by (auto split: option.splits)
  have j: "phase_step L ph e = Some Joining" "outputs L w es = []" using Cons.IH [OF p(2)] p(1) by simp_all
  show ?case
  proof (cases "LocalSessionID e = L")
    case True
    then have "ph = Joining" "Type e \<notin> life_types \<union> member_types" using j(1)
      by (auto simp: phase_step_def life_types_def split: if_splits)
    then show ?thesis using j(2) by (cases "Type e") (auto simp: world_output_def life_types_def member_types_def)
  next
    case False
    then show ?thesis using j by (simp add: phase_step_def)
  qed
qed simp

lemma channels_event:
  assumes r: "handle_event cr now e h = Inr ((), h')" and adv: "advances st [e] st' h h'" and t: "tracks st h" and c: "channels_ok es h"
    and st: "ledger_step st e = Some st'" and j: "\<And>L w. phase_of st L = Joining \<Longrightarrow> outputs L w es = []"
  shows "channels_ok (es @ [e]) h'"
  unfolding channels_ok_def
proof (intro allI impI)
  fix L w assume w': "host_worlds h' L = Some (Some w)"
  have snoc: "outputs L w (es @ [e]) = outputs L w es @ outputs L w [e]" by (simp add: outputs_def)
  show "channel_of h' w = outputs L w (es @ [e])"
  proof (cases "host_worlds h L = Some (Some w)")
    case True
    then have "owned st h L w" using t by (auto simp: owned_def tracks_def refs_ok_def)
    then show ?thesis using adv c True snoc by (simp add: advances_def channels_ok_def)
  next
    case False
    then have s: "Type e = ANDJoinSuccess"
      using transitsD [OF only_old_handle r] w' by (auto simp: only_old_def)
    have n: "L = LocalSessionID e" "channel_of h' w = []"
      using wpx_result [OF new_channel [OF s] r] w' False by auto
    then have "phase_of st L = Joining" using st s by (auto simp: ledger_step_def enter_def Let_def split: if_splits)
    then show ?thesis using n j s snoc by (simp add: world_output_def)
  qed
qed

text \<open>The next event is one that the ledger accepts: the loop handles it and tracks the ledger.\<close>

lemma next_event:
  assumes i: "run_inv cs n h" and n: "n < length (eventCh (neighborDiscoveryAlgorithm h))"
    and room: "b \<or> backlog h (LocalSessionID (eventCh (neighborDiscoveryAlgorithm h) ! n)) < 4096"
  shows "wpx b (handle_event cr now (eventCh (neighborDiscoveryAlgorithm h) ! n)) (\<lambda>_. run_inv cs (Suc n)) h"
proof -
  let ?es = "eventCh (neighborDiscoveryAlgorithm h)"
  let ?st = "\<lambda>n. ledger_of (start_phase cs) (take n ?es)"
  have f: "follow_inv cs (neighborDiscoveryAlgorithm h)" and t: "tracks (?st n) h"
    using i by (simp_all add: run_inv_def)
  have fol: "followed (start_phase cs) (peers_of cs) (take m ?es)" for m
    using followed_prefix [of _ _ "take m ?es" "drop m ?es"] follow_followed [OF f] by simp
  from fol [of "Suc n"] have step: "ledger_step (?st n) (?es ! n) = Some (?st (Suc n))"
    using n followed_snoc by (simp add: take_Suc_conv_app_nth)
  have hp: "host_peer h (IDHash p)" if "Peer (?es ! n) = Some p" for p
    using event_known [OF f nth_mem [OF n] that] i by (simp add: run_inv_def)
  have "length (world_output 0 (?es ! n)) \<le> 1"
    by (auto simp: world_output_def peer_list_def split: NeighborEventType.split option.split any.split)
  then have "b \<or> backlog h (LocalSessionID (?es ! n)) + length (world_output 0 (?es ! n)) \<le> 4096" using room by auto
  from handle_event_advances [OF t step hp this]
  have adv: "wpx b (handle_event cr now (?es ! n)) (\<lambda>_. advances (?st n) [?es ! n] (?st (Suc n)) h) h" .
  have inv: "run_inv cs (Suc n) h'" if h': "handle_event cr now (?es ! n) h = Inr ((), h')" for h'
  proof -
    have a: "advances (?st n) [?es ! n] (?st (Suc n)) h h'" by (rule wpx_result [OF adv h'])
    have "loops h h'" using transitsD [OF loops_handle h'] .
    moreover have "channels_ok (take n ?es @ [?es ! n]) h'"
    proof (rule channels_event [OF h' a t _ step])
      show "channels_ok (take n ?es) h" using i by (simp add: run_inv_def)
      show "outputs L w (take n ?es) = []" if "phase_of (?st n) L = Joining" for L w
      proof -
        have "phase_run L (start_phase cs L) (take n ?es) \<noteq> None"
          using fol [of n] by (simp add: followed_def)
        then show ?thesis using that joining_outputs [of L _ "take n ?es"] by (auto simp: ledger_of_def)
      qed
    qed
    ultimately show ?thesis using i n a
      by (simp add: run_inv_def loops_def advances_def take_Suc_conv_app_nth) blast
  qed
  then show ?thesis using adv by (auto simp: wpx_def split: sum.splits)
qed

section \<open>Every history of the host\<close>

lemma wpx_on_host: "wpx b (on_host f) Q s = wpx b f (\<lambda>_ h. Q () (h, snd s)) (fst s)"
  by (simp add: on_host_def go_ignore_def wp_rules)

lemma kept_take_event:
  assumes "kept (snd s) (fst s)"
  shows "wlp (take_event cr now) (\<lambda>_ s'. kept (snd s') (fst s')) s"
proof (cases "snd s < length (eventCh (neighborDiscoveryAlgorithm (fst s)))")
  case True
  then have d: "drop (snd s) (eventCh (neighborDiscoveryAlgorithm (fst s)))
      = eventCh (neighborDiscoveryAlgorithm (fst s)) ! snd s # drop (Suc (snd s)) (eventCh (neighborDiscoveryAlgorithm (fst s)))"
    by (rule Cons_nth_drop_Suc [symmetric])
  obtain cs where i: "run_inv cs (snd s) (fst s)" using assms by (auto simp: kept_def)
  have "wlp (handle_event cr now (eventCh (neighborDiscoveryAlgorithm (fst s)) ! snd s)) (\<lambda>_. kept (Suc (snd s))) (fst s)"
    by (rule wpx_mono [OF next_event [OF i True]]) (auto simp: kept_def)
  then show ?thesis by (simp add: take_event_def wp_rules d wpx_on_host)
next
  case False
  then show ?thesis by (simp add: take_event_def wp_rules)
qed

lemma kept_calls:
  assumes i: "kept n h" and c: "\<And>c. host_call op h = Some c \<Longrightarrow> follow_ok c (neighborDiscoveryAlgorithm h)"
  shows "op = H_OpenWorld ord now L u \<Longrightarrow> wlp (OpenWorld_begin env ord now L u) (\<lambda>_. kept n) h"
    and "op = H_JoinWorld ord now L target \<Longrightarrow> wlp (JoinWorld_begin env ord now L target) (\<lambda>_. kept n) h"
    and "op = H_JoinWorld_cancel ord L \<Longrightarrow> wlp (JoinWorld_cancel env ord L) (\<lambda>_. kept n) h"
    and "op = H_LeaveWorld ord w \<Longrightarrow> wlp (LeaveWorld env ord w) (\<lambda>_. kept n) h"
    and "op = H_Accept ord w ps \<Longrightarrow> wlp (request_Accept env ord w ps) (\<lambda>_. kept n) h"
    and "op = H_Decline w ps code msg \<Longrightarrow> wlp (request_Decline env w ps code msg) (\<lambda>_. kept n) h"
    and "op = H_Timer ord ord2 t r L \<Longrightarrow> wlp (timer_fire env ord ord2 t r L) (\<lambda>_. kept n) h"
  using assms
  by (auto simp: OpenWorld_begin_def JoinWorld_begin_def JoinWorld_cancel_def LeaveWorld_def request_Accept_def
      request_Decline_def timer_fire_def wpx_bind [where f = "go_read _"] wpx_read
      intro!: kept_create kept_call call_ready_plain cm.R_ret cm.R_panic)

lemma host_exec_kept:
  assumes i: "kept (snd s) (fst s)" and ok: "host_ok op s"
  shows "wlp (host_exec cr parse env op) (\<lambda>_ s'. kept (snd s') (fst s')) s"
proof -
  have c: "follow_ok c (neighborDiscoveryAlgorithm (fst s))" if "host_call op (fst s) = Some c" for c
    using ok that by (simp add: host_ok_def)
  note calls = kept_calls [OF i c, where env = env] and calm = kept_calm [OF _ i]
  show ?thesis
    using kept_take_event [OF i] calls kept_Connected [OF i] kept_Message [OF i] kept_receive [OF i] c ok
    by (cases op)
       (auto simp: wpx_on_host host_ok_def AppendObjects_def DeleteObjects_def
         intro!: calm calm_join_ends calm_member_send calm_Outbound calm_net_do calm_resolver steady_exec)
qed

text \<open>The start: a host with a new network service and no connected peers.\<close>

definition start_host :: "RootSecrets \<Rightarrow> AURL \<Rightarrow> BetaAddressSelector \<Rightarrow> TLSIdentity \<Rightarrow> hash \<Rightarrow> 'w host_state" where
  "start_host ident url sel tls me =
     (NewAbyssHost (new_service ident url sel tls) (NewAND me) NewSimplePathResolver, 0)"

lemma kept_start: "kept (snd (start_host ident url sel tls me)) (fst (start_host ident url sel tls me))"
proof -
  have "run_inv [] 0 (fst (start_host ident url sel tls me))"
    using follow_start [of me]
    by (simp add: run_inv_def start_host_def NewAbyssHost_def tracks_def ledger_of_def start_phase_def phase_ok_def refs_ok_def
        channels_ok_def net_tracks_def peer_at_def new_service_def NewContextedPeerMap_def peers_of_def)
  then show ?thesis by (auto simp: kept_def start_host_def)
qed

interpretation host_sys: safe_system "host_exec cr parse env" host_ok "start_host ident url sel tls me"
    "\<lambda>_ s. kept (snd s) (fst s)"
  by unfold_locales (rule kept_start, rule host_exec_kept)

abbreviation host_runs where
  "host_runs cr parse env ident url sel tls me \<equiv>
     runs (host_exec cr parse env) host_ok (start_host ident url sel tls me)"

section \<open>The event loop of a host that is used politely\<close>

text \<open>C8. The event loop does not fail: in every history of a host whose calls of the neighbor discovery
  object are polite, in whatever order the operations of the application, of the serving loops, of the
  network service and of the event loop interleave, the loop takes the next event without a panic, and
  without blocking as long as the channel of the world that the event belongs to is not full, that is, holds
  fewer than 4096 events that the application has not received.\<close>

theorem event_loop_never_fails:
  assumes "host_runs cr parse env ident url sel tls me ops s"
    and "snd s < length (eventCh (neighborDiscoveryAlgorithm (fst s)))"
    and "backlog (fst s) (LocalSessionID (eventCh (neighborDiscoveryAlgorithm (fst s)) ! snd s)) < 4096"
  shows "\<exists>s'. host_exec cr parse env (H_Event now) s = Inr ((), s') \<and> snd s' = Suc (snd s)"
proof -
  obtain cs where "run_inv cs (snd s) (fst s)" using host_sys.safe_inv [OF assms(1)] by (auto simp: kept_def)
  then have "wp (handle_event cr now (eventCh (neighborDiscoveryAlgorithm (fst s)) ! snd s)) (\<lambda>_. run_inv cs (Suc (snd s))) (fst s)"
    by (rule next_event [OF _ assms(2)]) (use assms(3) in simp)
  then obtain h' where h': "handle_event cr now (eventCh (neighborDiscoveryAlgorithm (fst s)) ! snd s) (fst s) = Inr ((), h')"
    using wp_returns by fastforce
  have "wp (take_event cr now) (\<lambda>_ s'. snd s' = Suc (snd s)) s"
    using h' by (simp add: take_event_def wp_rules Cons_nth_drop_Suc [OF assms(2), symmetric] wpx_on_host)
      (simp add: wpx_def)
  then show ?thesis using wp_returns by fastforce
qed

text \<open>A full channel does block the loop: for an event that is put on it the loop waits until the
  application receives one.\<close>

lemma full_channel_blocks:
  assumes "host_worlds h L = Some (Some w)" and "channel_full (world_store h ! w)"
    and "Type e = ANDSessionRequest" and "LocalSessionID e = L" and "Peer e = Some p"
  shows "handle_event cr now e h = Inl Blocked"
  using assms
  by (simp add: handle_event_def lookup_world_def RaisePeerRequest_def raise_event_def peer_of_def event_session_def
      go_bind_def go_read_def go_ret_def go_panic_def go_nonnil_def Let_def)

text \<open>C19. The application sees exactly the world events of its session: in every such history what was
  sent on the channel of a world that is up, received or not, are the requests, arrivals, objects and
  departures that the events of its session stand for, in the order of the events and none of another
  session.\<close>

theorem world_channel_exact:
  assumes "host_runs cr parse env ident url sel tls me ops s" and "host_worlds (fst s) L = Some (Some w)"
  shows "eventChannel (world_store (fst s) ! w)
    = outputs L w (take (snd s) (eventCh (neighborDiscoveryAlgorithm (fst s))))"
  using host_sys.safe_inv [OF assms(1)] assms(2)
  by (auto simp: kept_def run_inv_def channels_ok_def channel_of_def)

text \<open>A host that opens a world.\<close>

abbreviation sample_start :: "item host_state" where
  "sample_start \<equiv> start_host sample_secrets sample_url sample_selector sample_tls sample_hash"

abbreviation sample_host_runs :: "item host_op list \<Rightarrow> item host_state \<Rightarrow> bool" where
  "sample_host_runs \<equiv> host_runs mock_crypto uuid_parse sample_env sample_secrets sample_url sample_selector sample_tls sample_hash"

lemma sample_start_host: "sample_start = (sample_host, 0)"
  by (simp add: start_host_def sample_host_def sample_service_def)

definition sample_opened :: "item host_state \<Rightarrow> bool" where
  "sample_opened s \<longleftrightarrow> snd s = 0 \<and> world_store (fst s) = [] \<and> join_queue (fst s) 7 = Some 0 \<and> join_chans (fst s) = [[]] \<and>
     eventCh (neighborDiscoveryAlgorithm (fst s)) = [join_success_event 7 ''url'', timer_event 7 500]"

lemma sample_open_run: "\<exists>s. sample_host_runs [H_OpenWorld [] 0 7 ''url''] s \<and> sample_opened s"
proof -
  let ?op = "H_OpenWorld [] 0 7 ''url'' :: item host_op"
  have ok: "host_ok ?op sample_start"
    by (simp add: host_ok_def follow_ok_def sample_start_host sample_host_sel NewAND_def fresh_session_def range_order_def)
  have r: "and_runs sample_hash [] (neighborDiscoveryAlgorithm sample_host)"
    unfolding sample_host_sel by (rule runs.runs_nil)
  have ord: "range_order [] (and_peers (neighborDiscoveryAlgorithm sample_host))"
    by (simp add: sample_host_sel NewAND_def range_order_def)
  have "wp (OpenWorld_begin sample_env [] 0 7 ''url'') (\<lambda>_ h. sample_opened (h, 0)) sample_host"
    by (rule wpx_mono [OF OpenWorld_begin_effect [OF r ord]])
      (auto simp: sample_opened_def sample_host_def NewAbyssHost_def NewAND_def)
  then have "wp (host_exec mock_crypto uuid_parse sample_env ?op) (\<lambda>_. sample_opened) sample_start"
    by (simp add: wpx_on_host sample_start_host)
  from wp_returns [OF this] obtain x s
    where s: "host_exec mock_crypto uuid_parse sample_env ?op sample_start = Inr (x, s)" "sample_opened s"
    by blast
  have "sample_host_runs ([] @ [?op]) s" by (rule runs.runs_snoc) (rule runs.runs_nil, rule ok, rule s(1))
  then have "sample_host_runs [?op] s \<and> sample_opened s" using s(2) by simp
  then show ?thesis by blast
qed

theorem event_loop_never_fails_witness:
  "\<exists>s s'. sample_host_runs [H_OpenWorld [] 0 7 ''url''] s
    \<and> host_exec mock_crypto uuid_parse sample_env (H_Event 0) s = Inr ((), s') \<and> snd s' = 1"
proof -
  obtain s where s: "sample_host_runs [H_OpenWorld [] 0 7 ''url''] s" "sample_opened s" using sample_open_run by blast
  then have n: "snd s < length (eventCh (neighborDiscoveryAlgorithm (fst s)))" by (simp add: sample_opened_def)
  have "backlog (fst s) L < 4096" for L
    using s(2) host_sys.safe_inv [OF s(1)]
    by (auto simp: backlog_def sample_opened_def kept_def run_inv_def tracks_def refs_ok_def split: option.split)
  from event_loop_never_fails [OF s(1) n this, of 0] show ?thesis using s by (fastforce simp: sample_opened_def)
qed

theorem world_channel_exact_witness:
  "\<exists>s. sample_host_runs [H_OpenWorld [] 0 7 ''url'', H_Event 0] s \<and> host_worlds (fst s) 7 = Some (Some 0)
    \<and> eventChannel (world_store (fst s) ! 0) = outputs 7 0 [join_success_event 7 ''url'']"
proof -
  obtain s where s: "sample_host_runs [H_OpenWorld [] 0 7 ''url''] s" "sample_opened s" using sample_open_run by blast
  let ?h = "(fst s)\<lparr>world_store := [NewWorld 7 ''url''], host_worlds := (host_worlds (fst s))(7 \<mapsto> Some 0),
    join_queue := (join_queue (fst s))(7 := None),
    join_chans := [[\<lparr>wce_ok = True, wce_code = 0, wce_message = ''url'', wce_world = Some 0\<rparr>]]\<rparr>"
  have "handle_event mock_crypto 0 (join_success_event 7 ''url'') (fst s) = Inr ((), ?h)"
    using handle_join_success [of "fst s" 7 0 mock_crypto 0 "''url''"] s(2) by (simp add: sample_opened_def)
  then have e: "host_exec mock_crypto uuid_parse sample_env (H_Event 0) s = Inr ((), (?h, 1))"
    using s(2) by (cases s) (simp add: take_event_def on_host_def go_ignore_def go_zoom_def go_bind_def go_read_def go_modify_def
        go_ret_def sample_opened_def)
  have "sample_host_runs ([H_OpenWorld [] 0 7 ''url''] @ [H_Event 0]) (?h, 1)"
    by (rule runs.runs_snoc) (rule s(1), simp add: host_ok_def, rule e)
  then have r: "sample_host_runs [H_OpenWorld [] 0 7 ''url'', H_Event 0] (?h, 1)" by simp
  have "eventChannel (world_store (fst (?h, 1 :: nat)) ! 0) = outputs 7 0 (take (snd (?h, 1 :: nat)) (eventCh (neighborDiscoveryAlgorithm (fst (?h, 1 :: nat)))))"
    by (rule world_channel_exact [OF r]) simp
  then show ?thesis using r s(2) by (intro exI [where x = "(?h, 1)"]) (simp add: sample_opened_def)
qed

end
