(* ===== verification/And_Stat_Text.thy ===== *)
theory And_Stat_Text
  imports And_Diag Go_Strings
begin

text \<open>
  The text of the statistics (\<open>and/and_diag.go\<close>): a count is written in a fixed width, large counts
  as a letter for the power of ten and the two leading digits.
\<close>

section \<open>One count\<close>

fun tdn_loop :: "int \<Rightarrow> int \<Rightarrow> int \<times> int" where
  "tdn_loop v m = (if 100 \<le> v then tdn_loop (v div 10) (m + 1) else (v, m))"

declare tdn_loop.simps [simp del]

definition tdn :: "int \<Rightarrow> string" where
  "tdn i = (if i < 0 then ''---''
     else if i < 10 then ''   '' @ Itoa i
     else if i < 100 then ''  '' @ Itoa i
     else (case tdn_loop i 0 of (v, m) \<Rightarrow>
       if 26 < m then '' FFF'' else '' '' @ [char_of (nat (65 + m - 1))] @ Itoa v))"

section \<open>The whole text\<close>

definition newline :: string where
  "newline = [CHR 0x0A]"

definition stat_cells :: "go_int list \<Rightarrow> string" where
  "stat_cells xs = concat (map (\<lambda>(i, c). tdn (sint c) @ (if i mod 10 = 9 then newline else [])) (enumerate 0 xs))"

definition ANDStatistics_String :: "ANDStatistics \<Rightarrow> string" where
  "ANDStatistics_String s = '' JN JOK JDN JNI MEM SJN CRR RST SOA SOD'' @ newline
     @ tdn (sint (JN_TX s)) @ tdn (sint (JOK_TX s)) @ tdn (sint (JDN_TX s)) @ tdn (sint (JNI_TX s)) @ tdn (sint (MEM_TX s))
     @ tdn (sint (SJN_TX s)) @ tdn (sint (CRR_TX s)) @ tdn (sint (RST_TX s)) @ tdn (sint (SOA_TX s)) @ tdn (sint (SOD_TX s)) @ newline
     @ tdn (sint (JN_RX s)) @ tdn (sint (JOK_RX s)) @ tdn (sint (JDN_RX s)) @ tdn (sint (JNI_RX s)) @ tdn (sint (MEM_RX s))
     @ tdn (sint (SJN_RX s)) @ tdn (sint (CRR_RX s)) @ tdn (sint (RST_RX s)) @ tdn (sint (SOA_RX s)) @ tdn (sint (SOD_RX s)) @ newline
     @ stat_cells (stat_b s) @ newline @ stat_cells (stat_w s)"

section \<open>Width and accuracy\<close>

text \<open>The loop divides by ten until two digits are left.\<close>

lemma tdn_loop_spec:
  assumes "tdn_loop v m = (v', m')" and "10 \<le> v"
  shows "\<exists>k. m' = m + int k \<and> 10 \<le> v' \<and> v' < 100 \<and> v' * 10 ^ k \<le> v \<and> v < (v' + 1) * 10 ^ k"
  using assms
proof (induction v m arbitrary: v' m' rule: tdn_loop.induct)
  case (1 v m)
  show ?case
  proof (cases "100 \<le> v")
    case False
    then show ?thesis using 1(2,3) by (intro exI [where x = 0]) (auto simp: tdn_loop.simps)
  next
    case True
    then have "tdn_loop (v div 10) (m + 1) = (v', m')" using 1(2) by (simp add: tdn_loop.simps)
    moreover have "10 \<le> v div 10" using True by simp
    ultimately obtain k where k: "m' = m + 1 + int k" "10 \<le> v'" "v' < 100"
      "v' * 10 ^ k \<le> v div 10" "v div 10 < (v' + 1) * 10 ^ k"
      using 1(1) True by blast
    have "v' * 10 ^ Suc k \<le> v" using k(4) by simp
    moreover have "v < (v' + 1) * 10 ^ Suc k" using k(5) by simp
    ultimately show ?thesis using k by (intro exI [where x = "Suc k"]) auto
  qed
qed

lemma format_two: "10 \<le> n \<Longrightarrow> n < 100 \<Longrightarrow> format_nat 10 n = [digit_char (n div 10), digit_char (n mod 10)]"
  by (simp add: format_nat_def digits.simps [of 10 n] digits.simps [of 10 "n div 10"])

lemma format_one: "n < 10 \<Longrightarrow> format_nat 10 n = [digit_char n]"
  by (simp add: format_nat_def digits.simps)

text \<open>A count in the range of an \<open>int\<close> needs at most 17 divisions, so the letter is \<open>A\<close> to \<open>Q\<close> and
  the overflow mark is never written.\<close>

lemma tdn_large:
  assumes "100 \<le> i" and "i < 2 ^ 63"
  shows "\<exists>v k. tdn i = CHR '' '' # char_of (64 + k) # Itoa v \<and> 1 \<le> k \<and> k \<le> 17 \<and> 10 \<le> v \<and> v < 100
    \<and> v * 10 ^ k \<le> i \<and> i < (v + 1) * 10 ^ k"
proof -
  obtain v m where vm: "tdn_loop i 0 = (v, m)" by fastforce
  then obtain k where k: "m = int k" "10 \<le> v" "v < 100" "v * 10 ^ k \<le> i" "i < (v + 1) * 10 ^ k"
    using tdn_loop_spec [OF vm] assms(1) by auto
  have "10 * 10 ^ k \<le> v * 10 ^ k" using k(2) by (intro mult_right_mono) simp_all
  then have up: "(10 :: int) ^ Suc k < 2 ^ 63" using k(4) assms(2) unfolding power_Suc by linarith
  have "k \<le> 17"
  proof (rule ccontr)
    assume "\<not> k \<le> 17"
    then have "(10 :: int) ^ 19 \<le> 10 ^ Suc k" by (intro power_increasing) auto
    then show False using up by simp
  qed
  moreover have "1 \<le> k"
  proof (rule ccontr)
    assume "\<not> 1 \<le> k"
    then have "k = 0" by simp
    then show False using k assms(1) by simp
  qed
  moreover have "nat (65 + m - 1) = 64 + k" using k(1) by simp
  ultimately show ?thesis using k vm assms(1) by (intro exI [where x = v] exI [where x = k]) (simp add: tdn_def)
qed

lemma length_tdn_int:
  assumes "0 \<le> i" and "i < 2 ^ 63"
  shows "length (tdn i) = 4"
proof (cases "i < 100")
  case True
  then show ?thesis using assms
    by (cases "i < 10") (simp_all add: tdn_def Itoa_def format_one format_two)
next
  case False
  then have "100 \<le> i" by simp
  from tdn_large [OF this assms(2)]
  obtain v and k :: nat where "tdn i = CHR '' '' # char_of (64 + k) # Itoa v" "10 \<le> v" "v < 100" by blast
  then show ?thesis by (simp add: Itoa_def format_two)
qed

lemma length_tdn: "0 \<le> sint c \<Longrightarrow> length (tdn (sint c)) = 4" for c :: go_int
  using sint_lt [of c] by (intro length_tdn_int) simp_all

definition counts_ok :: "ANDStatistics \<Rightarrow> bool" where
  "counts_ok s \<longleftrightarrow> (\<forall>c \<in> {JN_TX s, JOK_TX s, JDN_TX s, JNI_TX s, MEM_TX s, SJN_TX s, CRR_TX s, RST_TX s,
     SOA_TX s, SOD_TX s, JN_RX s, JOK_RX s, JDN_RX s, JNI_RX s, MEM_RX s, SJN_RX s, CRR_RX s, RST_RX s,
     SOA_RX s, SOD_RX s} \<union> set (stat_b s) \<union> set (stat_w s). 0 \<le> sint c)"

lemma length_stat_cells:
  assumes "\<forall>c \<in> set xs. 0 \<le> sint c"
  shows "length (stat_cells xs) = 4 * length xs + length xs div 10"
proof -
  have "length (concat (map (\<lambda>(i, c). tdn (sint c) @ (if i mod 10 = 9 then newline else [])) (enumerate n xs)))
      + n div 10 = 4 * length xs + (n + length xs) div 10" for n
    using assms
  proof (induction xs arbitrary: n)
    case (Cons x xs)
    have "Suc n div 10 = n div 10 + (if n mod 10 = 9 then 1 else 0)" by (simp add: div_Suc) presburger
    moreover have "length (tdn (sint x)) = 4" using Cons.prems by (simp add: length_tdn)
    ultimately show ?case using Cons.IH [of "Suc n"] Cons.prems by (auto simp: newline_def)
  qed simp
  from this [of 0] show ?thesis by (simp add: stat_cells_def)
qed

text \<open>The text has the same length whatever the counts are.\<close>

lemma length_String:
  assumes "stat_wf s" and "counts_ok s"
  shows "length (ANDStatistics_String s) = 618"
  using assms
  by (simp add: ANDStatistics_String_def stat_wf_def counts_ok_def length_tdn length_stat_cells newline_def)

end
