(* ===== verification/Host_Listen.thy ===== *)
theory Host_Listen
  imports Host And_Stat_Text
begin

text \<open>
  The goroutines of a host (\<open>host/host.go\<close>: \<open>ListenAndServe\<close>, \<open>listenLoop\<close>, the frame of \<open>eventLoop\<close>). The
  state is how far each goroutine has come, the counts of the two wait groups, and the messages in
  the three channels that report the end of a goroutine, which have room for one each. An operation is
  one step of one goroutine; a step that would wait is \<open>Blocked\<close>. What the loops do with a peer and
  with an event is in the theory \<open>Host\<close>.
\<close>

section \<open>The goroutines\<close>

datatype loop_point = NotStarted | Looping | Draining | Ended

datatype serve_point = NotCalled | AwaitListen | AwaitEvent | AwaitNet | Returned

record serving =
  h_ctx :: "bool option"
  serve_at :: serve_point
  net_at :: loop_point
  listen_at :: loop_point
  event_at :: loop_point
  serve_wg :: nat
  timer_wg :: nat
  net_done :: nat
  listen_done :: nat
  event_done :: nat

definition serving_zero :: serving where
  "serving_zero = \<lparr>h_ctx = None, serve_at = NotCalled, net_at = NotStarted, listen_at = NotStarted,
     event_at = NotStarted, serve_wg = 0, timer_wg = 0, net_done = 0, listen_done = 0, event_done = 0\<rparr>"

text \<open>A statement that waits for a condition.\<close>

definition await :: "('s \<Rightarrow> bool) \<Rightarrow> ('s \<Rightarrow> 's) \<Rightarrow> ('s, unit) go" where
  "await P f = go_bind (go_read P) (\<lambda>b. if b then go_modify f else go_panic Blocked)"

text \<open>\<open>ListenAndServe\<close> up to its first receive, with a context that may be done already.\<close>

definition Host_ListenAndServe :: "bool \<Rightarrow> (serving, unit) go" where
  "Host_ListenAndServe ctx = go_bind (go_read h_ctx) (\<lambda>c.
     if c \<noteq> None then go_panic (Panic ''ListenAndServe called twice'')
     else go_modify (\<lambda>s. s\<lparr>h_ctx := Some ctx, net_at := Looping, listen_at := Looping, event_at := Looping,
       serve_at := AwaitListen\<rparr>))"

text \<open>Its three receives.\<close>

definition ListenAndServe_receive :: "(serving, unit) go" where
  "ListenAndServe_receive = go_bind (go_read serve_at) (\<lambda>p. case p of
     AwaitListen \<Rightarrow> await (\<lambda>s. 0 < listen_done s) (\<lambda>s. s\<lparr>listen_done := listen_done s - 1, serve_at := AwaitEvent\<rparr>)
   | AwaitEvent \<Rightarrow> await (\<lambda>s. 0 < event_done s) (\<lambda>s. s\<lparr>event_done := event_done s - 1, serve_at := AwaitNet\<rparr>)
   | AwaitNet \<Rightarrow> await (\<lambda>s. 0 < net_done s) (\<lambda>s. s\<lparr>net_done := net_done s - 1, serve_at := Returned\<rparr>)
   | _ \<Rightarrow> go_panic Blocked)"

text \<open>The goroutine of the network service, when its \<open>ListenAndServe\<close> returns.\<close>

definition service_end :: "(serving, unit) go" where
  "service_end = await (\<lambda>s. net_at s = Looping \<and> net_done s < 1) (\<lambda>s. s\<lparr>net_at := Ended, net_done := net_done s + 1\<rparr>)"

text \<open>A peer is taken from the channel of connected peers and served in a goroutine of its own.\<close>

definition listenLoop_peer :: "(serving, unit) go" where
  "listenLoop_peer = await (\<lambda>s. listen_at s = Looping) (\<lambda>s. s\<lparr>serve_wg := serve_wg s + 1\<rparr>)"

definition serveLoop_done :: "(serving, unit) go" where
  "serveLoop_done = await (\<lambda>s. 0 < serve_wg s) (\<lambda>s. s\<lparr>serve_wg := serve_wg s - 1\<rparr>)"

definition listenLoop_ctx :: "(serving, unit) go" where
  "listenLoop_ctx = await (\<lambda>s. listen_at s = Looping \<and> h_ctx s = Some True) (\<lambda>s. s\<lparr>listen_at := Draining\<rparr>)"

definition listenLoop_end :: "(serving, unit) go" where
  "listenLoop_end = await (\<lambda>s. listen_at s = Draining \<and> serve_wg s = 0 \<and> listen_done s < 1)
     (\<lambda>s. s\<lparr>listen_at := Ended, listen_done := listen_done s + 1\<rparr>)"

definition eventLoop_timer :: "(serving, unit) go" where
  "eventLoop_timer = await (\<lambda>s. event_at s = Looping) (\<lambda>s. s\<lparr>timer_wg := timer_wg s + 1\<rparr>)"

definition timer_done :: "(serving, unit) go" where
  "timer_done = await (\<lambda>s. 0 < timer_wg s) (\<lambda>s. s\<lparr>timer_wg := timer_wg s - 1\<rparr>)"

definition eventLoop_ctx :: "(serving, unit) go" where
  "eventLoop_ctx = await (\<lambda>s. event_at s = Looping \<and> h_ctx s = Some True) (\<lambda>s. s\<lparr>event_at := Draining\<rparr>)"

definition eventLoop_end :: "(serving, unit) go" where
  "eventLoop_end = await (\<lambda>s. event_at s = Draining \<and> timer_wg s = 0 \<and> event_done s < 1)
     (\<lambda>s. s\<lparr>event_at := Ended, event_done := event_done s + 1\<rparr>)"

definition ctx_done :: "(serving, unit) go" where
  "ctx_done = await (\<lambda>s. h_ctx s \<noteq> None) (\<lambda>s. s\<lparr>h_ctx := Some True\<rparr>)"

datatype serving_op =
    S_Call bool | S_Receive | S_NetEnd | S_Peer | S_PeerDone | S_ListenCtx | S_ListenEnd
  | S_Timer | S_TimerDone | S_EventCtx | S_EventEnd | S_CtxDone

fun serving_exec :: "serving_op \<Rightarrow> (serving, unit) go" where
  "serving_exec (S_Call ctx) = Host_ListenAndServe ctx"
| "serving_exec S_Receive = ListenAndServe_receive"
| "serving_exec S_NetEnd = service_end"
| "serving_exec S_Peer = listenLoop_peer"
| "serving_exec S_PeerDone = serveLoop_done"
| "serving_exec S_ListenCtx = listenLoop_ctx"
| "serving_exec S_ListenEnd = listenLoop_end"
| "serving_exec S_Timer = eventLoop_timer"
| "serving_exec S_TimerDone = timer_done"
| "serving_exec S_EventCtx = eventLoop_ctx"
| "serving_exec S_EventEnd = eventLoop_end"
| "serving_exec S_CtxDone = ctx_done"

section \<open>Statistics\<close>

definition AND_Statistics :: "(AND, string) go" where
  "AND_Statistics = go_read (\<lambda>a. ANDStatistics_String (stat a))"

definition GetStatistics :: "('w AbyssHost, string) go" where
  "GetStatistics = go_zoom neighborDiscoveryAlgorithm (\<lambda>a h. h\<lparr>neighborDiscoveryAlgorithm := a\<rparr>) AND_Statistics"

section \<open>Nothing outlives ListenAndServe\<close>

definition serving_inv :: "serving \<Rightarrow> bool" where
  "serving_inv s \<longleftrightarrow> (h_ctx s = None \<longrightarrow> s = serving_zero)
     \<and> (h_ctx s \<noteq> None \<longrightarrow> serve_at s \<noteq> NotCalled \<and> net_at s \<in> {Looping, Ended} \<and> listen_at s \<noteq> NotStarted \<and> event_at s \<noteq> NotStarted)
     \<and> listen_done s = of_bool (listen_at s = Ended \<and> serve_at s \<in> {AwaitListen})
     \<and> event_done s = of_bool (event_at s = Ended \<and> serve_at s \<in> {AwaitListen, AwaitEvent})
     \<and> net_done s = of_bool (net_at s = Ended \<and> serve_at s \<noteq> Returned)
     \<and> (serve_at s \<in> {AwaitEvent, AwaitNet, Returned} \<longrightarrow> listen_at s = Ended)
     \<and> (serve_at s \<in> {AwaitNet, Returned} \<longrightarrow> event_at s = Ended)
     \<and> (serve_at s = Returned \<longrightarrow> net_at s = Ended)
     \<and> (listen_at s = Ended \<longrightarrow> serve_wg s = 0) \<and> (event_at s = Ended \<longrightarrow> timer_wg s = 0)"

lemma wpx_await [wp_rules]: "wpx b (await P f) Q s = (if P s then Q () (f s) else b)"
  by (simp add: await_def wp_rules)

lemmas serving_defs = Host_ListenAndServe_def ListenAndServe_receive_def service_end_def listenLoop_peer_def serveLoop_done_def
  listenLoop_ctx_def listenLoop_end_def eventLoop_timer_def timer_done_def eventLoop_ctx_def eventLoop_end_def ctx_done_def

lemma serving_step: "serving_inv s \<Longrightarrow> wlp (serving_exec op) (\<lambda>_. serving_inv) s"
  by (cases op; cases "serve_at s") (auto simp: serving_defs wp_rules serving_inv_def serving_zero_def split: if_splits)

interpretation serving_sys: safe_system serving_exec "\<lambda>_ _. True" serving_zero "\<lambda>_. serving_inv"
  by unfold_locales (simp add: serving_inv_def serving_zero_def, rule serving_step)

text \<open>When \<open>ListenAndServe\<close> returns, the loops, the network service, the serving loops and the timers have ended.\<close>

lemma returned_all_ended:
  assumes "runs serving_exec (\<lambda>_ _. True) serving_zero ops s" and "serve_at s = Returned"
  shows "net_at s = Ended \<and> listen_at s = Ended \<and> event_at s = Ended \<and> serve_wg s = 0 \<and> timer_wg s = 0"
  using serving_sys.safe_inv [OF assms(1)] assms(2) by (simp add: serving_inv_def)

text \<open>A loop that has drained its wait group can always report its end, and the report is received.\<close>

lemma ends_are_received:
  assumes "runs serving_exec (\<lambda>_ _. True) serving_zero ops s"
  shows "listen_at s = Draining \<Longrightarrow> serve_wg s = 0 \<Longrightarrow> \<exists>s'. serving_exec S_ListenEnd s = Inr ((), s')"
    and "event_at s = Draining \<Longrightarrow> timer_wg s = 0 \<Longrightarrow> \<exists>s'. serving_exec S_EventEnd s = Inr ((), s')"
    and "net_at s = Looping \<Longrightarrow> \<exists>s'. serving_exec S_NetEnd s = Inr ((), s')"
    and "listen_at s = Ended \<Longrightarrow> event_at s = Ended \<Longrightarrow> net_at s = Ended \<Longrightarrow> serve_at s \<noteq> Returned \<Longrightarrow>
      \<exists>s'. serving_exec S_Receive s = Inr ((), s')"
  using serving_sys.safe_inv [OF assms]
  by (auto simp: serving_inv_def serving_zero_def serving_defs await_def go_bind_def go_read_def go_modify_def go_panic_def
      split: serve_point.split)

text \<open>A second call panics.\<close>

lemma called_twice_panics:
  assumes "runs serving_exec (\<lambda>_ _. True) serving_zero ops s" and "serve_at s \<noteq> NotCalled"
  shows "serving_exec (S_Call ctx) s = Inl (Panic ''ListenAndServe called twice'')"
  using serving_sys.safe_inv [OF assms(1)] assms(2)
  by (auto simp: serving_inv_def serving_zero_def serving_defs go_bind_def go_read_def go_panic_def)

end
