(* ===== verification/Watchdog.thy ===== *)
theory Watchdog
  imports Go_Strings Go_Net "HOL-Library.Signed_Division"
begin

text \<open>
  The watchdog (\<open>watchdog/*.go\<close>): the log and the counters of the handles given to the application.
  The counters are 32-bit integers and wrap around; comparisons read them as signed numbers. The log
  is the list of the lines given to the logging package, with their levels. The counters are read and
  written by several atomic operations each; the model runs one call at a time.
\<close>

section \<open>The log\<close>

datatype log_level = LInfo | LWarn | LError | LFatal

record watchdog =
  handle_count :: "32 word"
  handle_count_print_threshold :: "32 word"
  null_handle_closed_count :: "32 word"
  wd_log :: "(log_level \<times> string) list"

definition watchdog_zero :: watchdog where
  "watchdog_zero = \<lparr>handle_count = 0, handle_count_print_threshold = 0, null_handle_closed_count = 0, wd_log = []\<rparr>"

definition wd_line :: "log_level \<Rightarrow> string \<Rightarrow> (watchdog, unit) go" where
  "wd_line l msg = go_modify (\<lambda>w. w\<lparr>wd_log := wd_log w @ [(l, msg)]\<rparr>)"

definition Info :: "string \<Rightarrow> (watchdog, unit) go" where
  "Info msg = wd_line LInfo msg"

definition Warn :: "string \<Rightarrow> (watchdog, unit) go" where
  "Warn msg = wd_line LWarn msg"

definition wd_Error :: "string \<Rightarrow> (watchdog, unit) go" where
  "wd_Error err = wd_line LError err"

text \<open>\<open>Fatal\<close> of the logging package ends the process after it has written the line.\<close>

definition wd_Fatal :: "string \<Rightarrow> (watchdog, unit) go" where
  "wd_Fatal msg = go_bind (wd_line LFatal msg) (\<lambda>_. go_panic (Panic ''os.Exit''))"

text \<open>The lines of the log file. \<open>fmt.Fprintf\<close> pads the level on the right to five characters; the time stamp is
  the text of the current time, and the result of the writer is an argument.\<close>

record FormatterArgs =
  fa_Level :: string
  fa_Caller :: string
  fa_Message :: string
  fa_Stack :: string

definition pad_right :: "nat \<Rightarrow> string \<Rightarrow> string" where
  "pad_right n s = s @ replicate (n - length s) (CHR '' '')"

definition timeMS8Formatter :: "string \<Rightarrow> (string \<Rightarrow> string + nat) \<Rightarrow> FormatterArgs \<Rightarrow> string + nat" where
  "timeMS8Formatter timestamp Write a = (if length (fa_Stack a) > 0
     then Write (timestamp @ '' '' @ pad_right 5 (fa_Level a) @ '' '' @ fa_Caller a @ '' '' @ fa_Message a @ [CHR 0x0A] @ fa_Stack a)
     else Write (timestamp @ '' | '' @ pad_right 5 (fa_Level a) @ '' '' @ fa_Message a @ [CHR 0x0A]))"

text \<open>The first two arguments are the errors of creating the directory and the file of the log.\<close>

definition wd_Init :: "string option \<Rightarrow> string option \<Rightarrow> (watchdog, unit) go" where
  "wd_Init mkdir open_file = (case mkdir of
     Some err \<Rightarrow> go_panic (Panic err)
   | None \<Rightarrow> (case open_file of
       Some err \<Rightarrow> go_panic (Panic err)
     | None \<Rightarrow> go_block [
         go_modify (\<lambda>w. w\<lparr>handle_count_print_threshold := 4\<rparr>),
         Info ''start'']))"

section \<open>The handle counters\<close>

definition CountHandleExport :: "(watchdog, unit) go" where
  "CountHandleExport = go_block [
     go_modify (\<lambda>w. w\<lparr>handle_count := handle_count w + 1\<rparr>),
     go_bind (go_read handle_count_print_threshold) (\<lambda>current_threshhold.
     go_bind (go_read handle_count) (\<lambda>c.
     if sint c > sint (current_threshhold * 2) then go_block [
       go_modify (\<lambda>w. w\<lparr>handle_count_print_threshold := current_threshhold * 2\<rparr>),
       Info (''open handle count: '' @ Itoa (sint c))]
     else go_ret ()))]"

definition CountHandleRelease :: "(watchdog, unit) go" where
  "CountHandleRelease = go_block [
     go_modify (\<lambda>w. w\<lparr>handle_count := handle_count w - 1\<rparr>),
     go_bind (go_read handle_count_print_threshold) (\<lambda>current_threshhold.
     go_bind (go_read handle_count) (\<lambda>c.
     if sint c < sint current_threshhold sdiv 2 \<and> sint current_threshhold > 4 then go_block [
       go_modify (\<lambda>w. w\<lparr>handle_count_print_threshold := word_of_int (sint current_threshhold sdiv 2)\<rparr>),
       Info (''open handle count: '' @ Itoa (sint c))]
     else go_ret ()))]"

definition CountNullHandleRelease :: "(watchdog, unit) go" where
  "CountNullHandleRelease = go_block [
     go_modify (\<lambda>w. w\<lparr>null_handle_closed_count := null_handle_closed_count w + 1\<rparr>),
     go_bind (go_read null_handle_closed_count) (\<lambda>c. Warn (''null handle close: '' @ Itoa (sint c)))]"

section \<open>Formatting a struct\<close>

text \<open>What reflection shows of a field: its name, whether it is exported, and its value. A slice that
  is not a byte slice has no content here. The text of a floating point number is the result of the
  formatting package.\<close>

datatype go_value =
    GoString string | GoBytes bytes | GoSlice | GoBool bool | GoInt int | GoUint nat | GoFloat string
  | GoNested

record go_field =
  Name :: string
  IsExported :: bool
  fval :: go_value

definition isSimple :: "go_value \<Rightarrow> bool" where
  "isSimple v \<longleftrightarrow> v \<noteq> GoNested"

definition hex_byte :: "8 word \<Rightarrow> string" where
  "hex_byte b = [digit_char (unat b div 16), digit_char (unat b mod 16)]"

text \<open>\<open>hex.EncodeToString\<close>.\<close>

definition EncodeToString :: "bytes \<Rightarrow> string" where
  "EncodeToString bs = concat (map hex_byte bs)"

fun formatValue :: "go_value \<Rightarrow> string" where
  "formatValue (GoString s) = s"
| "formatValue (GoBytes bs) = EncodeToString bs"
| "formatValue GoSlice = ''<slice>''"
| "formatValue (GoBool b) = (if b then ''true'' else ''false'')"
| "formatValue (GoInt i) = Itoa i"
| "formatValue (GoUint n) = format_nat 10 n"
| "formatValue (GoFloat s) = s"
| "formatValue GoNested = ''<unsupported>''"

definition formatFlatLine :: "go_field list \<Rightarrow> string" where
  "formatFlatLine fs = concat (map (\<lambda>f. if \<not> IsExported f then [] else if \<not> isSimple (fval f) then []
     else '' '' @ Name f @ ''='' @ formatValue (fval f)) fs)"

definition InfoV :: "string \<Rightarrow> go_field list \<Rightarrow> (watchdog, unit) go" where
  "InfoV head_text fs = Info (head_text @ formatFlatLine fs)"

section \<open>Facts\<close>

lemmas wd_defs = wd_line_def Info_def Warn_def wd_Error_def

lemma wpx_wd_line [wp_rules]: "wpx b (wd_line l msg) Q w = Q () (w\<lparr>wd_log := wd_log w @ [(l, msg)]\<rparr>)"
  by (simp add: wd_line_def wp_rules)

lemma wpx_Info [wp_rules]: "wpx b (Info msg) Q w = Q () (w\<lparr>wd_log := wd_log w @ [(LInfo, msg)]\<rparr>)"
  by (simp add: Info_def wp_rules)

lemma wpx_wd_Error [wp_rules]: "wpx b (wd_Error msg) Q w = Q () (w\<lparr>wd_log := wd_log w @ [(LError, msg)]\<rparr>)"
  by (simp add: wd_Error_def wp_rules)

lemma wp_CountHandleExport: "wp CountHandleExport (\<lambda>_ w'. handle_count w' = handle_count w + 1
    \<and> null_handle_closed_count w' = null_handle_closed_count w) w"
  by (simp add: CountHandleExport_def wpx_block wp_rules)

lemma wp_CountHandleRelease: "wp CountHandleRelease (\<lambda>_ w'. handle_count w' = handle_count w - 1
    \<and> null_handle_closed_count w' = null_handle_closed_count w) w"
  by (simp add: CountHandleRelease_def wpx_block wp_rules)

lemma wp_CountNullHandleRelease: "wp CountNullHandleRelease (\<lambda>_ w'. handle_count w' = handle_count w
    \<and> null_handle_closed_count w' = null_handle_closed_count w + 1) w"
  by (simp add: CountNullHandleRelease_def wpx_block Warn_def wp_rules)

text \<open>The threshold is a power of two of at least four and follows the count: after every call the
  count is at most twice the threshold, as long as fewer than \<open>2 ^ 30\<close> handles are open.\<close>

definition threshold_ok :: "watchdog \<Rightarrow> bool" where
  "threshold_ok w \<longleftrightarrow> (\<exists>k. 2 \<le> k \<and> k \<le> 29 \<and> sint (handle_count_print_threshold w) = 2 ^ k)
     \<and> 0 \<le> sint (handle_count w) \<and> sint (handle_count w) \<le> 2 * sint (handle_count_print_threshold w)"

lemma threshold_okI:
  "2 \<le> k \<Longrightarrow> k \<le> 29 \<Longrightarrow> sint (handle_count_print_threshold w) = 2 ^ k \<Longrightarrow> 0 \<le> sint (handle_count w) \<Longrightarrow>
   sint (handle_count w) \<le> 2 * 2 ^ k \<Longrightarrow> threshold_ok w"
  by (auto simp: threshold_ok_def)

lemma sint_add_small:
  fixes a b :: "32 word"
  assumes "- (2 ^ 31) \<le> sint a + sint b" and "sint a + sint b < 2 ^ 31"
  shows "sint (a + b) = sint a + sint b"
  using assms by (simp add: sint_word_ariths signed_take_bit_int_eq_self)

lemma sint_of_int_small: "- (2 ^ 31) \<le> i \<Longrightarrow> i < 2 ^ 31 \<Longrightarrow> sint (word_of_int i :: 32 word) = i"
  by (simp add: signed_of_int signed_take_bit_int_eq_self)

lemma sint_double:
  fixes t :: "32 word"
  assumes "sint t = 2 ^ k" and "k \<le> 29"
  shows "sint (t * 2) = 2 * 2 ^ k"
proof -
  have "(2 :: int) ^ k \<le> 2 ^ 29" using assms(2) by (intro power_increasing) simp_all
  moreover have "(1 :: int) \<le> 2 ^ k" by (rule one_le_power) simp
  ultimately have "sint (t + t) = sint t + sint t" unfolding assms(1) [symmetric]
    by (intro sint_add_small) simp_all
  then show ?thesis using assms(1) by (simp only: mult_2_right mult_2)
qed

lemma threshold_export:
  assumes ok: "threshold_ok w" and room: "sint (handle_count w) < 2 ^ 30"
  shows "wp CountHandleExport (\<lambda>_. threshold_ok) w"
proof -
  obtain k where k: "2 \<le> k" "k \<le> 29" "sint (handle_count_print_threshold w) = 2 ^ k"
    and c: "0 \<le> sint (handle_count w)" "sint (handle_count w) \<le> 2 * 2 ^ k"
    using ok by (auto simp: threshold_ok_def)
  have inc: "sint (handle_count w + 1) = sint (handle_count w) + 1"
    using c(1) room sint_add_small [of "handle_count w" 1] by simp
  have dbl: "sint (handle_count_print_threshold w * 2) = 2 * 2 ^ k" using sint_double [OF k(3,2)] .
  have "k \<noteq> 29" if "2 * 2 ^ k < sint (handle_count w) + 1" using that room by auto
  then have "Suc k \<le> 29" if "2 * 2 ^ k < sint (handle_count w) + 1" using that k(2) by fastforce
  moreover have "1 \<le> sint (handle_count w)" if "2 * 2 ^ k = sint (handle_count w)"
    using that one_le_power [of "2 :: int" k] by linarith
  ultimately show ?thesis
    using k c by (auto simp: CountHandleExport_def wpx_block wp_rules threshold_ok_def inc dbl
        intro!: exI [where x = k] exI [where x = "Suc k"])
qed

lemma threshold_release:
  assumes ok: "threshold_ok w" and some: "0 < sint (handle_count w)"
  shows "wp CountHandleRelease (\<lambda>_. threshold_ok) w"
proof -
  obtain k where k: "2 \<le> k" "k \<le> 29" "sint (handle_count_print_threshold w) = 2 ^ k"
    and c: "sint (handle_count w) \<le> 2 * 2 ^ k"
    using ok by (auto simp: threshold_ok_def)
  have "(2 :: int) ^ k \<le> 2 ^ 29" using k(2) by (intro power_increasing) simp_all
  then have dec: "sint (handle_count w - 1) = sint (handle_count w) - 1"
    using c some sint_add_small [of "handle_count w" "- 1"] by simp
  obtain j where j: "k = Suc j" using k(1) by (cases k) auto
  have h2: "(2 :: int) ^ k sdiv 2 = 2 ^ j" by (simp add: j signed_divide_int_def)
  have "sint (word_of_int x :: 32 word) = x" if "1 \<le> x" "2 * x \<le> 2 ^ 29" for x
    using that by (intro sint_of_int_small) simp_all
  from this [of "2 ^ j"] have "sint (word_of_int (2 ^ j) :: 32 word) = 2 ^ j"
    using \<open>2 ^ k \<le> 2 ^ 29\<close> unfolding j power_Suc by (metis one_le_power one_le_numeral)
  note half = h2 this [unfolded of_int_power of_int_numeral]
  have "2 \<le> j" if "4 < (2 :: int) ^ k"
  proof (rule ccontr)
    assume "\<not> 2 \<le> j"
    then have "k \<le> 2" using j by simp
    then have "(2 :: int) ^ k \<le> 2 ^ 2" by (intro power_increasing) simp_all
    then show False using that by simp
  qed
  moreover have "j \<le> 29" using k(2) j by simp
  ultimately show ?thesis
    using k c some
    by (simp add: CountHandleRelease_def wpx_block wp_rules dec half threshold_okI [of j] threshold_okI [of k])
qed

end
