(* ===== verification/Native_Base.thy ===== *)
theory Native_Base
  imports Watchdog
begin

text \<open>
  What the exported library rests on: the memory of the caller, the helpers of
  \<open>native_dll/marshalling.go\<close>, and the handle table of \<open>runtime/cgo\<close>. A pointer is an address, 0 is
  nil, and an address without a byte is not mapped: an access there is a fault. An \<open>int\<close> of C has 32
  bits; a handle has the 64 bits of \<open>uintptr_t\<close>.
\<close>

type_synonym c_int = "32 word"
type_synonym c_ptr = nat
type_synonym c_handle = "64 word"

definition ERR_EOF :: c_int where "ERR_EOF = - 1"
definition ERROR :: c_int where "ERROR = - 1"
definition INVALID_ARGUMENTS :: c_int where "INVALID_ARGUMENTS = - 2"
definition BUFFER_OVERFLOW :: c_int where "BUFFER_OVERFLOW = - 3"
definition REMOTE_ERROR :: c_int where "REMOTE_ERROR = - 4"
definition INVALID_HANDLE :: c_int where "INVALID_HANDLE = - 99"

record 'v cstate =
  c_mem :: "nat \<rightharpoonup> 8 word"
  cgo_handles :: "c_handle \<rightharpoonup> 'v"
  handleIdx :: c_handle
  wdog :: watchdog

section \<open>Memory\<close>

definition mapped :: "c_ptr \<Rightarrow> nat \<Rightarrow> (nat \<rightharpoonup> 8 word) \<Rightarrow> bool" where
  "mapped a n m \<longleftrightarrow> list_all (\<lambda>i. m (a + i) \<noteq> None) [0..<n]"

definition mem_bytes :: "c_ptr \<Rightarrow> nat \<Rightarrow> (nat \<rightharpoonup> 8 word) \<Rightarrow> bytes" where
  "mem_bytes a n m = map (\<lambda>i. the (m (a + i))) [0..<n]"

definition mem_put :: "c_ptr \<Rightarrow> bytes \<Rightarrow> (nat \<rightharpoonup> 8 word) \<Rightarrow> (nat \<rightharpoonup> 8 word)" where
  "mem_put a bs m = (\<lambda>x. if a \<le> x \<and> x < a + length bs then Some (bs ! (x - a)) else m x)"

definition go_fault :: "('s, 'a) go" where
  "go_fault = go_panic (Panic ''invalid memory address'')"

definition mem_read :: "c_ptr \<Rightarrow> nat \<Rightarrow> (('v, 'z) cstate_scheme, bytes) go" where
  "mem_read a n = go_bind (go_read c_mem) (\<lambda>m. if mapped a n m then go_ret (mem_bytes a n m) else go_fault)"

definition mem_write :: "c_ptr \<Rightarrow> bytes \<Rightarrow> (('v, 'z) cstate_scheme, unit) go" where
  "mem_write a bs = go_bind (go_read c_mem) (\<lambda>m.
     if mapped a (length bs) m then go_modify (\<lambda>d. d\<lparr>c_mem := mem_put a bs (c_mem d)\<rparr>) else go_fault)"

text \<open>\<open>*p\<close> for a pointer to an \<open>int\<close> (4 bytes) or to a handle (8 bytes), the least significant byte first.\<close>

definition le_bytes :: "nat \<Rightarrow> 'a :: len word \<Rightarrow> bytes" where
  "le_bytes k w = map (\<lambda>i. word_of_nat (unat w div 256 ^ i)) [0..<k]"

definition of_le :: "bytes \<Rightarrow> nat" where
  "of_le bs = foldr (\<lambda>b n. unat b + 256 * n) bs 0"

definition c_int_at :: "c_ptr \<Rightarrow> (nat \<rightharpoonup> 8 word) \<Rightarrow> c_int" where
  "c_int_at p m = word_of_nat (of_le (mem_bytes p 4 m))"

definition c_handle_at :: "c_ptr \<Rightarrow> (nat \<rightharpoonup> 8 word) \<Rightarrow> c_handle" where
  "c_handle_at p m = word_of_nat (of_le (mem_bytes p 8 m))"

definition load_int :: "c_ptr \<Rightarrow> (('v, 'z) cstate_scheme, c_int) go" where
  "load_int p = (if p = 0 then go_panic NilDeref
     else go_bind (mem_read p 4) (\<lambda>bs. go_ret (word_of_nat (of_le bs))))"

definition store_int :: "c_ptr \<Rightarrow> c_int \<Rightarrow> (('v, 'z) cstate_scheme, unit) go" where
  "store_int p v = (if p = 0 then go_panic NilDeref else mem_write p (le_bytes 4 v))"

definition store_handle :: "c_ptr \<Rightarrow> c_handle \<Rightarrow> (('v, 'z) cstate_scheme, unit) go" where
  "store_handle p h = (if p = 0 then go_panic NilDeref else mem_write p (le_bytes 8 h))"

text \<open>The conversions between strings and byte slices.\<close>

definition str_bytes :: "string \<Rightarrow> bytes" where
  "str_bytes s = map (\<lambda>c. word_of_nat (byte_of c)) s"

definition bytes_str :: "bytes \<Rightarrow> string" where
  "bytes_str bs = map (\<lambda>b. char_of (unat b)) bs"

section \<open>Marshalling\<close>

text \<open>\<open>(*[1 << 28]byte)(unsafe.Pointer(buf))[:buflen]\<close>: a slice of the memory is its address and its
  length. It panics for the nil pointer and for a length that is not in range.\<close>

definition array_slice :: "c_ptr \<Rightarrow> c_int \<Rightarrow> ('s, c_ptr \<times> nat) go" where
  "array_slice buf buflen = (if buf = 0 then go_panic NilDeref
     else if sint buflen < 0 \<or> 2 ^ 28 < sint buflen then go_panic SliceRange
     else go_ret (buf, nat (sint buflen)))"

definition TryMarshalBytes :: "c_ptr \<Rightarrow> c_int \<Rightarrow> bytes \<Rightarrow> (('v, 'z) cstate_scheme, c_int) go" where
  "TryMarshalBytes buf buflen data = (if sint buflen < int (length data) then go_ret BUFFER_OVERFLOW
     else go_bind (array_slice buf buflen) (\<lambda>(a, n).
       go_bind (mem_write a (take n data)) (\<lambda>_. go_ret (word_of_nat (length data)))))"

definition TryUnmarshalBytes :: "c_ptr \<Rightarrow> c_int \<Rightarrow> ('s, (c_ptr \<times> nat) option) go" where
  "TryUnmarshalBytes buf buflen = (if buf = 0 \<or> buflen = 0 then go_ret None
     else go_bind (array_slice buf buflen) (\<lambda>s. go_ret (Some s)))"

text \<open>A string argument: \<open>string(buf)\<close> of the slice, if there is one.\<close>

definition unmarshal_string :: "c_ptr \<Rightarrow> c_int \<Rightarrow> (('v, 'z) cstate_scheme, string option) go" where
  "unmarshal_string buf buflen = go_bind (TryUnmarshalBytes buf buflen) (\<lambda>s. case s of
     None \<Rightarrow> go_ret None
   | Some (a, n) \<Rightarrow> go_bind (mem_read a n) (\<lambda>bs. go_ret (Some (bytes_str bs))))"

text \<open>Where the code takes an empty string for the length 0.\<close>

definition unmarshal_optional :: "c_ptr \<Rightarrow> c_int \<Rightarrow> (('v, 'z) cstate_scheme, string option) go" where
  "unmarshal_optional buf buflen = (if buflen = 0 then go_ret (Some []) else unmarshal_string buf buflen)"

section \<open>Handles\<close>

definition NewHandle :: "'v \<Rightarrow> (('v, 'z) cstate_scheme, c_handle) go" where
  "NewHandle v = go_bind (go_modify (\<lambda>d. d\<lparr>handleIdx := handleIdx d + 1\<rparr>)) (\<lambda>_.
     go_bind (go_read handleIdx) (\<lambda>h.
     if h = 0 then go_panic (Panic ''runtime/cgo: ran out of handle space'')
     else go_bind (go_modify (\<lambda>d. d\<lparr>cgo_handles := (cgo_handles d)(h \<mapsto> v)\<rparr>)) (\<lambda>_. go_ret h)))"

definition invalid_handle :: "('s, 'a) go" where
  "invalid_handle = go_panic (Panic ''runtime/cgo: misuse of an invalid Handle'')"

definition Handle_Value :: "c_handle \<Rightarrow> (('v, 'z) cstate_scheme, 'v) go" where
  "Handle_Value h = go_bind (go_read (\<lambda>d. cgo_handles d h)) (\<lambda>v. case v of
     None \<Rightarrow> invalid_handle
   | Some x \<Rightarrow> go_ret x)"

definition Handle_Delete :: "c_handle \<Rightarrow> (('v, 'z) cstate_scheme, unit) go" where
  "Handle_Delete h = go_bind (go_read (\<lambda>d. cgo_handles d h)) (\<lambda>v. case v of
     None \<Rightarrow> invalid_handle
   | Some _ \<Rightarrow> go_modify (\<lambda>d. d\<lparr>cgo_handles := (cgo_handles d)(h := None)\<rparr>))"

definition wd_do :: "(watchdog, 'a) go \<Rightarrow> (('v, 'z) cstate_scheme, 'a) go" where
  "wd_do = go_zoom wdog (\<lambda>w d. d\<lparr>wdog := w\<rparr>)"

text \<open>\<open>watchdog.CountHandleExport(); cgo.NewHandle(v)\<close>, which ends every export of a value.\<close>

definition export_handle :: "'v \<Rightarrow> (('v, 'z) cstate_scheme, c_handle) go" where
  "export_handle v = go_bind (wd_do CountHandleExport) (\<lambda>_. NewHandle v)"

text \<open>A failing export logs the error and returns the nil handle.\<close>

definition log_fail :: "string \<Rightarrow> (('v, 'z) cstate_scheme, c_handle) go" where
  "log_fail err = go_bind (wd_do (wd_Error err)) (\<lambda>_. go_ret 0)"

section \<open>Facts\<close>

lemma bind_array_slice:
  "go_bind (array_slice buf n) g = (if buf = 0 then go_panic NilDeref
     else if sint n < 0 \<or> 2 ^ 28 < sint n then go_panic SliceRange else g (buf, nat (sint n)))"
  by (simp add: array_slice_def go_bind_def go_panic_def go_ret_def fun_eq_iff)

lemma mem_put_bytes [simp]: "mem_bytes a (length bs) (mem_put a bs m) = bs"
  by (rule nth_equalityI) (simp_all add: mem_bytes_def mem_put_def)

lemma mem_bytes_put_other:
  assumes "{a ..< a + length bs} \<inter> {b ..< b + n} = {}"
  shows "mem_bytes b n (mem_put a bs m) = mem_bytes b n m"
  unfolding mem_bytes_def
proof (rule map_cong [OF refl])
  fix i
  assume "i \<in> set [0..<n]"
  then have "b + i \<in> {b ..< b + n}" by simp
  then have "b + i \<notin> {a ..< a + length bs}" using assms by blast
  then show "the (mem_put a bs m (b + i)) = the (m (b + i))" by (auto simp: mem_put_def)
qed

lemma length_le_bytes [simp]: "length (le_bytes k w) = k"
  by (simp add: le_bytes_def)

lemma of_le_base: "of_le (map (\<lambda>i. word_of_nat (n div 256 ^ i)) [0..<k]) = n mod 256 ^ k"
proof (induction k arbitrary: n)
  case (Suc k)
  have "map (\<lambda>i. word_of_nat (n div 256 ^ i) :: 8 word) [0..<Suc k]
      = word_of_nat n # map (\<lambda>i. word_of_nat (n div 256 div 256 ^ i)) [0..<k]"
    by (simp add: upt_conv_Cons map_Suc_upt [symmetric] div_mult2_eq del: upt_Suc)
  then have "of_le (map (\<lambda>i. word_of_nat (n div 256 ^ i)) [0..<Suc k])
      = unat (word_of_nat n :: 8 word) + 256 * (n div 256 mod 256 ^ k)"
    using Suc by (simp add: of_le_def)
  then show ?case by (simp add: unsigned_of_nat take_bit_eq_mod mod_mult2_eq)
qed (simp add: of_le_def)

lemma c_int_at_put [simp]: "c_int_at p (mem_put p (le_bytes 4 v) m) = v"
proof -
  have "unat v < 256 ^ 4" using unsigned_less [of v] by simp
  then show ?thesis
    using mem_put_bytes [of p "le_bytes 4 v" m] by (simp add: c_int_at_def le_bytes_def of_le_base)
qed

lemma c_handle_at_put [simp]: "c_handle_at p (mem_put p (le_bytes 8 h) m) = h"
proof -
  have "unat h < 256 ^ 8" using unsigned_less [of h] by simp
  then show ?thesis
    using mem_put_bytes [of p "le_bytes 8 h" m] by (simp add: c_handle_at_def le_bytes_def of_le_base)
qed

lemma bind_TryUnmarshalBytes:
  "go_bind (TryUnmarshalBytes buf n) g = (if buf = 0 \<or> n = 0 then g None
     else if sint n < 0 \<or> 2 ^ 28 < sint n then go_panic SliceRange else g (Some (buf, nat (sint n))))"
  by (simp add: TryUnmarshalBytes_def array_slice_def go_bind_def go_panic_def go_ret_def fun_eq_iff)

end
