(* ===== verification/Native.thy ===== *)
theory Native
  imports Native_Base Host And_Stat_Text
begin

text \<open>
  The exported library, \<open>native_dll/dllmain.go\<close>: every exported function of the C interface. The state
  extends the memory and the handle table by the objects the handles refer to: path resolvers, hosts,
  HTTP clients and responses. A value behind a handle names these objects by index, so that two handles
  (or a host and a handle) share an object as the pointers of the code do.

  An out-parameter is a pointer into the memory of the caller; what a function stores there it writes to
  the memory, and it fails where the code does when the pointer is nil or the memory is not mapped.
  Functions that wait are split where the host waits. The packages \<open>encoding/json\<close>, \<open>net/http\<close>, \<open>ssh\<close> and the file system are
  parameters or arguments.
\<close>

section \<open>Objects and handles\<close>

datatype handle_value =
    HError string
  | HPathResolver nat
  | HAbystServer string
  | HHost nat
  | HWorld nat world_ref
  | HMemberRequest nat hash world_ref ANDPeerSession
  | HMember nat WorldMember
  | HObjectAppend hash string
  | HObjectDelete hash string
  | HMemberLeave hash
  | HAbystClient nat
  | HAbystResponse nat

text \<open>An HTTP response; the body is an object with its own state, nil for the response that the
  library makes itself.\<close>

record 'b http_response =
  StatusCode :: int
  Status :: string
  Header :: "(string \<times> string list) list option"
  ContentLength :: int
  Body :: "'b option"
  body_closed :: bool

text \<open>A client is open or closed with a code and a text.\<close>

record ('w, 'b) dll = "handle_value cstate" +
  resolvers :: "SimplePathResolver list"
  hosts :: "('w AbyssHost \<times> nat) list"
  clients :: "(int \<times> string) option list"
  responses :: "'b http_response list"
  stat_file :: "string option"

definition dll_init :: "(nat \<rightharpoonup> 8 word) \<Rightarrow> ('w, 'b) dll" where
  "dll_init m = \<lparr>c_mem = m, cgo_handles = Map.empty, handleIdx = 0, wdog = watchdog_zero,
     resolvers = [], hosts = [], clients = [], responses = [], stat_file = None\<rparr>"

text \<open>A method of a host sees the path resolver that it shares with its handle.\<close>

definition host_view :: "nat \<Rightarrow> ('w, 'b) dll \<Rightarrow> 'w AbyssHost" where
  "host_view i d = (fst (hosts d ! i))\<lparr>pathResolver := resolvers d ! snd (hosts d ! i)\<rparr>"

definition put_host :: "nat \<Rightarrow> 'w AbyssHost \<Rightarrow> ('w, 'b) dll \<Rightarrow> ('w, 'b) dll" where
  "put_host i h d = d\<lparr>hosts := (hosts d)[i := (h, snd (hosts d ! i))]\<rparr>"

definition host_do :: "nat \<Rightarrow> ('w AbyssHost, 'a) go \<Rightarrow> (('w, 'b) dll, 'a) go" where
  "host_do i = go_zoom (host_view i) (put_host i)"

text \<open>The type assertions \<open>cgo.Handle(h).Value().(T)\<close>.\<close>

definition as_resolver :: "handle_value \<Rightarrow> nat option" where
  "as_resolver v = (case v of HPathResolver r \<Rightarrow> Some r | _ \<Rightarrow> None)"

definition as_server :: "handle_value \<Rightarrow> string option" where
  "as_server v = (case v of HAbystServer path \<Rightarrow> Some path | _ \<Rightarrow> None)"

definition as_host :: "handle_value \<Rightarrow> nat option" where
  "as_host v = (case v of HHost i \<Rightarrow> Some i | _ \<Rightarrow> None)"

definition as_world :: "handle_value \<Rightarrow> (nat \<times> world_ref) option" where
  "as_world v = (case v of HWorld i w \<Rightarrow> Some (i, w) | _ \<Rightarrow> None)"

definition as_request :: "handle_value \<Rightarrow> (nat \<times> hash \<times> world_ref \<times> ANDPeerSession) option" where
  "as_request v = (case v of HMemberRequest i m w ps \<Rightarrow> Some (i, m, w, ps) | _ \<Rightarrow> None)"

definition as_member :: "handle_value \<Rightarrow> (nat \<times> WorldMember) option" where
  "as_member v = (case v of HMember i m \<Rightarrow> Some (i, m) | _ \<Rightarrow> None)"

definition as_append :: "handle_value \<Rightarrow> (hash \<times> string) option" where
  "as_append v = (case v of HObjectAppend p j \<Rightarrow> Some (p, j) | _ \<Rightarrow> None)"

definition as_delete :: "handle_value \<Rightarrow> (hash \<times> string) option" where
  "as_delete v = (case v of HObjectDelete p j \<Rightarrow> Some (p, j) | _ \<Rightarrow> None)"

definition as_leave :: "handle_value \<Rightarrow> hash option" where
  "as_leave v = (case v of HMemberLeave p \<Rightarrow> Some p | _ \<Rightarrow> None)"

definition as_client :: "handle_value \<Rightarrow> nat option" where
  "as_client v = (case v of HAbystClient c \<Rightarrow> Some c | _ \<Rightarrow> None)"

definition as_response :: "handle_value \<Rightarrow> nat option" where
  "as_response v = (case v of HAbystResponse r \<Rightarrow> Some r | _ \<Rightarrow> None)"

definition with_handle ::
    "c_handle \<Rightarrow> (handle_value \<Rightarrow> 'x option) \<Rightarrow> (('w, 'b) dll, 'a) go \<Rightarrow> ('x \<Rightarrow> (('w, 'b) dll, 'a) go) \<Rightarrow>
     (('w, 'b) dll, 'a) go" where
  "with_handle h as_t bad k = go_bind (Handle_Value h) (\<lambda>v. case as_t v of None \<Rightarrow> bad | Some x \<Rightarrow> k x)"

definition marshalError :: "string \<Rightarrow> (('w, 'b) dll, c_handle) go" where
  "marshalError err = export_handle (HError err)"

text \<open>\<open>*err_out = marshalError(err)\<close>: the call comes before the store.\<close>

definition set_err :: "c_ptr \<Rightarrow> string \<Rightarrow> (('w, 'b) dll, unit) go" where
  "set_err err_out err = go_bind (marshalError err) (\<lambda>h. store_handle err_out h)"

section \<open>The library and its errors\<close>

definition dll_Init :: "string option \<Rightarrow> string option \<Rightarrow> (('w, 'b) dll, c_int) go" where
  "dll_Init mkdir open_file = go_bind (wd_do (wd_Init mkdir open_file)) (\<lambda>_. go_ret 0)"

text \<open>The assertion that the value is an error has no second result, so another value panics.\<close>

definition error_of :: "c_handle \<Rightarrow> (('w, 'b) dll, string) go" where
  "error_of h = go_bind (Handle_Value h) (\<lambda>v. case v of HError err \<Rightarrow> go_ret err | _ \<Rightarrow> bad_object)"

definition GetErrorBodyLength :: "c_handle \<Rightarrow> (('w, 'b) dll, c_int) go" where
  "GetErrorBodyLength h = go_bind (error_of h) (\<lambda>err. go_ret (word_of_nat (length err)))"

definition GetErrorBody :: "c_handle \<Rightarrow> c_ptr \<Rightarrow> c_int \<Rightarrow> (('w, 'b) dll, c_int) go" where
  "GetErrorBody h buf_ptr buf_len = go_bind (error_of h) (\<lambda>err. TryMarshalBytes buf_ptr buf_len (str_bytes err))"

text \<open>The interface \<open>IDestructable\<close> asks for a method \<open>Destuct\<close>. The client has it; the method of the
  response is called \<open>Destruct\<close>, so a response is not destructable.\<close>

definition Client_Destuct :: "nat \<Rightarrow> (('w, 'b) dll, unit) go" where
  "Client_Destuct c = go_modify (\<lambda>d. d\<lparr>clients := (clients d)[c := Some (0, ''abyst client disconnected'')]\<rparr>)"

definition Response_Destruct :: "nat \<Rightarrow> (('w, 'b) dll, unit) go" where
  "Response_Destruct r = go_bind (go_read (\<lambda>d. Body (responses d ! r))) (\<lambda>b. go_bind (go_nonnil b) (\<lambda>_.
     go_modify (\<lambda>d. d\<lparr>responses := (responses d)[r := (responses d ! r)\<lparr>body_closed := True\<rparr>]\<rparr>)))"

definition IDestructable_Destuct :: "handle_value \<Rightarrow> (('w, 'b) dll, unit) go" where
  "IDestructable_Destuct v = (case as_client v of Some c \<Rightarrow> Client_Destuct c | None \<Rightarrow> go_ret ())"

definition CloseAbyssHandle :: "c_handle \<Rightarrow> (('w, 'b) dll, unit) go" where
  "CloseAbyssHandle h = (if h = 0 then wd_do CountNullHandleRelease
     else go_bind (Handle_Value h) (\<lambda>inner. go_block [
       IDestructable_Destuct inner,
       Handle_Delete h,
       wd_do CountHandleRelease]))"

section \<open>Path resolvers\<close>

definition dll_NewSimplePathResolver :: "(('w, 'b) dll, c_handle) go" where
  "dll_NewSimplePathResolver = go_bind (go_read (\<lambda>d. length (resolvers d))) (\<lambda>r.
     go_bind (go_modify (\<lambda>d. d\<lparr>resolvers := resolvers d @ [NewSimplePathResolver]\<rparr>)) (\<lambda>_.
     export_handle (HPathResolver r)))"

definition resolver_do :: "nat \<Rightarrow> (SimplePathResolver, 'a) go \<Rightarrow> (('w, 'b) dll, 'a) go" where
  "resolver_do r = go_zoom (\<lambda>d. resolvers d ! r) (\<lambda>x d. d\<lparr>resolvers := (resolvers d)[r := x]\<rparr>)"

text \<open>A \<open>uuid.UUID\<close> is an array of 16 bytes, the first the most significant. Copying a slice into it
  takes its first 16 bytes.\<close>

definition uuid_bytes :: "uuid \<Rightarrow> bytes" where
  "uuid_bytes u = map (\<lambda>i. word_of_nat (unat u div 256 ^ (15 - i))) [0..<16]"

definition uuid_of_bytes :: "bytes \<Rightarrow> uuid" where
  "uuid_of_bytes bs = word_of_nat (foldl (\<lambda>n b. n * 256 + unat b) 0 (take 16 bs))"

definition SimplePathResolver_SetMapping ::
    "c_handle \<Rightarrow> c_ptr \<Rightarrow> c_int \<Rightarrow> c_ptr \<Rightarrow> c_ptr \<Rightarrow> (('w, 'b) dll, unit) go" where
  "SimplePathResolver_SetMapping h path_ptr path_len world_ID err_out =
     with_handle h as_resolver (set_err err_out ''invalid handle'') (\<lambda>r.
     go_bind (unmarshal_optional path_ptr path_len) (\<lambda>p. case p of
       None \<Rightarrow> set_err err_out ''failed to parse path_buf''
     | Some path \<Rightarrow> go_bind (TryUnmarshalBytes world_ID 16) (\<lambda>data. case data of
         None \<Rightarrow> set_err err_out ''failed to parse world_ID''
       | Some (a, n) \<Rightarrow> go_bind (mem_read a n) (\<lambda>bs.
           go_bind (resolver_do r (TrySetMapping path (uuid_of_bytes bs))) (\<lambda>ok.
           if \<not> ok then set_err err_out ''mapping from same path already exists'' else go_ret ())))))"

definition SimplePathResolver_DeleteMapping :: "c_handle \<Rightarrow> c_ptr \<Rightarrow> c_int \<Rightarrow> (('w, 'b) dll, c_int) go" where
  "SimplePathResolver_DeleteMapping h path_ptr path_len =
     go_bind (unmarshal_optional path_ptr path_len) (\<lambda>p. case p of
       None \<Rightarrow> go_ret INVALID_ARGUMENTS
     | Some path \<Rightarrow> with_handle h as_resolver (go_ret INVALID_HANDLE) (\<lambda>r.
         go_bind (resolver_do r (DeleteMapping path)) (\<lambda>_. go_ret 0)))"

section \<open>Creating a host\<close>

definition NewSimpleAbystServer :: "c_ptr \<Rightarrow> c_int \<Rightarrow> (('w, 'b) dll, c_handle) go" where
  "NewSimpleAbystServer path_ptr path_len = go_bind (unmarshal_string path_ptr path_len) (\<lambda>p. case p of
     None \<Rightarrow> go_ret 0
   | Some path \<Rightarrow> export_handle (HAbystServer path))"

text \<open>The handler of the server: what it does for the path of a request. \<open>filepath_Join\<close> and \<open>os_Stat\<close> are the
  functions of those packages; \<open>os_Stat\<close> says whether a file exists and is a directory.\<close>

datatype abyst_route = ServeFile string | NotFound | FileServer string

definition abyst_handler ::
    "(string \<Rightarrow> string \<Rightarrow> string) \<Rightarrow> (string \<Rightarrow> bool option) \<Rightarrow> string \<Rightarrow> string \<Rightarrow> abyst_route" where
  "abyst_handler filepath_Join os_Stat path url_path = (if url_path = ''/'' then ServeFile (filepath_Join path ''main.aml'')
     else case os_Stat (filepath_Join path url_path) of
       None \<Rightarrow> NotFound
     | Some is_dir \<Rightarrow> if is_dir then NotFound else FileServer path)"

text \<open>The private key as \<open>ssh.ParseRawPrivateKey\<close> returns it; \<open>None\<close> when it is of a kind without a
  public part.\<close>

definition NewHost ::
    "crypto \<Rightarrow> root_random \<Rightarrow> tls_random \<Rightarrow> (string + int) \<Rightarrow> (string + (string + bytes option list) list) \<Rightarrow>
     (string \<Rightarrow> string + PrivateKey option) \<Rightarrow> c_ptr \<Rightarrow> c_int \<Rightarrow> c_handle \<Rightarrow> c_handle \<Rightarrow> (('w, 'b) dll, c_handle) go" where
  "NewHost cr rr tr udp_port interfaces ParseRawPrivateKey pem_ptr pem_len h_path_resolver h_abyst_server =
     with_handle h_abyst_server as_server (log_fail ''invalid handle for abyst_server'') (\<lambda>_.
     go_bind (unmarshal_string pem_ptr pem_len) (\<lambda>p. case p of
       None \<Rightarrow> go_ret 0
     | Some root_priv_key_pem \<Rightarrow> (case ParseRawPrivateKey root_priv_key_pem of
         Inl err \<Rightarrow> log_fail err
       | Inr None \<Rightarrow> log_fail ''unsupported private key type''
       | Inr (Some root_key) \<Rightarrow>
           with_handle h_path_resolver as_resolver (log_fail ''invalid handle for path resolver'') (\<lambda>r.
           case NewBetaAddressSelector interfaces of
             Inl err \<Rightarrow> log_fail err
           | Inr addr_selector \<Rightarrow>
               go_bind (NewBetaNetService cr rr tr udp_port root_key addr_selector) (\<lambda>s. case s of
                 Inl err \<Rightarrow> log_fail err
               | Inr net_service \<Rightarrow> go_bind (go_read (\<lambda>d. (length (hosts d), resolvers d ! r))) (\<lambda>(i, path_resolver).
                   go_bind (go_modify (\<lambda>d. d\<lparr>hosts := hosts d @
                     [(NewAbyssHost net_service (NewAND (rs_root_id_hash (localIdentity net_service))) path_resolver, r)]\<rparr>))
                   (\<lambda>_. export_handle (HHost i))))))))"

section \<open>Operations of a host\<close>

definition Host_GetLocalAbyssURL :: "c_handle \<Rightarrow> c_ptr \<Rightarrow> c_int \<Rightarrow> (('w, 'b) dll, c_int) go" where
  "Host_GetLocalAbyssURL h buf_ptr buf_len = with_handle h as_host (go_ret INVALID_HANDLE) (\<lambda>i.
     go_bind (host_do i GetLocalAbyssURL) (\<lambda>url. TryMarshalBytes buf_ptr buf_len (str_bytes (ToString url))))"

text \<open>The two lengths are read where they are needed, so the second after the first certificate is
  written; when a certificate was not written, both are replaced by the lengths that are needed.\<close>

definition Host_GetCertificates ::
    "c_handle \<Rightarrow> c_ptr \<Rightarrow> c_ptr \<Rightarrow> c_ptr \<Rightarrow> c_ptr \<Rightarrow> (('w, 'b) dll, c_int) go" where
  "Host_GetCertificates h root_ptr root_len hs_ptr hs_len = with_handle h as_host (go_ret INVALID_HANDLE) (\<lambda>i.
     go_bind (go_read (\<lambda>d. localIdentity (NetworkService (host_view i d)))) (\<lambda>ident.
     go_bind (load_int root_len) (\<lambda>n1. go_bind (TryMarshalBytes root_ptr n1 (str_bytes (root_self_cert ident))) (\<lambda>res1.
     go_bind (load_int hs_len) (\<lambda>n2. go_bind (TryMarshalBytes hs_ptr n2 (str_bytes (handshake_key_cert ident))) (\<lambda>res2.
     if sint res1 \<le> 0 \<or> sint res2 \<le> 0 then
       go_bind (store_int root_len (word_of_nat (length (root_self_cert ident)))) (\<lambda>_.
       go_bind (store_int hs_len (word_of_nat (length (handshake_key_cert ident)))) (\<lambda>_. go_ret INVALID_ARGUMENTS))
     else go_ret 0))))))"

definition Host_AppendKnownPeer ::
    "crypto \<Rightarrow> time \<Rightarrow> c_handle \<Rightarrow> c_ptr \<Rightarrow> c_int \<Rightarrow> c_ptr \<Rightarrow> c_int \<Rightarrow> c_ptr \<Rightarrow> (('w, 'b) dll, unit) go" where
  "Host_AppendKnownPeer cr now h root_ptr root_len hs_ptr hs_len err_out =
     with_handle h as_host (set_err err_out ''invalid handle'') (\<lambda>i.
     go_bind (TryUnmarshalBytes root_ptr root_len) (\<lambda>r. case r of
       None \<Rightarrow> set_err err_out ''invalid root_cer_buf''
     | Some (ra, rn) \<Rightarrow> go_bind (TryUnmarshalBytes hs_ptr hs_len) (\<lambda>k. case k of
         None \<Rightarrow> set_err err_out ''invalid hs_key_cert_buf''
       | Some (ka, kn) \<Rightarrow> go_bind (mem_read ra rn) (\<lambda>root_cert. go_bind (mem_read ka kn) (\<lambda>hs_cert.
           go_bind (host_do i (net_do (AppendKnownPeer cr now (bytes_str root_cert) (bytes_str hs_cert)))) (\<lambda>err.
           case err of None \<Rightarrow> go_ret () | Some e \<Rightarrow> set_err err_out e))))))"

definition Host_OpenOutboundConnection :: "time \<Rightarrow> c_handle \<Rightarrow> c_ptr \<Rightarrow> c_int \<Rightarrow> (('w, 'b) dll, c_int) go" where
  "Host_OpenOutboundConnection now h url_ptr url_len = with_handle h as_host (go_ret INVALID_HANDLE) (\<lambda>i.
     go_bind (unmarshal_string url_ptr url_len) (\<lambda>u. case u of
       None \<Rightarrow> go_ret INVALID_ARGUMENTS
     | Some url \<Rightarrow> go_bind (TryParse url) (\<lambda>r. case r of
         Inl _ \<Rightarrow> go_ret INVALID_ARGUMENTS
       | Inr aurl \<Rightarrow> go_bind (host_do i (OpenOutboundConnection now aurl)) (\<lambda>_. go_ret 0))))"

definition Host_WriteANDStatisticsLogFile :: "bool \<Rightarrow> c_handle \<Rightarrow> (('w, 'b) dll, c_int) go" where
  "Host_WriteANDStatisticsLogFile writable_file h = with_handle h as_host (go_ret INVALID_HANDLE) (\<lambda>i.
     go_bind (go_modify (\<lambda>d. if writable_file
       then d\<lparr>stat_file := Some (ANDStatistics_String (stat (neighborDiscoveryAlgorithm (host_view i d))))\<rparr> else d))
     (\<lambda>_. go_ret 0))"

section \<open>Worlds\<close>

text \<open>Opening and joining up to the wait for the join result: \<open>Inl\<close> is the returned handle, \<open>Inr\<close> the
  channel on which the host waits. The handle of the world is made after the wait.\<close>

definition Host_OpenWorld_begin ::
    "'w wire_env \<Rightarrow> hash list \<Rightarrow> time \<Rightarrow> uuid \<Rightarrow> c_handle \<Rightarrow> c_ptr \<Rightarrow> c_int \<Rightarrow> (('w, 'b) dll, c_handle + nat \<times> nat) go" where
  "Host_OpenWorld_begin env ord now L h url_ptr url_len =
     with_handle h as_host (go_bind (log_fail ''invalid handle'') (\<lambda>z. go_ret (Inl z))) (\<lambda>i.
     go_bind (unmarshal_string url_ptr url_len) (\<lambda>u. case u of
       None \<Rightarrow> go_ret (Inl 0)
     | Some url \<Rightarrow> go_bind (host_do i (OpenWorld_begin env ord now L url)) (\<lambda>r. case r of
         Inl err \<Rightarrow> go_bind (log_fail err) (\<lambda>z. go_ret (Inl z))
       | Inr ch \<Rightarrow> go_ret (Inr (i, ch)))))"

definition export_world :: "nat \<Rightarrow> world_ref option \<Rightarrow> (('w, 'b) dll, c_handle) go" where
  "export_world i world = go_bind (go_nonnil world) (\<lambda>w. export_handle (HWorld i w))"

definition Host_OpenWorld_end :: "nat \<Rightarrow> nat \<Rightarrow> (('w, 'b) dll, c_handle) go" where
  "Host_OpenWorld_end i ch = go_bind (host_do i (OpenWorld_end ch)) (export_world i)"

definition Host_JoinWorld_begin ::
    "'w wire_env \<Rightarrow> hash list \<Rightarrow> time \<Rightarrow> uuid \<Rightarrow> c_handle \<Rightarrow> c_ptr \<Rightarrow> c_int \<Rightarrow> (('w, 'b) dll, c_handle + nat \<times> nat) go" where
  "Host_JoinWorld_begin env ord now L h url_ptr url_len =
     with_handle h as_host (go_bind (log_fail ''invalid handle'') (\<lambda>z. go_ret (Inl z))) (\<lambda>i.
     go_bind (unmarshal_string url_ptr url_len) (\<lambda>u. case u of
       None \<Rightarrow> go_bind (wd_do (Info ''failed to unmarshal url'')) (\<lambda>_. go_ret (Inl 0))
     | Some url \<Rightarrow> go_bind (TryParse url) (\<lambda>p. case p of
         Inl err \<Rightarrow> go_bind (log_fail err) (\<lambda>z. go_ret (Inl z))
       | Inr aurl \<Rightarrow> go_bind (host_do i (JoinWorld_begin env ord now L aurl)) (\<lambda>r. case r of
           Inl err \<Rightarrow> go_bind (log_fail err) (\<lambda>z. go_ret (Inl z))
         | Inr ch \<Rightarrow> go_ret (Inr (i, ch))))))"

definition Host_JoinWorld_end :: "nat \<Rightarrow> nat \<Rightarrow> (('w, 'b) dll, c_handle) go" where
  "Host_JoinWorld_end i ch = go_bind (host_do i (JoinWorld_end ch)) (\<lambda>r. case r of
     Inl err \<Rightarrow> log_fail err
   | Inr world \<Rightarrow> export_world i world)"

definition World_GetSessionID :: "c_handle \<Rightarrow> c_ptr \<Rightarrow> (('w, 'b) dll, c_int) go" where
  "World_GetSessionID h world_ID_out = with_handle h as_world (go_ret INVALID_HANDLE) (\<lambda>(i, w).
     go_bind (TryUnmarshalBytes world_ID_out 16) (\<lambda>dest. case dest of
       None \<Rightarrow> go_ret INVALID_ARGUMENTS
     | Some (a, n) \<Rightarrow> go_bind (go_read (\<lambda>d. w_session_id (world_store (host_view i d) ! w))) (\<lambda>world_ID.
         go_bind (mem_write a (take n (uuid_bytes world_ID))) (\<lambda>_. go_ret 0))))"

definition World_GetURL :: "c_handle \<Rightarrow> c_ptr \<Rightarrow> c_int \<Rightarrow> (('w, 'b) dll, c_int) go" where
  "World_GetURL h buf_ptr buf_len = with_handle h as_world (go_ret INVALID_HANDLE) (\<lambda>(i, w).
     go_bind (go_read (\<lambda>d. w_url (world_store (host_view i d) ! w))) (\<lambda>url.
     TryMarshalBytes buf_ptr buf_len (str_bytes url)))"

definition WorldLeave :: "'w wire_env \<Rightarrow> hash list \<Rightarrow> c_handle \<Rightarrow> (('w, 'b) dll, c_int) go" where
  "WorldLeave env ord h = with_handle h as_world (go_ret INVALID_HANDLE) (\<lambda>(i, w).
     go_bind (host_do i (LeaveWorld env ord w)) (\<lambda>_. go_ret 0))"

section \<open>World events\<close>

text \<open>The objects of an event as they are written to JSON, and the \<open>encoding/json\<close> functions that the
  library calls, each for the type it is called with; \<open>None\<close> is an error.\<close>

record json_object =
  json_ID :: string
  json_Addr :: string
  json_Transform :: "32 word list"

record json_env =
  Marshal_objects :: "json_object list \<Rightarrow> string option"
  Marshal_strings :: "string list \<Rightarrow> string option"
  Marshal_response :: "int \<Rightarrow> string \<Rightarrow> (string \<times> string list) list option \<Rightarrow> string option"
  Unmarshal_objects :: "string \<Rightarrow> string + json_object list"
  Unmarshal_strings :: "string \<Rightarrow> string + string list"

text \<open>\<open>data, _ := json.Marshal(...)\<close> leaves \<open>data\<close> nil on an error.\<close>

definition marshal_or_nil :: "string option \<Rightarrow> string" where
  "marshal_or_nil r = (case r of None \<Rightarrow> [] | Some s \<Rightarrow> s)"

definition zero_json_object :: json_object where
  "zero_json_object = \<lparr>json_ID = [], json_Addr = [], json_Transform = replicate 7 0\<rparr>"

definition json_of_object :: "ObjectInfo \<Rightarrow> json_object" where
  "json_of_object i = \<lparr>json_ID = EncodeToString (uuid_bytes (ID i)), json_Addr = Addr i, json_Transform = Transform i\<rparr>"

text \<open>The branches of the switch over the event: the type is stored first, then the value is exported.\<close>

definition export_event :: "json_env \<Rightarrow> nat \<Rightarrow> c_ptr \<Rightarrow> world_event \<Rightarrow> (('w, 'b) dll, c_handle) go" where
  "export_event js i event_type_out e = (case e of
     EWorldMemberRequest member w ps \<Rightarrow> go_bind (store_int event_type_out 1) (\<lambda>_.
       export_handle (HMemberRequest i member w ps))
   | EWorldMemberReady m \<Rightarrow> go_bind (store_int event_type_out 2) (\<lambda>_. export_handle (HMember i m))
   | EMemberObjectAppend peer_hash obs \<Rightarrow> go_bind (store_int event_type_out 3) (\<lambda>_.
       go_bind (Filter zero_json_object obs (\<lambda>i. go_ret (json_of_object i))) (\<lambda>infos.
       export_handle (HObjectAppend peer_hash (marshal_or_nil (Marshal_objects js infos)))))
   | EMemberObjectDelete peer_hash ids \<Rightarrow> go_bind (store_int event_type_out 4) (\<lambda>_.
       go_bind (Filter [] ids (\<lambda>u. go_ret (EncodeToString (uuid_bytes u)))) (\<lambda>texts.
       export_handle (HObjectDelete peer_hash (marshal_or_nil (Marshal_strings js texts)))))
   | EWorldMemberLeave peer_hash \<Rightarrow> go_bind (store_int event_type_out 5) (\<lambda>_. export_handle (HMemberLeave peer_hash))
   | EWorldTerminate \<Rightarrow> go_bind (store_int event_type_out 6) (\<lambda>_. go_ret 0))"

definition World_WaitEvent :: "json_env \<Rightarrow> c_handle \<Rightarrow> c_ptr \<Rightarrow> (('w, 'b) dll, c_handle) go" where
  "World_WaitEvent js h event_type_out = with_handle h as_world (log_fail ''invalid handle'') (\<lambda>(i, w).
     go_bind (host_do i (receive_event w)) (export_event js i event_type_out))"

definition WorldPeerRequest_GetHash :: "c_handle \<Rightarrow> c_ptr \<Rightarrow> c_int \<Rightarrow> (('w, 'b) dll, c_int) go" where
  "WorldPeerRequest_GetHash h buf buf_len = with_handle h as_request (go_ret INVALID_HANDLE) (\<lambda>(i, member, w, ps).
     TryMarshalBytes buf buf_len (str_bytes member))"

definition WorldPeerRequest_Accept :: "'w wire_env \<Rightarrow> hash list \<Rightarrow> c_handle \<Rightarrow> (('w, 'b) dll, c_int) go" where
  "WorldPeerRequest_Accept env ord h = with_handle h as_request (go_ret INVALID_HANDLE) (\<lambda>(i, member, w, ps).
     go_bind (host_do i (request_Accept env ord w ps)) (\<lambda>_. go_ret 0))"

definition WorldPeerRequest_Decline ::
    "'w wire_env \<Rightarrow> c_handle \<Rightarrow> c_int \<Rightarrow> c_ptr \<Rightarrow> c_int \<Rightarrow> (('w, 'b) dll, c_int) go" where
  "WorldPeerRequest_Decline env h code msg msglen = go_bind (unmarshal_optional msg msglen) (\<lambda>m. case m of
     None \<Rightarrow> go_ret INVALID_ARGUMENTS
   | Some msg_str \<Rightarrow> with_handle h as_request (go_ret INVALID_HANDLE) (\<lambda>(i, member, w, ps).
       go_bind (host_do i (request_Decline env w ps (sint code) msg_str)) (\<lambda>_. go_ret 0)))"

definition WorldPeer_GetHash :: "c_handle \<Rightarrow> c_ptr \<Rightarrow> c_int \<Rightarrow> (('w, 'b) dll, c_int) go" where
  "WorldPeer_GetHash h buf buf_len = with_handle h as_member (go_ret INVALID_HANDLE) (\<lambda>(i, m).
     TryMarshalBytes buf buf_len (str_bytes (wm_hash m)))"

text \<open>\<open>hex.DecodeString\<close>; the texts of its errors are only logged.\<close>

fun DecodeString :: "string \<Rightarrow> string + bytes" where
  "DecodeString [] = Inr []"
| "DecodeString [c] = Inl (if is_hex c then ''encoding/hex: odd length hex string'' else ''encoding/hex: invalid byte'')"
| "DecodeString (c # c' # s) = (case (digit_val c, digit_val c') of
     (Some a, Some b) \<Rightarrow> (case DecodeString s of
       Inl err \<Rightarrow> Inl err
     | Inr bs \<Rightarrow> Inr (word_of_nat (16 * a + b) # bs))
   | _ \<Rightarrow> Inl ''encoding/hex: invalid byte'')"

text \<open>\<open>uuid.UUID(bytes)\<close>, a conversion of a slice to an array, panics when the slice is too short.\<close>

definition to_UUID :: "bytes \<Rightarrow> ('s, uuid) go" where
  "to_UUID bs = (if length bs < 16 then go_panic SliceRange else go_ret (uuid_of_bytes bs))"

definition decode_id :: "string \<Rightarrow> ('s, string + uuid) go" where
  "decode_id s = (case DecodeString s of
     Inl err \<Rightarrow> go_ret (Inl err)
   | Inr bs \<Rightarrow> go_bind (to_UUID bs) (\<lambda>u. go_ret (Inr u)))"

definition decode_object :: "json_object \<Rightarrow> ('s, string + ObjectInfo) go" where
  "decode_object i = go_try (decode_id (json_ID i)) (\<lambda>u.
     go_ret (Inr \<lparr>ID = u, Addr = json_Addr i, Transform = json_Transform i\<rparr>))"

definition invalid_json :: "string \<Rightarrow> (('w, 'b) dll, c_int) go" where
  "invalid_json err = go_bind (wd_do (wd_Error err)) (\<lambda>_. go_ret INVALID_ARGUMENTS)"

definition WorldPeer_AppendObjects ::
    "json_env \<Rightarrow> 'w wire_env \<Rightarrow> c_handle \<Rightarrow> c_ptr \<Rightarrow> c_int \<Rightarrow> (('w, 'b) dll, c_int) go" where
  "WorldPeer_AppendObjects js env h json_ptr json_len = with_handle h as_member (go_ret INVALID_HANDLE) (\<lambda>(i, m).
     go_bind (unmarshal_string json_ptr json_len) (\<lambda>j. case j of
       None \<Rightarrow> go_ret INVALID_ARGUMENTS
     | Some json_data \<Rightarrow> (case Unmarshal_objects js json_data of
         Inl err \<Rightarrow> invalid_json err
       | Inr raw_object_infos \<Rightarrow> go_bind (Filter_until_err raw_object_infos decode_object) (\<lambda>(res, rest, err).
           case err of
             Some e \<Rightarrow> invalid_json e
           | None \<Rightarrow> go_bind (host_do i (AppendObjects env m res)) (\<lambda>_. go_ret 0)))))"

definition WorldPeer_DeleteObjects ::
    "json_env \<Rightarrow> 'w wire_env \<Rightarrow> c_handle \<Rightarrow> c_ptr \<Rightarrow> c_int \<Rightarrow> (('w, 'b) dll, c_int) go" where
  "WorldPeer_DeleteObjects js env h json_ptr json_len = with_handle h as_member (go_ret INVALID_HANDLE) (\<lambda>(i, m).
     go_bind (unmarshal_string json_ptr json_len) (\<lambda>j. case j of
       None \<Rightarrow> go_ret INVALID_ARGUMENTS
     | Some json_data \<Rightarrow> (case Unmarshal_strings js json_data of
         Inl err \<Rightarrow> invalid_json err
       | Inr raw_object_ids \<Rightarrow> go_bind (Filter_until_err raw_object_ids decode_id) (\<lambda>(res, rest, err).
           case err of
             Some e \<Rightarrow> invalid_json e
           | None \<Rightarrow> go_bind (host_do i (DeleteObjects env m res)) (\<lambda>_. go_ret 0)))))"

definition WorldPeerObjectAppend_GetHead :: "c_handle \<Rightarrow> c_ptr \<Rightarrow> c_ptr \<Rightarrow> (('w, 'b) dll, c_int) go" where
  "WorldPeerObjectAppend_GetHead h peer_hash_out body_len = with_handle h as_append (go_ret INVALID_HANDLE) (\<lambda>(p, j).
     go_bind (store_int body_len (word_of_nat (length j))) (\<lambda>_. TryMarshalBytes peer_hash_out 128 (str_bytes p)))"

definition WorldPeerObjectAppend_GetBody :: "c_handle \<Rightarrow> c_ptr \<Rightarrow> c_int \<Rightarrow> (('w, 'b) dll, c_int) go" where
  "WorldPeerObjectAppend_GetBody h buf buf_len = with_handle h as_append (go_ret INVALID_HANDLE) (\<lambda>(p, j).
     TryMarshalBytes buf buf_len (str_bytes j))"

definition WorldPeerObjectDelete_GetHead :: "c_handle \<Rightarrow> c_ptr \<Rightarrow> c_ptr \<Rightarrow> (('w, 'b) dll, c_int) go" where
  "WorldPeerObjectDelete_GetHead h peer_hash_out body_len = with_handle h as_delete (go_ret INVALID_HANDLE) (\<lambda>(p, j).
     go_bind (store_int body_len (word_of_nat (length j))) (\<lambda>_. TryMarshalBytes peer_hash_out 128 (str_bytes p)))"

definition WorldPeerObjectDelete_GetBody :: "c_handle \<Rightarrow> c_ptr \<Rightarrow> c_int \<Rightarrow> (('w, 'b) dll, c_int) go" where
  "WorldPeerObjectDelete_GetBody h buf buf_len = with_handle h as_delete (go_ret INVALID_HANDLE) (\<lambda>(p, j).
     TryMarshalBytes buf buf_len (str_bytes j))"

definition WorldPeerLeave_GetHash :: "c_handle \<Rightarrow> c_ptr \<Rightarrow> c_int \<Rightarrow> (('w, 'b) dll, c_int) go" where
  "WorldPeerLeave_GetHash h buf buf_len = with_handle h as_leave (go_ret INVALID_HANDLE) (\<lambda>p.
     TryMarshalBytes buf buf_len (str_bytes p))"

end
