(* ===== verification/Native_Http.thy ===== *)
theory Native_Http
  imports Native
begin

text \<open>
  The HTTP part of the exported library (\<open>native_dll/dllmain.go\<close>): clients of the abyst servers of other
  hosts, requests, and reading the body of a response. The body is an \<open>io.ReadCloser\<close> of \<open>net/http\<close>: its
  \<open>Read\<close> is a parameter that maps the length of the buffer and the state of the body to the bytes it puts
  there, an error, and the new state.
\<close>

section \<open>Clients\<close>

text \<open>\<open>AbyssHost.GetAbystClientConnection\<close>; \<open>dial\<close> is the result of dialing the address.\<close>

definition GetAbystClientConnection ::
    "time \<Rightarrow> (UDPAddr \<Rightarrow> string option) \<Rightarrow> hash \<Rightarrow> ('w AbyssHost, string option) go" where
  "GetAbystClientConnection now dial peer_hash = go_bind (net_do (ConnectAbyst now peer_hash)) (\<lambda>r. case r of
     Inl err \<Rightarrow> go_ret (Some err)
   | Inr address \<Rightarrow> go_ret (dial address))"

text \<open>The timeout is an argument of the exported function that it does not use.\<close>

definition Host_GetAbystClientConnection ::
    "time \<Rightarrow> (UDPAddr \<Rightarrow> string option) \<Rightarrow> c_handle \<Rightarrow> c_ptr \<Rightarrow> c_int \<Rightarrow> c_int \<Rightarrow> c_ptr \<Rightarrow>
     (('w, 'b) dll, c_handle) go" where
  "Host_GetAbystClientConnection now dial h peer_hash_ptr peer_hash_len timeout_ms err_out =
     with_handle h as_host (go_bind (set_err err_out ''invalid handle'') (\<lambda>_. go_ret 0)) (\<lambda>i.
     go_bind (unmarshal_string peer_hash_ptr peer_hash_len) (\<lambda>p. case p of
       None \<Rightarrow> go_ret 0
     | Some peer_hash \<Rightarrow> go_bind (host_do i (GetAbystClientConnection now dial peer_hash)) (\<lambda>r. case r of
         Some err \<Rightarrow> go_bind (set_err err_out err) (\<lambda>_. go_ret 0)
       | None \<Rightarrow> go_bind (go_read (\<lambda>d. length (clients d))) (\<lambda>c.
           go_bind (go_modify (\<lambda>d. d\<lparr>clients := clients d @ [None]\<rparr>)) (\<lambda>_.
           export_handle (HAbystClient c))))))"

section \<open>Requests\<close>

definition export_response :: "'b http_response \<Rightarrow> (('w, 'b) dll, c_handle) go" where
  "export_response resp = go_bind (go_read (\<lambda>d. length (responses d))) (\<lambda>r.
     go_bind (go_modify (\<lambda>d. d\<lparr>responses := responses d @ [resp]\<rparr>)) (\<lambda>_. export_handle (HAbystResponse r)))"

text \<open>The response for a method that is not supported; the fields that the literal does not name have
  their zero values, so the body is nil.\<close>

definition bad_request :: "'b http_response" where
  "bad_request = \<lparr>StatusCode = 400, Status = ''400 Bad Request'', Header = None, ContentLength = 0, Body = None,
     body_closed = False\<rparr>"

text \<open>\<open>new_request\<close> is the error of \<open>http.NewRequest\<close> for a URL, \<open>round_trip\<close> the result of the request
  on a client.\<close>

definition AbystClient_Request ::
    "(string \<Rightarrow> string option) \<Rightarrow> (nat \<Rightarrow> string \<Rightarrow> string + 'b http_response) \<Rightarrow> c_handle \<Rightarrow> c_int \<Rightarrow> c_ptr \<Rightarrow> c_int \<Rightarrow>
     c_ptr \<Rightarrow> (('w, 'b) dll, c_handle) go" where
  "AbystClient_Request new_request round_trip h request_method path_ptr path_len err_out =
     with_handle h as_client (go_bind (set_err err_out ''invalid handle'') (\<lambda>_. go_ret 0)) (\<lambda>c.
     if request_method \<noteq> 0 then export_response bad_request
     else go_bind (unmarshal_optional path_ptr path_len) (\<lambda>p. case p of
       None \<Rightarrow> go_ret 0
     | Some path_string \<Rightarrow> (let url = ''https://a.abyst/'' @ path_string in case new_request url of
         Some err \<Rightarrow> go_bind (set_err err_out err) (\<lambda>_. go_ret 0)
       | None \<Rightarrow> (case round_trip c url of
           Inl err \<Rightarrow> go_bind (set_err err_out err) (\<lambda>_. go_ret 0)
         | Inr response \<Rightarrow> export_response response))))"

section \<open>Responses\<close>

definition AbyssResponse_GetHeaders :: "json_env \<Rightarrow> c_handle \<Rightarrow> c_ptr \<Rightarrow> c_int \<Rightarrow> (('w, 'b) dll, c_int) go" where
  "AbyssResponse_GetHeaders js h buf buf_len = with_handle h as_response (go_ret INVALID_HANDLE) (\<lambda>r.
     go_bind (go_read (\<lambda>d. responses d ! r)) (\<lambda>resp.
     case Marshal_response js (StatusCode resp) (Status resp) (Header resp) of
       None \<Rightarrow> TryMarshalBytes buf buf_len
         (str_bytes (marshal_or_nil (Marshal_response js 422 ''Unprocessable Entity'' None)))
     | Some json_bytes \<Rightarrow> TryMarshalBytes buf buf_len (str_bytes json_bytes)))"

definition AbyssResponse_GetContentLength :: "c_handle \<Rightarrow> (('w, 'b) dll, c_int) go" where
  "AbyssResponse_GetContentLength h = with_handle h as_response (go_ret INVALID_HANDLE) (\<lambda>r.
     go_bind (go_read (\<lambda>d. ContentLength (responses d ! r))) (\<lambda>n.
     if n < 0 \<or> 1024 * 1024 * 1024 < n then go_ret REMOTE_ERROR else go_ret (word_of_int n)))"

datatype read_error = IO_EOF | IO_Error string

type_synonym 'b reader = "nat \<Rightarrow> 'b \<Rightarrow> (bytes \<times> read_error option) \<times> 'b"

definition set_body :: "nat \<Rightarrow> 'b \<Rightarrow> (('w, 'b) dll, unit) go" where
  "set_body r b = go_modify (\<lambda>d. d\<lparr>responses := (responses d)[r := (responses d ! r)\<lparr>Body := Some b\<rparr>]\<rparr>)"

definition AbystResponse_ReadBody :: "'b reader \<Rightarrow> c_handle \<Rightarrow> c_ptr \<Rightarrow> c_int \<Rightarrow> (('w, 'b) dll, c_int) go" where
  "AbystResponse_ReadBody rd h buf_ptr buf_len = with_handle h as_response (go_ret INVALID_HANDLE) (\<lambda>r.
     if sint buf_len \<le> 0 \<or> 1024 * 1024 * 1024 < sint buf_len then go_ret INVALID_ARGUMENTS
     else go_bind (TryUnmarshalBytes buf_ptr buf_len) (\<lambda>s. case s of
       None \<Rightarrow> go_ret INVALID_ARGUMENTS
     | Some (a, n) \<Rightarrow> go_bind (go_read (\<lambda>d. Body (responses d ! r))) (\<lambda>body.
         go_bind (go_nonnil body) (\<lambda>b. case rd n b of ((data, err), b') \<Rightarrow>
           go_bind (set_body r b') (\<lambda>_. go_bind (mem_write a (take n data)) (\<lambda>_.
           if data = [] \<and> err \<noteq> None then go_ret ERR_EOF else go_ret (word_of_nat (length data))))))))"

text \<open>The loop of \<open>AbystResponse_ReadBodyAll\<close>, which reads into the rest of the buffer until the body
  returns an error. It has no other exit, so it is partial: \<open>None\<close> means that it does not end. The
  result is everything that was read and the error.\<close>

partial_function (option) read_all ::
    "'b reader \<Rightarrow> nat \<Rightarrow> bytes \<Rightarrow> 'b \<Rightarrow> ((bytes \<times> read_error) \<times> 'b) option" where
  "read_all rd n acc b = (case rd (n - length acc) b of ((data, err), b') \<Rightarrow> (case err of
     None \<Rightarrow> read_all rd n (acc @ data) b'
   | Some e \<Rightarrow> Some ((acc @ data, e), b')))"

definition AbystResponse_ReadBodyAll :: "'b reader \<Rightarrow> c_handle \<Rightarrow> c_ptr \<Rightarrow> c_int \<Rightarrow> (('w, 'b) dll, c_int) go" where
  "AbystResponse_ReadBodyAll rd h buf_ptr buf_len = with_handle h as_response (go_ret INVALID_HANDLE) (\<lambda>r.
     go_bind (go_read (\<lambda>d. responses d ! r)) (\<lambda>resp.
     if sint buf_len < ContentLength resp then go_ret BUFFER_OVERFLOW
     else go_bind (TryUnmarshalBytes buf_ptr buf_len) (\<lambda>s. case s of
       None \<Rightarrow> go_ret INVALID_ARGUMENTS
     | Some (a, n) \<Rightarrow> go_bind (go_nonnil (Body resp)) (\<lambda>b. case read_all rd n [] b of
         None \<Rightarrow> go_panic Blocked
       | Some ((data, err), b') \<Rightarrow>
           go_bind (set_body r b') (\<lambda>_. go_bind (mem_write a (take n data)) (\<lambda>_. case err of
             IO_EOF \<Rightarrow> go_ret (word_of_nat (length data))
           | IO_Error e \<Rightarrow> go_bind (wd_do (wd_Error e)) (\<lambda>_. go_ret ERROR)))))))"

end
