(* ===== verification/Native_Frame.thy ===== *)
theory Native_Frame
  imports Native_Http Step_Rel
begin

text \<open>
  What every exported function leaves alone: the memory of the caller is changed only in the buffers
  that the call was given, and the body of a response is never closed. Both are instances of one
  interface, a relation between the states before and after a statement that is reflexive and
  transitive (\<open>step_rel\<close>), extended by what the functions of the library do (\<open>library_rel\<close>).
\<close>

section \<open>Relations that statements keep\<close>

context step_rel
begin

lemma R_loop_until: "(\<And>x. transits R (f x)) \<Longrightarrow> transits R (loop_until f xs res)"
  by (induction xs arbitrary: res) (auto intro!: R_ret R_bind split: sum.split)

lemma R_Filter: "(\<And>x. transits R (f x)) \<Longrightarrow> transits R (Filter z xs f)"
  by (auto simp: Filter_def split: prod.split intro!: R_fold R_bind R_ret)

lemma R_Filter_until_err: "(\<And>x. transits R (f x)) \<Longrightarrow> transits R (Filter_until_err xs f)"
  by (simp add: Filter_until_err_def R_loop_until)

lemma R_array_slice: "transits R (array_slice buf n)"
  by (simp add: array_slice_def R_ret R_panic)

lemma R_TryUnmarshalBytes: "transits R (TryUnmarshalBytes buf n)"
  by (auto simp: TryUnmarshalBytes_def intro!: R_ret R_bind R_array_slice)

lemma R_decode_id: "transits R (decode_id x)"
  by (auto simp: decode_id_def to_UUID_def intro!: R_ret R_bind R_panic split: sum.split)

lemma R_decode_object: "transits R (decode_object x)"
  by (auto simp: decode_object_def go_try_def intro!: R_ret R_bind R_decode_id split: sum.split)

lemma R_TryParse: "transits R (TryParse url)"
  by (simp add: TryParse_ref R_ret)

lemma R_try: "transits R f \<Longrightarrow> (\<And>x. transits R (g x)) \<Longrightarrow> transits R (go_try f g)"
  by (auto simp: go_try_def intro!: R_bind R_ret split: sum.split)

lemma R_AbyssIdFromKey: "transits R (AbyssIdFromKey cr k)"
  by (auto simp: AbyssIdFromKey_def intro!: R_ret split: sum.split option.split)

lemma R_NewRootIdentity: "transits R (NewRootIdentity cr rr k)"
  by (auto simp: NewRootIdentity_def Let_def intro!: R_try R_ret R_AbyssIdFromKey)

lemma R_NewTLSIdentity: "transits R (NewTLSIdentity cr tr r)"
  by (auto simp: NewTLSIdentity_def Let_def intro!: R_try R_ret)

lemma R_NewBetaNetService: "transits R (NewBetaNetService cr rr tr udp_port k sel)"
  by (auto simp: NewBetaNetService_def intro!: R_try R_ret R_NewRootIdentity R_NewTLSIdentity R_TryParse)

lemmas R_pure = R_ret R_panic R_read R_nonnil R_bind R_Filter R_Filter_until_err R_array_slice
  R_TryUnmarshalBytes R_decode_id R_decode_object R_TryParse R_NewBetaNetService

end

section \<open>The calls of an application\<close>

text \<open>The addresses of a buffer.\<close>

definition buffer :: "c_ptr \<Rightarrow> c_int \<Rightarrow> nat set" where
  "buffer a n = {a ..< a + nat (sint n)}"

text \<open>The buffers of \<open>Host_GetCertificates\<close>. Their lengths are in memory. If the first certificate is written
  over the second length, that length is whatever the certificate says, and nothing is said of the
  memory.\<close>

definition certificate_buffers :: "c_ptr \<Rightarrow> c_ptr \<Rightarrow> c_ptr \<Rightarrow> c_ptr \<Rightarrow> (nat \<rightharpoonup> 8 word) \<Rightarrow> nat set" where
  "certificate_buffers p1 l1 p2 l2 m = buffer p1 (c_int_at l1 m) \<union> buffer l1 4 \<union> buffer l2 4
     \<union> (if buffer p1 (c_int_at l1 m) \<inter> buffer l2 4 = {} then buffer p2 (c_int_at l2 m) else UNIV)"

text \<open>\<open>exported d f A\<close>: the application may call \<open>f\<close> in state \<open>d\<close>, and \<open>A\<close> holds the addresses of the buffers
  and out-parameters that it passes to be written. The wait for a world ends on a host that exists; nothing else is asked
  of the application. The last rule is what the goroutines of a host do meanwhile, any statement of the host.\<close>

definition go_void :: "('s, 'a) go \<Rightarrow> ('s, unit) go" where
  "go_void f = go_bind f (\<lambda>_. go_ret ())"

inductive exported :: "('w, 'b) dll \<Rightarrow> (('w, 'b) dll, unit) go \<Rightarrow> nat set \<Rightarrow> bool" for d where
  E_Init: "exported d (go_void (dll_Init m f)) {}"
| E_GetErrorBodyLength: "exported d (go_void (GetErrorBodyLength h)) {}"
| E_GetErrorBody: "exported d (go_void (GetErrorBody h p n)) (buffer p n)"
| E_CloseAbyssHandle: "exported d (CloseAbyssHandle h) {}"
| E_NewSimplePathResolver: "exported d (go_void dll_NewSimplePathResolver) {}"
| E_SetMapping: "exported d (go_void (SimplePathResolver_SetMapping h p n u e)) (buffer e 8)"
| E_DeleteMapping: "exported d (go_void (SimplePathResolver_DeleteMapping h p n)) {}"
| E_NewSimpleAbystServer: "exported d (go_void (NewSimpleAbystServer p n)) {}"
| E_NewHost: "exported d (go_void (NewHost cr rr tr udp ifs parse p n h1 h2)) {}"
| E_GetLocalAbyssURL: "exported d (go_void (Host_GetLocalAbyssURL h p n)) (buffer p n)"
| E_GetCertificates: "exported d (go_void (Host_GetCertificates h p1 l1 p2 l2)) (certificate_buffers p1 l1 p2 l2 (c_mem d))"
| E_AppendKnownPeer: "exported d (go_void (Host_AppendKnownPeer cr now h p1 n1 p2 n2 e)) (buffer e 8)"
| E_OpenOutboundConnection: "exported d (go_void (Host_OpenOutboundConnection now h p n)) {}"
| E_WriteStatistics: "exported d (go_void (Host_WriteANDStatisticsLogFile ok h)) {}"
| E_OpenWorld_begin: "exported d (go_void (Host_OpenWorld_begin env ord now L h p n)) {}"
| E_OpenWorld_end: "i < length (hosts d) \<Longrightarrow> exported d (go_void (Host_OpenWorld_end i ch)) {}"
| E_JoinWorld_begin: "exported d (go_void (Host_JoinWorld_begin env ord now L h p n)) {}"
| E_JoinWorld_end: "i < length (hosts d) \<Longrightarrow> exported d (go_void (Host_JoinWorld_end i ch)) {}"
| E_GetSessionID: "exported d (go_void (World_GetSessionID h p)) (buffer p 16)"
| E_GetURL: "exported d (go_void (World_GetURL h p n)) (buffer p n)"
| E_WorldLeave: "exported d (go_void (WorldLeave env ord h)) {}"
| E_WaitEvent: "exported d (go_void (World_WaitEvent js h t)) (buffer t 4)"
| E_Request_GetHash: "exported d (go_void (WorldPeerRequest_GetHash h p n)) (buffer p n)"
| E_Request_Accept: "exported d (go_void (WorldPeerRequest_Accept env ord h)) {}"
| E_Request_Decline: "exported d (go_void (WorldPeerRequest_Decline env h code p n)) {}"
| E_Peer_GetHash: "exported d (go_void (WorldPeer_GetHash h p n)) (buffer p n)"
| E_AppendObjects: "exported d (go_void (WorldPeer_AppendObjects js env h p n)) {}"
| E_DeleteObjects: "exported d (go_void (WorldPeer_DeleteObjects js env h p n)) {}"
| E_Append_GetHead: "exported d (go_void (WorldPeerObjectAppend_GetHead h p l)) (buffer p 128 \<union> buffer l 4)"
| E_Append_GetBody: "exported d (go_void (WorldPeerObjectAppend_GetBody h p n)) (buffer p n)"
| E_Delete_GetHead: "exported d (go_void (WorldPeerObjectDelete_GetHead h p l)) (buffer p 128 \<union> buffer l 4)"
| E_Delete_GetBody: "exported d (go_void (WorldPeerObjectDelete_GetBody h p n)) (buffer p n)"
| E_Leave_GetHash: "exported d (go_void (WorldPeerLeave_GetHash h p n)) (buffer p n)"
| E_GetAbystClient: "exported d (go_void (Host_GetAbystClientConnection now dial h p n t e)) (buffer e 8)"
| E_Request: "exported d (go_void (AbystClient_Request nr rt h m p n e)) (buffer e 8)"
| E_GetHeaders: "exported d (go_void (AbyssResponse_GetHeaders js h p n)) (buffer p n)"
| E_GetContentLength: "exported d (go_void (AbyssResponse_GetContentLength h)) {}"
| E_ReadBody: "exported d (go_void (AbystResponse_ReadBody rd h p n)) (buffer p n)"
| E_ReadBodyAll: "exported d (go_void (AbystResponse_ReadBodyAll rd h p n)) (buffer p n)"
| E_Background: "exported d (host_do i f) {}"

definition may_call :: "(('w, 'b) dll, unit) go \<Rightarrow> ('w, 'b) dll \<Rightarrow> bool" where
  "may_call f d \<longleftrightarrow> (\<exists>A. exported d f A)"

section \<open>Relations that every exported function keeps\<close>

text \<open>The interface for properties of all exported functions: the relation may look at the memory and at
  the responses only, \<open>W\<close> says which buffers may be written. The lemmas go through the functions
  once; the memory of the caller and the bodies of responses are its two instances.\<close>

named_theorems frame_intros

locale library_rel = step_rel R for R :: "('w, 'b) dll \<Rightarrow> ('w, 'b) dll \<Rightarrow> bool" +
  fixes W :: "c_ptr \<Rightarrow> c_int \<Rightarrow> bool"
  assumes R_same: "c_mem d' = c_mem d \<Longrightarrow> responses d' = responses d \<Longrightarrow> R d d'"
    and R_write: "W p n \<Longrightarrow> length bs \<le> nat (sint n) \<Longrightarrow> transits R (mem_write p bs)"
    and R_body: "R d (d\<lparr>responses := (responses d)[r := (responses d ! r)\<lparr>Body := b\<rparr>]\<rparr>)"
    and R_response: "R d (d\<lparr>responses := responses d @ [resp]\<rparr>)"
begin

lemmas R_pure_frame [frame_intros] = R_pure

lemma frame_modify: "(\<And>d. c_mem (f d) = c_mem d) \<Longrightarrow> (\<And>d. responses (f d) = responses d) \<Longrightarrow> transits R (go_modify f)"
  by (rule transits_modify) (simp add: R_same)

lemma frame_zoom:
  "(\<And>d t. c_mem (put t d) = c_mem d) \<Longrightarrow> (\<And>d t. responses (put t d) = responses d) \<Longrightarrow> transits R (go_zoom get put f)"
  by (rule transits_zoom) (simp add: R_same)

lemma frame_TryMarshalBytes [frame_intros]:
  assumes "W buf n"
  shows "transits R (TryMarshalBytes buf n data)"
  by (auto simp: TryMarshalBytes_def bind_array_slice intro!: R_pure R_write [OF assms])

lemma frame_load_int [frame_intros]: "transits R (load_int p)"
  by (auto simp: load_int_def mem_read_def go_fault_def intro!: R_pure)

lemma frame_store_int [frame_intros]: "W p 4 \<Longrightarrow> transits R (store_int p v)"
  by (auto simp: store_int_def intro!: R_pure R_write)

lemma frame_store_handle [frame_intros]: "W p 8 \<Longrightarrow> transits R (store_handle p h)"
  by (auto simp: store_handle_def intro!: R_pure R_write)

lemma frame_basics [frame_intros]:
  "transits R (mem_read a n)"
  "transits R (host_do i (f :: ('w AbyssHost, 'x) go))"
  "transits R (resolver_do r g)"
  "transits R (wd_do w)"
  "transits R (Client_Destuct c)"
  by (auto simp: mem_read_def go_fault_def host_do_def put_host_def resolver_do_def wd_do_def Client_Destuct_def
      intro!: R_pure frame_zoom frame_modify)

lemma frame_set_body [frame_intros]: "transits R (set_body r b)"
  unfolding set_body_def by (rule transits_modify) (rule R_body)

lemma frame_export_response [frame_intros]: "transits R (go_modify (\<lambda>d. d\<lparr>responses := responses d @ [resp]\<rparr>))"
  by (rule transits_modify) (rule R_response)

lemma frame_handles [frame_intros]:
  "transits R (NewHandle v)"
  "transits R (Handle_Value h)"
  "transits R (Handle_Delete h)"
  by (auto simp: NewHandle_def Handle_Value_def Handle_Delete_def invalid_handle_def
      intro!: R_pure frame_modify split: option.split)

lemma frame_exports [frame_intros]:
  "transits R (export_handle v)"
  "transits R (log_fail err)"
  "transits R (marshalError err)"
  "transits R (invalid_json err)"
  "transits R (error_of h)"
  "transits R (export_world i w)"
  "transits R (export_response resp)"
  by (auto simp: export_handle_def log_fail_def marshalError_def invalid_json_def error_of_def export_world_def
      export_response_def bad_object_def intro!: frame_intros frame_modify split: handle_value.split)

lemma frame_set_err [frame_intros]: "W e 8 \<Longrightarrow> transits R (set_err e err)"
  by (simp add: set_err_def frame_intros)

lemma frame_unmarshal [frame_intros]:
  "transits R (unmarshal_string buf n)"
  "transits R (unmarshal_optional buf n)"
  by (auto simp: unmarshal_string_def unmarshal_optional_def intro!: frame_intros split: option.split)

lemma frame_with_handle [frame_intros]:
  "transits R bad \<Longrightarrow> (\<And>x. transits R (k x)) \<Longrightarrow>
   transits R (with_handle h as_t bad k)"
  by (auto simp: with_handle_def intro!: frame_intros split: option.split)

lemma frame_simple [frame_intros]:
  "transits R (dll_Init m f)"
  "transits R (GetErrorBodyLength h)"
  "transits R (CloseAbyssHandle h)"
  "transits R dll_NewSimplePathResolver"
  "transits R (SimplePathResolver_DeleteMapping h p n)"
  "transits R (NewSimpleAbystServer p n)"
  by (auto simp: dll_Init_def GetErrorBodyLength_def CloseAbyssHandle_def IDestructable_Destuct_def
      dll_NewSimplePathResolver_def SimplePathResolver_DeleteMapping_def
      NewSimpleAbystServer_def intro!: frame_intros frame_modify R_block split: option.split)

lemma frame_NewHost [frame_intros]:
  "transits R (NewHost cr rr tr udp ifs parse p n h1 h2)"
  by (auto simp: NewHost_def intro!: frame_intros frame_modify split: option.split sum.split prod.split)

lemma frame_host_calls [frame_intros]:
  "transits R (Host_OpenOutboundConnection now h p n)"
  "transits R (Host_WriteANDStatisticsLogFile ok h)"
  "transits R (Host_OpenWorld_begin env ord now L h p n)"
  "transits R (Host_OpenWorld_end i ch)"
  "transits R (Host_JoinWorld_begin env ord now L h p n)"
  "transits R (Host_JoinWorld_end i ch)"
  "transits R (WorldLeave env ord h)"
  by (auto simp: Host_OpenOutboundConnection_def Host_WriteANDStatisticsLogFile_def
      Host_OpenWorld_begin_def Host_OpenWorld_end_def Host_JoinWorld_begin_def Host_JoinWorld_end_def WorldLeave_def
      intro!: frame_intros frame_modify split: option.split sum.split prod.split)

lemma frame_export_event [frame_intros]: "W t 4 \<Longrightarrow> transits R (export_event js i t e)"
  by (cases e) (auto simp: export_event_def intro!: frame_intros)

lemma frame_events [frame_intros]:
  "transits R (WorldPeerRequest_Accept env ord h)"
  "transits R (WorldPeerRequest_Decline env h code p n)"
  "transits R (WorldPeer_AppendObjects js env h p n)"
  "transits R (WorldPeer_DeleteObjects js env h p n)"
  "transits R (AbyssResponse_GetContentLength h)"
  by (auto simp: WorldPeerRequest_Accept_def WorldPeerRequest_Decline_def WorldPeer_AppendObjects_def
      WorldPeer_DeleteObjects_def AbyssResponse_GetContentLength_def
      intro!: frame_intros split: option.split sum.split prod.split)

text \<open>The functions with an out-parameter for an error or an event type.\<close>

lemma frame_err_out [frame_intros]:
  assumes "W e 8"
  shows "transits R (SimplePathResolver_SetMapping h p n u e)"
    and "transits R (Host_AppendKnownPeer cr now h p1 n1 p2 n2 e)"
    and "transits R (Host_GetAbystClientConnection now dial h p n t e)"
    and "transits R (AbystClient_Request new_request round_trip h meth p n e)"
  using assms
  by (auto simp: SimplePathResolver_SetMapping_def Host_AppendKnownPeer_def Host_GetAbystClientConnection_def
      AbystClient_Request_def Let_def intro!: frame_intros frame_modify split: option.split sum.split prod.split)

lemma frame_WaitEvent [frame_intros]: "W t 4 \<Longrightarrow> transits R (World_WaitEvent js h t)"
  by (auto simp: World_WaitEvent_def intro!: frame_intros)

text \<open>The functions that fill a buffer.\<close>

lemma frame_fill [frame_intros]:
  assumes "W p n"
  shows "transits R (GetErrorBody h p n)"
    and "transits R (Host_GetLocalAbyssURL h p n)"
    and "transits R (World_GetURL h p n)"
    and "transits R (WorldPeerRequest_GetHash h p n)"
    and "transits R (WorldPeer_GetHash h p n)"
    and "transits R (WorldPeerObjectAppend_GetBody h p n)"
    and "transits R (WorldPeerObjectDelete_GetBody h p n)"
    and "transits R (WorldPeerLeave_GetHash h p n)"
    and "transits R (AbyssResponse_GetHeaders js h p n)"
  using assms
  by (auto simp: GetErrorBody_def Host_GetLocalAbyssURL_def World_GetURL_def WorldPeerRequest_GetHash_def
      WorldPeer_GetHash_def WorldPeerObjectAppend_GetBody_def WorldPeerObjectDelete_GetBody_def
      WorldPeerLeave_GetHash_def AbyssResponse_GetHeaders_def intro!: frame_intros split: option.split)

lemma frame_fill_fixed [frame_intros]:
  "W p 128 \<Longrightarrow> W l 4 \<Longrightarrow> transits R (WorldPeerObjectAppend_GetHead h p l)"
  "W p 128 \<Longrightarrow> W l 4 \<Longrightarrow> transits R (WorldPeerObjectDelete_GetHead h p l)"
  by (auto simp: WorldPeerObjectAppend_GetHead_def WorldPeerObjectDelete_GetHead_def intro!: frame_intros)

lemma frame_GetSessionID [frame_intros]:
  assumes "W p 16"
  shows "transits R (World_GetSessionID h p)"
  by (auto simp: World_GetSessionID_def bind_TryUnmarshalBytes
      intro!: frame_intros R_write [OF assms] split: option.split)

lemma frame_read [frame_intros]:
  assumes "W p n"
  shows "transits R (AbystResponse_ReadBody rd h p n)"
    and "transits R (AbystResponse_ReadBodyAll rd h p n)"
  by (auto simp: AbystResponse_ReadBody_def AbystResponse_ReadBodyAll_def bind_TryUnmarshalBytes
      intro!: frame_intros R_write [OF assms] split: option.split prod.split read_error.split)

lemma frame_void [frame_intros]: "transits R f \<Longrightarrow> transits R (go_void f)"
  by (simp add: go_void_def R_bind R_ret)

text \<open>The lengths of \<open>Host_GetCertificates\<close> are read from the memory that the call finds, the second after the
  first certificate is written.\<close>

lemma marshal_then_length:
  assumes "W p n"
  shows "wlp (TryMarshalBytes p n data) (\<lambda>_ d'. R d d'
    \<and> (buffer p n \<inter> buffer l 4 = {} \<longrightarrow> c_int_at l (c_mem d') = c_int_at l (c_mem d))) d"
proof -
  have "{p ..< p + length (take (nat (sint n)) data)} \<subseteq> buffer p n" by (auto simp: buffer_def)
  then have "c_int_at l (mem_put p (take (nat (sint n)) data) m) = c_int_at l m" if "buffer p n \<inter> buffer l 4 = {}" for m
    using that unfolding c_int_at_def by (subst mem_bytes_put_other) (auto simp: buffer_def)
  moreover have "wlp (TryMarshalBytes p n data) (\<lambda>_. R d) d"
    using frame_TryMarshalBytes [OF assms] by (simp add: transits_def)
  ultimately show ?thesis
    by (auto simp: TryMarshalBytes_def bind_array_slice mem_write_def go_fault_def wp_rules split: if_splits)
qed

lemma run_GetCertificates:
  assumes W: "\<And>p n. buffer p n \<subseteq> certificate_buffers p1 l1 p2 l2 (c_mem d) \<Longrightarrow> W p n"
  shows "wlp (Host_GetCertificates h p1 l1 p2 l2) (\<lambda>_. R d) d"
proof -
  let ?n1 = "c_int_at l1 (c_mem d)"
  have W1: "W p1 ?n1" "W l1 4" "W l2 4" by (rule W; auto simp: certificate_buffers_def)+
  have W2: "W p2 n" if "buffer p1 ?n1 \<inter> buffer l2 4 = {} \<longrightarrow> n = c_int_at l2 (c_mem d)" for n
    by (rule W) (use that in \<open>auto simp: certificate_buffers_def\<close>)
  have load: "wlp (load_int l) Q t" if "Q (c_int_at l (c_mem t)) t" for l Q and t :: "('w, 'b) dll"
    using that by (simp add: load_int_def mem_read_def go_fault_def wp_rules c_int_at_def)
  have rest: "wlp (go_bind (TryMarshalBytes p2 n hs) (\<lambda>res2. if c res2 then
      go_bind (store_int l1 a) (\<lambda>_. go_bind (store_int l2 b) (\<lambda>_. go_ret x)) else go_ret y)) (\<lambda>_. R t) t"
    if "W p2 n" for n hs c a b x y t
  proof -
    have "transits R (go_bind (TryMarshalBytes p2 n hs) (\<lambda>res2. if c res2 then
      go_bind (store_int l1 a) (\<lambda>_. go_bind (store_int l2 b) (\<lambda>_. go_ret x)) else go_ret y))"
      using that W1 by (auto intro!: frame_intros)
    then show ?thesis by (simp add: transits_def)
  qed
  have "wlp (go_bind (TryMarshalBytes p1 ?n1 root) (\<lambda>res1. go_bind (load_int l2) (\<lambda>n2.
      go_bind (TryMarshalBytes p2 n2 hs) (\<lambda>res2. if sint res1 \<le> 0 \<or> sint res2 \<le> 0 then
      go_bind (store_int l1 a) (\<lambda>_. go_bind (store_int l2 b) (\<lambda>_. go_ret x)) else go_ret y)))) (\<lambda>_. R d) d"
    for root hs a b x y
    unfolding wpx_bind [of _ "TryMarshalBytes p1 ?n1 root"]
  proof (rule wpx_mono [OF marshal_then_length [OF W1(1), where l = l2]])
    fix res1 t
    assume *: "R d t \<and> (buffer p1 ?n1 \<inter> buffer l2 4 = {} \<longrightarrow> c_int_at l2 (c_mem t) = c_int_at l2 (c_mem d))"
    then have "W p2 (c_int_at l2 (c_mem t))" using W2 by blast
    from rest [OF this]
    show "wlp (go_bind (load_int l2) (\<lambda>n2.
      go_bind (TryMarshalBytes p2 n2 hs) (\<lambda>res2. if sint res1 \<le> 0 \<or> sint res2 \<le> 0 then
      go_bind (store_int l1 a) (\<lambda>_. go_bind (store_int l2 b) (\<lambda>_. go_ret x)) else go_ret y))) (\<lambda>_. R d) t"
      unfolding wpx_bind [of _ "load_int l2"]
      by (intro load) (rule wpx_mono, assumption, use * R_trans in blast)
  qed
  note body = this
  have handle: "wlp (with_handle h as_t bad k) Q d" if "wlp bad Q d" "\<And>x. wlp (k x) Q d"
    for as_t :: "handle_value \<Rightarrow> 'x option" and bad k and Q :: "'y \<Rightarrow> _"
    using that by (auto simp: with_handle_def Handle_Value_def invalid_handle_def wp_rules split: option.split)
  show ?thesis
    unfolding Host_GetCertificates_def
    by (rule handle, simp add: wp_rules R_refl)
       (unfold wpx_bind [of _ "go_read _"] wpx_bind [of _ "load_int l1"] wpx_read, rule load, rule body)
qed

lemma exported_runs:
  assumes "exported d f A" and "\<And>p n. buffer p n \<subseteq> A \<Longrightarrow> W p n"
  shows "wlp f (\<lambda>_. R d) d"
proof -
  have run: "wlp f (\<lambda>_. R d) d" if "transits R f" for f :: "(('w, 'b) dll, 'x) go" using that by (simp add: transits_def)
  show ?thesis using assms
  proof (induction rule: exported.induct)
    case (E_GetCertificates h p1 l1 p2 l2)
    from run_GetCertificates [OF E_GetCertificates] show ?case by (simp add: go_void_def wp_rules)
  qed (auto intro!: run frame_intros)
qed

end

section \<open>The memory of the caller\<close>

definition same_outside :: "nat set \<Rightarrow> ('w, 'b) dll \<Rightarrow> ('w, 'b) dll \<Rightarrow> bool" where
  "same_outside A d d' \<longleftrightarrow> (\<forall>x. x \<notin> A \<longrightarrow> c_mem d' x = c_mem d x) \<and> dom (c_mem d') = dom (c_mem d)"

lemma mapped_iff: "mapped a n m \<longleftrightarrow> {a ..< a + n} \<subseteq> dom m"
proof
  assume *: "mapped a n m"
  show "{a ..< a + n} \<subseteq> dom m"
  proof
    fix x
    assume "x \<in> {a ..< a + n}"
    then have "a + (x - a) = x" "x - a < n" by auto
    with * show "x \<in> dom m" unfolding mapped_def list_all_iff by (metis atLeastLessThan_iff domIff set_upt zero_le)
  qed
next
  assume *: "{a ..< a + n} \<subseteq> dom m"
  show "mapped a n m" unfolding mapped_def list_all_iff
  proof
    fix i
    assume "i \<in> set [0..<n]"
    then have "a + i \<in> {a ..< a + n}" by simp
    with * show "m (a + i) \<noteq> None" by blast
  qed
qed

lemma write_in_buffer:
  assumes "buffer a n \<subseteq> A" and "length bs \<le> nat (sint n)"
  shows "transits (same_outside A) (mem_write a bs)"
proof -
  have "{a ..< a + length bs} \<subseteq> A" using assms by (auto simp: buffer_def)
  then show ?thesis
    by (auto simp: transits_def mem_write_def wp_rules go_fault_def same_outside_def mem_put_def mapped_iff dom_def)
qed

interpretation frame: library_rel "same_outside A" "\<lambda>p n. buffer p n \<subseteq> A" for A
  by unfold_locales (auto simp: same_outside_def intro: write_in_buffer)

section \<open>The bodies of responses\<close>

definition bodies_kept :: "('w, 'b) dll \<Rightarrow> ('w, 'b) dll \<Rightarrow> bool" where
  "bodies_kept d d' \<longleftrightarrow> take (length (responses d)) (map body_closed (responses d')) = map body_closed (responses d)"

lemma bodies_kept_same: "responses d' = responses d \<Longrightarrow> bodies_kept d d'"
  by (simp add: bodies_kept_def)

lemma bodies_kept_append: "bodies_kept d (d\<lparr>responses := responses d @ rs\<rparr>)"
  by (simp add: bodies_kept_def)

lemma bodies_kept_trans:
  assumes "bodies_kept d1 d2" and "bodies_kept d2 d3"
  shows "bodies_kept d1 d3"
proof -
  have "length (responses d1) \<le> length (responses d2)"
    using arg_cong [OF assms(1) [unfolded bodies_kept_def], of length] by simp
  then have "take (length (responses d1)) (map body_closed (responses d3))
      = take (length (responses d1)) (take (length (responses d2)) (map body_closed (responses d3)))"
    by (simp add: min_def)
  then show ?thesis using assms unfolding bodies_kept_def by (simp only:)
qed

interpretation bodies: library_rel bodies_kept "\<lambda>_ _. True"
proof unfold_locales
  fix d :: "('w, 'b) dll" and r b
  show "bodies_kept d (d\<lparr>responses := (responses d)[r := (responses d ! r)\<lparr>Body := b\<rparr>]\<rparr>)"
    by (cases "r < length (responses d)")
       (auto simp: bodies_kept_def map_update nth_list_update intro!: nth_equalityI split: if_splits)
next
  fix p and bs :: bytes
  show "transits bodies_kept (mem_write p bs)"
    by (auto simp: mem_write_def transits_def wp_rules go_fault_def bodies_kept_same)
qed (auto simp: bodies_kept_same bodies_kept_append intro: bodies_kept_trans)

end
