(* ===== verification/Native_Inv.thy ===== *)
theory Native_Inv
  imports Native_Frame
begin

text \<open>
  The invariant of the exported library: the handle table agrees with the counter of the watchdog, and
  every handle refers to an existing object. It is a relation in the sense of \<open>step_rel\<close> as well,
  relative to the values that are known to be good at a point of a function (\<open>kept\<close>).
\<close>

section \<open>The handle table\<close>

fun ref_ok :: "('w, 'b) dll \<Rightarrow> handle_value \<Rightarrow> bool" where
  "ref_ok d (HPathResolver r) \<longleftrightarrow> r < length (resolvers d)"
| "ref_ok d (HHost i) \<longleftrightarrow> i < length (hosts d)"
| "ref_ok d (HWorld i w) \<longleftrightarrow> i < length (hosts d)"
| "ref_ok d (HMemberRequest i m w ps) \<longleftrightarrow> i < length (hosts d)"
| "ref_ok d (HMember i m) \<longleftrightarrow> i < length (hosts d)"
| "ref_ok d (HAbystClient c) \<longleftrightarrow> c < length (clients d)"
| "ref_ok d (HAbystResponse r) \<longleftrightarrow> r < length (responses d)"
| "ref_ok d _ \<longleftrightarrow> True"

definition handles_ok :: "('w, 'b) dll \<Rightarrow> bool" where
  "handles_ok d \<longleftrightarrow> finite (dom (cgo_handles d))
     \<and> (\<forall>h \<in> dom (cgo_handles d). 0 < h \<and> h \<le> handleIdx d)
     \<and> handle_count (wdog d) = word_of_nat (card (dom (cgo_handles d)))
     \<and> (\<forall>v \<in> ran (cgo_handles d). ref_ok d v)
     \<and> (\<forall>r \<in> set (map snd (hosts d)). r < length (resolvers d))"

definition known :: "handle_value set \<Rightarrow> ('w, 'b) dll \<Rightarrow> bool" where
  "known V d \<longleftrightarrow> (\<forall>v \<in> V. ref_ok d v)"

definition kept :: "handle_value set \<Rightarrow> ('w, 'b) dll \<Rightarrow> ('w, 'b) dll \<Rightarrow> bool" where
  "kept V d d' \<longleftrightarrow> (handles_ok d \<and> known V d \<longrightarrow> handles_ok d' \<and> known V d')"

interpretation keep: step_rel "kept V" for V
  by unfold_locales (auto simp: kept_def)

named_theorems keep_intros

lemmas [keep_intros] = keep.R_pure

text \<open>Objects are only added, so a reference stays good.\<close>

definition grown :: "('w, 'b) dll \<Rightarrow> ('w, 'b) dll \<Rightarrow> bool" where
  "grown d d' \<longleftrightarrow> length (resolvers d) \<le> length (resolvers d') \<and> length (hosts d) \<le> length (hosts d')
     \<and> length (clients d) \<le> length (clients d') \<and> length (responses d) \<le> length (responses d')"

lemma ref_ok_grown: "grown d d' \<Longrightarrow> ref_ok d v \<Longrightarrow> ref_ok d' v"
  by (cases v) (auto simp: grown_def)

lemma kept_grown:
  assumes "grown d d'" and "cgo_handles d' = cgo_handles d" and "handleIdx d' = handleIdx d"
    and "handle_count (wdog d') = handle_count (wdog d)"
    and "known V d \<Longrightarrow> handles_ok d \<Longrightarrow> \<forall>r \<in> set (map snd (hosts d')). r < length (resolvers d')"
  shows "kept V d d'"
  using assms(2-5) ref_ok_grown [OF assms(1)] by (simp add: kept_def handles_ok_def known_def)

lemma keep_modify:
  assumes "\<And>d. grown d (f d) \<and> cgo_handles (f d) = cgo_handles d \<and> handleIdx (f d) = handleIdx d
      \<and> wdog (f d) = wdog d \<and> map snd (hosts (f d)) = map snd (hosts d)"
  shows "transits (kept V) (go_modify f)"
proof (rule transits_modify)
  fix d
  have eq: "map snd (hosts (f d)) = map snd (hosts d)" and le: "length (resolvers d) \<le> length (resolvers (f d))"
    using assms by (simp_all add: grown_def)
  have "\<forall>r \<in> set (map snd (hosts (f d))). r < length (resolvers (f d))" if "handles_ok d"
    using that le unfolding eq handles_ok_def by (meson order_less_le_trans)
  then show "kept V d (f d)" using assms by (intro kept_grown) simp_all
qed

lemma map_snd_put: "map snd (xs[i := (h, snd (xs ! i))]) = map snd xs"
proof (rule nth_equalityI)
  fix j
  assume "j < length (map snd (xs[i := (h, snd (xs ! i))]))"
  then show "map snd (xs[i := (h, snd (xs ! i))]) ! j = map snd xs ! j" by (cases "i = j") simp_all
qed simp

lemma keep_zoom:
  assumes "\<And>d t. grown d (put t d) \<and> cgo_handles (put t d) = cgo_handles d \<and> handleIdx (put t d) = handleIdx d
      \<and> wdog (put t d) = wdog d \<and> map snd (hosts (put t d)) = map snd (hosts d)"
  shows "transits (kept V) (go_zoom get put f)"
proof (rule transits_zoom)
  fix d t
  have "transits (kept V) (go_modify (put t))" by (rule keep_modify) (rule assms)
  then show "kept V d (put t d)" by (simp add: transits_def wp_rules)
qed

lemma keep_wd:
  fixes V
  assumes "\<And>w. wlp f (\<lambda>_ w'. handle_count w' = handle_count w) w"
  shows "transits (kept V) (wd_do f)"
proof (rule transitsI)
  fix d
  show "wlp (wd_do f) (\<lambda>_. kept V d) d"
    unfolding wd_do_def wpx_zoom
    by (rule wpx_mono [OF assms]) (auto intro!: kept_grown simp: grown_def handles_ok_def)
qed

lemma keep_basics [keep_intros]:
  "transits (kept V) (mem_read a n)"
  "transits (kept V) (mem_write a bs)"
  "transits (kept V) (host_do i f)"
  "transits (kept V) (resolver_do r g)"
  "transits (kept V) (set_body r b)"
  "transits (kept V) (Client_Destuct c)"
  by (auto simp: mem_read_def mem_write_def go_fault_def host_do_def put_host_def resolver_do_def set_body_def
      Client_Destuct_def grown_def map_snd_put intro!: keep.R_pure keep_zoom keep_modify)

lemma keep_pointers [keep_intros]:
  "transits (kept V) (load_int p)"
  "transits (kept V) (store_int p v)"
  "transits (kept V) (store_handle p h)"
  by (auto simp: load_int_def store_int_def store_handle_def intro!: keep_intros)

lemma keep_log [keep_intros]:
  "transits (kept V) (wd_do (wd_Error err))"
  "transits (kept V) (wd_do (Info msg))"
  "transits (kept V) (wd_do (wd_Init m f))"
  by (auto simp: wd_Init_def wp_rules wpx_block intro!: keep_wd split: option.split)

lemma keep_Handle_Value [keep_intros]: "transits (kept V) (Handle_Value h)"
  by (auto simp: Handle_Value_def invalid_handle_def intro!: keep.R_pure split: option.split)

text \<open>A new handle is fresh, because the index only grows and a wrap-around panics.\<close>

lemma NewHandle_spec:
  assumes "\<forall>h \<in> dom (cgo_handles d). 0 < h \<and> h \<le> handleIdx d"
  shows "wlp (NewHandle v) (\<lambda>h d'. cgo_handles d h = None \<and> 0 < h
    \<and> d' = d\<lparr>handleIdx := h, cgo_handles := (cgo_handles d)(h \<mapsto> v)\<rparr> \<and> (\<forall>k \<in> dom (cgo_handles d). k < h)) d"
proof -
  have "k < handleIdx d + 1" if "handleIdx d + 1 \<noteq> 0" "k \<le> handleIdx d" for k
    using that unatSuc [of "handleIdx d"] by (simp add: word_less_nat_alt word_le_nat_alt add.commute)
  then have "k < handleIdx d + 1" if "handleIdx d + 1 \<noteq> 0" "k \<in> dom (cgo_handles d)" for k
    using that assms by blast
  moreover from this have "cgo_handles d (handleIdx d + 1) = None" if "handleIdx d + 1 \<noteq> 0"
    using that by (metis domIff less_irrefl)
  ultimately show ?thesis
    by (simp add: NewHandle_def wp_rules word_neq_0_conv)
qed

lemma wp_wd_do:
  "wpx b (wd_do f) Q d = wpx b f (\<lambda>a w. Q a (d\<lparr>wdog := w\<rparr>)) (wdog d)"
  by (simp add: wd_do_def wp_rules)

lemma ref_ok_other [simp]:
  "ref_ok (d\<lparr>wdog := w\<rparr>) v = ref_ok d v"
  "ref_ok (d\<lparr>handleIdx := h\<rparr>) v = ref_ok d v"
  "ref_ok (d\<lparr>cgo_handles := t\<rparr>) v = ref_ok d v"
  by (cases v; simp)+

text \<open>Exporting a value counts one handle and makes one.\<close>

lemma keep_export:
  assumes "\<And>d :: ('w, 'b) dll. known V d \<Longrightarrow> ref_ok d v"
  shows "transits (kept V) (export_handle v :: (('w, 'b) dll, c_handle) go)"
proof (rule transitsI)
  fix d :: "('w, 'b) dll"
  show "wlp (export_handle v) (\<lambda>_. kept V d) d"
  proof (cases "handles_ok d \<and> known V d")
    case False
    then show ?thesis by (auto simp: kept_def intro: wlpI)
  next
    case True
    then have ok: "handles_ok d" and kn: "known V d" by simp_all
    have "wlp (NewHandle v) (\<lambda>_. kept V d) (d\<lparr>wdog := w\<rparr>)"
      if w: "handle_count w = handle_count (wdog d) + 1" for w
    proof (rule wpx_mono [OF NewHandle_spec])
      show "\<forall>h \<in> dom (cgo_handles (d\<lparr>wdog := w\<rparr>)). 0 < h \<and> h \<le> handleIdx (d\<lparr>wdog := w\<rparr>)"
        using ok by (simp add: handles_ok_def)
    next
      fix h d'
      assume *: "cgo_handles (d\<lparr>wdog := w\<rparr>) h = None \<and> 0 < h
        \<and> d' = d\<lparr>wdog := w\<rparr>\<lparr>handleIdx := h, cgo_handles := (cgo_handles (d\<lparr>wdog := w\<rparr>))(h \<mapsto> v)\<rparr>
        \<and> (\<forall>k \<in> dom (cgo_handles (d\<lparr>wdog := w\<rparr>)). k < h)"
      then have "h \<notin> dom (cgo_handles d)" "\<forall>u. ref_ok d' u = ref_ok d u" by auto
      moreover have "ran ((cgo_handles d)(h \<mapsto> v)) \<subseteq> insert v (ran (cgo_handles d))" by (auto simp: ran_def)
      ultimately show "kept V d d'"
        using * ok kn w assms [OF kn] by (auto simp: kept_def handles_ok_def known_def intro: less_imp_le)
    qed
    then show ?thesis
      unfolding export_handle_def wpx_bind wp_wd_do
      by (intro wpx_mono [OF wpx_weaken [OF wp_CountHandleExport]]) simp
  qed
qed

lemma keep_export_known [keep_intros]:
  "transits (kept V) (export_handle (HError err))"
  "transits (kept V) (export_handle (HAbystServer path))"
  "transits (kept V) (export_handle (HObjectAppend p j))"
  "transits (kept V) (export_handle (HObjectDelete p j))"
  "transits (kept V) (export_handle (HMemberLeave p))"
  "HHost i \<in> V \<Longrightarrow> transits (kept V) (export_handle (HHost i))"
  "HHost i \<in> V \<Longrightarrow> transits (kept V) (export_handle (HWorld i w))"
  "HHost i \<in> V \<Longrightarrow> transits (kept V) (export_handle (HMemberRequest i m w ps))"
  "HHost i \<in> V \<Longrightarrow> transits (kept V) (export_handle (HMember i member))"
  by (rule keep_export; force simp: known_def)+

text \<open>The value behind a handle may be used: what is shown of the rest may assume that it is known.\<close>

lemma keep_known_bind:
  assumes "\<And>d. handles_ok d \<Longrightarrow> known V d \<Longrightarrow> wlp f (\<lambda>a d'. handles_ok d' \<and> known (insert (v a) V) d') d"
    and "\<And>a. transits (kept (insert (v a) V)) (g a)"
  shows "transits (kept V) (go_bind f g)"
proof (rule transitsI)
  fix d
  show "wlp (go_bind f g) (\<lambda>_. kept V d) d"
  proof (cases "handles_ok d \<and> known V d")
    case False
    then show ?thesis by (auto simp: kept_def intro: wlpI)
  next
    case True
    have "wlp (g a) (\<lambda>_. kept V d) d'" if "handles_ok d' \<and> known (insert (v a) V) d'" for a d'
    proof -
      have "wlp (g a) (\<lambda>_. kept (insert (v a) V) d') d'" using assms(2) by (simp add: transits_def)
      then show ?thesis by (rule wpx_mono) (use that in \<open>auto simp: kept_def known_def\<close>)
    qed
    then show ?thesis unfolding wpx_bind using assms(1) True by (blast intro: wpx_mono)
  qed
qed

lemma handle_value_known:
  assumes "handles_ok d" and "known V d"
  shows "wlp (Handle_Value h) (\<lambda>v d'. handles_ok d' \<and> known (insert v V) d') d"
  using assms by (auto simp: Handle_Value_def wp_rules invalid_handle_def known_def handles_ok_def ranI split: option.split)

lemma keep_with_handle:
  assumes "transits (kept V) bad" and "\<And>v x. as_t v = Some x \<Longrightarrow> transits (kept (insert v V)) (k x)"
    and "\<And>v. transits (kept (insert v V)) bad"
  shows "transits (kept V) (with_handle h as_t bad k)"
  unfolding with_handle_def
  by (rule keep_known_bind [where v = "\<lambda>v. v"]) (use handle_value_known assms in \<open>auto split: option.split\<close>)

lemma kept_eq:
  "(\<And>d :: ('w, 'b) dll. known V d = known W d) \<Longrightarrow> (kept V :: ('w, 'b) dll \<Rightarrow> _) = kept W"
  by (simp add: kept_def fun_eq_iff)

lemma known_host:
  "kept (insert (HWorld i w) V) = kept (insert (HHost i) V)"
  "kept (insert (HMemberRequest i m w ps) V) = kept (insert (HHost i) V)"
  "kept (insert (HMember i member) V) = kept (insert (HHost i) V)"
  by (rule kept_eq; simp add: known_def)+

lemma keep_with [keep_intros]:
  "transits (kept V) bad \<Longrightarrow> (\<And>v. transits (kept (insert v V)) bad) \<Longrightarrow>
   (\<And>r. transits (kept (insert (HPathResolver r) V)) (k1 r)) \<Longrightarrow> transits (kept V) (with_handle h as_resolver bad k1)"
  "transits (kept V) bad \<Longrightarrow> (\<And>v. transits (kept (insert v V)) bad) \<Longrightarrow>
   (\<And>p v. transits (kept (insert v V)) (k2 p)) \<Longrightarrow> transits (kept V) (with_handle h as_server bad k2)"
  "transits (kept V) bad \<Longrightarrow> (\<And>v. transits (kept (insert v V)) bad) \<Longrightarrow>
   (\<And>i. transits (kept (insert (HHost i) V)) (k3 i)) \<Longrightarrow> transits (kept V) (with_handle h as_host bad k3)"
  "transits (kept V) bad \<Longrightarrow> (\<And>v. transits (kept (insert v V)) bad) \<Longrightarrow>
   (\<And>i w. transits (kept (insert (HHost i) V)) (k4 (i, w))) \<Longrightarrow> transits (kept V) (with_handle h as_world bad k4)"
  "transits (kept V) bad \<Longrightarrow> (\<And>v. transits (kept (insert v V)) bad) \<Longrightarrow>
   (\<And>i m w ps. transits (kept (insert (HHost i) V)) (k5 (i, m, w, ps))) \<Longrightarrow>
   transits (kept V) (with_handle h as_request bad k5)"
  "transits (kept V) bad \<Longrightarrow> (\<And>v. transits (kept (insert v V)) bad) \<Longrightarrow>
   (\<And>i m. transits (kept (insert (HHost i) V)) (k6 (i, m))) \<Longrightarrow> transits (kept V) (with_handle h as_member bad k6)"
  by (rule keep_with_handle;
      force simp: as_resolver_def as_server_def as_host_def as_world_def as_request_def as_member_def known_host
      split: handle_value.splits)+

lemma keep_with' [keep_intros]:
  "transits (kept V) bad \<Longrightarrow> (\<And>v. transits (kept (insert v V)) bad) \<Longrightarrow>
   (\<And>p v. transits (kept (insert v V)) (k1 p)) \<Longrightarrow> transits (kept V) (with_handle h as_append bad k1)"
  "transits (kept V) bad \<Longrightarrow> (\<And>v. transits (kept (insert v V)) bad) \<Longrightarrow>
   (\<And>p v. transits (kept (insert v V)) (k2 p)) \<Longrightarrow> transits (kept V) (with_handle h as_delete bad k2)"
  "transits (kept V) bad \<Longrightarrow> (\<And>v. transits (kept (insert v V)) bad) \<Longrightarrow>
   (\<And>p v. transits (kept (insert v V)) (k3 p)) \<Longrightarrow> transits (kept V) (with_handle h as_leave bad k3)"
  "transits (kept V) bad \<Longrightarrow> (\<And>v. transits (kept (insert v V)) bad) \<Longrightarrow>
   (\<And>c v. transits (kept (insert v V)) (k4 c)) \<Longrightarrow> transits (kept V) (with_handle h as_client bad k4)"
  "transits (kept V) bad \<Longrightarrow> (\<And>v. transits (kept (insert v V)) bad) \<Longrightarrow>
   (\<And>c v. transits (kept (insert v V)) (k5 c)) \<Longrightarrow> transits (kept V) (with_handle h as_response bad k5)"
  by (rule keep_with_handle; simp)+

text \<open>Adding an object and exporting a handle for it.\<close>

lemma keep_add:
  fixes f :: "'x \<Rightarrow> ('w, 'b) dll \<Rightarrow> ('w, 'b) dll"
  assumes "\<And>d. known V d \<Longrightarrow> handles_ok d \<Longrightarrow> grown d (f (g d) d) \<and> cgo_handles (f (g d) d) = cgo_handles d
      \<and> handleIdx (f (g d) d) = handleIdx d \<and> wdog (f (g d) d) = wdog d
      \<and> (\<forall>r \<in> set (map snd (hosts (f (g d) d))). r < length (resolvers (f (g d) d)))
      \<and> ref_ok (f (g d) d) (v (g d))"
    and "\<And>x. transits (kept (insert (v x) V)) (k x)"
  shows "transits (kept V) (go_bind (go_read g) (\<lambda>x. go_bind (go_modify (f x)) (\<lambda>_. k x)))"
proof (rule transitsI)
  fix d
  show "wlp (go_bind (go_read g) (\<lambda>x. go_bind (go_modify (f x)) (\<lambda>_. k x))) (\<lambda>_. kept V d) d"
  proof (cases "handles_ok d \<and> known V d")
    case False
    then show ?thesis by (auto simp: kept_def intro: wlpI)
  next
    case True
    let ?d = "f (g d) d"
    have ref: "ref_ok ?d (v (g d))" using assms(1) True by blast
    have "kept V d ?d" by (rule kept_grown) (use assms(1) True in auto)
    then have ok: "handles_ok ?d" "known V ?d" using True by (simp_all add: kept_def)
    have "wlp (k (g d)) (\<lambda>_. kept (insert (v (g d)) V) ?d) ?d" using assms(2) by (simp add: transits_def)
    then show ?thesis unfolding wp_rules
      by (rule wpx_mono) (use ok ref in \<open>auto simp: kept_def known_def\<close>)
  qed
qed

lemma keep_new_resolver [keep_intros]: "transits (kept V) dll_NewSimplePathResolver"
  unfolding dll_NewSimplePathResolver_def
  by (rule keep_add [where v = HPathResolver])
     (fastforce simp: grown_def handles_ok_def, rule keep_export, simp add: known_def)

lemma keep_export_response [keep_intros]: "transits (kept V) (export_response resp)"
  unfolding export_response_def
  by (rule keep_add [where v = HAbystResponse])
     (fastforce simp: grown_def handles_ok_def, rule keep_export, simp add: known_def)

lemma keep_new_client:
  "transits (kept V) (go_bind (go_read (\<lambda>d. length (clients d))) (\<lambda>c.
     go_bind (go_modify (\<lambda>d. d\<lparr>clients := clients d @ [None]\<rparr>)) (\<lambda>_.
     export_handle (HAbystClient c))))"
  by (rule keep_add [where v = HAbystClient])
     (fastforce simp: grown_def handles_ok_def, intro keep_export, simp add: known_def)

lemma keep_new_host:
  assumes "HPathResolver r \<in> V"
  shows "transits (kept V) (go_bind (go_read (\<lambda>d. (length (hosts d), resolvers d ! r))) (\<lambda>(i, path_resolver).
     go_bind (go_modify (\<lambda>d. d\<lparr>hosts := hosts d @ [(h path_resolver, r)]\<rparr>)) (\<lambda>_. export_handle (HHost i))))"
  unfolding split_def
  using assms
  by (intro keep_add [where v = "\<lambda>x. HHost (fst x)"])
     (fastforce simp: grown_def handles_ok_def known_def, intro keep_export, simp add: known_def)

lemma keep_Destuct: "transits (kept V) (IDestructable_Destuct v)"
  by (auto simp: IDestructable_Destuct_def intro!: keep_intros split: option.split)

text \<open>Closing a handle removes it and counts one less.\<close>

lemma keep_delete:
  "transits (kept V) (go_bind (Handle_Delete h) (\<lambda>_. go_bind (wd_do CountHandleRelease) (\<lambda>_. go_ret ())))"
proof (rule transitsI)
  fix d :: "('w, 'b) dll"
  show "wlp (go_bind (Handle_Delete h) (\<lambda>_. go_bind (wd_do CountHandleRelease) (\<lambda>_. go_ret ()))) (\<lambda>_. kept V d) d"
  proof (cases "cgo_handles d h")
    case None
    then show ?thesis by (simp add: Handle_Delete_def invalid_handle_def wp_rules)
  next
    case (Some v)
    let ?t = "(cgo_handles d)(h := None)"
    have "kept V d (d\<lparr>cgo_handles := ?t, wdog := w\<rparr>)" if "handle_count w = handle_count (wdog d) - 1" for w
    proof -
      have "card (dom (cgo_handles d)) = Suc (card (dom ?t))" if "finite (dom (cgo_handles d))"
        using that Some by (metis card_Suc_Diff1 domI dom_fun_upd)
      moreover have "ran ?t \<subseteq> ran (cgo_handles d)" by (auto simp: ran_def split: if_splits)
      ultimately show ?thesis using that by (auto simp: kept_def handles_ok_def known_def)
    qed
    then show ?thesis
      using Some by (simp add: Handle_Delete_def wp_rules wp_wd_do)
        (rule wpx_mono [OF wpx_weaken [OF wp_CountHandleRelease]], simp)
  qed
qed

lemma keep_CloseAbyssHandle [keep_intros]: "transits (kept V) (CloseAbyssHandle h)"
proof -
  have "transits (kept V) (wd_do CountNullHandleRelease)"
    by (rule keep_wd) (rule wpx_mono [OF wpx_weaken [OF wp_CountNullHandleRelease]], simp)
  moreover have "transits (kept V) (go_block [IDestructable_Destuct v, Handle_Delete h, wd_do CountHandleRelease])" for v
    unfolding go_block.simps by (intro keep.R_bind [OF keep_Destuct] keep_delete)
  ultimately show ?thesis
    unfolding CloseAbyssHandle_def by (auto simp del: go_block.simps intro!: keep.R_bind keep_Handle_Value)
qed

lemma keep_shared [keep_intros]:
  "transits (kept V) (log_fail err)"
  "transits (kept V) (marshalError err)"
  "transits (kept V) (set_err e err)"
  "transits (kept V) (invalid_json err)"
  "transits (kept V) (error_of h)"
  "transits (kept V) (unmarshal_string buf n)"
  "transits (kept V) (unmarshal_optional buf n)"
  "transits (kept V) (TryMarshalBytes buf n data)"
  "HHost i \<in> V \<Longrightarrow> transits (kept V) (export_world i world)"
  by (auto simp: log_fail_def marshalError_def set_err_def invalid_json_def error_of_def unmarshal_string_def unmarshal_optional_def
      TryMarshalBytes_def export_world_def bad_object_def
      intro!: keep_intros split: option.split handle_value.split)

lemma keep_export_event [keep_intros]: "HHost i \<in> V \<Longrightarrow> transits (kept V) (export_event js i t e)"
  by (cases e) (auto simp: export_event_def intro!: keep_intros)

lemma keep_simple [keep_intros]:
  "transits (kept V) (dll_Init m f)"
  "transits (kept V) (GetErrorBodyLength h)"
  "transits (kept V) (GetErrorBody h p n)"
  "transits (kept V) (SimplePathResolver_SetMapping h p n u e)"
  "transits (kept V) (SimplePathResolver_DeleteMapping h p n)"
  "transits (kept V) (NewSimpleAbystServer p n)"
  by (auto simp: dll_Init_def GetErrorBodyLength_def GetErrorBody_def SimplePathResolver_SetMapping_def
      SimplePathResolver_DeleteMapping_def NewSimpleAbystServer_def intro!: keep_intros split: option.split)

lemma keep_NewHost [keep_intros]:
  "transits (kept V) (NewHost cr rr tr udp ifs parse p n h1 h2)"
  by (auto simp: NewHost_def intro!: keep_intros keep_new_host split: option.split sum.split)

lemma keep_host_calls [keep_intros]:
  "transits (kept V) (Host_GetLocalAbyssURL h p n)"
  "transits (kept V) (Host_GetCertificates h p1 l1 p2 l2)"
  "transits (kept V) (Host_AppendKnownPeer cr now h p1 n1 p2 n2 e)"
  "transits (kept V) (Host_OpenOutboundConnection now h p n)"
  "transits (kept V) (Host_OpenWorld_begin env ord now L h p n)"
  "transits (kept V) (Host_JoinWorld_begin env ord now L h p n)"
  "transits (kept V) (WorldLeave env ord h)"
  "transits (kept V) (World_GetSessionID h p)"
  "transits (kept V) (World_GetURL h p n)"
  "HHost i \<in> V \<Longrightarrow> transits (kept V) (Host_OpenWorld_end i ch)"
  "HHost i \<in> V \<Longrightarrow> transits (kept V) (Host_JoinWorld_end i ch)"
  by (auto simp: Host_GetLocalAbyssURL_def Host_GetCertificates_def Host_AppendKnownPeer_def
      Host_OpenOutboundConnection_def Host_OpenWorld_begin_def Host_JoinWorld_begin_def WorldLeave_def
      World_GetSessionID_def World_GetURL_def Host_OpenWorld_end_def Host_JoinWorld_end_def
      intro!: keep_intros split: option.split sum.split prod.split)

lemma keep_stat_file [keep_intros]: "transits (kept V) (Host_WriteANDStatisticsLogFile ok h)"
  by (auto simp: Host_WriteANDStatisticsLogFile_def grown_def intro!: keep_intros keep_modify)

lemma keep_event_calls [keep_intros]:
  "transits (kept V) (World_WaitEvent js h t)"
  "transits (kept V) (WorldPeerRequest_GetHash h p n)"
  "transits (kept V) (WorldPeerRequest_Accept env ord h)"
  "transits (kept V) (WorldPeerRequest_Decline env h code p n)"
  "transits (kept V) (WorldPeer_GetHash h p n)"
  "transits (kept V) (WorldPeer_AppendObjects js env h p n)"
  "transits (kept V) (WorldPeer_DeleteObjects js env h p n)"
  "transits (kept V) (WorldPeerObjectAppend_GetHead h p l)"
  "transits (kept V) (WorldPeerObjectAppend_GetBody h p n)"
  "transits (kept V) (WorldPeerObjectDelete_GetHead h p l)"
  "transits (kept V) (WorldPeerObjectDelete_GetBody h p n)"
  "transits (kept V) (WorldPeerLeave_GetHash h p n)"
  by (auto simp: World_WaitEvent_def WorldPeerRequest_GetHash_def WorldPeerRequest_Accept_def WorldPeerRequest_Decline_def
      WorldPeer_GetHash_def WorldPeer_AppendObjects_def WorldPeer_DeleteObjects_def WorldPeerObjectAppend_GetHead_def
      WorldPeerObjectAppend_GetBody_def WorldPeerObjectDelete_GetHead_def WorldPeerObjectDelete_GetBody_def
      WorldPeerLeave_GetHash_def intro!: keep_intros split: option.split sum.split prod.split)

lemma keep_http [keep_intros]:
  "transits (kept V) (Host_GetAbystClientConnection now dial h p n t e)"
  "transits (kept V) (AbystClient_Request new_request round_trip h meth p n e)"
  "transits (kept V) (AbyssResponse_GetHeaders js h p n)"
  "transits (kept V) (AbyssResponse_GetContentLength h)"
  "transits (kept V) (AbystResponse_ReadBody rd h p n)"
  "transits (kept V) (AbystResponse_ReadBodyAll rd h p n)"
  by (auto simp: Host_GetAbystClientConnection_def AbystClient_Request_def AbyssResponse_GetHeaders_def
      AbyssResponse_GetContentLength_def AbystResponse_ReadBody_def AbystResponse_ReadBodyAll_def Let_def
      intro!: keep_new_client keep_intros split: option.split sum.split prod.split read_error.split)

section \<open>Histories of calls\<close>

lemma keep_void [keep_intros]: "transits (kept V) f \<Longrightarrow> transits (kept V) (go_void f)"
  by (simp add: go_void_def keep.R_bind keep.R_ret)

lemma exported_known: "exported d f A \<Longrightarrow> \<exists>V. known V d \<and> transits (kept V) f"
proof (induction rule: exported.induct)
  case (E_OpenWorld_end i ch)
  then show ?case by (intro exI [where x = "{HHost i}"]) (auto simp: known_def intro!: keep_intros)
next
  case (E_JoinWorld_end i ch)
  then show ?case by (intro exI [where x = "{HHost i}"]) (auto simp: known_def intro!: keep_intros)
qed (rule exI [where x = "{}"], auto simp: known_def intro!: keep_intros)+

lemma exported_keeps:
  assumes "may_call f d" and "handles_ok d"
  shows "wlp f (\<lambda>_. handles_ok) d"
proof -
  obtain V where V: "known V d" "transits (kept V) f" using assms(1) exported_known unfolding may_call_def by meson
  then have "wlp f (\<lambda>_. kept V d) d" by (simp add: transits_def)
  then show ?thesis by (rule wpx_mono) (use assms(2) V(1) in \<open>auto simp: kept_def\<close>)
qed

lemma handles_ok_init: "handles_ok (dll_init m)"
  by (simp add: handles_ok_def dll_init_def watchdog_zero_def)

interpretation native: safe_system "\<lambda>f. f" may_call "dll_init m" "\<lambda>_. handles_ok" for m
  by unfold_locales (auto intro: handles_ok_init exported_keeps)

end
