(* ===== verification/Native_Props.thy ===== *)
theory Native_Props
  imports Native_Inv Host_Props
begin

text \<open>
  The properties of the exported library: its handles and its use of the memory of the caller, the
  texts of errors, the objects that pass through it, and reading the body of a response.
\<close>

section \<open>Bytes and texts\<close>

lemma char_of_byte: "char_of (unat (word_of_nat (byte_of c) :: 8 word)) = c"
proof -
  have "byte_of c mod 256 < (256 :: nat)" by (rule mod_less_divisor) simp
  then have "unat (word_of_nat (byte_of c) :: 8 word) = byte_of c"
    by (simp add: unsigned_of_nat take_bit_nat_eq_self_iff)
  then show ?thesis by (simp only: char_of_char)
qed

lemma bytes_str_bytes [simp]: "bytes_str (str_bytes s) = s"
  by (induction s) (simp_all add: bytes_str_def str_bytes_def char_of_byte del: unsigned_of_nat)

lemma length_str_bytes [simp]: "length (str_bytes s) = length s"
  by (simp add: str_bytes_def)

text \<open>The bytes of a number in base 256 give the number back.\<close>

lemma foldl_base:
  "foldl (\<lambda>n b. n * 256 + b) 0 (map (\<lambda>i. m div 256 ^ (k - Suc i) mod 256) [0..<k]) = m mod 256 ^ k" for m :: nat
proof (induction k arbitrary: m)
  case (Suc k)
  let ?f = "\<lambda>m k. map (\<lambda>i. m div 256 ^ (k - Suc i) mod 256) [0..<k]"
  have "m div 256 ^ (k - i) mod 256 = m div 256 div 256 ^ (k - Suc i) mod 256" if "i < k" for i
    using that by (metis Suc_diff_Suc div_mult2_eq power_Suc)
  then have "?f m (Suc k) = ?f (m div 256) k @ [m mod 256]" by simp
  then have "foldl (\<lambda>n b. n * 256 + b) 0 (?f m (Suc k)) = (m div 256) mod 256 ^ k * 256 + m mod 256"
    by (simp only: foldl_append Suc foldl.simps)
  also have "\<dots> = m mod 256 ^ Suc k" using mod_mult2_eq [of m 256 "256 ^ k"] by (simp add: mult.commute)
  finally show ?case .
qed simp

lemma uuid_of_uuid_bytes [simp]: "uuid_of_bytes (uuid_bytes u) = u"
proof -
  have "map unat (uuid_bytes u) = map (\<lambda>i. unat u div 256 ^ (16 - Suc i) mod 256) [0..<16]"
    by (simp add: uuid_bytes_def unsigned_of_nat take_bit_eq_mod)
  moreover have "foldl (\<lambda>n b. n * 256 + unat b) 0 bs = foldl (\<lambda>n b. n * 256 + b) 0 (map unat bs)" for bs :: bytes
    by (simp add: foldl_map)
  ultimately have "foldl (\<lambda>n b. n * 256 + unat b) 0 (uuid_bytes u) = unat u mod 256 ^ 16"
    by (simp only: foldl_base)
  moreover have "unat u < 256 ^ 16" using unsigned_less [of u] by simp
  ultimately show ?thesis by (simp add: uuid_of_bytes_def uuid_bytes_def)
qed

lemma length_uuid_bytes [simp]: "length (uuid_bytes u) = 16"
  by (simp add: uuid_bytes_def)

lemma Decode_Encode [simp]: "DecodeString (EncodeToString bs) = Inr bs"
proof (induction bs)
  case (Cons b bs)
  have "unat b < 256" using unsigned_less [of b] by simp
  then have "unat b div 16 < 16" "unat b mod 16 < 16" by (simp_all add: less_mult_imp_div_less)
  moreover have "word_of_nat (16 * (unat b div 16) + unat b mod 16) = b" by simp
  ultimately show ?case using Cons by (simp add: EncodeToString_def hex_byte_def)
qed (simp add: EncodeToString_def)

lemma decode_id_encoded [simp]: "decode_id (EncodeToString (uuid_bytes u)) = go_ret (Inr u)"
  by (simp add: decode_id_def to_UUID_def go_bind_def go_ret_def fun_eq_iff)

lemma decode_short: "length bs < 16 \<Longrightarrow> decode_id (EncodeToString bs) = go_panic SliceRange"
  by (simp add: decode_id_def to_UUID_def go_bind_def go_panic_def fun_eq_iff)

lemma decode_object_encoded [simp]: "decode_object (json_of_object x) = go_ret (Inr x)"
  by (simp add: decode_object_def json_of_object_def go_try_def go_bind_def go_ret_def fun_eq_iff)

section \<open>Writing and reading buffers\<close>

lemma mapped_put [simp]: "mapped b n m \<Longrightarrow> mapped b n (mem_put a bs m)"
  by (auto simp: mapped_iff mem_put_def dom_def)

lemma mapped_le: "mapped a n m \<Longrightarrow> k \<le> n \<Longrightarrow> mapped a k m"
  by (auto simp: mapped_def list_all_iff)

lemma Marshal_writes:
  assumes "0 < p" and "int (length data) \<le> sint n" and "sint n \<le> 2 ^ 28" and "mapped p (length data) (c_mem d)"
  shows "TryMarshalBytes p n data d = Inr (word_of_nat (length data), d\<lparr>c_mem := mem_put p data (c_mem d)\<rparr>)"
proof -
  have "take (nat (sint n)) data = data" using assms(2) by simp
  then show ?thesis using assms
    by (simp add: TryMarshalBytes_def bind_array_slice mem_write_def go_bind_def go_read_def go_modify_def go_ret_def)
qed

lemma unmarshal_reads:
  assumes "0 < p" and "0 < sint n" and "sint n \<le> 2 ^ 28" and "mapped p (nat (sint n)) (c_mem d)"
  shows "unmarshal_string p n d = Inr (Some (bytes_str (mem_bytes p (nat (sint n)) (c_mem d))), d)"
proof -
  have "n \<noteq> 0" using assms(2) by auto
  then show ?thesis using assms
    by (simp add: unmarshal_string_def bind_TryUnmarshalBytes mem_read_def go_bind_def go_read_def go_ret_def)
qed

lemma sint_of_nat_small: "n < 2 ^ 31 \<Longrightarrow> sint (word_of_nat n :: c_int) = int n"
  using sint_of_int_small [of "int n"] by simp

lemma with_handle_some: "cgo_handles d h = Some v \<Longrightarrow> as_t v = Some x \<Longrightarrow> with_handle h as_t bad k d = k x d"
  by (simp add: with_handle_def Handle_Value_def go_bind_def go_read_def go_ret_def)

lemma with_member: "cgo_handles d h = Some (HMember k m) \<Longrightarrow> with_handle h as_member bad f d = f (k, m) d"
  by (rule with_handle_some, assumption) (simp add: as_member_def)

text \<open>A successful export: the handle is new and refers to the value; nothing else changes but the counters.\<close>

lemma export_spec:
  assumes "handles_ok d"
  shows "wlp (export_handle v) (\<lambda>h d'. cgo_handles d h = None \<and> 0 < h \<and> cgo_handles d' = (cgo_handles d)(h \<mapsto> v)
    \<and> c_mem d' = c_mem d \<and> hosts d' = hosts d \<and> resolvers d' = resolvers d) d"
  unfolding export_handle_def wpx_bind wp_wd_do
proof (rule wpx_mono [OF wpx_weaken [OF wp_CountHandleExport]])
  fix u w
  let ?d = "d\<lparr>wdog := w\<rparr>"
  have "\<forall>h \<in> dom (cgo_handles ?d). 0 < h \<and> h \<le> handleIdx ?d" using assms by (simp add: handles_ok_def)
  from NewHandle_spec [OF this]
  show "wlp (NewHandle v) (\<lambda>h d'. cgo_handles d h = None \<and> 0 < h \<and> cgo_handles d' = (cgo_handles d)(h \<mapsto> v)
    \<and> c_mem d' = c_mem d \<and> hosts d' = hosts d \<and> resolvers d' = resolvers d) ?d"
    by (rule wpx_mono) simp
qed

section \<open>Reading a body\<close>

text \<open>The documented contract of \<open>io.Reader\<close> for a body that delivers its content and then the end of
  the file: at most as many bytes as the buffer has room for, at least one unless the buffer is empty
  or the end is reached.\<close>

definition reader_ok :: "'b reader \<Rightarrow> ('b \<Rightarrow> bytes) \<Rightarrow> bool" where
  "reader_ok rd content \<longleftrightarrow> (\<forall>n b data err b'. rd n b = ((data, err), b') \<longrightarrow>
     length data \<le> n \<and> content b = data @ content b' \<and> (err = None \<and> 0 < n \<longrightarrow> data \<noteq> [])
     \<and> (err \<noteq> None \<longrightarrow> err = Some IO_EOF \<and> content b' = []))"

text \<open>A reader that reports the end only by itself, and nothing for an empty buffer, as the contract
  allows.\<close>

definition late_eof :: "'b reader \<Rightarrow> bool" where
  "late_eof rd \<longleftrightarrow> (\<forall>n b. fst (fst (rd n b)) \<noteq> [] \<longrightarrow> snd (fst (rd n b)) = None) \<and> (\<forall>b. rd 0 b = (([], None), b))"

lemma reader_okD:
  assumes "reader_ok rd content" and "rd n b = ((data, err), b')"
  shows "length data \<le> n" "content b = data @ content b'" "err = None \<Longrightarrow> 0 < n \<Longrightarrow> data \<noteq> []"
    "err \<noteq> None \<Longrightarrow> err = Some IO_EOF" "err \<noteq> None \<Longrightarrow> content b' = []"
  using assms unfolding reader_ok_def by blast+

lemma read_all_content:
  assumes "reader_ok rd content" and "length acc + length (content b) < n"
  shows "\<exists>b'. read_all rd n acc b = Some ((acc @ content b, IO_EOF), b')"
  using assms(2)
proof (induction "length (content b)" arbitrary: acc b rule: less_induct)
  case less
  obtain data err b' where r: "rd (n - length acc) b = ((data, err), b')" by (metis prod.exhaust)
  note ok = reader_okD [OF assms(1) r]
  have room: "0 < n - length acc" using less.prems by simp
  show ?case
  proof (cases err)
    case None
    then have "length (content b') < length (content b)" using ok room by auto
    moreover have "length (acc @ data) + length (content b') < n" using less.prems ok(2) by simp
    ultimately have "\<exists>b''. read_all rd n (acc @ data) b' = Some ((acc @ content b, IO_EOF), b'')"
      using less.hyps [of b' "acc @ data"] ok(2) by simp
    then show ?thesis by (simp add: read_all.simps [of rd n acc] r None)
  next
    case (Some e)
    then show ?thesis using ok by (simp add: read_all.simps r)
  qed
qed

lemma read_all_full:
  fixes content :: "'a \<Rightarrow> bytes"
  assumes "reader_ok rd content" and "late_eof rd"
    and "length acc \<le> n" and "n \<le> length acc + length (content b)"
  shows "read_all rd n acc b = None"
proof -
  have False if "read_all rd n acc b = Some y" for y
  proof -
    let ?P = "\<lambda>rd n acc b (y :: (bytes \<times> read_error) \<times> 'a). reader_ok rd content \<longrightarrow> late_eof rd \<longrightarrow> length acc \<le> n \<longrightarrow>
        \<not> n \<le> length acc + length (content b)"
    have "?P rd n acc b y"
    proof (rule read_all.raw_induct [where P = ?P, OF _ that], intro impI notI)
      fix f :: "'a reader \<Rightarrow> nat \<Rightarrow> bytes \<Rightarrow> 'a \<Rightarrow> ((bytes \<times> read_error) \<times> 'a) option" and rd n acc b y
      assume IH: "\<And>rd n acc b y. f rd n acc b = Some y \<Longrightarrow>
          reader_ok rd content \<longrightarrow> late_eof rd \<longrightarrow> length acc \<le> n \<longrightarrow> \<not> n \<le> length acc + length (content b)"
        and step: "(case rd (n - length acc) b of ((data, err), b') \<Rightarrow>
          (case err of None \<Rightarrow> f rd n (acc @ data) b' | Some e \<Rightarrow> Some ((acc @ data, e), b'))) = Some y"
        and rd: "reader_ok rd content" and late: "late_eof rd"
        and le: "length acc \<le> n" and ge: "n \<le> length acc + length (content b)"
      obtain data err b' where r: "rd (n - length acc) b = ((data, err), b')" by (metis prod.exhaust)
      note ok = reader_okD [OF rd r]
      have "err = None"
      proof (cases "n = length acc")
        case True
        then show ?thesis using r late by (simp add: late_eof_def)
      next
        case False
        then have "data \<noteq> [] \<or> err = None" using ok le ge by fastforce
        then show ?thesis using r late unfolding late_eof_def by (metis fst_conv snd_conv)
      qed
      then have "f rd n (acc @ data) b' = Some y" using step r by simp
      then show False using IH rd late ok(1,2) le ge by fastforce
    qed
    then show False using assms by blast
  qed
  then show ?thesis by (cases "read_all rd n acc b") auto
qed

section \<open>Properties\<close>

text \<open>C14. In every history of calls the counter of the watchdog is the number of open handles, modulo
  the 32 bits of the counter; no handle is 0, and every handle refers to an object that exists (a world,
  request or member handle to a host that exists).\<close>

theorem handle_count_exact:
  assumes "runs (\<lambda>f. f) may_call (dll_init m) cs d"
  shows "handle_count (wdog d) = word_of_nat (card (dom (cgo_handles d)))
    \<and> (\<forall>h v. cgo_handles d h = Some v \<longrightarrow> h \<noteq> 0 \<and> ref_ok d v)"
proof -
  have "handles_ok d" using native.safe_inv [OF assms] .
  then show ?thesis by (fastforce simp: handles_ok_def ranI)
qed

text \<open>An application that has created a path resolver and closed nothing yet.\<close>

definition sample_dll :: "(nat, nat) dll" where
  "sample_dll = (case go_void dll_NewSimplePathResolver (dll_init Map.empty) of Inr (_, d) \<Rightarrow> d)"

lemma sample_dll_run: "go_void dll_NewSimplePathResolver (dll_init Map.empty) = Inr ((), sample_dll)"
  by (simp add: sample_dll_def go_void_def dll_NewSimplePathResolver_def export_handle_def wd_do_def go_zoom_def
      CountHandleExport_def NewHandle_def go_bind_def go_read_def go_modify_def go_ret_def dll_init_def watchdog_zero_def Info_def
      wd_line_def)

lemma sample_dll_sel:
  "cgo_handles sample_dll = [1 \<mapsto> HPathResolver 0]" "length (resolvers sample_dll) = 1"
  "handle_count (wdog sample_dll) = 1"
  by (simp_all add: sample_dll_def go_void_def dll_NewSimplePathResolver_def export_handle_def wd_do_def go_zoom_def
      CountHandleExport_def NewHandle_def go_bind_def go_read_def go_modify_def go_ret_def dll_init_def watchdog_zero_def Info_def
      wd_line_def)

lemma sample_dll_runs: "runs (\<lambda>f. f) may_call (dll_init Map.empty) [go_void dll_NewSimplePathResolver] sample_dll"
proof -
  have "may_call (go_void dll_NewSimplePathResolver) (dll_init Map.empty)"
    by (auto simp: may_call_def intro: exported.intros)
  then have "runs (\<lambda>f. f) may_call (dll_init Map.empty) ([] @ [go_void dll_NewSimplePathResolver]) sample_dll"
    by (rule runs.runs_snoc [where exec = "\<lambda>f. f", OF runs.runs_nil]) (rule sample_dll_run)
  then show ?thesis by simp
qed

theorem handle_count_exact_witness:
  "handle_count (wdog sample_dll) = word_of_nat (card (dom (cgo_handles sample_dll)))
    \<and> cgo_handles sample_dll 1 = Some (HPathResolver 0) \<and> ref_ok sample_dll (HPathResolver 0)"
  using handle_count_exact [OF sample_dll_runs] by (simp add: sample_dll_sel)

text \<open>C16. A call of the library changes the memory of the caller only inside the buffers and the
  out-parameters that the caller passed (an error handle has 8 bytes, a length or an event type 4), and
  only there: in particular a buffer that is too short is not overrun. The lengths of the two buffers
  for certificates are themselves in memory (\<open>certificate_buffers\<close>): nothing is said of a call whose
  first certificate is written over the second length.\<close>

theorem writes_stay_in_buffers:
  assumes "exported d f A" and "f d = Inr (r, d')" and "x \<notin> A"
  shows "c_mem d' x = c_mem d x"
proof -
  have "wlp f (\<lambda>_. same_outside A d) d" by (rule frame.exported_runs [OF assms(1)])
  from wpx_result [OF this assms(2)] assms(3) show ?thesis by (simp add: same_outside_def)
qed

text \<open>An error handle and 16 bytes of memory at address 100.\<close>

definition sample_error :: "(nat, nat) dll" where
  "sample_error = (dll_init (\<lambda>x. if 100 \<le> x \<and> x < 116 then Some 0 else None))\<lparr>cgo_handles := [1 \<mapsto> HError ''lost''],
     handleIdx := 1, wdog := watchdog_zero\<lparr>handle_count := 1\<rparr>\<rparr>"

lemma sample_error_ok: "handles_ok sample_error"
  by (simp add: handles_ok_def sample_error_def dll_init_def)

lemma sample_body:
  "go_void (GetErrorBody 1 100 8) sample_error
    = Inr ((), sample_error\<lparr>c_mem := mem_put 100 (str_bytes ''lost'') (c_mem sample_error)\<rparr>)"
proof -
  have "error_of 1 sample_error = Inr (''lost'', sample_error)"
    by (simp add: error_of_def Handle_Value_def go_bind_def go_read_def go_ret_def sample_error_def)
  moreover have "mapped 100 (length ''lost'') (c_mem sample_error)" by (simp add: mapped_def upt_rec sample_error_def dll_init_def)
  moreover from this have "TryMarshalBytes 100 8 (str_bytes ''lost'') sample_error
      = Inr (4, sample_error\<lparr>c_mem := mem_put 100 (str_bytes ''lost'') (c_mem sample_error)\<rparr>)"
    using Marshal_writes [of 100 "str_bytes ''lost''" 8 sample_error] by simp
  ultimately show ?thesis
    by (simp add: go_void_def GetErrorBody_def go_bind_def go_ret_def)
qed

theorem writes_stay_in_buffers_witness:
  "c_mem (sample_error\<lparr>c_mem := mem_put 100 (str_bytes ''lost'') (c_mem sample_error)\<rparr>) 108 = c_mem sample_error 108"
  by (rule writes_stay_in_buffers [OF exported.E_GetErrorBody sample_body]) (simp add: buffer_def)

text \<open>C18. The text of an error survives the boundary: for the handle of an error the length function
  returns the length of its text, and a buffer of exactly that length receives the text.\<close>

theorem error_text_roundtrip:
  assumes "handles_ok d" and "marshalError err d = Inr (h, d')" and "length err < 2 ^ 28" and "0 < p"
    and "mapped p (length err) (c_mem d)"
  shows "\<exists>d''. GetErrorBodyLength h d' = Inr (word_of_nat (length err), d')
    \<and> GetErrorBody h p (word_of_nat (length err)) d' = Inr (word_of_nat (length err), d'')
    \<and> bytes_str (mem_bytes p (length err) (c_mem d'')) = err"
proof -
  have e: "cgo_handles d' h = Some (HError err)" "c_mem d' = c_mem d"
    using wpx_result [OF export_spec [OF assms(1)] assms(2) [unfolded marshalError_def]] by simp_all
  have eo: "error_of h d' = Inr (err, d')"
    by (simp add: error_of_def Handle_Value_def go_bind_def go_read_def go_ret_def e)
  have "TryMarshalBytes p (word_of_nat (length err)) (str_bytes err) d'
      = Inr (word_of_nat (length err), d'\<lparr>c_mem := mem_put p (str_bytes err) (c_mem d')\<rparr>)"
    using Marshal_writes [of p "str_bytes err" "word_of_nat (length err)" d'] assms(3,4,5) e(2)
    by (simp add: sint_of_nat_small)
  moreover have "mem_bytes p (length err) (mem_put p (str_bytes err) (c_mem d')) = str_bytes err"
    using mem_put_bytes [of p "str_bytes err"] by simp
  ultimately show ?thesis
    by (intro exI [where x = "d'\<lparr>c_mem := mem_put p (str_bytes err) (c_mem d')\<rparr>"])
       (simp add: GetErrorBodyLength_def GetErrorBody_def go_bind_def go_ret_def eo)
qed

theorem error_text_roundtrip_witness:
  "\<exists>h d' d''. marshalError ''gone'' sample_error = Inr (h, d') \<and> GetErrorBodyLength h d' = Inr (4, d')
    \<and> GetErrorBody h 100 4 d' = Inr (4, d'') \<and> bytes_str (mem_bytes 100 (length ''gone'') (c_mem d'')) = ''gone''"
proof -
  have "\<exists>d'. marshalError ''gone'' sample_error = Inr (2, d')"
    by (simp add: marshalError_def export_handle_def wd_do_def go_zoom_def CountHandleExport_def NewHandle_def Info_def
        wd_line_def go_bind_def go_read_def go_modify_def go_ret_def sample_error_def dll_init_def watchdog_zero_def)
  then obtain d' where "marshalError ''gone'' sample_error = Inr (2, d')" by blast
  moreover have "mapped 100 (length ''gone'') (c_mem sample_error)"
    by (simp add: mapped_def upt_rec sample_error_def dll_init_def)
  ultimately show ?thesis using error_text_roundtrip [OF sample_error_ok, of "''gone''" 2 d' 100] by auto
qed

text \<open>No call of the library ever closes the body of a response: closing its handle removes the
  handle, but the method that closes the body is not the one that the interface asks for.\<close>

lemma response_body_never_closed:
  assumes "exported d f A" and "f d = Inr (u, d')" and "r < length (responses d)"
  shows "r < length (responses d') \<and> body_closed (responses d' ! r) = body_closed (responses d ! r)"
proof -
  have "wlp f (\<lambda>_. bodies_kept d) d" by (rule bodies.exported_runs [OF assms(1)]) simp
  from wpx_result [OF this assms(2)]
  have eq: "take (length (responses d)) (map body_closed (responses d')) = map body_closed (responses d)"
    by (simp add: bodies_kept_def)
  from arg_cong [OF eq, of length] have le: "length (responses d) \<le> length (responses d')" by simp
  have "take (length (responses d)) (map body_closed (responses d')) ! r = map body_closed (responses d) ! r"
    by (simp only: eq)
  then show ?thesis using assms(3) le by simp
qed

text \<open>A response with an open body, its handle, and memory for four bytes at address 100.\<close>

definition sample_response :: "(nat, bytes) dll" where
  "sample_response = (dll_init (\<lambda>x. if 100 \<le> x \<and> x < 104 then Some 0 else None))\<lparr>cgo_handles := [1 \<mapsto> HAbystResponse 0],
     handleIdx := 1, wdog := watchdog_zero\<lparr>handle_count := 1\<rparr>,
     responses := [\<lparr>StatusCode = 200, Status = ''200 OK'', Header = None, ContentLength = 2, Body = Some [7, 8],
       body_closed = False\<rparr>]\<rparr>"

lemma sample_close:
  "\<exists>d'. CloseAbyssHandle 1 sample_response = Inr ((), d') \<and> cgo_handles d' = Map.empty"
  by (simp add: CloseAbyssHandle_def Handle_Value_def IDestructable_Destuct_def as_client_def Handle_Delete_def wd_do_def
      go_zoom_def CountHandleRelease_def Info_def wd_line_def go_bind_def go_read_def go_modify_def go_ret_def
      sample_response_def dll_init_def watchdog_zero_def)

lemma response_body_never_closed_sample:
  "\<exists>d'. CloseAbyssHandle 1 sample_response = Inr ((), d') \<and> cgo_handles d' = Map.empty
    \<and> \<not> body_closed (responses d' ! 0)"
proof -
  obtain d' where d': "CloseAbyssHandle 1 sample_response = Inr ((), d')" "cgo_handles d' = Map.empty"
    using sample_close by blast
  have "0 < length (responses sample_response)" "\<not> body_closed (responses sample_response ! 0)"
    by (simp_all add: sample_response_def)
  then show ?thesis using response_body_never_closed [OF exported.E_CloseAbyssHandle d'(1)] d' by blast
qed

text \<open>C17. Reading a whole body ends and returns all of it: for a body that obeys the contract of a reader
  and a buffer with room for more than its content, the call returns the length of the content,
  which is then in the buffer.\<close>

theorem read_body_all:
  assumes "cgo_handles d h = Some (HAbystResponse r)" and "Body (responses d ! r) = Some b" and "reader_ok rd content"
    and "ContentLength (responses d ! r) \<le> sint n" and "int (length (content b)) < sint n" and "sint n \<le> 2 ^ 28"
    and "0 < p" and "mapped p (nat (sint n)) (c_mem d)"
  shows "\<exists>d'. AbystResponse_ReadBodyAll rd h p n d = Inr (word_of_nat (length (content b)), d')
    \<and> mem_bytes p (length (content b)) (c_mem d') = content b"
proof -
  have "length [] + length (content b) < nat (sint n)" using assms(5) by simp
  from read_all_content [OF assms(3) this]
  obtain b' where b': "read_all rd (nat (sint n)) [] b = Some ((content b, IO_EOF), b')" by auto
  have "n \<noteq> 0" using assms(5) by auto
  moreover have "take (nat (sint n)) (content b) = content b" using assms(5) by simp
  moreover have "mapped p (length (content b)) (c_mem d)" using assms(5) by (intro mapped_le [OF assms(8)]) simp
  ultimately show ?thesis using assms(4-7) b'
    by (simp add: AbystResponse_ReadBodyAll_def with_handle_some [OF assms(1)] as_response_def bind_TryUnmarshalBytes
        set_body_def mem_write_def go_bind_def go_read_def go_modify_def go_ret_def go_nonnil_def assms(2))
qed

text \<open>A reader that delivers one byte at a time, and the end when nothing is left.\<close>

definition byte_reader :: "bytes reader" where
  "byte_reader n b = (if n = 0 then (([], None), b) else case b of
     [] \<Rightarrow> (([], Some IO_EOF), []) | x # xs \<Rightarrow> (([x], None), xs))"

lemma byte_reader_ok: "reader_ok byte_reader (\<lambda>b. b)"
  by (auto simp: reader_ok_def byte_reader_def split: if_splits list.splits)

lemma byte_reader_late: "late_eof byte_reader"
  by (auto simp: late_eof_def byte_reader_def split: list.splits)

lemma sample_response_mapped: "mapped 100 4 (c_mem sample_response)"
  by (simp add: mapped_def upt_rec sample_response_def dll_init_def)

theorem read_body_all_witness:
  "\<exists>d'. AbystResponse_ReadBodyAll byte_reader 1 100 4 sample_response = Inr (2, d') \<and> mem_bytes 100 (length [7 :: 8 word, 8]) (c_mem d') = [7, 8]"
proof -
  have "cgo_handles sample_response 1 = Some (HAbystResponse 0)" "Body (responses sample_response ! 0) = Some [7, 8]"
    "ContentLength (responses sample_response ! 0) \<le> sint (4 :: c_int)"
    by (simp_all add: sample_response_def)
  then show ?thesis
    using read_body_all [OF _ _ byte_reader_ok, of sample_response 1 0 "[7, 8]" 4 100] sample_response_mapped by simp
qed

text \<open>A buffer of exactly the length of the content, the length that the library itself reports, passes
  the check of the length, but the call need not return: when the reader reports the end of the
  body only by itself, as its contract allows, the loop reads into the empty rest of the buffer for ever.\<close>

lemma exact_buffer_never_returns:
  assumes "cgo_handles d h = Some (HAbystResponse r)" and "Body (responses d ! r) = Some b" and "reader_ok rd content"
    and "late_eof rd" and "ContentLength (responses d ! r) = int (length (content b))"
    and "sint n = int (length (content b))" and "0 < sint n" and "sint n \<le> 2 ^ 28" and "0 < p"
  shows "AbyssResponse_GetContentLength h d = Inr (n, d) \<and> AbystResponse_ReadBodyAll rd h p n d = Inl Blocked"
proof -
  have "read_all rd (nat (sint n)) [] b = None"
    by (rule read_all_full [OF assms(3,4)]) (simp_all add: assms(6))
  moreover have "n \<noteq> 0" using assms(7) by auto
  moreover have "word_of_int (int (length (content b))) = n" unfolding assms(6) [symmetric] by simp
  ultimately show ?thesis using assms(5-9)
    by (simp add: AbystResponse_ReadBodyAll_def AbyssResponse_GetContentLength_def with_handle_some [OF assms(1)] as_response_def
        bind_TryUnmarshalBytes go_bind_def go_read_def go_ret_def go_panic_def go_nonnil_def assms(2))
qed

lemma exact_buffer_never_returns_sample:
  "AbyssResponse_GetContentLength 1 sample_response = Inr (2, sample_response)
    \<and> AbystResponse_ReadBodyAll byte_reader 1 100 2 sample_response = Inl Blocked"
proof -
  have "cgo_handles sample_response 1 = Some (HAbystResponse 0)" "Body (responses sample_response ! 0) = Some [7, 8]"
    "ContentLength (responses sample_response ! 0) = 2"
    by (simp_all add: sample_response_def)
  then show ?thesis
    using exact_buffer_never_returns [OF _ _ byte_reader_ok byte_reader_late, of sample_response 1 0 "[7, 8]" 2 100] by simp
qed

section \<open>Objects in JSON\<close>

lemma decode_objects: "Filter_until_err (map json_of_object obs) decode_object = go_ret (obs, [], None)"
proof -
  have "loop_until decode_object (map json_of_object obs) acc = go_ret (acc @ obs, [], None)" for acc
    by (induction obs arbitrary: acc) (simp_all add: go_bind_def go_ret_def fun_eq_iff)
  from this [of "[]"] show ?thesis by (simp add: Filter_until_err_def)
qed

lemma Filter_json: "Filter zero_json_object obs (\<lambda>i. go_ret (json_of_object i)) = go_ret (map json_of_object obs)"
  by (rule Filter_pure)

text \<open>The documented round trip of \<open>encoding/json\<close>, for texts in ASCII.\<close>

definition json_ok :: "json_env \<Rightarrow> bool" where
  "json_ok js \<longleftrightarrow> (\<forall>os s. Marshal_objects js os = Some s \<longrightarrow>
     list_all (\<lambda>x. list_all (\<lambda>c. byte_of c < (128 :: nat)) (json_ID x @ json_Addr x)) os \<longrightarrow>
     s \<noteq> [] \<and> Unmarshal_objects js s = Inr os)"

definition ascii_objects :: "ObjectInfo list \<Rightarrow> bool" where
  "ascii_objects obs \<longleftrightarrow> list_all (\<lambda>x. list_all (\<lambda>c. byte_of c < (128 :: nat)) (Addr x)) obs"

lemma hex_ascii: "list_all (\<lambda>c. byte_of c < (128 :: nat)) (EncodeToString bs)"
proof (induction bs)
  case (Cons b bs)
  have "unat b < 256" using unsigned_less [of b] by simp
  then have "unat b div 16 < 16" "unat b mod 16 < 16" by (simp_all add: less_mult_imp_div_less)
  then have "byte_of (digit_char (unat b div 16)) < (128 :: nat)" "byte_of (digit_char (unat b mod 16)) < (128 :: nat)"
    by (cases "unat b div 16 < 10"; simp add: code_digit_char)
       (cases "unat b mod 16 < 10"; simp add: code_digit_char)
  then show ?case using Cons by (simp add: EncodeToString_def hex_byte_def)
qed (simp add: EncodeToString_def)

lemma store_int_spec:
  "wlp (store_int p v) (\<lambda>_ d'. d' = d\<lparr>c_mem := mem_put p (le_bytes 4 v) (c_mem d)\<rparr>) d"
  by (auto simp: store_int_def mem_write_def go_fault_def wp_rules)

lemma handles_ok_mem [simp]: "handles_ok (d\<lparr>c_mem := m\<rparr>) = handles_ok d"
proof -
  have "ref_ok (d\<lparr>c_mem := m\<rparr>) v = ref_ok d v" for v by (cases v) simp_all
  then show ?thesis by (simp add: handles_ok_def)
qed

lemma export_append:
  assumes "handles_ok d" and "Marshal_objects js (map json_of_object obs) = Some s"
    and "export_event js i t (EMemberObjectAppend peer obs) d = Inr (h, d1)"
  shows "c_int_at t (c_mem d1) = 3 \<and> cgo_handles d1 = (cgo_handles d)(h \<mapsto> HObjectAppend peer s)
    \<and> c_mem d1 = mem_put t (le_bytes 4 (3 :: c_int)) (c_mem d) \<and> cgo_handles d h = None"
proof -
  let ?d = "d\<lparr>c_mem := mem_put t (le_bytes 4 (3 :: c_int)) (c_mem d)\<rparr>"
  obtain u d0 where "store_int t 3 d = Inr (u, d0)" "export_handle (HObjectAppend peer s) d0 = Inr (h, d1)"
    using assms(2,3)
    by (auto simp: export_event_def Filter_json marshal_or_nil_def go_bind_def go_ret_def split: sum.splits)
  moreover from wpx_result [OF store_int_spec this(1)] have "d0 = ?d" by simp
  ultimately have "export_handle (HObjectAppend peer s) ?d = Inr (h, d1)" by simp
  moreover have "handles_ok ?d" using assms(1) by simp
  ultimately show ?thesis using wpx_result [OF export_spec] by fastforce
qed

text \<open>C24. The objects of an event reach another member unchanged through the library: the application that
  copies the JSON text of an append event into a buffer and passes it to the append function of a
  member sends exactly the objects of the event, with the same ids, addresses and transforms. The type that the
  export stores for such an event is 3.\<close>

theorem objects_pass_through_json:
  assumes "json_ok js" and "handles_ok d" and "cgo_handles d hm = Some (HMember k m)" and "ascii_objects obs"
    and "Marshal_objects js (map json_of_object obs) = Some s" and "int (length s) \<le> sint n" and "sint n \<le> 2 ^ 28"
    and "0 < p" and "mapped p (length s) (c_mem d)"
    and "export_event js i t (EMemberObjectAppend peer obs) d = Inr (h, d1)"
  shows "c_int_at t (c_mem d1) = 3 \<and> (\<exists>d2. WorldPeerObjectAppend_GetBody h p n d1 = Inr (word_of_nat (length s), d2)
    \<and> WorldPeer_AppendObjects js env hm p (word_of_nat (length s)) d2
      = go_bind (host_do k (AppendObjects env m obs)) (\<lambda>_. go_ret 0) d2)"
proof -
  let ?d2 = "d1\<lparr>c_mem := mem_put p (str_bytes s) (c_mem d1)\<rparr>"
  have e: "cgo_handles d1 h = Some (HObjectAppend peer s)" "mapped p (length s) (c_mem d1)"
    "cgo_handles d1 hm = Some (HMember k m)" "c_int_at t (c_mem d1) = 3"
    using export_append [OF assms(2,5,10)] assms(3,9) by auto
  have "list_all (\<lambda>x. list_all (\<lambda>c. byte_of c < (128 :: nat)) (json_ID x @ json_Addr x)) (map json_of_object obs)"
    using assms(4) hex_ascii by (simp add: ascii_objects_def list.pred_map json_of_object_def comp_def)
  then have js: "s \<noteq> []" "Unmarshal_objects js s = Inr (map json_of_object obs)"
    using assms(1,5) unfolding json_ok_def by blast+
  have "WorldPeerObjectAppend_GetBody h p n d1 = Inr (word_of_nat (length s), ?d2)"
    using Marshal_writes [of p "str_bytes s" n d1] assms(6-8) e(2)
    by (simp add: WorldPeerObjectAppend_GetBody_def with_handle_some [OF e(1)] as_append_def)
  moreover have small: "sint (word_of_nat (length s) :: c_int) = int (length s)"
    using assms(6,7) by (intro sint_of_nat_small) simp
  have "unmarshal_string p (word_of_nat (length s)) ?d2 = Inr (Some s, ?d2)"
    using unmarshal_reads [of p "word_of_nat (length s)" ?d2] mem_put_bytes [of p "str_bytes s"] js(1) assms(6-8) e(2)
    by (simp add: small)
  then have "WorldPeer_AppendObjects js env hm p (word_of_nat (length s)) ?d2
      = go_bind (host_do k (AppendObjects env m obs)) (\<lambda>_. go_ret 0) ?d2"
    using js(2) by (simp add: WorldPeer_AppendObjects_def with_member [where d = ?d2, simplified, OF e(3)])
      (simp add: go_bind_def go_ret_def decode_objects)
  ultimately show ?thesis using e(4) by blast
qed

text \<open>A host with a member, memory at address 100, and a JSON package that knows one list of objects.\<close>

definition sample_objects :: "ObjectInfo list" where
  "sample_objects = [\<lparr>ID = 5, Addr = ''a'', Transform = replicate 7 0\<rparr>]"

definition sample_json :: json_env where
  "sample_json = \<lparr>
     Marshal_objects = \<lambda>os. if os = map json_of_object sample_objects then Some ''[o]'' else None,
     Marshal_strings = \<lambda>_. None, Marshal_response = \<lambda>_ _ _. None,
     Unmarshal_objects = \<lambda>s. if s = ''[o]'' then Inr (map json_of_object sample_objects) else Inl [],
     Unmarshal_strings = \<lambda>_. Inr [EncodeToString [1, 2]]\<rparr>"

definition sample_member :: WorldMember where
  "sample_member = \<lparr>wm_world = 0, wm_hash = sample_hash, wm_peerSession = \<lparr>Peer = None, PeerSessionID = 1\<rparr>\<rparr>"

definition sample_library :: "(item, nat) dll" where
  "sample_library = (dll_init (\<lambda>x. if 100 \<le> x \<and> x < 116 then Some 0 else None))\<lparr>
     cgo_handles := [1 \<mapsto> HMember 0 sample_member], handleIdx := 1, wdog := watchdog_zero\<lparr>handle_count := 1\<rparr>,
     resolvers := [NewSimplePathResolver], hosts := [(sample_host, 0)]\<rparr>"

lemma sample_library_ok: "handles_ok sample_library"
  by (simp add: handles_ok_def sample_library_def dll_init_def)

lemma sample_json_ok: "json_ok sample_json"
  by (simp add: json_ok_def sample_json_def)

lemma sample_library_event:
  "\<exists>d1. export_event sample_json 0 112 (EMemberObjectAppend sample_hash sample_objects) sample_library = Inr (2, d1)"
  unfolding export_event_def
  by (simp add: store_int_def mem_write_def mapped_def upt_rec Filter_json export_handle_def wd_do_def go_zoom_def CountHandleExport_def NewHandle_def Info_def
      wd_line_def go_bind_def go_read_def go_modify_def go_ret_def sample_library_def dll_init_def watchdog_zero_def)

lemma sample_library_mapped: "mapped 100 (length ''[o]'') (c_mem sample_library)"
  by (simp add: mapped_def upt_rec sample_library_def dll_init_def)

theorem objects_pass_through_json_witness:
  "\<exists>d1 d2. export_event sample_json 0 112 (EMemberObjectAppend sample_hash sample_objects) sample_library = Inr (2, d1)
    \<and> c_int_at 112 (c_mem d1) = 3
    \<and> WorldPeerObjectAppend_GetBody 2 100 3 d1 = Inr (3, d2)
    \<and> WorldPeer_AppendObjects sample_json sample_env 1 100 3 d2
      = go_bind (host_do 0 (AppendObjects sample_env sample_member sample_objects)) (\<lambda>_. go_ret 0) d2"
proof -
  obtain d1 where d1: "export_event sample_json 0 112 (EMemberObjectAppend sample_hash sample_objects) sample_library = Inr (2, d1)"
    using sample_library_event by blast
  have "ascii_objects sample_objects" by (simp add: ascii_objects_def sample_objects_def)
  moreover have "Marshal_objects sample_json (map json_of_object sample_objects) = Some ''[o]''"
    by (simp add: sample_json_def)
  moreover have "cgo_handles sample_library 1 = Some (HMember 0 sample_member)" by (simp add: sample_library_def)
  ultimately show ?thesis
    using objects_pass_through_json [OF sample_json_ok sample_library_ok, of 1 0 sample_member sample_objects "''[o]''" 3 100]
      sample_library_mapped d1 by auto
qed

text \<open>An object id of fewer than 32 hexadecimal digits that the application passes does not fail as an
  invalid argument but panics: the conversion of the decoded bytes to an id is not checked.\<close>

lemma short_object_id_panics:
  assumes "cgo_handles d hm = Some (HMember k m)" and "0 < p" and "0 < sint n" and "sint n \<le> 2 ^ 28"
    and "mapped p (nat (sint n)) (c_mem d)"
    and "Unmarshal_strings js (bytes_str (mem_bytes p (nat (sint n)) (c_mem d))) = Inr (EncodeToString bs # ids)"
    and "length bs < 16"
  shows "WorldPeer_DeleteObjects js env hm p n d = Inl SliceRange"
  using unmarshal_reads [OF assms(2-5)] assms(6,7)
  by (simp add: WorldPeer_DeleteObjects_def with_member [OF assms(1)] Filter_until_err_def decode_short go_bind_def go_panic_def)

lemma short_object_id_panics_sample: "WorldPeer_DeleteObjects sample_json sample_env 1 100 3 sample_library = Inl SliceRange"
proof -
  have "mapped 100 (nat (sint (3 :: c_int))) (c_mem sample_library)"
    using sample_library_mapped by (simp add: numeral_3_eq_3)
  moreover have "cgo_handles sample_library 1 = Some (HMember 0 sample_member)" by (simp add: sample_library_def)
  ultimately show ?thesis
    by (intro short_object_id_panics [where bs = "[1, 2]" and ids = "[]" and k = 0 and m = sample_member])
       (simp_all add: sample_json_def)
qed

end
