(* ===== verification/Net_Listen.thy ===== *)
theory Net_Listen
  imports Net_Service
begin

text \<open>
  The accepting loop of the network service (\<open>net_service/net_service.go\<close>, \<open>ListenAndServe\<close>). The results
  of listening and accepting are arguments. A connection of the abyss protocol is handed to the inbound
  handshake, which runs in a goroutine of its own; the model runs it when the connection is accepted.
\<close>

definition NextProtoAbyss :: string where "NextProtoAbyss = ''abyss''"
definition NextProtoH3 :: string where "NextProtoH3 = ''h3''"

text \<open>An accepted connection: its negotiated protocol, and what an inbound handshake on it would see.\<close>

record 'w accepted_conn =
  NegotiatedProtocol :: string
  acc_inbound :: inbound_env
  acc_stream :: "'w list"

datatype accept_action = ServeQUICConn quic_conn | RefuseConn quic_conn int string

text \<open>The loop ends with the error of accepting. The other protocols are recorded: a connection for the
  abyst server, and one that is closed.\<close>

primrec accept_loop ::
    "crypto \<Rightarrow> (string + 'w accepted_conn) list \<Rightarrow> ('w BetaNetService, accept_action list \<times> string option) go" where
  "accept_loop cr [] = go_ret ([], None)"
| "accept_loop cr (a # as) = (case a of
     Inl err \<Rightarrow> go_ret ([], Some err)
   | Inr connection \<Rightarrow>
       if NegotiatedProtocol connection = NextProtoAbyss then
         go_bind (PrepareAbyssInbound cr (acc_inbound connection) (acc_stream connection)) (\<lambda>_. accept_loop cr as)
       else go_bind (accept_loop cr as) (\<lambda>(acts, err). go_ret
         ((if NegotiatedProtocol connection = NextProtoH3 then ServeQUICConn (ie_conn (acc_inbound connection))
           else RefuseConn (ie_conn (acc_inbound connection)) 0 ''unknown TLS ALPN protocol ID'') # acts, err)))"

definition Net_ListenAndServe ::
    "crypto \<Rightarrow> string option \<Rightarrow> (string + 'w accepted_conn) list \<Rightarrow>
     ('w BetaNetService, accept_action list \<times> string option) go" where
  "Net_ListenAndServe cr listen accepts = (case listen of
     Some err \<Rightarrow> go_ret ([], Some err)
   | None \<Rightarrow> accept_loop cr accepts)"

text \<open>Connections that did not negotiate the abyss protocol never reach the table of peers.\<close>

lemma other_protocols_no_peer:
  "list_all (\<lambda>a. case a of Inl _ \<Rightarrow> True | Inr c \<Rightarrow> NegotiatedProtocol c \<noteq> NextProtoAbyss) as \<Longrightarrow>
   accept_loop cr as h = Inr (r, h') \<Longrightarrow> h' = h"
  by (induction as arbitrary: r) (auto simp: go_ret_def go_bind_def split: sum.splits)

section \<open>Settings of the transport\<close>

text \<open>The TLS and QUIC settings of the service, and the handler for connections before they are accepted,
  which is stored and read by nothing. They are kept beside the record of the service, whose other
  operations do not touch them.\<close>

datatype client_auth = NoClientCert | RequireAnyClientCert

record tls_config =
  Certificates :: "(bytes list \<times> PrivateKey) list"
  conf_VerifyConnection :: "Certificate list \<Rightarrow> (unit, string option) go"
  NextProtos :: "string list"
  ServerName :: string
  ClientAuth :: client_auth
  InsecureSkipVerify :: bool

definition NewDefaultTlsConf :: "crypto \<Rightarrow> TLSIdentity \<Rightarrow> tls_config" where
  "NewDefaultTlsConf cr tls_identity = \<lparr>
     Certificates = [([tls_self_cert tls_identity], priv_key tls_identity)],
     conf_VerifyConnection = VerifyConnection cr,
     NextProtos = [NextProtoAbyss, NextProtoH3],
     ServerName = ''abyss'',
     ClientAuth = RequireAnyClientCert,
     InsecureSkipVerify = True\<rparr>"

record quic_config =
  MaxIdleTimeout :: time
  AllowConnectionWindowIncrease :: "quic_conn \<Rightarrow> 64 word \<Rightarrow> bool"
  KeepAlivePeriod :: time
  Allow0RTT :: bool
  EnableDatagrams :: bool

definition NewDefaultQuicConf :: quic_config where
  "NewDefaultQuicConf = \<lparr>
     MaxIdleTimeout = 3600 * 1000000000,
     AllowConnectionWindowIncrease = \<lambda>conn delta. True,
     KeepAlivePeriod = 1000000000 * 5,
     Allow0RTT = True,
     EnableDatagrams = True\<rparr>"

record 'p transport =
  abyssTlsConf :: tls_config
  abystTlsConf :: tls_config
  quicConf :: quic_config
  preAccepter :: "'p option"

definition new_transport :: "crypto \<Rightarrow> TLSIdentity \<Rightarrow> 'p transport" where
  "new_transport cr tls_identity = \<lparr>
     abyssTlsConf = NewDefaultTlsConf cr tls_identity,
     abystTlsConf = (NewDefaultTlsConf cr tls_identity)\<lparr>NextProtos := [NextProtoH3]\<rparr>,
     quicConf = NewDefaultQuicConf,
     preAccepter = None\<rparr>"

definition HandlePreAccept :: "'p option \<Rightarrow> ('p transport, unit) go" where
  "HandlePreAccept preaccept_handler = go_modify (\<lambda>t. t\<lparr>preAccepter := preaccept_handler\<rparr>)"

text \<open>The protocol that \<open>crypto/tls\<close> selects: the first of the server that the client offers.\<close>

definition negotiate :: "tls_config \<Rightarrow> tls_config \<Rightarrow> string option" where
  "negotiate server client = find (\<lambda>p. p \<in> set (NextProtos client)) (NextProtos server)"

text \<open>A host that dials with its abyss settings is taken for an abyss peer, one that dials with its abyst
  settings for a client of the abyst server: the two never mix.\<close>

lemma dial_negotiates:
  "negotiate (abyssTlsConf (new_transport cr a)) (abyssTlsConf (new_transport cr' b)) = Some NextProtoAbyss"
  "negotiate (abyssTlsConf (new_transport cr a)) (abystTlsConf (new_transport cr' b)) = Some NextProtoH3"
  by (simp_all add: negotiate_def new_transport_def NewDefaultTlsConf_def NextProtoAbyss_def NextProtoH3_def)

text \<open>The accepting loop gives every connection dialled with abyst settings to the abyst server.\<close>

lemma abyst_dial_served:
  assumes "negotiate (abyssTlsConf (new_transport cr a)) (abystTlsConf (new_transport cr' b))
      = Some (NegotiatedProtocol c)"
  shows "accept_loop cr [Inr c] h = Inr (([ServeQUICConn (ie_conn (acc_inbound c))], None), h)"
proof -
  have "NegotiatedProtocol c = NextProtoH3" using assms by (simp add: dial_negotiates)
  then show ?thesis by (simp add: NextProtoAbyss_def NextProtoH3_def go_bind_def go_ret_def)
qed

end
