(* ===== verification/Aerr.thy ===== *)
theory Aerr
  imports Abyss_Peer
begin

text \<open>
  Connection errors (\<open>aerr/abyss_error.go\<close>): an error of a connection remembers the remote address and
  URL, and its text puts them in front of the text of the inner error. A pointer is an option; an
  inner error is its text. The handshakes pass these errors on, where the model keeps the inner text.
\<close>

record AbyssError =
  ae_RemoteAddr :: "UDPAddr option"
  ae_RemoteHash :: string
  ae_RemoteAURL :: "AURL option"
  ae_inner_err :: string

definition NewConnErrM :: "quic_conn \<Rightarrow> AURL option \<Rightarrow> string \<Rightarrow> AbyssError" where
  "NewConnErrM connection url msg =
     \<lparr>ae_RemoteAddr = Some (RemoteAddr connection), ae_RemoteHash = '''', ae_RemoteAURL = url, ae_inner_err = msg\<rparr>"

definition NewConnErr :: "quic_conn \<Rightarrow> AURL option \<Rightarrow> string \<Rightarrow> AbyssError" where
  "NewConnErr connection url err =
     \<lparr>ae_RemoteAddr = Some (RemoteAddr connection), ae_RemoteHash = '''', ae_RemoteAURL = url, ae_inner_err = err\<rparr>"

definition AbyssError_Error :: "AbyssError \<Rightarrow> string" where
  "AbyssError_Error e =
     (case ae_RemoteAddr e of Some a \<Rightarrow> ''Remote address:'' @ UDPAddr_String a @ [CHR 0x0A] | None \<Rightarrow> [])
     @ (if ae_RemoteHash e \<noteq> '''' then ''Remote hash:'' @ ae_RemoteHash e @ [CHR 0x0A] else [])
     @ (case ae_RemoteAURL e of Some u \<Rightarrow> ''Remote AURL:'' @ ToString u @ [CHR 0x0A] | None \<Rightarrow> [])
     @ ae_inner_err e"

text \<open>The text always names the remote address first and ends with the inner error.\<close>

lemma Error_names_remote:
  "HasPrefix (AbyssError_Error (NewConnErrM c url msg)) (''Remote address:'' @ UDPAddr_String (RemoteAddr c))
   \<and> (\<exists>p. AbyssError_Error (NewConnErrM c url msg) = p @ msg)"
  by (auto simp: HasPrefix_iff AbyssError_Error_def NewConnErrM_def)

end
