(* ===== verification/Dacp.thy ===== *)
theory Dacp
  imports Go_Strings "HOL-Library.Multiset"
begin

text \<open>
  The pool of discrete actions, \<open>tools/dacp/descrete_action_pool.go\<close>: an action waits until its precursor
  has been taken out of the pool. An action is a statement on a state of its own; the counter of the
  package is the state of \<open>NewDiscreteAction\<close>.
\<close>

section \<open>Actions and pools\<close>

record 's DiscreteAction =
  act_id :: int
  act_action :: "('s, unit) go"
  precursor_id :: int

definition NewDiscreteAction :: "('s, unit) go \<Rightarrow> int \<Rightarrow> (int, 's DiscreteAction) go" where
  "NewDiscreteAction action precursor = go_bind (go_modify (\<lambda>action_counter. action_counter + 1)) (\<lambda>_.
     go_bind (go_read (\<lambda>action_counter. action_counter)) (\<lambda>i.
     go_ret \<lparr>act_id = i, act_action = action, precursor_id = precursor\<rparr>))"

definition Exec :: "'s DiscreteAction \<Rightarrow> ('s, unit) go" where
  "Exec a = act_action a"

record 's DiscreteActionPool =
  actions_ready :: "'s DiscreteAction list"
  actions_pending :: "'s DiscreteAction list"

definition MakeDiscreteActionPool :: "'s DiscreteActionPool" where
  "MakeDiscreteActionPool = \<lparr>actions_ready = [], actions_pending = []\<rparr>"

text \<open>The loop of \<open>PopAction\<close> over the pending actions: those whose precursor was taken become ready.\<close>

definition release_pending ::
    "int \<Rightarrow> 's DiscreteAction list \<Rightarrow> 's DiscreteAction list \<times> 's DiscreteAction list \<Rightarrow>
     's DiscreteAction list \<times> 's DiscreteAction list" where
  "release_pending i pending start = foldl (\<lambda>(ready, still) a.
     if precursor_id a = i then (ready @ [a], still) else (ready, still @ [a])) start pending"

definition PopAction :: "int \<Rightarrow> ('s DiscreteActionPool, 's DiscreteAction) go" where
  "PopAction index = go_bind (go_read (\<lambda>p. p)) (\<lambda>p.
     go_bind (go_index index (actions_ready p)) (\<lambda>result.
     case release_pending (act_id result) (actions_pending p)
         (take (nat index) (actions_ready p) @ drop (Suc (nat index)) (actions_ready p), []) of
       (ready, still) \<Rightarrow> go_bind (go_modify (\<lambda>p. \<lparr>actions_ready = ready, actions_pending = still\<rparr>)) (\<lambda>_. go_ret result)))"

definition AddAction :: "'s DiscreteAction \<Rightarrow> ('s DiscreteActionPool, int) go" where
  "AddAction action = go_bind (go_read (\<lambda>p. p)) (\<lambda>p.
     if list_ex (\<lambda>ra. act_id ra = precursor_id action) (actions_ready p)
       \<or> list_ex (\<lambda>pa. act_id pa = precursor_id action) (actions_pending p)
     then go_bind (go_modify (\<lambda>p. p\<lparr>actions_pending := actions_pending p @ [action]\<rparr>)) (\<lambda>_. go_ret (act_id action))
     else go_bind (go_modify (\<lambda>p. p\<lparr>actions_ready := actions_ready p @ [action]\<rparr>)) (\<lambda>_. go_ret (act_id action)))"

definition GetActionN :: "'s DiscreteActionPool \<Rightarrow> int" where
  "GetActionN p = int (length (actions_ready p))"

section \<open>No action waits for ever\<close>

text \<open>Each pending action waits for a ready action or for one that is pending before it.\<close>

primrec chain_ok :: "int set \<Rightarrow> 's DiscreteAction list \<Rightarrow> bool" where
  "chain_ok R [] \<longleftrightarrow> True"
| "chain_ok R (a # as) \<longleftrightarrow> precursor_id a \<in> R \<and> chain_ok (insert (act_id a) R) as"

definition pool_ok :: "'s DiscreteActionPool \<Rightarrow> bool" where
  "pool_ok p \<longleftrightarrow> chain_ok (act_id ` set (actions_ready p)) (actions_pending p)"

lemma release_pending_filter:
  "release_pending i pending (ready, still)
    = (ready @ filter (\<lambda>a. precursor_id a = i) pending, still @ filter (\<lambda>a. precursor_id a \<noteq> i) pending)"
  by (induction pending arbitrary: ready still) (simp_all add: release_pending_def)

lemma PopAction_result:
  "PopAction index p = (if 0 \<le> index \<and> index < int (length (actions_ready p))
     then let r = actions_ready p ! nat index in Inr (r, \<lparr>actions_ready = take (nat index) (actions_ready p)
         @ drop (Suc (nat index)) (actions_ready p) @ filter (\<lambda>a. precursor_id a = act_id r) (actions_pending p),
       actions_pending = filter (\<lambda>a. precursor_id a \<noteq> act_id r) (actions_pending p)\<rparr>)
     else Inl IndexRange)"
  by (simp add: PopAction_def release_pending_filter go_index_def go_bind_def go_read_def go_modify_def go_ret_def
      go_panic_def Let_def)

lemma chain_ok_mono: "chain_ok R as \<Longrightarrow> R \<subseteq> R' \<Longrightarrow> chain_ok R' as"
  by (induction as arbitrary: R R') (auto, metis insert_mono)

lemma chain_ok_append: "chain_ok R (as @ bs) \<longleftrightarrow> chain_ok R as \<and> chain_ok (R \<union> act_id ` set as) bs"
  by (induction as arbitrary: R) auto

lemma chain_ok_filter:
  "chain_ok R as \<Longrightarrow> R - {i} \<union> act_id ` set (filter (\<lambda>a. precursor_id a = i) as) \<subseteq> R' \<Longrightarrow>
   chain_ok R' (filter (\<lambda>a. precursor_id a \<noteq> i) as)"
proof (induction as arbitrary: R R')
  case (Cons a as)
  show ?case
  proof (cases "precursor_id a = i")
    case True
    then show ?thesis using Cons.IH [of "insert (act_id a) R" R'] Cons.prems by auto
  next
    case False
    then show ?thesis using Cons.IH [of "insert (act_id a) R" "insert (act_id a) R'"] Cons.prems by auto
  qed
qed simp

lemma pool_ok_Pop:
  assumes "pool_ok p" and "PopAction index p = Inr (r, p')"
  shows "pool_ok p'"
proof -
  let ?ready = "actions_ready p" and ?i = "nat index"
  have i: "?i < length ?ready" "r = ?ready ! ?i"
    and p': "actions_ready p' = take ?i ?ready @ drop (Suc ?i) ?ready @ filter (\<lambda>a. precursor_id a = act_id r) (actions_pending p)"
      "actions_pending p' = filter (\<lambda>a. precursor_id a \<noteq> act_id r) (actions_pending p)"
    using assms(2) by (auto simp: PopAction_result Let_def split: if_splits)
  have "?ready = take ?i ?ready @ r # drop (Suc ?i) ?ready" using i by (simp add: id_take_nth_drop)
  then have "set ?ready = insert r (set (take ?i ?ready) \<union> set (drop (Suc ?i) ?ready))"
    by (metis Un_insert_right list.simps(15) set_append)
  then have "act_id ` set ?ready - {act_id r} \<union> act_id ` set (filter (\<lambda>a. precursor_id a = act_id r) (actions_pending p))
      \<subseteq> act_id ` set (actions_ready p')"
    unfolding p'(1) by auto
  then show ?thesis using assms(1) chain_ok_filter unfolding pool_ok_def p'(2) by blast
qed

lemma has_id: "list_ex (\<lambda>a. act_id a = i) as \<longleftrightarrow> i \<in> act_id ` set as"
  by (auto simp: list_ex_iff)

lemma pool_ok_Add: "pool_ok p \<Longrightarrow> AddAction a p = Inr (i, p') \<Longrightarrow> pool_ok p'"
  by (auto simp: pool_ok_def AddAction_def go_bind_def go_read_def go_modify_def go_ret_def has_id chain_ok_append
      intro: chain_ok_mono split: if_splits)

text \<open>Taking actions out of a pool in any order.\<close>

inductive pops :: "'s DiscreteActionPool \<Rightarrow> 's DiscreteAction list \<Rightarrow> 's DiscreteActionPool \<Rightarrow> bool" where
  pops_nil: "pops p [] p"
| pops_cons: "PopAction index p = Inr (a, p1) \<Longrightarrow> pops p1 as p2 \<Longrightarrow> pops p (a # as) p2"

lemma Pop_mset:
  assumes "PopAction index p = Inr (r, p')"
  shows "mset (actions_ready p) + mset (actions_pending p)
    = add_mset r (mset (actions_ready p') + mset (actions_pending p'))"
proof -
  let ?ready = "actions_ready p" and ?i = "nat index"
  have i: "?i < length ?ready" "r = ?ready ! ?i"
    and p': "actions_ready p' = take ?i ?ready @ drop (Suc ?i) ?ready @ filter (\<lambda>a. precursor_id a = act_id r) (actions_pending p)"
      "actions_pending p' = filter (\<lambda>a. precursor_id a \<noteq> act_id r) (actions_pending p)"
    using assms by (auto simp: PopAction_result Let_def split: if_splits)
  have "?ready = take ?i ?ready @ r # drop (Suc ?i) ?ready" using i by (simp add: id_take_nth_drop)
  then have "mset ?ready = add_mset r (mset (take ?i ?ready) + mset (drop (Suc ?i) ?ready))"
    by (metis mset.simps(2) mset_append union_mset_add_mset_right)
  moreover have "mset (actions_pending p) = mset (filter (\<lambda>a. precursor_id a = act_id r) (actions_pending p))
      + mset (filter (\<lambda>a. precursor_id a \<noteq> act_id r) (actions_pending p))"
    by (simp add: mset_filter multiset_partition)
  ultimately show ?thesis unfolding p' by simp
qed

lemma pool_drains:
  assumes "pops p as p'" and "pool_ok p"
  shows "pool_ok p' \<and> mset (actions_ready p) + mset (actions_pending p)
      = mset as + mset (actions_ready p') + mset (actions_pending p')
    \<and> (GetActionN p' = 0 \<longrightarrow> actions_ready p' = [] \<and> actions_pending p' = [])"
  using assms
proof (induction rule: pops.induct)
  case (pops_nil p)
  then show ?case by (cases "actions_pending p") (auto simp: GetActionN_def pool_ok_def)
next
  case (pops_cons index p a p1 as p2)
  then show ?case using pool_ok_Pop [OF _ pops_cons.hyps(1)] Pop_mset [OF pops_cons.hyps(1)] by simp
qed

end
