(* ===== verification/Sear.thy ===== *)
theory Sear
  imports Go_Strings
begin

text \<open>
  The scenario search of \<open>src/tools/sear/scenario_searcher.go\<close>: it drives a decision machine along every path
  of its decisions. The tree of scenarios is a linked structure of nodes; a pointer is the index of a
  node in the store, and the root has index 0. The machine is an interface: its methods are arguments.
\<close>

section \<open>The tree of scenarios\<close>

record scenarioNode =
  sn_parent :: "nat option"
  sn_children :: "nat list"
  is_final :: bool
  is_searched :: bool

record scenarioMap =
  nodes :: "scenarioNode list"
  current_node :: nat

definition node_at :: "nat \<Rightarrow> (scenarioMap, scenarioNode) go" where
  "node_at n = go_read (\<lambda>m. nodes m ! n)"

definition set_node :: "nat \<Rightarrow> (scenarioNode \<Rightarrow> scenarioNode) \<Rightarrow> (scenarioMap, unit) go" where
  "set_node n f = go_modify (\<lambda>m. m\<lparr>nodes := (nodes m)[n := f (nodes m ! n)]\<rparr>)"

definition scenario_node :: "nat option \<Rightarrow> scenarioNode" where
  "scenario_node parent = \<lparr>sn_parent = parent, sn_children = [], is_final = False, is_searched = False\<rparr>"

definition newScenarioNode :: "nat option \<Rightarrow> (scenarioMap, nat) go" where
  "newScenarioNode parent = go_bind (go_read (\<lambda>m. length (nodes m))) (\<lambda>n.
     go_bind (go_modify (\<lambda>m. m\<lparr>nodes := nodes m @ [scenario_node parent]\<rparr>)) (\<lambda>_. go_ret n))"

definition openScenarioPaths :: "nat \<Rightarrow> int \<Rightarrow> (scenarioMap, unit) go" where
  "openScenarioPaths s num_paths = go_bind (node_at s) (\<lambda>nd.
     if is_final nd then
       (if int (length (sn_children nd)) \<noteq> num_paths then go_panic (Panic ''scenario path overwritten'') else go_ret ())
     else go_block [
       go_for [0..<nat num_paths] (\<lambda>_. go_bind (newScenarioNode (Some s)) (\<lambda>c.
         set_node s (\<lambda>nd. nd\<lparr>sn_children := sn_children nd @ [c]\<rparr>))),
       set_node s (\<lambda>nd. nd\<lparr>is_final := True\<rparr>)])"

definition newScenarioMap :: scenarioMap where
  "newScenarioMap = \<lparr>nodes = [scenario_node None], current_node = 0\<rparr>"

text \<open>The recursion climbs from a node to its parent. It has as many levels as the first argument says and
  overflows the stack beyond them; a node is created after its parent, so the index of the node is
  enough.\<close>

fun mark_searched_parent_nodes :: "nat \<Rightarrow> nat \<Rightarrow> (scenarioMap, unit) go" where
  "mark_searched_parent_nodes 0 n = go_panic (Panic ''stack overflow'')"
| "mark_searched_parent_nodes (Suc d) n = go_bind (node_at n) (\<lambda>nd. case sn_parent nd of
     None \<Rightarrow> go_ret ()
   | Some p \<Rightarrow> go_bind (node_at p) (\<lambda>pn.
       go_bind (go_index (int (length (sn_children pn)) - 1) (sn_children pn)) (\<lambda>last_child.
       if last_child = n then go_block [
         set_node p (\<lambda>nd. nd\<lparr>is_searched := True\<rparr>),
         mark_searched_parent_nodes d p]
       else go_ret ())))"

text \<open>The loop over the children: the first that is not searched, with its branch.\<close>

primrec next_child :: "scenarioNode list \<Rightarrow> nat \<Rightarrow> nat list \<Rightarrow> (nat \<times> nat) option" where
  "next_child ns i [] = None"
| "next_child ns i (c # cs) = (if is_searched (ns ! c) then next_child ns (Suc i) cs else Some (i, c))"

definition finish_path :: "nat \<Rightarrow> (scenarioMap, unit) go" where
  "finish_path n = go_block [
     set_node n (\<lambda>nd. nd\<lparr>is_searched := True\<rparr>),
     mark_searched_parent_nodes (Suc n) n,
     go_modify (\<lambda>m. m\<lparr>current_node := 0\<rparr>)]"

text \<open>The results are the branch, whether the path ends, and whether there is a branch.\<close>

definition tryGetNextSearchBranch :: "(scenarioMap, int \<times> bool \<times> bool) go" where
  "tryGetNextSearchBranch = go_bind (go_read current_node) (\<lambda>current. go_bind (node_at current) (\<lambda>nd.
     if \<not> is_final nd then go_panic (Panic ''entered unfinialized path'')
     else go_bind (go_read (\<lambda>m. next_child (nodes m) 0 (sn_children nd))) (\<lambda>next. case next of
       Some (i, child) \<Rightarrow> go_bind (node_at child) (\<lambda>cn.
         if sn_children cn = [] \<and> is_final cn then
           go_bind (finish_path child) (\<lambda>_. go_ret (int i, True, True))
         else go_bind (go_modify (\<lambda>m. m\<lparr>current_node := child\<rparr>)) (\<lambda>_. go_ret (int i, False, True)))
     | None \<Rightarrow> if sn_children nd = [] then
           go_bind (finish_path current) (\<lambda>_. go_ret (-1, True, True))
         else go_ret (-1, False, False))))"

section \<open>The search\<close>

record 'm IDecisionMachine =
  Initialize :: "('m, unit) go"
  GetInitPaths :: "('m, int) go"
  Forward :: "int \<Rightarrow> ('m, int) go"

record 'm ScenarioSearcher =
  scenario_map :: scenarioMap
  sr_machine :: 'm

definition MakeScenarioSearcher :: "'m \<Rightarrow> 'm ScenarioSearcher" where
  "MakeScenarioSearcher machine = \<lparr>scenario_map = newScenarioMap, sr_machine = machine\<rparr>"

definition on_map :: "(scenarioMap, 'a) go \<Rightarrow> ('m ScenarioSearcher, 'a) go" where
  "on_map = go_zoom scenario_map (\<lambda>m s. s\<lparr>scenario_map := m\<rparr>)"

definition on_machine :: "('m, 'a) go \<Rightarrow> ('m ScenarioSearcher, 'a) go" where
  "on_machine = go_zoom sr_machine (\<lambda>m s. s\<lparr>sr_machine := m\<rparr>)"

text \<open>One round of the inner loop: either the loop ends, with the variable \<open>running\<close>, or it goes on with the
  next target.\<close>

definition search_round :: "'m IDecisionMachine \<Rightarrow> nat \<Rightarrow> ('m ScenarioSearcher, bool + nat) go" where
  "search_round dm target_branch = go_bind (on_map tryGetNextSearchBranch) (\<lambda>(branch, _, ok).
     if \<not> ok then go_ret (Inl False)
     else if branch = -1 then go_ret (Inl True)
     else go_bind (on_map (node_at target_branch)) (\<lambda>t. go_bind (go_index branch (sn_children t)) (\<lambda>target.
       go_bind (on_machine (Forward dm branch)) (\<lambda>next_paths.
       go_bind (on_map (openScenarioPaths target next_paths)) (\<lambda>_. go_ret (Inr target))))))"

text \<open>The loops; \<open>None\<close> is a loop that never ends.\<close>

partial_function (option) search_path ::
    "'m IDecisionMachine \<Rightarrow> nat \<Rightarrow> 'm ScenarioSearcher \<Rightarrow> (panic + bool \<times> 'm ScenarioSearcher) option" where
  "search_path dm target s = (case search_round dm target s of
     Inl e \<Rightarrow> Some (Inl e)
   | Inr (Inl running, s') \<Rightarrow> Some (Inr (running, s'))
   | Inr (Inr target', s') \<Rightarrow> search_path dm target' s')"

partial_function (option) search_all ::
    "'m IDecisionMachine \<Rightarrow> 'm ScenarioSearcher \<Rightarrow> (panic + unit \<times> 'm ScenarioSearcher) option" where
  "search_all dm s = (case search_path dm 0 s of
     None \<Rightarrow> None
   | Some (Inl e) \<Rightarrow> Some (Inl e)
   | Some (Inr (running, s')) \<Rightarrow>
       if running then (case on_machine (Initialize dm) s' of
           Inl e \<Rightarrow> Some (Inl e)
         | Inr (_, s'') \<Rightarrow> search_all dm s'')
       else Some (Inr ((), s')))"

definition sear_Run :: "'m IDecisionMachine \<Rightarrow> 'm ScenarioSearcher \<Rightarrow> (panic + unit \<times> 'm ScenarioSearcher) option" where
  "sear_Run dm s = (case go_block [
       on_machine (Initialize dm),
       go_bind (on_machine (GetInitPaths dm)) (\<lambda>n. on_map (openScenarioPaths 0 n))] s of
     Inl e \<Rightarrow> Some (Inl e)
   | Inr (_, s') \<Rightarrow> search_all dm s')"

end
