(* ===== verification/Sear_Props.thy ===== *)
theory Sear_Props
  imports Sear
begin

text \<open>
  The scenario search is complete: on a machine whose decisions form a finite tree it ends, and has driven
  the machine along every path to a leaf, once each and in lexicographic order.
\<close>

section \<open>Paths of a tree\<close>

text \<open>\<open>deg p\<close> is the number of branches after the path \<open>p\<close>.\<close>

definition valid :: "(nat list \<Rightarrow> nat) \<Rightarrow> nat list \<Rightarrow> bool" where
  "valid deg q \<longleftrightarrow> (\<forall>i < length q. q ! i < deg (take i q))"

definition leaf :: "(nat list \<Rightarrow> nat) \<Rightarrow> nat list \<Rightarrow> bool" where
  "leaf deg q \<longleftrightarrow> valid deg q \<and> deg q = 0"

definition finite_tree :: "(nat list \<Rightarrow> nat) \<Rightarrow> bool" where
  "finite_tree deg \<longleftrightarrow> (\<exists>B. \<forall>q. valid deg q \<longrightarrow> length q \<le> B)"

text \<open>Lexicographic order of paths that are not prefixes of each other.\<close>

fun before :: "nat list \<Rightarrow> nat list \<Rightarrow> bool" where
  "before (a # q) (b # l) \<longleftrightarrow> a < b \<or> a = b \<and> before q l"
| "before _ _ \<longleftrightarrow> False"

lemma valid_nil [simp]: "valid deg []"
  by (simp add: valid_def)

lemma valid_snoc [simp]: "valid deg (q @ [i]) \<longleftrightarrow> valid deg q \<and> i < deg q"
  by (auto simp: valid_def nth_append less_Suc_eq)

lemma valid_prefix: "valid deg (p @ q) \<Longrightarrow> valid deg p"
  by (induction q rule: rev_induct) (simp_all flip: append_assoc)

lemma valid_take: "valid deg q \<Longrightarrow> valid deg (take i q)"
  using valid_prefix [of deg "take i q" "drop i q"] by simp

lemma before_irrefl [simp]: "\<not> before q q"
  by (induction q) simp_all

lemma before_nil [simp]: "\<not> before q []"
  by (cases q) simp_all

lemma before_append: "before q (u @ w) \<longleftrightarrow> before q u \<or> (\<exists>r. q = u @ r \<and> before r w)"
proof (induction u arbitrary: q)
  case (Cons a u)
  then show ?case by (cases q) auto
qed simp

lemma before_zeros [simp]: "\<not> before q (replicate n 0)"
proof (induction n arbitrary: q)
  case (Suc n)
  then show ?case by (cases q) simp_all
qed simp

lemma before_prefix: "\<not> before (take i l) l"
proof (induction l arbitrary: i)
  case (Cons a l)
  then show ?case by (cases i) simp_all
qed simp

lemma before_child: "before (take j l @ [i]) l \<longleftrightarrow> i < l ! j" if "j < length l"
proof -
  have "l = take j l @ l ! j # drop (Suc j) l" using that by (simp add: id_take_nth_drop)
  then have "before (take j l @ [i]) l \<longleftrightarrow> before (take j l @ [i]) (take j l @ l ! j # drop (Suc j) l)" by simp
  moreover have "\<not> before (u @ [x]) u" for u x by (induction u) simp_all
  ultimately show ?thesis by (simp add: before_append)
qed

section \<open>The next leaf\<close>

text \<open>All branches from the position \<open>j\<close> on are the last ones.\<close>

definition lasts :: "(nat list \<Rightarrow> nat) \<Rightarrow> nat list \<Rightarrow> nat \<Rightarrow> nat \<Rightarrow> bool" where
  "lasts deg l j k \<longleftrightarrow> (\<forall>i. j \<le> i \<longrightarrow> i < k \<longrightarrow> Suc (l ! i) = deg (take i l))"

text \<open>The nodes that are searched once the leaf \<open>l\<close> has been visited.\<close>

definition done_after :: "(nat list \<Rightarrow> nat) \<Rightarrow> nat list \<Rightarrow> nat list \<Rightarrow> bool" where
  "done_after deg l q \<longleftrightarrow> before q l \<or> (\<exists>j \<le> length l. q = take j l \<and> lasts deg l j (length l))"

lemma last_branches:
  assumes "leaf deg (p @ v)" and "lasts deg (p @ v) (length p) (length (p @ v))" and "valid deg (p @ s)"
  shows "before s v \<or> (\<exists>k \<le> length v. s = take k v)"
  using assms
proof (induction v arbitrary: p s)
  case Nil
  show ?case
  proof (cases s)
    case (Cons c s')
    then have "valid deg ((p @ [c]) @ s')" using Nil.prems(3) by simp
    then have "valid deg (p @ [c])" by (rule valid_prefix)
    then show ?thesis using Nil.prems(1) by (simp add: leaf_def)
  qed simp
next
  case (Cons b v)
  show ?case
  proof (cases s)
    case (Cons c s')
    have "valid deg ((p @ [c]) @ s')" using Cons.prems(3) Cons by simp
    then have c: "c < deg p" using valid_prefix by fastforce
    have "Suc ((p @ b # v) ! length p) = deg (take (length p) (p @ b # v))"
      using Cons.prems(2) unfolding lasts_def by (elim allE [where x = "length p"]) simp
    then have b: "Suc b = deg p" by simp
    show ?thesis
    proof (cases "c = b")
      case True
      have "before s' v \<or> (\<exists>k \<le> length v. s' = take k v)"
        by (rule Cons.IH [of "p @ [b]"]) (use Cons.prems Cons True in \<open>auto simp: lasts_def\<close>)
      then show ?thesis using Cons True by (auto intro: exI [where x = "Suc _"])
    next
      case False
      then show ?thesis using b c Cons by simp
    qed
  qed simp
qed

lemma leftmost_leaf:
  assumes "finite_tree deg" and "valid deg p"
  shows "\<exists>n. leaf deg (p @ replicate n 0)"
proof -
  obtain B where B: "\<forall>q. valid deg q \<longrightarrow> length q \<le> B" using assms(1) by (auto simp: finite_tree_def)
  show ?thesis using assms(2)
  proof (induction "B - length p" arbitrary: p rule: less_induct)
    case less
    show ?case
    proof (cases "deg p = 0")
      case True
      then have "leaf deg (p @ replicate 0 0)" using less.prems by (simp add: leaf_def)
      then show ?thesis by blast
    next
      case False
      then have v: "valid deg (p @ [0])" using less.prems by simp
      then have "length (p @ [0]) \<le> B" using B by blast
      then obtain n where "leaf deg ((p @ [0]) @ replicate n 0)" using less.hyps [OF _ v] by force
      then have "leaf deg (p @ replicate (Suc n) 0)" by simp
      then show ?thesis by blast
    qed
  qed
qed

lemma last_choice:
  assumes "\<not> lasts deg l 0 (length l)"
  obtains j where "j < length l" "Suc (l ! j) \<noteq> deg (take j l)" "lasts deg l (Suc j) (length l)"
proof -
  let ?S = "{i. i < length l \<and> Suc (l ! i) \<noteq> deg (take i l)}"
  have S: "finite ?S" "?S \<noteq> {}" using assms by (auto simp: lasts_def)
  have "Max ?S \<in> ?S" by (rule Max_in [OF S])
  moreover have "lasts deg l (Suc (Max ?S)) (length l)"
    unfolding lasts_def
  proof (intro allI impI)
    fix i assume i: "Suc (Max ?S) \<le> i" "i < length l"
    have "i \<notin> ?S" using Max_ge [OF S(1), of i] i(1) by (meson not_less_eq_eq)
    then show "Suc (l ! i) = deg (take i l)" using i(2) unfolding mem_Collect_eq by blast
  qed
  ultimately show ?thesis using that by blast
qed

lemma next_leaf:
  assumes t: "finite_tree deg" and l: "leaf deg l" and n: "\<not> lasts deg l 0 (length l)"
  shows "\<exists>l'. leaf deg l' \<and> (\<forall>q. valid deg q \<longrightarrow> (before q l' \<longleftrightarrow> done_after deg l q))"
proof -
  obtain j where j: "j < length l" "Suc (l ! j) \<noteq> deg (take j l)" "lasts deg l (Suc j) (length l)"
    using last_choice [OF n] by blast
  define u a v where "u = take j l" and "a = l ! j" and "v = drop (Suc j) l"
  have l_def: "l = u @ a # v" using j(1) by (simp add: u_def a_def v_def id_take_nth_drop)
  have len: "length u = j" using j(1) by (simp add: u_def)
  have "valid deg ((u @ [a]) @ v)" using l by (simp add: leaf_def l_def)
  then have "valid deg (u @ [a])" by (rule valid_prefix)
  then have "valid deg (u @ [Suc a])" using j(2) by (simp add: u_def a_def)
  then obtain m where m: "leaf deg ((u @ [Suc a]) @ replicate m 0)" using leftmost_leaf [OF t] by blast
  let ?l' = "u @ Suc a # replicate m 0"
  have next': "before q ?l' \<longleftrightarrow> before q u \<or> (\<exists>c s. q = u @ c # s \<and> c \<le> a)" for q
  proof -
    have "before r (Suc a # replicate m 0) \<longleftrightarrow> (\<exists>c s. r = c # s \<and> c \<le> a)" for r by (cases r) auto
    then show ?thesis by (auto simp: before_append)
  qed
  have this': "before q l \<longleftrightarrow> before q u \<or> (\<exists>c s. q = u @ c # s \<and> (c < a \<or> c = a \<and> before s v))" for q
  proof -
    have "before r (a # v) \<longleftrightarrow> (\<exists>c s. r = c # s \<and> (c < a \<or> c = a \<and> before s v))" for r by (cases r) auto
    then show ?thesis by (auto simp: l_def before_append)
  qed
  have chain: "(\<exists>i \<le> length l. q = take i l \<and> lasts deg l i (length l)) \<longleftrightarrow> (\<exists>k \<le> length v. q = u @ a # take k v)" for q
  proof
    assume "\<exists>i \<le> length l. q = take i l \<and> lasts deg l i (length l)"
    then obtain i where i: "i \<le> length l" "q = take i l" "lasts deg l i (length l)" by blast
    have "j < i"
    proof (rule ccontr)
      assume "\<not> j < i"
      then have "Suc (l ! j) = deg (take j l)" using i(3) j(1) unfolding lasts_def by (meson leI)
      then show False using j(2) by simp
    qed
    then have "q = u @ a # take (i - Suc j) v" "i - Suc j \<le> length v"
      using i(1,2) len by (simp_all add: l_def take_Cons')
    then show "\<exists>k \<le> length v. q = u @ a # take k v" by blast
  next
    assume "\<exists>k \<le> length v. q = u @ a # take k v"
    then obtain k where k: "k \<le> length v" "q = u @ a # take k v" by blast
    then have "q = take (Suc (j + k)) l" "Suc (j + k) \<le> length l" using len by (simp_all add: l_def)
    moreover have "lasts deg l (Suc (j + k)) (length l)" using j(3) by (simp add: lasts_def)
    ultimately show "\<exists>i \<le> length l. q = take i l \<and> lasts deg l i (length l)" by blast
  qed
  have split: "before s v \<or> (\<exists>k \<le> length v. s = take k v)" if "valid deg (u @ a # s)" for s
    by (rule last_branches [of deg "u @ [a]"]) (use l j(3) len that in \<open>simp_all add: l_def\<close>)
  have "before q ?l' \<longleftrightarrow> done_after deg l q" if q: "valid deg q" for q
  proof
    assume "before q ?l'"
    then show "done_after deg l q" using split q unfolding next' done_after_def this' chain
      by (auto simp: le_less)
  next
    assume "done_after deg l q"
    then show "before q ?l'" unfolding next' done_after_def this' chain by auto
  qed
  then show ?thesis using m by (intro exI [where x = ?l']) simp
qed

text \<open>After the last leaf every node is searched.\<close>

lemma all_done:
  assumes "leaf deg l" and "lasts deg l 0 (length l)" and "valid deg q"
  shows "done_after deg l q"
proof -
  obtain k where "before q l \<or> k \<le> length l \<and> q = take k l"
    using last_branches [of deg "[]" l q] assms by auto
  moreover have "lasts deg l k (length l)" using assms(2) by (simp add: lasts_def)
  ultimately show ?thesis by (auto simp: done_after_def)
qed

lemma leaf_done:
  assumes l: "leaf deg l" and q: "leaf deg q"
  shows "done_after deg l q \<longleftrightarrow> before q l \<or> q = l"
proof -
  have "q = l" if j: "q = take j l" "j \<le> length l" for j
  proof (rule ccontr)
    assume "q \<noteq> l"
    then have "j < length l" using j by (cases "j = length l") auto
    then have "l ! j < deg q" using l j by (auto simp: leaf_def valid_def)
    then show False using q by (simp add: leaf_def)
  qed
  moreover have "lasts deg l (length l) (length l)" by (simp add: lasts_def)
  ultimately show ?thesis unfolding done_after_def by (metis order_refl take_all_iff)
qed

lemma finite_paths: "finite_tree deg \<Longrightarrow> finite {q. valid deg q}"
proof -
  assume "finite_tree deg"
  then obtain B where B: "\<forall>q. valid deg q \<longrightarrow> length q \<le> B" by (auto simp: finite_tree_def)
  have "finite {q. valid deg q \<and> length q = n}" for n
  proof (induction n)
    case (Suc n)
    have "{q. valid deg q \<and> length q = Suc n} \<subseteq> (\<Union>p \<in> {q. valid deg q \<and> length q = n}. (\<lambda>i. p @ [i]) ` {..<deg p})"
    proof
      fix q assume "q \<in> {q. valid deg q \<and> length q = Suc n}"
      then obtain p i where "q = p @ [i]" "valid deg p" "i < deg p" "length p = n" by (cases q rule: rev_cases) auto
      then show "q \<in> (\<Union>p \<in> {q. valid deg q \<and> length q = n}. (\<lambda>i. p @ [i]) ` {..<deg p})" by blast
    qed
    then show ?case using Suc.IH by (auto intro: finite_subset)
  qed simp
  then have "finite (\<Union>n \<in> {..B}. {q. valid deg q \<and> length q = n})" by simp
  then show ?thesis by (rule rev_finite_subset) (use B in auto)
qed

end
