(* ===== verification/Sear_Store.thy ===== *)
theory Sear_Store
  imports Sear_Props
begin

text \<open>
  The store of the scenario tree: node \<open>n\<close> stands for the path \<open>ps ! n\<close>. The invariant of the store, and what
  the operations of the tree do to it.
\<close>

section \<open>The shape of the store\<close>

definition linked :: "nat list list \<Rightarrow> scenarioNode list \<Rightarrow> nat \<Rightarrow> nat \<Rightarrow> nat \<Rightarrow> bool" where
  "linked ps ns p i c \<longleftrightarrow> p < length ns \<and> c < length ns \<and> i < length (sn_children (ns ! p)) \<and>
     sn_children (ns ! p) ! i = c \<and> ps ! c = ps ! p @ [i]"

definition shape :: "(nat list \<Rightarrow> nat) \<Rightarrow> nat list list \<Rightarrow> scenarioNode list \<Rightarrow> bool" where
  "shape deg ps ns \<longleftrightarrow>
     length ps = length ns \<and> ns \<noteq> [] \<and> ps ! 0 = [] \<and> distinct ps \<and> (\<forall>q \<in> set ps. valid deg q) \<and>
     (\<forall>n < length ns. case sn_parent (ns ! n) of None \<Rightarrow> n = 0 | Some p \<Rightarrow> p < n \<and> (\<exists>i. linked ps ns p i n)) \<and>
     (\<forall>p < length ns. length (sn_children (ns ! p)) = (if is_final (ns ! p) then deg (ps ! p) else 0)) \<and>
     (\<forall>p < length ns. \<forall>i < length (sn_children (ns ! p)). linked ps ns p i (sn_children (ns ! p) ! i))"

lemma shape_nth: "shape deg ps ns \<Longrightarrow> i < length ns \<Longrightarrow> j < length ns \<Longrightarrow> ps ! i = ps ! j \<longleftrightarrow> i = j"
  by (simp add: shape_def nth_eq_iff_index_eq)

lemma shape_valid: "shape deg ps ns \<Longrightarrow> n < length ns \<Longrightarrow> valid deg (ps ! n)"
  by (simp add: shape_def)

lemma shape_parent:
  assumes "shape deg ps ns" and "n < length ns"
  obtains "n = 0" "sn_parent (ns ! n) = None"
  | p i where "sn_parent (ns ! n) = Some p" "p < n" "linked ps ns p i n"
  using assms unfolding shape_def by (cases "sn_parent (ns ! n)") fastforce+

lemma shape_degree:
  "shape deg ps ns \<Longrightarrow> p < length ns \<Longrightarrow> length (sn_children (ns ! p)) = (if is_final (ns ! p) then deg (ps ! p) else 0)"
  by (simp add: shape_def)

lemma shape_child:
  "shape deg ps ns \<Longrightarrow> p < length ns \<Longrightarrow> i < length (sn_children (ns ! p)) \<Longrightarrow> linked ps ns p i (sn_children (ns ! p) ! i)"
  by (simp add: shape_def)

lemma shape_root: "shape deg ps ns \<Longrightarrow> 0 < length ns \<and> ps ! 0 = []"
  by (auto simp: shape_def)

section \<open>Marking nodes\<close>

definition marked :: "nat \<Rightarrow> scenarioNode list \<Rightarrow> scenarioNode list" where
  "marked n ns = ns[n := (ns ! n)\<lparr>is_searched := True\<rparr>]"

lemma marked_nth: "marked n ns ! k = (if k = n \<and> n < length ns then (ns ! n)\<lparr>is_searched := True\<rparr> else ns ! k)"
  by (cases "n < length ns") (auto simp: marked_def nth_list_update list_update_beyond)

lemma marked_simps [simp]:
  "length (marked n ns) = length ns"
  "sn_parent (marked n ns ! k) = sn_parent (ns ! k)"
  "sn_children (marked n ns ! k) = sn_children (ns ! k)"
  "is_final (marked n ns ! k) = is_final (ns ! k)"
  "n < length ns \<Longrightarrow> is_searched (marked n ns ! k) \<longleftrightarrow> k = n \<or> is_searched (ns ! k)"
  "marked n ns = [] \<longleftrightarrow> ns = []"
  by (simp_all add: marked_nth) (simp_all add: marked_def)

lemma linked_marked [simp]: "linked ps (marked n ns) = linked ps ns"
  by (simp add: fun_eq_iff linked_def)

lemma shape_marked [simp]: "shape deg ps (marked n ns) = shape deg ps ns"
  by (simp add: shape_def cong: option.case_cong)

lemma wp_go_index [wp_rules]:
  "wpx b (go_index i xs) Q s = (if 0 \<le> i \<and> i < int (length xs) then Q (xs ! nat i) s else b)"
  by (simp add: go_index_def wp_rules)

lemma wp_node_at [wp_rules]: "wpx b (node_at n) Q m = Q (nodes m ! n) m"
  by (simp add: node_at_def wp_rules)

lemma wp_set_node [wp_rules]:
  "wpx b (set_node n f) Q m = Q () (m\<lparr>nodes := (nodes m)[n := f (nodes m ! n)]\<rparr>)"
  by (simp add: set_node_def wp_rules)

text \<open>The same tree, in which the nodes of the paths in \<open>D\<close> have been marked.\<close>

definition marks :: "nat list list \<Rightarrow> (nat list \<Rightarrow> bool) \<Rightarrow> scenarioNode list \<Rightarrow> scenarioNode list \<Rightarrow> bool" where
  "marks ps D ns ns' \<longleftrightarrow> length ns' = length ns \<and> (\<forall>k < length ns.
     is_final (ns' ! k) = is_final (ns ! k) \<and> (is_searched (ns' ! k) \<longleftrightarrow> is_searched (ns ! k) \<or> D (ps ! k)))"

lemma mark_parents:
  assumes "shape deg ps (nodes m)" and "n < length (nodes m)" and "n < d"
    and "ps ! n = take i l" and "i \<le> length l" and "lasts deg l i (length l)"
  shows "wp (mark_searched_parent_nodes d n) (\<lambda>_ m'. \<exists>ns'. m' = m\<lparr>nodes := ns'\<rparr> \<and> shape deg ps ns' \<and>
    marks ps (\<lambda>q. \<exists>i' < i. q = take i' l \<and> lasts deg l i' (length l)) (nodes m) ns') m"
  using assms
proof (induction d arbitrary: n m i)
  case (Suc d)
  show ?case
  proof (cases rule: shape_parent [OF Suc.prems(1,2)])
    case 1
    then have "i = 0" using Suc.prems(4,5) shape_root [OF Suc.prems(1)] by (cases l) auto
    then show ?thesis using 1 Suc.prems(1) by (auto simp: wp_rules marks_def intro!: exI [where x = "nodes m"])
  next
    case (2 p b)
    note lk = 2(3)[unfolded linked_def]
    have i: "i = Suc (length (ps ! p))" using lk Suc.prems(4,5) by (metis length_append_singleton length_take min.absorb2)
    define j where "j = length (ps ! p)"
    have j: "j < length l" "i = Suc j" using i Suc.prems(5) by (simp_all add: j_def)
    have pj: "ps ! p = take j l" "b = l ! j"
      using lk Suc.prems(4) j by (simp_all add: take_Suc_conv_app_nth)
    have fin: "is_final (nodes m ! p)" "length (sn_children (nodes m ! p)) = deg (take j l)"
      using shape_degree [OF Suc.prems(1), of p] lk pj by (auto split: if_splits)
    let ?last = "sn_children (nodes m ! p) ! (length (sn_children (nodes m ! p)) - 1)"
    have last: "?last = n \<longleftrightarrow> Suc (l ! j) = deg (take j l)"
    proof
      assume "?last = n"
      then show "Suc (l ! j) = deg (take j l)"
        using shape_child [OF Suc.prems(1), of p "length (sn_children (nodes m ! p)) - 1"] lk pj fin
        by (auto simp: linked_def)
    next
      assume "Suc (l ! j) = deg (take j l)"
      then show "?last = n" using lk pj fin by (metis diff_Suc_1)
    qed
    show ?thesis
    proof (cases "Suc (l ! j) = deg (take j l)")
      case False
      then have "\<not> lasts deg l i' (length l)" if "i' < i" for i'
        using that j unfolding lasts_def by (auto intro!: exI [where x = j])
      then show ?thesis
        using 2(1) last False fin Suc.prems(1) lk
        by (auto simp: wp_rules marks_def nat_diff_distrib' intro!: exI [where x = "nodes m"])
    next
      case True
      have lj: "lasts deg l j (length l)"
        using True Suc.prems(6) j unfolding lasts_def by (metis le_antisym not_less_eq_eq)
      have sub: "wp (mark_searched_parent_nodes d p) (\<lambda>_ m'. \<exists>ns'. m' = m\<lparr>nodes := ns'\<rparr> \<and> shape deg ps ns' \<and>
          marks ps (\<lambda>q. \<exists>i' < j. q = take i' l \<and> lasts deg l i' (length l)) (marked p (nodes m)) ns')
          (m\<lparr>nodes := marked p (nodes m)\<rparr>)"
        by (rule Suc.IH [where m = "m\<lparr>nodes := marked p (nodes m)\<rparr>", simplified])
          (use 2(2) lk Suc.prems(1,3) pj(1) j(1) lj in auto)
      have done_j: "(\<exists>i' < i. q = take i' l \<and> lasts deg l i' (length l)) \<longleftrightarrow>
          q = ps ! p \<or> (\<exists>i' < j. q = take i' l \<and> lasts deg l i' (length l))" for q
        using lj j(2) pj(1) by (auto simp: less_Suc_eq)
      have "0 < length (sn_children (nodes m ! p))" using lk by auto
      then have idx: "wp (mark_searched_parent_nodes (Suc d) n) Q m = wp (mark_searched_parent_nodes d p) Q
          (m\<lparr>nodes := marked p (nodes m)\<rparr>)" for Q
        unfolding mark_searched_parent_nodes.simps marked_def using 2(1) last True
        by (simp add: wp_rules nat_diff_distrib' del: mark_searched_parent_nodes.simps)
      have mk: "marks ps (\<lambda>q. \<exists>i' < i. q = take i' l \<and> lasts deg l i' (length l)) (nodes m) ns'"
        if "marks ps (\<lambda>q. \<exists>i' < j. q = take i' l \<and> lasts deg l i' (length l)) (marked p (nodes m)) ns'" for ns'
        using that lk shape_nth [OF Suc.prems(1)] unfolding marks_def done_j by auto
      show ?thesis unfolding idx by (rule wpx_mono [OF sub]) (auto intro: mk)
    qed
  qed
qed simp

text \<open>The end of the path to the leaf \<open>l\<close>.\<close>

lemma finish_path_marks:
  assumes "shape deg ps (nodes m)" and "n < length (nodes m)" and "ps ! n = l"
  shows "wp (finish_path n) (\<lambda>_ m'. shape deg ps (nodes m') \<and> current_node m' = 0 \<and>
    marks ps (\<lambda>q. \<exists>i \<le> length l. q = take i l \<and> lasts deg l i (length l)) (nodes m) (nodes m')) m"
proof -
  let ?m = "m\<lparr>nodes := marked n (nodes m)\<rparr>"
  have sub: "wp (mark_searched_parent_nodes (Suc n) n) (\<lambda>_ m'. \<exists>ns'. m' = ?m\<lparr>nodes := ns'\<rparr> \<and> shape deg ps ns' \<and>
      marks ps (\<lambda>q. \<exists>i < length l. q = take i l \<and> lasts deg l i (length l)) (nodes ?m) ns') ?m"
    by (rule mark_parents) (use assms in \<open>auto simp: lasts_def\<close>)
  have self: "(\<exists>i \<le> length l. q = take i l \<and> lasts deg l i (length l)) \<longleftrightarrow>
      q = ps ! n \<or> (\<exists>i < length l. q = take i l \<and> lasts deg l i (length l))" for q
    using assms(3) by (auto simp: le_less lasts_def)
  have "marks ps (\<lambda>q. \<exists>i \<le> length l. q = take i l \<and> lasts deg l i (length l)) (nodes m) ns'"
    if "marks ps (\<lambda>q. \<exists>i < length l. q = take i l \<and> lasts deg l i (length l)) (nodes ?m) ns'" for ns'
    using that assms(2) shape_nth [OF assms(1)] unfolding marks_def self by auto
  then have "wp (mark_searched_parent_nodes (Suc n) n) (\<lambda>_ m'. shape deg ps (nodes m') \<and>
      marks ps (\<lambda>q. \<exists>i \<le> length l. q = take i l \<and> lasts deg l i (length l)) (nodes m) (nodes m')) ?m"
    by (intro wpx_mono [OF sub]) auto
  then show ?thesis
    unfolding finish_path_def go_block.simps wpx_bind wp_set_node marked_def [symmetric]
    by (rule wpx_mono) (simp add: wp_rules)
qed

section \<open>Opening a node\<close>

definition opened :: "nat \<Rightarrow> nat \<Rightarrow> scenarioNode list \<Rightarrow> scenarioNode list" where
  "opened s k ns = ns[s := (ns ! s)\<lparr>sn_children := [length ns..<length ns + k], is_final := True\<rparr>]
     @ replicate k (scenario_node (Some s))"

lemma opened_length [simp]: "length (opened s k ns) = length ns + k"
  by (simp add: opened_def)

lemma opened_nth: "s < length ns \<Longrightarrow> n < length ns + k \<Longrightarrow> opened s k ns ! n =
    (if n = s then (ns ! s)\<lparr>sn_children := [length ns..<length ns + k], is_final := True\<rparr>
     else if n < length ns then ns ! n else scenario_node (Some s))"
  by (auto simp: opened_def nth_append nth_list_update)

lemma add_child:
  "s < length (nodes m) \<Longrightarrow>
   wpx b (go_bind (newScenarioNode (Some s)) (\<lambda>c. set_node s (\<lambda>nd. nd\<lparr>sn_children := sn_children nd @ [c]\<rparr>))) Q m =
   Q () (m\<lparr>nodes := (nodes m)[s := (nodes m ! s)\<lparr>sn_children := sn_children (nodes m ! s) @ [length (nodes m)]\<rparr>]
     @ [scenario_node (Some s)]\<rparr>)"
  by (simp add: wp_rules newScenarioNode_def nth_append list_update_append)

lemma add_children:
  "s < length (nodes m) \<Longrightarrow>
   wpx b (go_for xs (\<lambda>_. go_bind (newScenarioNode (Some s)) (\<lambda>c. set_node s (\<lambda>nd. nd\<lparr>sn_children := sn_children nd @ [c]\<rparr>)))) Q m =
   Q () (m\<lparr>nodes := (nodes m)[s := (nodes m ! s)
     \<lparr>sn_children := sn_children (nodes m ! s) @ [length (nodes m)..<length (nodes m) + length xs]\<rparr>]
     @ replicate (length xs) (scenario_node (Some s))\<rparr>)"
proof (induction xs arbitrary: m)
  case (Cons x xs)
  have upt: "[length (nodes m)..<length (nodes m) + length (x # xs)] =
      length (nodes m) # [Suc (length (nodes m))..<Suc (length (nodes m)) + length xs]"
    by (simp add: upt_conv_Cons del: upt_Suc)
  show ?case
    using Cons.prems unfolding go_for.simps wpx_bind [of b _ "\<lambda>_. go_for xs _"] add_child [OF Cons.prems] upt
    by (subst Cons.IH) (simp_all add: nth_append list_update_append del: upt_Suc)
qed (simp add: wp_rules)

lemma openScenarioPaths_eq:
  "s < length (nodes m) \<Longrightarrow> sn_children (nodes m ! s) = [] \<Longrightarrow> \<not> is_final (nodes m ! s) \<Longrightarrow>
   wpx b (openScenarioPaths s (int k)) Q m = Q () (m\<lparr>nodes := opened s k (nodes m)\<rparr>)"
  by (simp add: openScenarioPaths_def wp_rules add_children opened_def nth_append list_update_append)

end
