(* ===== verification/Sear_Search.thy ===== *)
theory Sear_Search
  imports Sear_Store
begin

text \<open>
  The search itself: what a round does on the way to the next leaf and at the leaf, the inner loop as one
  path, the outer loop as the sequence of all paths.
\<close>

section \<open>Opening the current node\<close>

lemma shape_prefix:
  assumes "shape deg ps ns"
  shows "n < length ns \<Longrightarrow> ps ! n = q @ r \<Longrightarrow> q \<in> set ps"
proof (induction n arbitrary: r rule: less_induct)
  case (less n)
  show ?case
  proof (cases r rule: rev_cases)
    case Nil
    then show ?thesis using less.prems assms by (auto simp: shape_def)
  next
    case (snoc r' x)
    show ?thesis
    proof (cases rule: shape_parent [OF assms less.prems(1)])
      case 1
      then show ?thesis using less.prems(2) snoc shape_root [OF assms] by simp
    next
      case (2 p i)
      then show ?thesis using less.IH [of p r'] less.prems(2) snoc by (simp add: linked_def)
    qed
  qed
qed

lemma shape_fresh:
  assumes sh: "shape deg ps ns" and s: "s < length ns" and nf: "\<not> is_final (ns ! s)"
  shows "ps ! s @ [i] \<notin> set ps"
proof
  assume "ps ! s @ [i] \<in> set ps"
  then obtain n where n: "n < length ns" "ps ! n = ps ! s @ [i]"
    using sh by (auto simp: in_set_conv_nth shape_def)
  show False
  proof (cases rule: shape_parent [OF sh n(1)])
    case 1
    then show ?thesis using n(2) shape_root [OF sh] by simp
  next
    case (2 p i')
    then have "p = s" using n(2) s shape_nth [OF sh, of p s] by (simp add: linked_def)
    then show ?thesis using 2(3) shape_degree [OF sh s] nf by (simp add: linked_def)
  qed
qed

lemma shape_opened:
  assumes sh: "shape deg ps ns" and s: "s < length ns" and nf: "\<not> is_final (ns ! s)"
  shows "shape deg (ps @ map (\<lambda>i. ps ! s @ [i]) [0..<deg (ps ! s)]) (opened s (deg (ps ! s)) ns)"
proof -
  let ?k = "deg (ps ! s)" and ?N = "length ns"
  let ?ps = "ps @ map (\<lambda>i. ps ! s @ [i]) [0..<?k]" and ?ns = "opened s ?k ns"
  have len: "length ps = ?N" and root: "ns \<noteq> []" "ps ! 0 = []" using sh by (simp_all add: shape_def)
  have kids: "sn_children (ns ! s) = []" using shape_degree [OF sh s] nf by simp
  have old: "linked ?ps ?ns p i c" if "linked ps ns p i c" for p i c
    using that kids s len by (auto simp: linked_def opened_nth nth_append)
  have new: "linked ?ps ?ns s i (?N + i)" if "i < ?k" for i
    using that s len by (auto simp: linked_def opened_nth nth_append)
  have "distinct ?ps" using sh shape_fresh [OF sh s nf] by (auto simp: shape_def distinct_map inj_on_def)
  moreover have "valid deg q" if "q \<in> set ?ps" for q using that sh shape_valid [OF sh s] by (auto simp: shape_def)
  moreover have "case sn_parent (?ns ! n) of None \<Rightarrow> n = 0 | Some p \<Rightarrow> p < n \<and> (\<exists>i. linked ?ps ?ns p i n)"
    if n: "n < length ?ns" for n
  proof (cases "n < ?N")
    case True
    then have "sn_parent (?ns ! n) = sn_parent (ns ! n)" using s by (simp add: opened_nth)
    then show ?thesis by (cases rule: shape_parent [OF sh True]) (auto dest: old)
  next
    case False
    then have "sn_parent (?ns ! n) = Some s" "linked ?ps ?ns s (n - ?N) n"
      using n s new [of "n - ?N"] by (auto simp: opened_nth scenario_node_def)
    then show ?thesis using s False by auto
  qed
  moreover have "length (sn_children (?ns ! p)) = (if is_final (?ns ! p) then deg (?ps ! p) else 0)"
    if "p < length ?ns" for p
    using that s shape_degree [OF sh, of p] len by (auto simp: opened_nth nth_append scenario_node_def)
  moreover have "linked ?ps ?ns p i (sn_children (?ns ! p) ! i)"
    if "p < length ?ns" "i < length (sn_children (?ns ! p))" for p i
  proof (cases "p = s")
    case True
    then show ?thesis using that s new [of i] by (simp add: opened_nth)
  next
    case False
    then show ?thesis using that s old [OF shape_child [OF sh, of p i]]
      by (cases "p < ?N") (simp_all add: opened_nth scenario_node_def)
  qed
  moreover have "length ?ps = length ?ns" "?ns \<noteq> []" "?ps ! 0 = []"
    using len root by (auto simp: nth_append opened_def)
  ultimately show ?thesis unfolding shape_def by blast
qed

text \<open>The paths in \<open>D\<close> have been searched; only the current node may be a leaf that is not.\<close>

definition explored :: "(nat list \<Rightarrow> nat) \<Rightarrow> nat list list \<Rightarrow> (nat list \<Rightarrow> bool) \<Rightarrow> scenarioMap \<Rightarrow> bool" where
  "explored deg ps D m \<longleftrightarrow> shape deg ps (nodes m) \<and> current_node m < length (nodes m) \<and>
     (\<forall>n < length (nodes m). is_searched (nodes m ! n) \<longleftrightarrow> D (ps ! n)) \<and>
     (\<forall>q. valid deg q \<longrightarrow> D q \<longrightarrow> q \<in> set ps) \<and>
     (\<forall>n < length (nodes m). is_final (nodes m ! n) \<longrightarrow> deg (ps ! n) = 0 \<longrightarrow> D (ps ! n) \<or> n = current_node m)"

lemma explored_cong: "(\<And>q. valid deg q \<Longrightarrow> D q \<longleftrightarrow> E q) \<Longrightarrow> explored deg ps D m \<Longrightarrow> explored deg ps E m"
  unfolding explored_def using shape_valid by blast

lemma open_explored:
  assumes ex: "explored deg ps D m" and c: "c = current_node m"
  shows "wp (openScenarioPaths c (int (deg (ps ! c)))) (\<lambda>_ m'. \<exists>ps'. explored deg ps' D m' \<and>
    current_node m' = c \<and> ps' ! c = ps ! c \<and> is_final (nodes m' ! c) \<and>
    (is_final (nodes m ! 0) \<longrightarrow> is_final (nodes m' ! 0))) m"
proof -
  have sh: "shape deg ps (nodes m)" and cn: "c < length (nodes m)" using ex c by (simp_all add: explored_def)
  show ?thesis
  proof (cases "is_final (nodes m ! c)")
    case True
    then show ?thesis using ex c shape_degree [OF sh cn] by (auto simp: openScenarioPaths_def wp_rules)
  next
    case False
    let ?k = "deg (ps ! c)"
    let ?ps = "ps @ map (\<lambda>i. ps ! c @ [i]) [0..<?k]" and ?m = "m\<lparr>nodes := opened c ?k (nodes m)\<rparr>"
    have kids: "sn_children (nodes m ! c) = []" using shape_degree [OF sh cn] False by simp
    have len: "length ps = length (nodes m)" using sh by (simp add: shape_def)
    have new: "\<not> D (ps ! c @ [i])" if "i < ?k" for i
    proof -
      have "valid deg (ps ! c @ [i])" using that shape_valid [OF sh cn] by simp
      then show ?thesis using shape_fresh [OF sh cn False] ex unfolding explored_def by blast
    qed
    have "explored deg ?ps D ?m"
      unfolding explored_def
    proof (intro conjI allI impI)
      show "shape deg ?ps (nodes ?m)" using shape_opened [OF sh cn False] by simp
      fix n assume n: "n < length (nodes ?m)"
      show "is_searched (nodes ?m ! n) \<longleftrightarrow> D (?ps ! n)"
        using n cn ex len new [of "n - length (nodes m)"]
        by (auto simp: explored_def opened_nth nth_append scenario_node_def)
      assume "is_final (nodes ?m ! n)" "deg (?ps ! n) = 0"
      then show "D (?ps ! n) \<or> n = current_node ?m"
        using n cn ex len c
        by (auto simp: explored_def opened_nth nth_append scenario_node_def split: if_splits)
    qed (use ex in \<open>auto simp: explored_def\<close>)
    then show ?thesis
      using cn len c kids False shape_root [OF sh]
      by (auto simp: openScenarioPaths_eq opened_nth nth_append intro!: exI [where x = ?ps])
  qed
qed

section \<open>A round of the search\<close>

lemma next_child_Some:
  "i < length cs \<Longrightarrow> (\<And>i'. i' < i \<Longrightarrow> is_searched (ns ! (cs ! i'))) \<Longrightarrow> \<not> is_searched (ns ! (cs ! i)) \<Longrightarrow>
   next_child ns k cs = Some (k + i, cs ! i)"
proof (induction cs arbitrary: i k)
  case (Cons c cs)
  show ?case
  proof (cases i)
    case (Suc i')
    then have "is_searched (ns ! c)" using Cons.prems(2) [of 0] by simp
    moreover have "next_child ns (Suc k) cs = Some (Suc k + i', cs ! i')"
      by (rule Cons.IH) (use Cons.prems Suc in \<open>auto dest: spec [where x = "Suc _"] intro: Cons.prems(2) [of "Suc _", simplified]\<close>)
    ultimately show ?thesis using Suc by simp
  qed (use Cons.prems in simp)
qed simp

lemma next_child_None: "\<forall>c \<in> set cs. is_searched (ns ! c) \<Longrightarrow> next_child ns k cs = None"
  by (induction cs arbitrary: k) simp_all

text \<open>The machine that walks in the tree; its state is the list of the paths that it has walked.\<close>

definition tree_machine :: "(nat list \<Rightarrow> nat) \<Rightarrow> nat list list IDecisionMachine" where
  "tree_machine deg = \<lparr>
     Initialize = go_modify (\<lambda>log. log @ [[]]),
     GetInitPaths = go_read (\<lambda>log. int (deg (last log))),
     Forward = (\<lambda>b. go_bind (go_modify (\<lambda>log. butlast log @ [last log @ [nat b]]))
       (\<lambda>_. go_read (\<lambda>log. int (deg (last log)))))\<rparr>"

text \<open>On the way to the leaf \<open>l\<close>, after \<open>j\<close> branches; the paths of \<open>L\<close> have been walked before.\<close>

definition on_path :: "(nat list \<Rightarrow> nat) \<Rightarrow> nat list \<Rightarrow> nat \<Rightarrow> nat list list \<Rightarrow> nat list list ScenarioSearcher \<Rightarrow> bool" where
  "on_path deg l j L s \<longleftrightarrow> sr_machine s = L @ [take j l] \<and> (\<exists>ps. let m = scenario_map s in
     explored deg ps (\<lambda>q. before q l) m \<and> ps ! current_node m = take j l \<and>
     is_final (nodes m ! current_node m) \<and> is_final (nodes m ! 0))"

lemma branch_down:
  assumes l: "leaf deg l" and j: "j < length l"
    and ex: "explored deg ps (\<lambda>q. before q l) m" and cur: "ps ! current_node m = take j l"
    and fin: "is_final (nodes m ! current_node m)"
  shows "\<exists>c. linked ps (nodes m) (current_node m) (l ! j) c \<and>
    tryGetNextSearchBranch m = Inr ((int (l ! j), False, True), m\<lparr>current_node := c\<rparr>) \<and>
    explored deg ps (\<lambda>q. before q l) (m\<lparr>current_node := c\<rparr>)"
proof -
  let ?ns = "nodes m" and ?cs = "sn_children (nodes m ! current_node m)"
  have sh: "shape deg ps ?ns" and cn: "current_node m < length ?ns"
    and se: "\<And>n. n < length ?ns \<Longrightarrow> is_searched (?ns ! n) \<longleftrightarrow> before (ps ! n) l"
    and lf: "\<And>n. n < length ?ns \<Longrightarrow> is_final (?ns ! n) \<Longrightarrow> deg (ps ! n) = 0 \<Longrightarrow> before (ps ! n) l \<or> n = current_node m"
    using ex by (auto simp: explored_def)
  have len: "length ?cs = deg (take j l)" "l ! j < deg (take j l)"
    using shape_degree [OF sh cn] fin cur l j by (simp_all add: leaf_def valid_def)
  have link: "linked ps ?ns (current_node m) i (?cs ! i)" if "i < length ?cs" for i
    using shape_child [OF sh cn that] .
  have child: "is_searched (?ns ! (?cs ! i)) \<longleftrightarrow> i < l ! j" if "i < length ?cs" for i
    using link [OF that] se cur before_child [OF j] by (simp add: linked_def)
  let ?c = "?cs ! (l ! j)"
  have next': "next_child ?ns 0 ?cs = Some (0 + l ! j, ?c)"
    by (rule next_child_Some) (use len child in auto)
  have c: "?c < length ?ns" "\<not> is_searched (?ns ! ?c)" "ps ! ?c = take j l @ [l ! j]"
    using link [of "l ! j"] child len cur by (simp_all add: linked_def)
  then have "?c \<noteq> current_node m" using cur by auto
  then have "\<not> (sn_children (?ns ! ?c) = [] \<and> is_final (?ns ! ?c))"
    using lf [of ?c] se [of ?c] c shape_degree [OF sh c(1)] by auto
  then have "tryGetNextSearchBranch m = Inr ((int (l ! j), False, True), m\<lparr>current_node := ?c\<rparr>)"
    using fin next' by (auto simp: tryGetNextSearchBranch_def node_at_def go_bind_def go_read_def go_ret_def go_modify_def)
  moreover have "explored deg ps (\<lambda>q. before q l) (m\<lparr>current_node := ?c\<rparr>)"
    using ex c(1) cur len(2) by (auto simp: explored_def)
  ultimately show ?thesis using link [of "l ! j"] len by auto
qed

lemma round_down:
  assumes l: "leaf deg l" and j: "j < length l" and on: "on_path deg l j L s"
  shows "wp (search_round (tree_machine deg) (current_node (scenario_map s)))
    (\<lambda>r s'. r = Inr (current_node (scenario_map s')) \<and> on_path deg l (Suc j) L s') s"
proof -
  let ?m = "scenario_map s"
  obtain ps where ps: "explored deg ps (\<lambda>q. before q l) ?m" "ps ! current_node ?m = take j l"
      "is_final (nodes ?m ! current_node ?m)" "is_final (nodes ?m ! 0)"
    using on by (auto simp: on_path_def Let_def)
  obtain c where c: "linked ps (nodes ?m) (current_node ?m) (l ! j) c"
      "tryGetNextSearchBranch ?m = Inr ((int (l ! j), False, True), ?m\<lparr>current_node := c\<rparr>)"
      "explored deg ps (\<lambda>q. before q l) (?m\<lparr>current_node := c\<rparr>)"
    using branch_down [OF l j ps(1-3)] by blast
  have pc: "ps ! c = take (Suc j) l" using c(1) ps(2) j by (simp add: linked_def take_Suc_conv_app_nth)
  have tryb: "wpx b tryGetNextSearchBranch Q ?m = Q (int (l ! j), False, True) (?m\<lparr>current_node := c\<rparr>)" for b Q
    using c(2) by (simp add: wpx_def)
  have mach: "butlast (sr_machine s) @ [last (sr_machine s) @ [l ! j]] = L @ [take (Suc j) l]"
    using on j by (simp add: on_path_def take_Suc_conv_app_nth)
  have open': "wp (openScenarioPaths c (int (deg (take (Suc j) l)))) (\<lambda>_ m'. \<exists>ps'. explored deg ps' (\<lambda>q. before q l) m' \<and>
      current_node m' = c \<and> ps' ! c = take (Suc j) l \<and> is_final (nodes m' ! c) \<and>
      (is_final (nodes ?m ! 0) \<longrightarrow> is_final (nodes m' ! 0))) (?m\<lparr>current_node := c\<rparr>)"
    using open_explored [OF c(3), of c] pc by simp
  show ?thesis
    using c(1) mach ps(4)
    by (simp add: search_round_def on_map_def on_machine_def tree_machine_def wp_rules tryb linked_def on_path_def Let_def)
      (rule wpx_mono [OF open'], auto)
qed

text \<open>The tree after the leaf \<open>l\<close> has been visited, at the start of the next path.\<close>

definition restarted :: "(nat list \<Rightarrow> nat) \<Rightarrow> (nat list \<Rightarrow> bool) \<Rightarrow> scenarioMap \<Rightarrow> bool" where
  "restarted deg D m \<longleftrightarrow> (\<exists>ps. explored deg ps D m) \<and> current_node m = 0 \<and> is_final (nodes m ! 0)"

lemma path_end:
  assumes l: "leaf deg l" and on: "on_path deg l (length l) L s"
  shows "wp (search_round (tree_machine deg) t) (\<lambda>r s'. r = Inl True \<and>
    restarted deg (done_after deg l) (scenario_map s') \<and> sr_machine s' = L @ [l]) s"
proof -
  let ?m = "scenario_map s" and ?chain = "\<lambda>q. \<exists>i \<le> length l. q = take i l \<and> lasts deg l i (length l)"
  obtain ps where ps: "explored deg ps (\<lambda>q. before q l) ?m" "ps ! current_node ?m = l"
      "is_final (nodes ?m ! current_node ?m)" "is_final (nodes ?m ! 0)"
    using on by (auto simp: on_path_def Let_def)
  let ?n = "current_node ?m"
  have sh: "shape deg ps (nodes ?m)" and cn: "?n < length (nodes ?m)" using ps(1) by (simp_all add: explored_def)
  have kids: "sn_children (nodes ?m ! ?n) = []" using shape_degree [OF sh cn] ps(2) l by (auto simp: leaf_def split: if_splits)
  have fin: "wp (finish_path ?n) (\<lambda>_ m'. shape deg ps (nodes m') \<and> current_node m' = 0 \<and>
      marks ps ?chain (nodes ?m) (nodes m')) ?m"
    by (rule finish_path_marks [OF sh cn ps(2)])
  have "restarted deg (done_after deg l) m'"
    if m': "shape deg ps (nodes m')" "current_node m' = 0" "marks ps ?chain (nodes ?m) (nodes m')" for m'
  proof -
    have len: "length (nodes m') = length (nodes ?m)" "0 < length (nodes ?m)"
      using m'(3) shape_root [OF sh] by (simp_all add: marks_def)
    have self: "done_after deg l l" by (auto simp: done_after_def lasts_def)
    have pre: "take i l \<in> set ps" for i
      by (rule shape_prefix [OF sh cn, of _ "drop i l"]) (simp add: ps(2))
    have "explored deg ps (done_after deg l) m'"
      unfolding explored_def
    proof (intro conjI allI impI)
      show "q \<in> set ps" if "valid deg q" "done_after deg l q" for q
        using that ps(1) pre by (auto simp: explored_def done_after_def)
      fix n assume n: "n < length (nodes m')"
      show "is_searched (nodes m' ! n) \<longleftrightarrow> done_after deg l (ps ! n)"
        using n m'(3) ps(1) by (simp add: marks_def explored_def done_after_def)
      assume "is_final (nodes m' ! n)" "deg (ps ! n) = 0"
      then have "before (ps ! n) l \<or> n = ?n" using n m'(3) ps(1) by (simp add: marks_def explored_def)
      then show "done_after deg l (ps ! n) \<or> n = current_node m'" using self ps(2) by (auto simp: done_after_def)
    qed (use m'(1,2) len in simp_all)
    then show ?thesis using m'(2,3) ps(4) len by (auto simp: restarted_def marks_def)
  qed
  then show ?thesis
    using on kids ps(3)
    by (simp add: search_round_def on_map_def tryGetNextSearchBranch_def wp_rules on_path_def)
      (rule wpx_mono [OF fin], auto)
qed

lemma no_path:
  assumes d: "deg [] > 0" and st: "restarted deg (\<lambda>q. valid deg q) (scenario_map s)"
  shows "search_round dm t s = Inr (Inl False, s)"
proof -
  let ?m = "scenario_map s"
  obtain ps where ps: "explored deg ps (\<lambda>q. valid deg q) ?m" using st by (auto simp: restarted_def)
  have root: "current_node ?m = 0" "is_final (nodes ?m ! 0)" using st by (simp_all add: restarted_def)
  have sh: "shape deg ps (nodes ?m)" and z: "0 < length (nodes ?m)"
    and se: "\<And>n. n < length (nodes ?m) \<Longrightarrow> is_searched (nodes ?m ! n)"
    using ps shape_valid by (auto simp: explored_def)
  have "sn_children (nodes ?m ! 0) \<noteq> []" using shape_degree [OF sh z] d root shape_root [OF sh] by auto
  moreover have "next_child (nodes ?m) 0 (sn_children (nodes ?m ! 0)) = None"
    using shape_child [OF sh z] se by (intro next_child_None) (auto simp: in_set_conv_nth linked_def)
  ultimately show ?thesis
    using root by (simp add: search_round_def tryGetNextSearchBranch_def node_at_def on_map_def
        go_bind_def go_read_def go_ret_def go_zoom_def)
qed

section \<open>The loops\<close>

lemma search_path_leaf:
  assumes l: "leaf deg l" and "on_path deg l j L s" and "j \<le> length l"
  shows "\<exists>s'. search_path (tree_machine deg) (current_node (scenario_map s)) s = Some (Inr (True, s')) \<and>
    restarted deg (done_after deg l) (scenario_map s') \<and> sr_machine s' = L @ [l]"
  using assms(2,3)
proof (induction "length l - j" arbitrary: j s)
  case 0
  then have "on_path deg l (length l) L s" by simp
  from wp_returns [OF path_end [OF l this, of "current_node (scenario_map s)"]] show ?case by (auto simp: search_path.simps)
next
  case (Suc d)
  then have "j < length l" by simp
  from wp_returns [OF round_down [OF l this Suc.prems(1)]] obtain s' where
    s': "search_round (tree_machine deg) (current_node (scenario_map s)) s = Inr (Inr (current_node (scenario_map s')), s')"
      "on_path deg l (Suc j) L s'" by auto
  have "\<exists>s''. search_path (tree_machine deg) (current_node (scenario_map s')) s' = Some (Inr (True, s'')) \<and>
      restarted deg (done_after deg l) (scenario_map s'') \<and> sr_machine s'' = L @ [l]"
    using Suc.hyps(2) \<open>j < length l\<close> by (intro Suc.hyps(1) [OF _ s'(2)]) auto
  then show ?case using s'(1) by (simp add: search_path.simps [of _ "current_node (scenario_map s)"])
qed

text \<open>The first node of the next path.\<close>

lemma restarted_on_path:
  assumes "restarted deg (\<lambda>q. before q l) (scenario_map s)" and "sr_machine s = L @ [[]]"
  shows "on_path deg l 0 L s \<and> current_node (scenario_map s) = 0"
proof -
  obtain ps where ps: "explored deg ps (\<lambda>q. before q l) (scenario_map s)" using assms(1) by (auto simp: restarted_def)
  moreover have "ps ! 0 = []" using ps shape_root [of deg ps "nodes (scenario_map s)"] by (simp add: explored_def)
  ultimately show ?thesis using assms by (auto simp: restarted_def on_path_def Let_def)
qed

lemma restarted_cong: "(\<And>q. valid deg q \<Longrightarrow> D q \<longleftrightarrow> E q) \<Longrightarrow> restarted deg D m \<Longrightarrow> restarted deg E m"
  unfolding restarted_def using explored_cong [of deg D E] by blast

lemma search_all_leaves:
  assumes t: "finite_tree deg" and d: "deg [] > 0"
  shows "leaf deg l \<Longrightarrow> restarted deg (\<lambda>q. before q l) (scenario_map s) \<Longrightarrow> sr_machine s = L @ [[]] \<Longrightarrow>
    sorted_wrt before L \<Longrightarrow> set L = {q. leaf deg q \<and> before q l} \<Longrightarrow>
    \<exists>s' L'. search_all (tree_machine deg) s = Some (Inr ((), s')) \<and> sr_machine s' = L' @ [[]] \<and>
      sorted_wrt before L' \<and> set L' = {q. leaf deg q}"
proof (induction "card {q. leaf deg q \<and> \<not> before q l}" arbitrary: l s L rule: less_induct)
  case less
  note l = less.prems(1)
  have start: "on_path deg l 0 L s" "current_node (scenario_map s) = 0"
    using restarted_on_path [OF less.prems(2,3)] by simp_all
  obtain s1 where s1: "search_path (tree_machine deg) 0 s = Some (Inr (True, s1))"
      "restarted deg (done_after deg l) (scenario_map s1)" "sr_machine s1 = L @ [l]"
    using search_path_leaf [OF l start(1)] start(2) by auto
  define s2 where "s2 = s1\<lparr>sr_machine := (L @ [l]) @ [[]]\<rparr>"
  have "on_machine (Initialize (tree_machine deg)) s1 = Inr ((), s2)"
    using s1(3) by (simp add: on_machine_def tree_machine_def go_zoom_def go_modify_def s2_def)
  then have all: "search_all (tree_machine deg) s = search_all (tree_machine deg) s2"
    by (subst search_all.simps) (simp add: s1(1))
  have s2: "restarted deg (done_after deg l) (scenario_map s2)" "sr_machine s2 = (L @ [l]) @ [[]]"
    using s1(2) by (simp_all add: s2_def)
  have srt: "sorted_wrt before (L @ [l])" using less.prems(4,5) by (simp add: sorted_wrt_append)
  have "leaf deg q \<and> done_after deg l q \<longleftrightarrow> leaf deg q \<and> before q l \<or> q = l" for q
    using leaf_done [OF l, of q] l by blast
  then have set': "set (L @ [l]) = {q. leaf deg q \<and> done_after deg l q}"
    unfolding set_append less.prems(5) by auto
  show ?case
  proof (cases "lasts deg l 0 (length l)")
    case True
    have "restarted deg (\<lambda>q. valid deg q) (scenario_map s2)"
      by (rule restarted_cong [OF _ s2(1)]) (simp add: all_done [OF l True])
    then have "search_path (tree_machine deg) 0 s2 = Some (Inr (False, s2))"
      by (simp add: search_path.simps no_path [of deg, OF d])
    then have "search_all (tree_machine deg) s2 = Some (Inr ((), s2))" by (simp add: search_all.simps)
    moreover have "set (L @ [l]) = {q. leaf deg q}"
      unfolding set' using all_done [OF l True] by (auto simp: leaf_def)
    ultimately show ?thesis using all s2(2) srt by auto
  next
    case False
    then obtain l' where l': "leaf deg l'" "\<And>q. valid deg q \<Longrightarrow> before q l' \<longleftrightarrow> done_after deg l q"
      using next_leaf [OF t l] by blast
    have nx: "before q l' \<longleftrightarrow> before q l \<or> q = l" if "leaf deg q" for q
      using l'(2) leaf_done [OF l that] that by (simp add: leaf_def)
    then have "{q. leaf deg q \<and> \<not> before q l'} \<subseteq> {q. leaf deg q \<and> \<not> before q l}" by blast
    moreover have "l \<in> {q. leaf deg q \<and> \<not> before q l}" "l \<notin> {q. leaf deg q \<and> \<not> before q l'}"
      using l nx [OF l] by simp_all
    ultimately have "{q. leaf deg q \<and> \<not> before q l'} \<subset> {q. leaf deg q \<and> \<not> before q l}" by blast
    moreover have "finite {q. leaf deg q \<and> \<not> before q l}"
      by (rule finite_subset [OF _ finite_paths [OF t]]) (auto simp: leaf_def)
    ultimately have "card {q. leaf deg q \<and> \<not> before q l'} < card {q. leaf deg q \<and> \<not> before q l}"
      by (rule psubset_card_mono [rotated])
    then show ?thesis
      unfolding all
      by (rule less.hyps [OF _ l'(1) restarted_cong [OF _ s2(1)] s2(2) srt])
        (use l'(2) set' in \<open>auto simp: leaf_def\<close>)
  qed
qed

lemma sorted_before_distinct: "sorted_wrt before L \<Longrightarrow> distinct L"
  by (induction L) auto

text \<open>C30. The scenario search is exhaustive: on a machine whose decisions form a finite tree with a branch at its
  root, \<open>Run\<close> returns, and it has driven the machine along the path of every leaf, along each once, in
  lexicographic order, and initialized it once more at the end.\<close>

theorem search_visits_every_leaf:
  assumes t: "finite_tree deg" and d: "deg [] > 0"
  shows "\<exists>s L. sear_Run (tree_machine deg) (MakeScenarioSearcher []) = Some (Inr ((), s)) \<and>
    sr_machine s = L @ [[]] \<and> sorted_wrt before L \<and> distinct L \<and> set L = {q. leaf deg q}"
proof -
  obtain n where n: "leaf deg (replicate n 0)" using leftmost_leaf [OF t, of "[]"] by auto
  have init: "explored deg [[]] (\<lambda>q. False) newScenarioMap"
    by (simp add: explored_def shape_def newScenarioMap_def scenario_node_def)
  let ?Q = "\<lambda>_ s. restarted deg (\<lambda>q. before q (replicate n 0)) (scenario_map s) \<and> sr_machine s = [] @ [[]]"
  have open': "wp (openScenarioPaths 0 (int (deg []))) (\<lambda>_. restarted deg (\<lambda>q. before q (replicate n 0))) newScenarioMap"
    by (rule wpx_mono [OF open_explored [OF init, of 0, simplified]])
      (auto simp: newScenarioMap_def restarted_def)
  have "wp (go_block [on_machine (Initialize (tree_machine deg)),
      go_bind (on_machine (GetInitPaths (tree_machine deg))) (\<lambda>n. on_map (openScenarioPaths 0 n))])
      ?Q (MakeScenarioSearcher [])"
    by (simp add: wp_rules on_machine_def on_map_def tree_machine_def MakeScenarioSearcher_def)
      (rule wpx_mono [OF open'], auto)
  then obtain s where s: "go_block [on_machine (Initialize (tree_machine deg)),
      go_bind (on_machine (GetInitPaths (tree_machine deg))) (\<lambda>n. on_map (openScenarioPaths 0 n))]
      (MakeScenarioSearcher []) = Inr ((), s)" "?Q () s"
    using wp_returns by fastforce
  have "\<exists>s' L'. search_all (tree_machine deg) s = Some (Inr ((), s')) \<and> sr_machine s' = L' @ [[]] \<and>
      sorted_wrt before L' \<and> set L' = {q. leaf deg q}"
    by (rule search_all_leaves [OF t d n, of s "[]"]) (use s(2) in auto)
  then show ?thesis using s(1) sorted_before_distinct by (auto simp: sear_Run_def)
qed

text \<open>A tree of depth two: the branch 0 ends, the branch 1 has one more branch.\<close>

definition sample_tree :: "nat list \<Rightarrow> nat" where
  "sample_tree q = (if q = [] then 2 else if q = [1] then 1 else 0)"

lemma sample_tree_valid: "valid sample_tree q \<longleftrightarrow> q \<in> {[], [0], [1], [1, 0]}"
proof
  show "valid sample_tree q \<Longrightarrow> q \<in> {[], [0], [1], [1, 0]}"
    by (induction q rule: rev_induct) (auto simp: sample_tree_def split: if_splits)
  have "valid sample_tree ([] @ [1])" "valid sample_tree (([] @ [1]) @ [0])" "valid sample_tree ([] @ [0])"
    unfolding valid_snoc by (simp_all add: sample_tree_def)
  then show "q \<in> {[], [0], [1], [1, 0]} \<Longrightarrow> valid sample_tree q" by auto
qed

theorem search_visits_every_leaf_witness:
  "\<exists>s L. sear_Run (tree_machine sample_tree) (MakeScenarioSearcher []) = Some (Inr ((), s)) \<and>
    sr_machine s = L @ [[]] \<and> sorted_wrt before L \<and> distinct L \<and> set L = {[0], [1, 0]}"
proof -
  have "finite_tree sample_tree" unfolding finite_tree_def sample_tree_valid by (auto intro: exI [where x = 2])
  moreover have "{q. leaf sample_tree q} = {[0], [1, 0]}"
    unfolding leaf_def sample_tree_valid by (auto simp: sample_tree_def)
  ultimately show ?thesis using search_visits_every_leaf [of sample_tree] by (simp add: sample_tree_def)
qed

section \<open>A machine without branches\<close>

text \<open>A machine with no branch at its start: the root is a leaf, it is visited for ever.\<close>

definition idle :: "'m ScenarioSearcher \<Rightarrow> bool" where
  "idle s \<longleftrightarrow> (\<exists>b. scenario_map s =
     \<lparr>nodes = [\<lparr>sn_parent = None, sn_children = [], is_final = True, is_searched = b\<rparr>], current_node = 0\<rparr>)"

lemma idle_path: "idle s \<Longrightarrow> \<exists>s'. search_path dm t s = Some (Inr (True, s')) \<and> idle s'"
  by (auto simp: idle_def search_path.simps search_round_def on_map_def go_zoom_def tryGetNextSearchBranch_def
      finish_path_def node_at_def set_node_def go_bind_def go_read_def go_ret_def go_modify_def)

lemma idle_search:
  assumes dm: "\<And>m. \<exists>m'. Initialize dm m = Inr ((), m')" and run: "search_all dm s = Some r"
  shows "\<not> idle s"
proof -
  have init: "\<exists>s'. on_machine (Initialize dm) s = Inr ((), s') \<and> (idle s \<longrightarrow> idle s')" for s
  proof -
    obtain m' where "Initialize dm (sr_machine s) = Inr ((), m')" using dm by blast
    then show ?thesis by (auto simp: on_machine_def go_zoom_def idle_def)
  qed
  have "dm = dm \<longrightarrow> \<not> idle s"
  proof (rule search_all.raw_induct [where P = "\<lambda>d s r. d = dm \<longrightarrow> \<not> idle s", OF _ run], intro impI notI)
    fix f s r d
    assume IH: "\<And>s d r. f s d = Some r \<Longrightarrow> s = dm \<longrightarrow> \<not> idle d"
      and step: "(case search_path s 0 d of None \<Rightarrow> None | Some (Inl e) \<Rightarrow> Some (Inl e)
        | Some (Inr (running, s')) \<Rightarrow> if running then (case on_machine (Initialize s) s' of
            Inl e \<Rightarrow> Some (Inl e) | Inr (_, s'') \<Rightarrow> f s s'') else Some (Inr ((), s'))) = Some r"
      and d: "s = dm" and i: "idle d"
    obtain s' where s': "search_path dm 0 d = Some (Inr (True, s'))" "idle s'" using idle_path [OF i] by blast
    obtain s'' where s'': "on_machine (Initialize dm) s' = Inr ((), s'')" "idle s''" using init s'(2) by blast
    have "f dm s'' = Some r" using step s'(1) s''(1) d by simp
    then show False using IH s''(2) by blast
  qed
  then show ?thesis by simp
qed

lemma sear_no_branches:
  assumes dm: "\<And>m. \<exists>m'. Initialize dm m = Inr ((), m')" "\<And>m. \<exists>m'. GetInitPaths dm m = Inr (0, m')"
  shows "sear_Run dm (MakeScenarioSearcher m) = None"
proof -
  obtain m1 m2 where m: "Initialize dm m = Inr ((), m1)" "GetInitPaths dm m1 = Inr (0, m2)"
    using dm by blast
  let ?s = "\<lparr>scenario_map = \<lparr>nodes = [\<lparr>sn_parent = None, sn_children = [], is_final = True, is_searched = False\<rparr>],
    current_node = 0\<rparr>, sr_machine = m2\<rparr>"
  have "search_all dm ?s = None"
    using idle_search [OF dm(1), of ?s] by (cases "search_all dm ?s") (auto simp: idle_def)
  then show ?thesis
    using m by (simp add: sear_Run_def on_machine_def on_map_def go_zoom_def go_bind_def go_ret_def MakeScenarioSearcher_def
        openScenarioPaths_def node_at_def set_node_def go_read_def go_modify_def newScenarioMap_def scenario_node_def)
qed

end
