(* ===== verification/Spec2Isabelle.thy ===== *)
theory Spec2Isabelle
  imports And_Props Net_Props Host_Props Host_Run Host_Listen Native_Props And_Stat_Text Net_Listen Aerr Dacp Sear_Search
begin

text \<open>
  \<^bold>\<open>Verification of the Abyss core.\<close> A host of the Abyss network opens and joins shared worlds. Its
  parts, and the theories that model them:

  \<^item> The \<^emph>\<open>neighbor discovery\<close> object AND (\<open>src/and\<close>) keeps, for every world of the host and every peer,
    the state of the session with that peer, answers the protocol messages JN, JOK, JDN, JNI, MEM, SJN,
    CRR, RST, SOA, SOD, and reports events.
    \<^theory_text>\<open>And_Diag\<close> has the counters of \<open>and_diag.go\<close>; \<^theory_text>\<open>And_World\<close> the states, cells and handlers of
    \<open>world.go\<close>, one definition per method, with its branch counters; \<^theory_text>\<open>And\<close> the methods of \<open>and.go\<close> and
    their common interface \<open>and_call\<close>/\<open>and_exec\<close>.
  \<^item> The \<^emph>\<open>messages\<close> (\<open>src/ahmp\<close>): \<^theory_text>\<open>Ahmp\<close> has the raw and parsed message types and their \<open>TryParse\<close>
    methods, \<^theory_text>\<open>Aurl\<close> the URLs of \<open>src/aurl/abyss_url.go\<close>, \<^theory_text>\<open>Functional\<close> the list functions of
    \<open>src/tools/functional\<close>, \<^theory_text>\<open>Go_Strings\<close> and \<^theory_text>\<open>Go_Net\<close> what these use of the packages strings, strconv
    and net, \<^theory_text>\<open>Interfaces\<close> the data of \<open>src/interfaces\<close>. \<^theory_text>\<open>Utf8\<close> and \<^theory_text>\<open>Cbor_Values\<close> say which texts and which messages
    the CBOR library gives back when it reads what it has written.
  \<^item> The \<^emph>\<open>network service\<close> (\<open>src/net_service\<close>): \<^theory_text>\<open>Identity\<close> (\<open>cert_helper.go\<close>), \<^theory_text>\<open>Abyss_Peer\<close>
    (\<open>abyss_peer.go\<close>, the activity counter of \<open>peer_context.go\<close>, the receiving loop and the deferred
    functions of the handshakes), \<^theory_text>\<open>Peer_Map\<close> (the table of \<open>peer_context.go\<close>), \<^theory_text>\<open>Net_Service\<close>
    (\<open>net_service.go\<close>, \<open>abyss_inbound.go\<close>, \<open>abyss_outbound.go\<close>, \<open>address_selector.go\<close>).
  \<^item> The \<^emph>\<open>host\<close> (\<open>src/host\<close>) composes them: \<^theory_text>\<open>Host\<close> has the path resolver, worlds, the serving loop that
    turns received messages into calls of the AND, and the event loop that carries out its events;
    \<^theory_text>\<open>Host_Listen\<close> the goroutines that \<open>ListenAndServe\<close> starts, with their wait groups and channels.
  \<^item> The \<^emph>\<open>native library\<close> (\<open>src/native_dll\<close>) exports the host to C: \<^theory_text>\<open>Native_Base\<close> has the memory of the caller, the
    buffers of \<open>marshalling.go\<close> and the handles of \<open>runtime/cgo\<close>, \<^theory_text>\<open>Native\<close> and \<^theory_text>\<open>Native_Http\<close> the exported functions of
    \<open>dllmain.go\<close>, one definition each; a function that waits for a join is split at the wait. Buffers and out-parameters
    (lengths, error handles, event types) are pointers into that memory, and what a function stores there is a
    write to it.
  \<^item> Smaller parts: \<^theory_text>\<open>Net_Listen\<close> (the accepting loop and the TLS and QUIC settings of \<open>net_service.go\<close>),
    \<^theory_text>\<open>And_Stat_Text\<close> (the text of the statistics), \<^theory_text>\<open>Watchdog\<close> (\<open>src/watchdog\<close>: log lines, handle counters, printed
    values, line format), \<^theory_text>\<open>Aerr\<close> (\<open>src/aerr\<close>), \<^theory_text>\<open>Dacp\<close> (the action pool of \<open>src/tools/dacp\<close>),
    \<^theory_text>\<open>Sear\<close> (the search tool of \<open>src/tools/sear\<close>, which drives a decision machine along all its paths).

  \<^bold>\<open>How the code is modelled.\<close> A Go statement is a function from a state to a panic or a result and a
  new state (\<^theory_text>\<open>Prelude\<close>); structs are records, interface values and pointers that may be nil are
  options, a map is a partial function and a loop over a map takes the order as an argument. Clock
  readings, random draws, fresh identifiers, the outcome of a \<open>select\<close> and the results of calls into
  QUIC are arguments. A method that holds a lock for its whole body is one step; a method that waits
  is split where it waits. Pointers that are shared (worlds and join channels of the host) are indices
  into a store. The event channel of the AND is the sequence of everything sent to it. The channel of a world is
  such a sequence with the number of events received; it holds at most 4096, and sending to a full one blocks. Times are
  integers in nanoseconds, the counters of the statistics 64-bit words, identifiers are 128-bit words and IP
  addresses lists of bytes. A slice that comes out of a decoder or a cipher ends at its capacity.

  \<^bold>\<open>Code outside the repository\<close> is a parameter: the CBOR library (record \<open>cbor\<close>), UUID texts
  (\<open>wire_env\<close>, \<open>uuid_parser\<close>), certificates and ciphers (record \<open>crypto\<close>), JSON (record \<open>json_env\<close>), the body of a
  response (\<open>reader\<close>), and the results of HTTP calls, of key parsing and of the file system. What is relied
  upon is stated as \<open>cbor_ok\<close> (a round trip for texts in UTF-8, 64-bit integers, lists of at most 131072 elements
  and floats that are not NaN, as the library documents), \<open>parses\<close>, \<open>x509_ok\<close>, \<open>pem_ok\<close>, \<open>cipher_ok\<close>, \<open>json_ok\<close>, \<open>reader_ok\<close>, and each is satisfied by a
  concrete instance (\<open>item_cbor\<close>, \<open>uuid_parse\<close>, \<open>mock_crypto\<close>, \<open>sample_json\<close>, \<open>byte_reader\<close>) at which the theorems are applied.

  \<^bold>\<open>Method.\<close> Statements are reasoned about with one predicate transformer, \<open>wpx\<close>, as weakest precondition
  (\<open>wp\<close>, no panic) or weakest liberal precondition (\<open>wlp\<close>). A component driven by calls is an instance of the
  locale \<open>call_system\<close> (every call the environment may make returns and keeps an invariant) or of
  \<open>safe_system\<close> (calls that return keep it): \<open>and_sys\<close> in \<^theory_text>\<open>And_Inv\<close>, \<open>peer_sys\<close> in \<^theory_text>\<open>Peer_Conn\<close>, \<open>net_sys\<close> in
  \<^theory_text>\<open>Net_Inv\<close>, \<open>polite_sys\<close> in \<^theory_text>\<open>And_Ledger\<close>, \<open>host_sys\<close> in \<^theory_text>\<open>Host_Run\<close>, \<open>serving_sys\<close> in \<^theory_text>\<open>Host_Listen\<close>. The locale \<open>peer_table\<close> is the contract of the peer map. The locale \<open>step_rel\<close> of \<^theory_text>\<open>Step_Rel\<close> lifts a
  reflexive and transitive relation on states from statements to their compositions, and \<open>library_rel\<close> from the
  primitives of the library to every exported function; the payloads of events (\<^theory_text>\<open>And_Emit\<close>), the counts of peers
  (\<^theory_text>\<open>Net_Steady\<close>), the parts of the host that an operation leaves alone (\<^theory_text>\<open>Host_Run\<close>) and the frames in
  \<^theory_text>\<open>Native_Frame\<close> and \<^theory_text>\<open>Native_Inv\<close> are its interpretations. Loops are structural
  recursions, but for two that may not end and are \<open>partial_function\<close>s: reading a body to its end, and the loops of the
  scenario search. The only fuel is the depth of the stack in \<open>mark_searched_parent_nodes\<close>; it climbs from a node
  to its parent, which was created before it, so one more than the index of the node is enough. The receiving loop is total on every stream.

  \<^bold>\<open>What is shown.\<close>
  \<^item> \<^theory_text>\<open>And_World_Spec\<close>, \<^theory_text>\<open>And_World_Inv\<close>, \<^theory_text>\<open>And_World_Ops\<close>: each handler refines an automaton of one peer
    (\<open>peer_edge\<close>) and keeps the invariant of a world; \<^theory_text>\<open>And_World_Log\<close> relates the events to the cells;
    \<^theory_text>\<open>And_Inv\<close> lifts this to the object and all calls. \<^theory_text>\<open>And_Props\<close> and \<^theory_text>\<open>And_World_Props\<close>: no call panics,
    ready and close events alternate, one join result per world, sessions become ready only when
    accepted, counters are exact for the messages of the AND itself, worlds agree with connections, and the behaviour of single
    operations (introduction of a joiner, timer tick, closing, resets, objects). The environment is
    described by \<open>call_ok\<close>: peers send only while connected, session ids are fresh, the application
    answers only sessions it was offered, join requests reach only worlds whose join is decided, and
    CRR names no unconnected peer; without the last clause the object panics, which is shown too.
  \<^item> \<^theory_text>\<open>Aurl\<close>: the parser equals a reference definition, its results are well formed, printing and parsing
    are inverse. \<^theory_text>\<open>Wire\<close> and \<^theory_text>\<open>Net_Props\<close>: what is sent is received if it can be read (\<open>sendable\<close>), with time stamps
    cut to milliseconds and addresses in 16-byte form, the receiving loop never panics, join
    answers are parsed completely or not at all, identities are accepted by other hosts, the encrypted
    handshake is inverted, the invariant of the network service over all histories, inbound connections
    are authenticated, the address filter equals its reference; and the defects found: outbound
    connections are not verified, a forged handshake closes a genuine peer, a short handshake panics.
  \<^item> \<^theory_text>\<open>Host_Loop\<close>: the ledger of joins and memberships and the proof that the event loop follows it.
    \<^theory_text>\<open>Host_Props\<close>: messages that can be read (\<open>sendable\<close>) become the corresponding calls of the other host, opening a world succeeds, the
    event loop refines the ledger, and cancelling a join of an unreachable peer crashes the host.
  \<^item> The whole host: \<^theory_text>\<open>And_Emit\<close>, \<^theory_text>\<open>And_Follow\<close> and \<^theory_text>\<open>And_Ledger\<close> show that every history of polite calls of the AND
    (\<open>follow_ok\<close>: join requests reach only worlds whose join has succeeded, a world is not closed while its
    join waits for a target that is not connected, addresses are those of parsed URLs) produces events
    that the ledger accepts. \<^theory_text>\<open>Host_Run\<close> composes this with the event loop: whatever the interleaving of the
    application, the serving loops, the network service and the event loop, no event makes the loop
    panic, it blocks only on a world with 4096 events that the application has not received, and the events
    sent on the channel of a world are exactly those of its session. \<^theory_text>\<open>Host_Listen\<close>:
    when \<open>ListenAndServe\<close> returns, every goroutine that it has started has ended.
  \<^item> \<^theory_text>\<open>Native_Frame\<close>, \<^theory_text>\<open>Native_Inv\<close>, \<^theory_text>\<open>Native_Props\<close>: in every history of calls the handle counter is exact and handles
    refer to existing objects, memory is written only inside the buffers and out-parameters passed, errors and objects
    pass the boundary unchanged, reading a body ends when the buffer has room; a response body is never
    closed, and a buffer of exactly the reported length may be read into for ever.
  \<^item> \<^theory_text>\<open>Sear_Props\<close> has the paths of a tree and their order, \<^theory_text>\<open>Sear_Store\<close> the shape of the store of nodes and what
    marking and opening do to it, \<^theory_text>\<open>Sear_Search\<close> the result: the search visits every leaf once, in order, and
    ends; on a machine without branches it never ends.

  \<^bold>\<open>Not modelled.\<close> Blocking on the other channels when they are full (capacities 8 and 32, and 4096 for the events
  of the AND), alignment of pointers, interleavings inside a method
  that releases its lock, \<open>DebugLog\<close> of the library, which nothing calls, and the http3 client and server. \<open>src/aurl/aurl.go\<close> is commented out.
\<close>

end
